(* ===== verification/Prelude.thy ===== *)
theory Prelude
  imports Main "HOL-Library.AList" "HOL-Library.Countable"
begin

text \<open>
  The parts of the Python run time every component of the Scheduler shares: exceptions as
  values, insertion-ordered dictionaries, list slices, and the selection built-ins
  \<^verbatim>\<open>min(key=...)\<close> and \<^verbatim>\<open>list.sort(key=..., reverse=True)\<close> over a comparison that is only
  assumed to be a total preorder on the keys that occur (floating-point keys are one, as
  long as none of them is NaN).
\<close>

section \<open>Collections of facts\<close>

named_theorems dict_simps \<open>lookups and key sets of dictionaries after an update\<close>
named_theorems res_simps \<open>rewriting of computations that may raise\<close>
named_theorems store_simps \<open>tables of the durable store after a write\<close>
named_theorems reg_simps \<open>fields of the node registry after an operation\<close>

section \<open>Exceptions and results\<close>

text \<open>
  The exceptions the modelled code raises or catches by class: the interpreter's own, the
  gateway's \<^verbatim>\<open>HTTPException(status_code, detail)\<close> and those the repository declares.
\<close>

datatype exc =
    ValueError string
  | TypeError string
  | OverflowError string
  | ZeroDivisionError string
  | KeyError string
  | HTTPException int string
  | MeshAuthError string
  | MeshRequestError string int
  | MeshUnavailableError string
  | MeshNodeError string int
  | NodeDispatchError string int
  | OllamaError string
  | SchedulerError string "int option"
  | RuntimeError string
  | OtherError string

type_synonym 'a res = "exc + 'a"

definition rbind :: "'a res \<Rightarrow> ('a \<Rightarrow> 'b res) \<Rightarrow> 'b res" where
  "rbind r f = (case r of Inl e \<Rightarrow> Inl e | Inr x \<Rightarrow> f x)"

lemma rbind_simps [simp]:
  "rbind (Inl e) f = Inl e" "rbind (Inr x) f = f x"
  by (simp_all add: rbind_def)

lemma rbind_eq_Inr: "rbind r f = Inr y \<longleftrightarrow> (\<exists>x. r = Inr x \<and> f x = Inr y)"
  by (cases r) auto

lemma rbind_eq_Inl: "rbind r f = Inl e \<longleftrightarrow> r = Inl e \<or> (\<exists>x. r = Inr x \<and> f x = Inl e)"
  by (cases r) auto

lemmas rbind_iff [res_simps] = rbind_eq_Inr rbind_eq_Inl

fun is_value_error :: "exc \<Rightarrow> bool" where
  "is_value_error (ValueError m) = True"
| "is_value_error _ = False"

text \<open>A comprehension over a list whose element expression may raise: the first exception wins.\<close>

fun mapM :: "('a \<Rightarrow> 'b res) \<Rightarrow> 'a list \<Rightarrow> 'b list res" where
  "mapM f [] = Inr []"
| "mapM f (x # xs) = rbind (f x) (\<lambda>y. rbind (mapM f xs) (\<lambda>ys. Inr (y # ys)))"

fun filterM :: "('a \<Rightarrow> bool res) \<Rightarrow> 'a list \<Rightarrow> 'a list res" where
  "filterM p [] = Inr []"
| "filterM p (x # xs) =
     rbind (p x) (\<lambda>b. rbind (filterM p xs) (\<lambda>ys. Inr (if b then x # ys else ys)))"

lemma mapM_Inr: "mapM f xs = Inr ys \<Longrightarrow> list_all2 (\<lambda>x y. f x = Inr y) xs ys"
  by (induction xs arbitrary: ys) (auto simp: rbind_eq_Inr)

lemma mapM_length: "mapM f xs = Inr ys \<Longrightarrow> length ys = length xs"
  by (drule mapM_Inr) (simp add: list_all2_lengthD)

lemma filterM_Inr:
  "filterM p xs = Inr ys \<Longrightarrow> ys = filter (\<lambda>x. p x = Inr True) xs \<and> (\<forall>x\<in>set xs. \<exists>b. p x = Inr b)"
  by (induction xs arbitrary: ys) (auto simp: rbind_eq_Inr)

lemma filterM_total:
  "(\<And>x. x \<in> set xs \<Longrightarrow> p x = Inr (q x)) \<Longrightarrow> filterM p xs = Inr (filter q xs)"
  by (induction xs) auto

section \<open>Dictionaries\<close>

text \<open>
  A Python \<^verbatim>\<open>dict\<close> keeps insertion order: assigning to a key that is present keeps its
  position, a new key goes to the end, deleting and re-inserting moves it to the end. That is
  \<^const>\<open>AList.update\<close> and \<^const>\<open>AList.delete\<close> on association lists with distinct keys.
\<close>

type_synonym ('k, 'v) dict = "('k \<times> 'v) list"

abbreviation dget :: "('k, 'v) dict \<Rightarrow> 'k \<Rightarrow> 'v option" where
  "dget d k \<equiv> map_of d k"

abbreviation dset :: "'k \<Rightarrow> 'v \<Rightarrow> ('k, 'v) dict \<Rightarrow> ('k, 'v) dict" where
  "dset \<equiv> AList.update"

abbreviation ddel :: "'k \<Rightarrow> ('k, 'v) dict \<Rightarrow> ('k, 'v) dict" where
  "ddel \<equiv> AList.delete"

abbreviation dkeys :: "('k, 'v) dict \<Rightarrow> 'k list" where
  "dkeys d \<equiv> map fst d"

abbreviation dvals :: "('k, 'v) dict \<Rightarrow> 'v list" where
  "dvals d \<equiv> map snd d"

definition dmem :: "'k \<Rightarrow> ('k, 'v) dict \<Rightarrow> bool" where
  "dmem k d = (dget d k \<noteq> None)"

definition dget_or :: "('k, 'v) dict \<Rightarrow> 'k \<Rightarrow> 'v \<Rightarrow> 'v" where
  "dget_or d k v = (case dget d k of None \<Rightarrow> v | Some x \<Rightarrow> x)"

abbreviation dict_ok :: "('k, 'v) dict \<Rightarrow> bool" where
  "dict_ok d \<equiv> distinct (map fst d)"

lemma dmem_iff: "dmem k d \<longleftrightarrow> k \<in> set (dkeys d)"
  by (simp add: dmem_def map_of_eq_None_iff)

lemma dget_dset [dict_simps]: "dget (dset k v d) k' = (if k' = k then Some v else dget d k')"
  by (simp add: update_conv')

lemma dget_ddel [dict_simps]: "dget (ddel k d) k' = (if k' = k then None else dget d k')"
  by (simp add: delete_conv')

lemma dmem_dset [dict_simps]: "dmem k' (dset k v d) \<longleftrightarrow> k' = k \<or> dmem k' d"
  by (simp add: dmem_def dget_dset)

lemma dmem_ddel [dict_simps]: "dmem k' (ddel k d) \<longleftrightarrow> k' \<noteq> k \<and> dmem k' d"
  by (simp add: dmem_def dget_ddel)

lemma dmem_Nil [simp]: "\<not> dmem k []"
  by (simp add: dmem_def)

lemma dmem_SomeI: "dget d k = Some v \<Longrightarrow> dmem k d"
  by (simp add: dmem_def)

lemma dkeys_dset: "dkeys (dset k v d) = (if k \<in> set (dkeys d) then dkeys d else dkeys d @ [k])"
  by (simp add: update_keys)

lemma set_dkeys_dset [dict_simps]: "set (dkeys (dset k v d)) = insert k (set (dkeys d))"
  by (auto simp: dkeys_dset)

lemma set_dkeys_ddel [dict_simps]: "set (dkeys (ddel k d)) = set (dkeys d) - {k}"
  by (simp add: delete_keys)

lemma dict_ok_dset [simp]: "dict_ok d \<Longrightarrow> dict_ok (dset k v d)"
  by (rule distinct_update)

lemma dict_ok_ddel [simp]: "dict_ok d \<Longrightarrow> dict_ok (ddel k d)"
  by (rule distinct_delete)

lemma dset_new: "k \<notin> set (dkeys d) \<Longrightarrow> dset k v d = d @ [(k, v)]"
  by (induction d) auto

lemma length_dset: "length (dset k v d) = (if k \<in> set (dkeys d) then length d else Suc (length d))"
  by (induction d) auto

lemma dvals_mem: "dict_ok d \<Longrightarrow> v \<in> set (dvals d) \<longleftrightarrow> (\<exists>k. dget d k = Some v)"
  by (force simp: map_of_eq_Some_iff)

text \<open>Re-inserting the pairs of a dictionary in order rebuilds it (\<^verbatim>\<open>dict.update\<close>, a load loop).\<close>

lemma fold_dset_pairs:
  "dict_ok (d @ e) \<Longrightarrow> fold (\<lambda>(k, v). dset k v) e d = d @ e"
proof (induction e arbitrary: d)
  case (Cons p e)
  obtain k v where p: "p = (k, v)" by (cases p)
  with Cons.prems have "dset k v d = d @ [p]" by (simp add: dset_new)
  moreover have "dict_ok ((d @ [p]) @ e)" using Cons.prems by simp
  ultimately show ?case using Cons.IH [of "d @ [p]"] p by simp
qed simp

section \<open>Slices\<close>

text \<open>
  \<^verbatim>\<open>xs[-n:]\<close>: the last \<open>n\<close> elements for a positive \<open>n\<close>; for \<open>n = 0\<close> the slice starts at index 0
  and is the whole list; for a negative \<open>n\<close> it starts at \<open>- n\<close>.
\<close>

definition slice_from_neg :: "int \<Rightarrow> 'a list \<Rightarrow> 'a list" where
  "slice_from_neg n xs =
     (if 0 < n then drop (length xs - nat n) xs else drop (nat (- n)) xs)"

lemma length_slice_from_neg: "0 < n \<Longrightarrow> length (slice_from_neg n xs) = min (nat n) (length xs)"
  by (simp add: slice_from_neg_def)

lemma slice_from_neg_idem: "0 < n \<Longrightarrow> slice_from_neg n (slice_from_neg n xs) = slice_from_neg n xs"
  by (simp add: slice_from_neg_def)

lemma slice_from_neg_snoc:
  "0 < n \<Longrightarrow> slice_from_neg n (slice_from_neg n xs @ [x]) = slice_from_neg n (xs @ [x])"
  by (cases "nat n \<le> length xs") (auto simp: slice_from_neg_def Suc_diff_le)

lemma set_slice_from_neg: "set (slice_from_neg n xs) \<subseteq> set xs"
  by (auto simp: slice_from_neg_def dest: in_set_dropD)

section \<open>Selection by key\<close>

fun min_key :: "('k \<Rightarrow> 'k \<Rightarrow> bool) \<Rightarrow> ('a \<Rightarrow> 'k) \<Rightarrow> 'a \<Rightarrow> 'a list \<Rightarrow> 'a" where
  "min_key lt f b [] = b"
| "min_key lt f b (x # xs) = min_key lt f (if lt (f x) (f b) then x else b) xs"

fun insort_desc :: "('k \<Rightarrow> 'k \<Rightarrow> bool) \<Rightarrow> ('a \<Rightarrow> 'k) \<Rightarrow> 'a \<Rightarrow> 'a list \<Rightarrow> 'a list" where
  "insort_desc lt f x [] = [x]"
| "insort_desc lt f x (y # ys) =
     (if lt (f y) (f x) then x # y # ys else y # insort_desc lt f x ys)"

definition sort_desc :: "('k \<Rightarrow> 'k \<Rightarrow> bool) \<Rightarrow> ('a \<Rightarrow> 'k) \<Rightarrow> 'a list \<Rightarrow> 'a list" where
  "sort_desc lt f xs = foldl (\<lambda>acc x. insort_desc lt f x acc) [] xs"

lemma min_key_in: "min_key lt f b xs \<in> set (b # xs)"
  by (induction xs arbitrary: b) (auto split: if_splits)

lemma set_insort_desc [simp]: "set (insort_desc lt f x ys) = insert x (set ys)"
  by (induction ys) auto

lemma length_insort_desc [simp]: "length (insort_desc lt f x ys) = Suc (length ys)"
  by (induction ys) auto

lemma sort_desc_snoc: "sort_desc lt f (xs @ [x]) = insort_desc lt f x (sort_desc lt f xs)"
  by (simp add: sort_desc_def)

lemma set_sort_desc [simp]: "set (sort_desc lt f xs) = set xs"
  by (induction xs rule: rev_induct) (auto simp: sort_desc_snoc, simp_all add: sort_desc_def)

lemma length_sort_desc [simp]: "length (sort_desc lt f xs) = length xs"
  by (induction xs rule: rev_induct) (simp_all add: sort_desc_snoc, simp_all add: sort_desc_def)

lemma sort_desc_Nil_iff [simp]: "sort_desc lt f xs = [] \<longleftrightarrow> xs = []"
  by (metis length_0_conv length_sort_desc)

text \<open>
  The comparison of keys the selections rely on: \<open>ok\<close> singles out the keys on which \<open>lt\<close> is the
  strict part of a total preorder.
\<close>

locale key_order =
  fixes lt :: "'k \<Rightarrow> 'k \<Rightarrow> bool" and ok :: "'k \<Rightarrow> bool"
  assumes asym: "ok a \<Longrightarrow> ok b \<Longrightarrow> lt a b \<Longrightarrow> \<not> lt b a"
    and neg_trans: "ok a \<Longrightarrow> ok b \<Longrightarrow> ok c \<Longrightarrow> \<not> lt a b \<Longrightarrow> \<not> lt b c \<Longrightarrow> \<not> lt a c"
begin

lemma irrefl: "ok a \<Longrightarrow> \<not> lt a a"
  using asym by blast

lemma trans: "ok a \<Longrightarrow> ok b \<Longrightarrow> ok c \<Longrightarrow> lt a b \<Longrightarrow> lt b c \<Longrightarrow> lt a c"
  using asym neg_trans by blast

lemma min_key_least:
  "ok (f b) \<Longrightarrow> \<forall>x\<in>set xs. ok (f x) \<Longrightarrow> y \<in> set (b # xs) \<Longrightarrow> \<not> lt (f y) (f (min_key lt f b xs))"
proof (induction xs arbitrary: b y)
  case Nil
  then show ?case by (simp add: irrefl)
next
  case (Cons x xs)
  let ?b = "if lt (f x) (f b) then x else b"
  let ?m = "min_key lt f ?b xs"
  have okb: "ok (f ?b)" and oks: "\<forall>z\<in>set xs. ok (f z)" using Cons.prems by auto
  have okm: "ok (f ?m)" using min_key_in [of lt f ?b xs] okb oks by auto
  have b: "\<not> lt (f ?b) (f ?m)" using okb oks by (rule Cons.IH) simp
  have "\<not> lt (f x) (f ?b)" "\<not> lt (f b) (f ?b)"
    using Cons.prems by (auto simp: irrefl dest: asym)
  then have "\<not> lt (f x) (f ?m)" "\<not> lt (f b) (f ?m)"
    using Cons.prems okb okm b neg_trans [of "f x" "f ?b" "f ?m"] neg_trans [of "f b" "f ?b" "f ?m"]
    by auto
  moreover have "\<not> lt (f y) (f ?m)" if "y \<in> set xs" using okb oks that by (intro Cons.IH) auto
  ultimately show ?case using Cons.prems(3) by auto
qed

text \<open>Among equal keys the first element of the sequence is kept.\<close>

lemma min_key_first:
  "ok (f b) \<Longrightarrow> \<forall>x\<in>set xs. ok (f x) \<Longrightarrow>
   \<exists>us vs. b # xs = us @ min_key lt f b xs # vs \<and> (\<forall>u\<in>set us. lt (f (min_key lt f b xs)) (f u))"
proof (induction xs arbitrary: b)
  case Nil
  show ?case by (rule exI [of _ "[]"]) simp
next
  case (Cons x xs)
  let ?b = "if lt (f x) (f b) then x else b"
  define m where "m = min_key lt f ?b xs"
  have okb: "ok (f ?b)" and oks: "\<forall>z\<in>set xs. ok (f z)" using Cons.prems by auto
  have okm: "ok (f m)" using min_key_in [of lt f ?b xs] okb oks by (auto simp: m_def)
  obtain us vs where d: "?b # xs = us @ m # vs" "\<forall>u\<in>set us. lt (f m) (f u)"
    using Cons.IH [OF okb oks] by (auto simp: m_def)
  have notless: "\<not> lt (f ?b) (f m)" using min_key_least [OF okb oks] by (simp add: m_def)
  have "\<exists>us vs. b # x # xs = us @ m # vs \<and> (\<forall>u\<in>set us. lt (f m) (f u))"
  proof (cases "lt (f x) (f b)")
    case True
    then have "lt (f m) (f b)"
      using Cons.prems okm notless neg_trans [of "f x" "f m" "f b"] by auto
    then show ?thesis using True d by (intro exI [of _ "b # us"] exI [of _ vs]) auto
  next
    case False
    show ?thesis
    proof (cases us)
      case Nil
      then show ?thesis using False d by (intro exI [of _ "[]"] exI [of _ "x # vs"]) auto
    next
      case (Cons u us')
      then have ub: "u = b" and mb: "lt (f m) (f b)" and tl: "xs = us' @ m # vs" using d False by auto
      have "lt (f m) (f x)"
        using False Cons.prems okm mb neg_trans [of "f m" "f x" "f b"] by auto
      then show ?thesis using d Cons ub mb tl
        by (intro exI [of _ "b # x # us'"] exI [of _ vs]) auto
    qed
  qed
  then show ?case by (simp add: m_def)
qed

lemma sorted_insort_desc:
  "ok (f x) \<Longrightarrow> \<forall>y\<in>set ys. ok (f y) \<Longrightarrow> sorted_wrt (\<lambda>a b. \<not> lt (f a) (f b)) ys \<Longrightarrow>
   sorted_wrt (\<lambda>a b. \<not> lt (f a) (f b)) (insort_desc lt f x ys)"
proof (induction ys)
  case (Cons y ys)
  show ?case
  proof (cases "lt (f y) (f x)")
    case True
    then have "\<not> lt (f x) (f y)" using Cons.prems asym by auto
    moreover have "\<not> lt (f x) (f z)" if "z \<in> set ys" for z
      using that Cons.prems calculation neg_trans [of "f x" "f y" "f z"] by auto
    ultimately show ?thesis using True Cons.prems by auto
  next
    case False
    then show ?thesis using Cons by auto
  qed
qed simp

lemma sorted_sort_desc:
  "\<forall>y\<in>set xs. ok (f y) \<Longrightarrow> sorted_wrt (\<lambda>a b. \<not> lt (f a) (f b)) (sort_desc lt f xs)"
proof (induction xs rule: rev_induct)
  case Nil
  then show ?case by (simp add: sort_desc_def)
next
  case (snoc x xs)
  then show ?case by (simp add: sort_desc_snoc sorted_insort_desc)
qed

lemma insort_desc_stable:
  "ok (f x) \<Longrightarrow> \<forall>y\<in>set ys. ok (f y) \<Longrightarrow> sorted_wrt (\<lambda>a b. \<not> lt (f a) (f b)) ys \<Longrightarrow> ok k \<Longrightarrow>
   filter (\<lambda>z. \<not> lt (f z) k \<and> \<not> lt k (f z)) (insort_desc lt f x ys)
   = filter (\<lambda>z. \<not> lt (f z) k \<and> \<not> lt k (f z)) (ys @ [x])"
proof (induction ys)
  case (Cons y ys)
  show ?case
  proof (cases "lt (f y) (f x)")
    case True
    let ?eq = "\<lambda>z. \<not> lt (f z) k \<and> \<not> lt k (f z)"
    have "filter ?eq (y # ys) = []" if "?eq x"
    proof -
      have "lt (f z) k" if "z \<in> set (y # ys)" for z
      proof -
        have okz: "ok (f z)" using that Cons.prems by auto
        have "\<not> lt (f y) (f z)" using that Cons.prems irrefl by auto
        then have "lt (f z) (f x)" using True Cons.prems okz neg_trans [of "f y" "f z" "f x"] by auto
        then show ?thesis using \<open>?eq x\<close> Cons.prems okz neg_trans [of "f z" k "f x"] by blast
      qed
      then show ?thesis by (auto simp: filter_empty_conv)
    qed
    then show ?thesis using True by auto
  next
    case False
    then show ?thesis using Cons by auto
  qed
qed simp

text \<open>Stability: the elements of one key class come out in the order they went in.\<close>

lemma sort_desc_stable:
  "\<forall>y\<in>set xs. ok (f y) \<Longrightarrow> ok k \<Longrightarrow>
   filter (\<lambda>z. \<not> lt (f z) k \<and> \<not> lt k (f z)) (sort_desc lt f xs)
   = filter (\<lambda>z. \<not> lt (f z) k \<and> \<not> lt k (f z)) xs"
proof (induction xs rule: rev_induct)
  case Nil
  then show ?case by (simp add: sort_desc_def)
next
  case (snoc x xs)
  have "filter (\<lambda>z. \<not> lt (f z) k \<and> \<not> lt k (f z)) (insort_desc lt f x (sort_desc lt f xs))
     = filter (\<lambda>z. \<not> lt (f z) k \<and> \<not> lt k (f z)) (sort_desc lt f xs @ [x])"
    using snoc.prems by (intro insort_desc_stable sorted_sort_desc) auto
  then show ?case using snoc by (simp add: sort_desc_snoc)
qed

end

end
