(* ===== verification/Py_Float.thy ===== *)
theory Py_Float
  imports Prelude Complex_Main
begin

text \<open>
  Python floats: IEEE 754 binary64 with rounding to nearest, ties to even. A finite float is
  its exact rational value; every operation computes the exact rational result and rounds it
  with \<open>rnd\<close>, which works on the grid of multiples of \<open>2 powi ulp_exp x\<close> (53 significant bits,
  subnormals from \<open>2 powi - 1074\<close>, overflow to an infinity at \<open>2 ^ 1024\<close>). The sign of a zero is
  not kept: none of the modelled code observes it.

  The lemmas the components use: rounding is monotone, idempotent and odd, integers up to
  \<open>2 ^ 53\<close> are exact, and \<open>grid_near\<close> evaluates the rounding of a rational literal.
\<close>

section \<open>Rounding\<close>

datatype pyfloat = Fin rat | PInf | NInf | NaN

instance pyfloat :: countable
  by countable_datatype

function bitlen :: "int \<Rightarrow> int" where
  "bitlen n = (if n \<le> 0 then 0 else 1 + bitlen (n div 2))"
  by pat_completeness auto
termination
  by (relation "measure nat") auto

declare bitlen.simps [simp del]

definition ilog2 :: "rat \<Rightarrow> int" where
  "ilog2 x =
     (let (a, b) = quotient_of x; e = bitlen a - bitlen b
      in if 2 powi e \<le> x then e else e - 1)"

definition round_even :: "rat \<Rightarrow> int" where
  "round_even x =
     (let n = \<lfloor>x\<rfloor>; d = x - of_int n
      in if d < 1 / 2 then n else if 1 / 2 < d then n + 1
         else if even n then n else n + 1)"

definition ulp_exp :: "rat \<Rightarrow> int" where
  "ulp_exp x = max (ilog2 \<bar>x\<bar> - 52) (- 1074)"

definition grid :: "rat \<Rightarrow> rat" where
  "grid x = (if x = 0 then 0
     else of_int (round_even (x / 2 powi ulp_exp x)) * 2 powi ulp_exp x)"

definition rnd :: "rat \<Rightarrow> pyfloat" where
  "rnd x =
     (let y = grid x
      in if 2 ^ 1024 \<le> y then PInf else if y \<le> - (2 ^ 1024) then NInf else Fin y)"

lemma bitlen_bounds:
  "0 < n \<Longrightarrow> 2 powi (bitlen n - 1) \<le> (of_int n :: rat) \<and> of_int n < (2::rat) powi bitlen n"
proof (induction n rule: bitlen.induct)
  case (1 n)
  show ?case
  proof (cases "n = 1")
    case True
    then show ?thesis by (simp add: bitlen.simps [of 1] bitlen.simps [of 0])
  next
    case False
    with "1.prems" have pos: "0 < n div 2" by simp
    with "1.IH" "1.prems" have IH: "2 powi (bitlen (n div 2) - 1) \<le> (of_int (n div 2) :: rat)"
      "of_int (n div 2) < (2::rat) powi bitlen (n div 2)" by auto
    define k where "k = bitlen (n div 2)"
    define m where "m = n div 2"
    have bl: "bitlen n = k + 1" using "1.prems" by (simp add: bitlen.simps [of n] k_def)
    have n: "n = 2 * m + n mod 2" by (simp add: m_def)
    have k0: "0 \<le> k - 1" 
    proof (rule ccontr)
      assume "\<not> 0 \<le> k - 1"
      then have "(2::rat) powi k \<le> 2 powi 0" by (intro power_int_increasing) auto
      with IH(2) pos show False by (simp add: k_def [symmetric])
    qed
    have e1: "(2::rat) powi k = of_int (2 ^ nat k)" "(2::rat) powi (k - 1) = of_int (2 ^ nat (k - 1))"
      using k0 by (auto simp: power_int_def)
    have IH': "2 ^ nat (k - 1) \<le> m" "m < 2 ^ nat k"
      using IH [folded k_def m_def] e1 by (simp_all only: of_int_le_iff of_int_less_iff)
    have s1: "(2::int) ^ nat k = 2 * 2 ^ nat (k - 1)"
      using k0 by (simp flip: power_Suc add: Suc_nat_eq_nat_zadd1)
    have s2: "(2::int) ^ nat (k + 1) = 2 * 2 ^ nat k"
      using k0 by (simp flip: power_Suc add: Suc_nat_eq_nat_zadd1 add.commute)
    have r: "n mod 2 = 0 \<or> n mod 2 = 1" by auto
    have "2 ^ nat k \<le> n" using IH' s1 n r by linarith
    moreover have "n < 2 ^ nat (k + 1)" using IH' s2 n r by linarith
    moreover have "(2::rat) powi (k + 1) = of_int (2 ^ nat (k + 1))" using k0 by (simp add: power_int_def)
    ultimately show ?thesis unfolding bl using e1 by (simp only: of_int_le_iff of_int_less_iff) simp
  qed
qed

lemma ilog2_bounds:
  assumes "0 < x"
  shows "2 powi ilog2 x \<le> x" and "x < 2 powi (ilog2 x + 1)"
proof -
  obtain a b where q: "quotient_of x = (a, b)" by (cases "quotient_of x")
  have x: "x = of_int a / of_int b" using q by (rule quotient_of_div)
  have b: "0 < b" using q by (rule quotient_of_denom_pos)
  with x assms have a: "0 < a" by (simp add: zero_less_divide_iff)
  define e where "e = bitlen a - bitlen b"
  note ba = bitlen_bounds [OF a] and bb = bitlen_bounds [OF b]
  have b': "(0::rat) < of_int b" using b by simp
  have "x < 2 powi bitlen a / 2 powi (bitlen b - 1)"
    unfolding x using ba bb b' a by (intro frac_less) auto
  also have "\<dots> = 2 powi (e + 1)" by (simp add: e_def algebra_simps flip: power_int_diff)
  finally have up: "x < 2 powi (e + 1)" .
  have "(2::rat) powi (e - 1) = 2 powi (bitlen a - 1) / 2 powi bitlen b" by (simp add: e_def algebra_simps flip: power_int_diff)
  also have "\<dots> \<le> x"
    unfolding x using ba bb b' a by (intro frac_le) auto
  finally have lo: "2 powi (e - 1) \<le> x" .
  have il: "ilog2 x = (if 2 powi e \<le> x then e else e - 1)"
    by (simp add: ilog2_def q e_def)
  show "2 powi ilog2 x \<le> x" using lo by (simp add: il)
  show "x < 2 powi (ilog2 x + 1)" using up by (simp add: il)
qed

lemma ilog2_unique:
  assumes "2 powi e \<le> x" "x < 2 powi (e + 1)"
  shows "ilog2 x = e"
proof -
  have pos: "0 < x" using assms(1) by (rule less_le_trans [rotated]) simp
  note b = ilog2_bounds [OF pos]
  have "\<not> e < ilog2 x"
  proof
    assume "e < ilog2 x"
    then have "(2::rat) powi (e + 1) \<le> 2 powi ilog2 x" by (intro power_int_increasing) auto
    with assms b show False by linarith
  qed
  moreover have "\<not> ilog2 x < e"
  proof
    assume "ilog2 x < e"
    then have "(2::rat) powi (ilog2 x + 1) \<le> 2 powi e" by (intro power_int_increasing) auto
    with assms b show False by linarith
  qed
  ultimately show ?thesis by linarith
qed

lemma ilog2_mono: "0 < x \<Longrightarrow> x \<le> y \<Longrightarrow> ilog2 x \<le> ilog2 y"
proof (rule ccontr)
  assume a: "0 < x" "x \<le> y" "\<not> ilog2 x \<le> ilog2 y"
  then have "(2::rat) powi (ilog2 y + 1) \<le> 2 powi ilog2 x" by (intro power_int_increasing) auto
  with ilog2_bounds [of x] ilog2_bounds [of y] a show False by linarith
qed

lemma round_even_of_int [simp]: "round_even (of_int n) = n"
  by (simp add: round_even_def)

lemma round_even_near: "\<bar>x - of_int n\<bar> < 1 / 2 \<Longrightarrow> round_even x = n"
proof -
  assume "\<bar>x - of_int n\<bar> < 1 / 2"
  then have a: "x - of_int n < 1 / 2" "of_int n - x < 1 / 2" by (simp_all only: abs_less_iff) linarith
  consider "\<lfloor>x\<rfloor> = n" | "\<lfloor>x\<rfloor> = n - 1"
    using a by (cases "of_int n \<le> x") (auto simp: floor_eq_iff)
  then show ?thesis
    by cases (use a in \<open>simp_all add: round_even_def Let_def\<close>)
qed

lemma round_even_dist: "\<bar>x - of_int (round_even x)\<bar> \<le> 1 / 2"
proof -
  define n where "n = \<lfloor>x\<rfloor>"
  have "of_int n \<le> x" "x < of_int n + 1" unfolding n_def by linarith+
  then have "x - of_int (round_even x) \<le> 1 / 2" "of_int (round_even x) - x \<le> 1 / 2"
    by (auto simp: round_even_def Let_def n_def [symmetric])
  then show ?thesis by linarith
qed

lemma round_even_mono: "x \<le> y \<Longrightarrow> round_even x \<le> round_even y"
proof -
  assume xy: "x \<le> y"
  have fl: "\<lfloor>x\<rfloor> \<le> \<lfloor>y\<rfloor>" using xy by (rule floor_mono)
  show ?thesis
  proof (cases "\<lfloor>x\<rfloor> = \<lfloor>y\<rfloor>")
    case True
    with xy show ?thesis by (auto simp: round_even_def Let_def)
  next
    case False
    with fl have "\<lfloor>x\<rfloor> + 1 \<le> \<lfloor>y\<rfloor>" by linarith
    moreover have "round_even x \<le> \<lfloor>x\<rfloor> + 1" "\<lfloor>y\<rfloor> \<le> round_even y" by (auto simp: round_even_def Let_def)
    ultimately show ?thesis by linarith
  qed
qed

lemma round_even_minus: "round_even (- x) = - round_even x"
proof (cases "\<bar>x - of_int (round_even x)\<bar> < 1 / 2")
  case True
  then have "\<bar>- x - of_int (- round_even x)\<bar> < 1 / 2"
    by (simp only: of_int_minus minus_diff_minus abs_minus_cancel)
  then show ?thesis by (rule round_even_near)
next
  case False
  with round_even_dist [of x] have d: "\<bar>x - of_int (round_even x)\<bar> = 1 / 2" by linarith
  define n where "n = \<lfloor>x\<rfloor>"
  have n: "of_int n \<le> x" "x < of_int n + 1" unfolding n_def by linarith+
  have h: "x = of_int n + 1 / 2"
    using d n by (auto simp: round_even_def Let_def n_def [symmetric] abs_if split: if_splits)
  have f: "\<lfloor>- x\<rfloor> = - n - 1" unfolding h by (simp add: floor_eq_iff)
  have h1: "x - of_int n = 1 / 2" and h2: "- x - of_int (- n - 1) = 1 / 2" using h by simp_all
  have "round_even x = (if even n then n else n + 1)"
    by (simp only: round_even_def Let_def n_def [symmetric] h1) simp
  moreover have "round_even (- x) = (if odd n then - n - 1 else - n)"
    by (simp only: round_even_def Let_def f h2) simp
  ultimately show ?thesis by simp
qed

lemma ulp_exp_minus [simp]: "ulp_exp (- x) = ulp_exp x"
  by (simp add: ulp_exp_def)

lemma grid_0 [simp]: "grid 0 = 0"
  by (simp add: grid_def)

lemma grid_minus: "grid (- x) = - grid x"
  by (simp add: grid_def round_even_minus flip: minus_divide_left)

lemma ulp_exp_lower: "- 1074 \<le> ulp_exp x"
  by (simp add: ulp_exp_def)

lemma scaled_upper:
  assumes "0 < x"
  shows "x / 2 powi ulp_exp x < 2 ^ 53"
proof -
  have "x < 2 powi (ilog2 x + 1)" using assms by (rule ilog2_bounds)
  also have "\<dots> \<le> 2 powi (ulp_exp x + 53)"
    using assms by (intro power_int_increasing) (auto simp: ulp_exp_def)
  also have "\<dots> = 2 powi ulp_exp x * 2 ^ 53" by (simp add: power_int_add)
  finally show ?thesis by (simp add: field_simps)
qed

lemma scaled_lower:
  assumes "0 < x" "- 1074 < ulp_exp x"
  shows "2 ^ 52 \<le> x / 2 powi ulp_exp x"
proof -
  have "ulp_exp x = ilog2 x - 52" using assms by (auto simp: ulp_exp_def max_def split: if_splits)
  then have "2 powi (ulp_exp x + 52) \<le> x" using ilog2_bounds [OF assms(1)] by simp
  then have "2 powi ulp_exp x * 2 ^ 52 \<le> x" by (simp add: power_int_add)
  then show ?thesis by (simp add: field_simps)
qed

lemma grid_upper:
  assumes "0 < x"
  shows "grid x \<le> 2 powi (ulp_exp x + 53)"
proof -
  have "round_even (x / 2 powi ulp_exp x) \<le> round_even (of_int (2 ^ 53))"
    using scaled_upper [OF assms] by (intro round_even_mono) simp
  then have "round_even (x / 2 powi ulp_exp x) \<le> 2 ^ 53" by (simp only: round_even_of_int)
  then have "(of_int (round_even (x / 2 powi ulp_exp x)) :: rat) \<le> of_int (2 ^ 53)"
    by (simp only: of_int_le_iff)
  then have "of_int (round_even (x / 2 powi ulp_exp x)) * (2::rat) powi ulp_exp x \<le> 2 ^ 53 * 2 powi ulp_exp x"
    by (intro mult_right_mono) auto
  then show ?thesis using assms by (simp add: grid_def power_int_add mult.commute)
qed

lemma grid_lower:
  assumes "0 < x" "- 1074 < ulp_exp x"
  shows "2 powi (ulp_exp x + 52) \<le> grid x"
proof -
  have "round_even (of_int (2 ^ 52)) \<le> round_even (x / 2 powi ulp_exp x)"
    using scaled_lower [OF assms] by (intro round_even_mono) simp
  then have "2 ^ 52 \<le> round_even (x / 2 powi ulp_exp x)" by (simp only: round_even_of_int)
  then have "(of_int (2 ^ 52) :: rat) \<le> of_int (round_even (x / 2 powi ulp_exp x))"
    by (simp only: of_int_le_iff)
  then have "2 ^ 52 * 2 powi ulp_exp x \<le> of_int (round_even (x / 2 powi ulp_exp x)) * (2::rat) powi ulp_exp x"
    by (intro mult_right_mono) auto
  then show ?thesis using assms by (simp add: grid_def power_int_add mult.commute)
qed

lemma ulp_exp_mono: "0 < x \<Longrightarrow> x \<le> y \<Longrightarrow> ulp_exp x \<le> ulp_exp y"
  using ilog2_mono [of x y] by (simp add: ulp_exp_def)

lemma grid_nonneg: "0 \<le> x \<Longrightarrow> 0 \<le> grid x"
  using round_even_mono [of 0 "x / 2 powi ulp_exp x"] round_even_of_int [of 0]
  by (simp add: grid_def)

lemma grid_mono_pos:
  assumes "0 < x" "x \<le> y"
  shows "grid x \<le> grid y"
proof (cases "ulp_exp x = ulp_exp y")
  case True
  have "round_even (x / 2 powi ulp_exp y) \<le> round_even (y / 2 powi ulp_exp y)"
    using assms by (intro round_even_mono divide_right_mono) auto
  then show ?thesis using assms True by (simp add: grid_def mult_right_mono)
next
  case False
  with ulp_exp_mono [OF assms] have lt: "ulp_exp x < ulp_exp y" by simp
  then have "- 1074 < ulp_exp y" using ulp_exp_lower [of x] by linarith
  have "grid x \<le> 2 powi (ulp_exp x + 53)" using assms(1) by (rule grid_upper)
  also have "\<dots> \<le> 2 powi (ulp_exp y + 52)" using lt by (intro power_int_increasing) auto
  also have "\<dots> \<le> grid y" using assms \<open>- 1074 < ulp_exp y\<close> by (intro grid_lower) auto
  finally show ?thesis .
qed

lemma grid_mono: 
  assumes "x \<le> y"
  shows "grid x \<le> grid y"
proof -
  consider "0 < x" | "y < 0" | "x \<le> 0" "0 \<le> y" using assms by linarith
  then show ?thesis
  proof cases
    case 1 then show ?thesis using assms by (rule grid_mono_pos)
  next
    case 2 
    then have "grid (- y) \<le> grid (- x)" using assms by (intro grid_mono_pos) auto
    then show ?thesis by (simp add: grid_minus)
  next
    case 3
    have "grid x \<le> 0" using grid_nonneg [of "- x"] 3 by (simp add: grid_minus)
    also have "0 \<le> grid y" using 3 by (simp add: grid_nonneg)
    finally show ?thesis .
  qed
qed


lemma grid_exact:
  assumes "x = of_int m * 2 powi e" "\<bar>m\<bar> \<le> 2 ^ 53" "- 1074 \<le> e"
  shows "grid x = x"
proof (cases "x = 0")
  case False
  define u where "u = ulp_exp x"
  have "\<exists>k. x / 2 powi u = of_int k"
  proof (cases "u \<le> e")
    case True
    have "x / 2 powi u = of_int m * 2 powi (e - u)" by (simp add: assms(1) power_int_diff)
    also have "\<dots> = of_int (m * 2 ^ nat (e - u))" using True by (simp add: power_int_def)
    finally show ?thesis ..
  next
    case False
    then have u: "e < u" "u = ilog2 \<bar>x\<bar> - 52"
      using assms(3) by (auto simp: u_def ulp_exp_def max_def split: if_splits)
    have "2 powi (e + 53) \<le> (2::rat) powi (u + 52)" using u by (intro power_int_increasing) auto
    also have "\<dots> \<le> \<bar>x\<bar>" using ilog2_bounds [of "\<bar>x\<bar>"] \<open>x \<noteq> 0\<close> u by simp
    finally have l: "2 powi (e + 53) \<le> \<bar>x\<bar>" .
    have ax: "\<bar>x\<bar> = of_int \<bar>m\<bar> * 2 powi e" by (simp add: assms(1) abs_mult)
    with l have "(of_int (2 ^ 53) :: rat) \<le> of_int \<bar>m\<bar>" by (simp add: power_int_add mult.commute)
    then have m: "\<bar>m\<bar> = 2 ^ 53" using assms(2) by (simp only: of_int_le_iff)
    then have ax': "\<bar>x\<bar> = 2 powi (e + 53)" by (simp add: ax power_int_add mult.commute)
    have "ilog2 \<bar>x\<bar> = e + 53" by (rule ilog2_unique) (simp_all add: ax' power_int_add)
    with u have ue: "u = e + 1" by simp
    have "m = 2 ^ 53 \<or> m = - (2 ^ 53)" using m by linarith
    then have "x / 2 powi u = of_int (2 ^ 52) \<or> x / 2 powi u = of_int (- (2 ^ 52))"
      by (auto simp: assms(1) ue power_int_add)
    then show ?thesis by blast
  qed
  then obtain k where k: "x / 2 powi u = of_int k" by blast
  then have "grid x = of_int k * 2 powi u" using False by (simp add: grid_def u_def [symmetric])
  also have "\<dots> = x" using k by (simp add: field_simps)
  finally show ?thesis .
qed simp

lemma grid_repr: "\<exists>m. grid x = of_int m * 2 powi ulp_exp x \<and> \<bar>m\<bar> \<le> 2 ^ 53"
proof -
  have pos: "\<bar>round_even (x / 2 powi ulp_exp x)\<bar> \<le> 2 ^ 53" if "0 < x" for x
  proof -
    have "round_even (x / 2 powi ulp_exp x) \<le> round_even (of_int (2 ^ 53))"
      using scaled_upper [OF that] by (intro round_even_mono) simp
    moreover have "round_even (of_int 0) \<le> round_even (x / 2 powi ulp_exp x)"
      using that by (intro round_even_mono) simp
    ultimately show ?thesis by (simp only: round_even_of_int)
  qed
  consider "x = 0" | "0 < x" | "0 < - x" by linarith
  then show ?thesis
  proof cases
    case 1 then show ?thesis by (auto intro!: exI [of _ 0])
  next
    case 2 then show ?thesis using pos [of x] by (auto simp: grid_def)
  next
    case 3 then show ?thesis using pos [of "- x"] by (auto simp: grid_def round_even_minus)
  qed
qed

lemma grid_idem [simp]: "grid (grid x) = grid x"
proof -
  obtain m where "grid x = of_int m * 2 powi ulp_exp x" "\<bar>m\<bar> \<le> 2 ^ 53" using grid_repr by blast
  then show ?thesis using ulp_exp_lower by (rule grid_exact)
qed

lemma grid_int: "\<bar>n\<bar> \<le> 2 ^ 53 \<Longrightarrow> grid (of_int n) = of_int n"
  by (rule grid_exact [of _ n 0]) auto

lemma grid_near:
  assumes "2 ^ 52 * 2 powi e \<le> \<bar>x\<bar>" "\<bar>x\<bar> < 2 ^ 53 * 2 powi e" "- 1074 \<le> e"
    "\<bar>x - of_int m * 2 powi e\<bar> < 2 powi e / 2"
  shows "grid x = of_int m * 2 powi e"
proof -
  have "ilog2 \<bar>x\<bar> = e + 52"
    using assms(1,2) by (intro ilog2_unique) (simp_all add: power_int_add mult.commute)
  then have u: "ulp_exp x = e" using assms(3) by (simp add: ulp_exp_def)
  have "(0::rat) < 2 ^ 52 * 2 powi e" by simp
  then have "0 < \<bar>x\<bar>" using assms(1) by (rule less_le_trans)
  then have "x \<noteq> 0" by simp
  have "x / 2 powi e - of_int m = (x - of_int m * 2 powi e) / 2 powi e" by (simp add: field_simps)
  then have "\<bar>x / 2 powi e - of_int m\<bar> = \<bar>x - of_int m * 2 powi e\<bar> / 2 powi e"
    by (simp add: abs_divide)
  also have "\<dots> < 1 / 2" using assms(4) by (simp add: field_simps)
  finally have "round_even (x / 2 powi e) = m" by (rule round_even_near)
  then show ?thesis using \<open>x \<noteq> 0\<close> by (simp add: grid_def u)
qed

section \<open>The type of floats\<close>

text \<open>A rational that is a finite double.\<close>

definition dbl_rat :: "rat \<Rightarrow> bool" where
  "dbl_rat r \<longleftrightarrow> grid r = r \<and> \<bar>r\<bar> < 2 ^ 1024"

fun dbl :: "pyfloat \<Rightarrow> bool" where
  "dbl (Fin r) = dbl_rat r"
| "dbl _ = True"

fun finite_float :: "pyfloat \<Rightarrow> bool" where
  "finite_float (Fin r) = dbl_rat r"
| "finite_float _ = False"

lemma dbl_rnd [simp]: "dbl (rnd x)"
  by (auto simp: rnd_def Let_def dbl_rat_def abs_less_iff)

lemma rnd_dbl: "dbl_rat r \<Longrightarrow> rnd r = Fin r"
  by (auto simp: rnd_def Let_def dbl_rat_def abs_less_iff)

lemma dbl_rat_int: "\<bar>n\<bar> \<le> 2 ^ 53 \<Longrightarrow> dbl_rat (of_int n)"
proof -
  assume n: "\<bar>n\<bar> \<le> 2 ^ 53"
  then have "\<bar>n\<bar> < 2 ^ 1024" by (rule le_less_trans) simp
  then have "\<bar>(of_int n :: rat)\<bar> < of_int (2 ^ 1024)" by (simp only: of_int_abs [symmetric] of_int_less_iff)
  with n show ?thesis by (simp add: dbl_rat_def grid_int)
qed

lemma dbl_rat_0 [simp]: "dbl_rat 0"
  by (simp add: dbl_rat_def)

lemma dbl_rat_numeral: "numeral k \<le> (2 ^ 53 :: int) \<Longrightarrow> dbl_rat (numeral k)"
  using dbl_rat_int [of "numeral k"] by simp

lemma dbl_rat_1 [simp]: "dbl_rat 1"
  using dbl_rat_int [of 1] by simp

section \<open>Operations\<close>

fun fneg :: "pyfloat \<Rightarrow> pyfloat" where
  "fneg (Fin x) = Fin (- x)"
| "fneg PInf = NInf"
| "fneg NInf = PInf"
| "fneg NaN = NaN"

fun fadd :: "pyfloat \<Rightarrow> pyfloat \<Rightarrow> pyfloat" where
  "fadd (Fin x) (Fin y) = rnd (x + y)"
| "fadd NaN _ = NaN"
| "fadd _ NaN = NaN"
| "fadd PInf NInf = NaN"
| "fadd NInf PInf = NaN"
| "fadd PInf _ = PInf"
| "fadd NInf _ = NInf"
| "fadd (Fin x) PInf = PInf"
| "fadd (Fin x) NInf = NInf"

definition fsub :: "pyfloat \<Rightarrow> pyfloat \<Rightarrow> pyfloat" where
  "fsub a b = fadd a (fneg b)"

definition inf_of_sign :: "rat \<Rightarrow> pyfloat" where
  "inf_of_sign x = (if 0 < x then PInf else if x < 0 then NInf else NaN)"

fun fmul :: "pyfloat \<Rightarrow> pyfloat \<Rightarrow> pyfloat" where
  "fmul (Fin x) (Fin y) = rnd (x * y)"
| "fmul NaN _ = NaN"
| "fmul _ NaN = NaN"
| "fmul PInf (Fin y) = inf_of_sign y"
| "fmul NInf (Fin y) = inf_of_sign (- y)"
| "fmul (Fin x) PInf = inf_of_sign x"
| "fmul (Fin x) NInf = inf_of_sign (- x)"
| "fmul PInf PInf = PInf"
| "fmul PInf NInf = NInf"
| "fmul NInf PInf = NInf"
| "fmul NInf NInf = PInf"

text \<open>\<^verbatim>\<open>a / b\<close> raises on a zero divisor, whatever the dividend.\<close>

fun fdiv :: "pyfloat \<Rightarrow> pyfloat \<Rightarrow> pyfloat res" where
  "fdiv a (Fin y) =
     (if y = 0 then Inl (ZeroDivisionError ''float division by zero'')
      else case a of
        Fin x \<Rightarrow> Inr (rnd (x / y))
      | NaN \<Rightarrow> Inr NaN
      | PInf \<Rightarrow> Inr (if 0 < y then PInf else NInf)
      | NInf \<Rightarrow> Inr (if 0 < y then NInf else PInf))"
| "fdiv (Fin x) PInf = Inr (Fin 0)"
| "fdiv (Fin x) NInf = Inr (Fin 0)"
| "fdiv _ _ = Inr NaN"

text \<open>\<^verbatim>\<open>a // b\<close>: the floor of the mathematical quotient, rounded to a float.\<close>

fun ffloordiv :: "pyfloat \<Rightarrow> pyfloat \<Rightarrow> pyfloat res" where
  "ffloordiv a (Fin y) =
     (if y = 0 then Inl (ZeroDivisionError ''float floor division by zero'')
      else case a of Fin x \<Rightarrow> Inr (rnd (of_int \<lfloor>x / y\<rfloor>)) | _ \<Rightarrow> Inr NaN)"
| "ffloordiv (Fin x) PInf = Inr (if x < 0 then Fin (- 1) else Fin 0)"
| "ffloordiv (Fin x) NInf = Inr (if 0 < x then Fin (- 1) else Fin 0)"
| "ffloordiv _ _ = Inr NaN"

fun flt :: "pyfloat \<Rightarrow> pyfloat \<Rightarrow> bool" where
  "flt (Fin x) (Fin y) = (x < y)"
| "flt NInf (Fin y) = True"
| "flt NInf PInf = True"
| "flt (Fin x) PInf = True"
| "flt _ _ = False"

fun fle :: "pyfloat \<Rightarrow> pyfloat \<Rightarrow> bool" where
  "fle NaN _ = False"
| "fle _ NaN = False"
| "fle a b = (\<not> flt b a)"

fun fabs :: "pyfloat \<Rightarrow> pyfloat" where
  "fabs (Fin x) = Fin \<bar>x\<bar>"
| "fabs NaN = NaN"
| "fabs _ = PInf"

text \<open>\<^verbatim>\<open>max(a, b)\<close> and \<^verbatim>\<open>min(a, b)\<close> keep the first argument unless the second is strictly better.\<close>

definition fmax :: "pyfloat \<Rightarrow> pyfloat \<Rightarrow> pyfloat" where
  "fmax a b = (if flt a b then b else a)"

definition fmin :: "pyfloat \<Rightarrow> pyfloat \<Rightarrow> pyfloat" where
  "fmin a b = (if flt b a then b else a)"

definition float_of_int :: "int \<Rightarrow> pyfloat res" where
  "float_of_int n =
     (case rnd (of_int n) of
        Fin r \<Rightarrow> Inr (Fin r)
      | _ \<Rightarrow> Inl (OverflowError ''int too large to convert to float''))"

fun int_of_float :: "pyfloat \<Rightarrow> int res" where
  "int_of_float (Fin x) = Inr (if 0 \<le> x then \<lfloor>x\<rfloor> else \<lceil>x\<rceil>)"
| "int_of_float NaN = Inl (ValueError ''cannot convert float NaN to integer'')"
| "int_of_float _ = Inl (OverflowError ''cannot convert float infinity to integer'')"

section \<open>Order\<close>

interpretation flt: key_order flt "\<lambda>x. x \<noteq> NaN"
proof
  fix a b :: pyfloat
  show "a \<noteq> NaN \<Longrightarrow> b \<noteq> NaN \<Longrightarrow> flt a b \<Longrightarrow> \<not> flt b a" by (cases a; cases b) auto
next
  fix a b c :: pyfloat
  show "a \<noteq> NaN \<Longrightarrow> b \<noteq> NaN \<Longrightarrow> c \<noteq> NaN \<Longrightarrow> \<not> flt a b \<Longrightarrow> \<not> flt b c \<Longrightarrow> \<not> flt a c"
    by (cases a; cases b; cases c) auto
qed

lemma fle_iff: "fle a b \<longleftrightarrow> a \<noteq> NaN \<and> b \<noteq> NaN \<and> \<not> flt b a"
  by (cases a; cases b) auto

lemma fle_refl [simp]: "fle a a \<longleftrightarrow> a \<noteq> NaN"
  by (cases a) auto

lemma fle_PInf [simp]: "fle a PInf \<longleftrightarrow> a \<noteq> NaN"
  by (cases a) auto

lemma fle_trans: "fle a b \<Longrightarrow> fle b c \<Longrightarrow> fle a c"
  by (cases a; cases b; cases c) auto

lemma fle_total: "a \<noteq> NaN \<Longrightarrow> b \<noteq> NaN \<Longrightarrow> fle a b \<or> fle b a"
  by (cases a; cases b) auto

lemma fle_antisym: "fle a b \<Longrightarrow> fle b a \<Longrightarrow> a = b"
  by (cases a; cases b) auto

lemma flt_not_fle: "flt a b \<Longrightarrow> \<not> fle b a"
  by (cases a; cases b) auto

lemma rnd_mono: "x \<le> y \<Longrightarrow> fle (rnd x) (rnd y)"
  using grid_mono [of x y] by (auto simp: rnd_def Let_def)

lemma rnd_not_NaN [simp]: "rnd x \<noteq> NaN"
  by (simp add: rnd_def Let_def)

lemma rnd_lower: "dbl_rat r \<Longrightarrow> r \<le> x \<Longrightarrow> fle (Fin r) (rnd x)"
  using rnd_mono [of r x] by (simp add: rnd_dbl)

lemma rnd_upper: "dbl_rat r \<Longrightarrow> x \<le> r \<Longrightarrow> fle (rnd x) (Fin r)"
  using rnd_mono [of x r] by (simp add: rnd_dbl)

lemma fmax_lower: "a \<noteq> NaN \<Longrightarrow> fle a (fmax a b)"
  by (cases a; cases b) (auto simp: fmax_def)

lemma fmin_upper: "a \<noteq> NaN \<Longrightarrow> fle (fmin a b) a"
  by (cases a; cases b) (auto simp: fmin_def)

lemma fmax_not_NaN [simp]: "a \<noteq> NaN \<Longrightarrow> fmax a b \<noteq> NaN"
  by (cases a; cases b) (auto simp: fmax_def)

lemma fmin_not_NaN [simp]: "a \<noteq> NaN \<Longrightarrow> fmin a b \<noteq> NaN"
  by (cases a; cases b) (auto simp: fmin_def)

lemma nonneg_fmin: "fle (Fin 0) a \<Longrightarrow> fle (Fin 0) b \<Longrightarrow> fle (Fin 0) (fmin a b)"
  by (simp add: fmin_def)

lemma dbl_fmax [simp]: "dbl a \<Longrightarrow> dbl b \<Longrightarrow> dbl (fmax a b)"
  by (simp add: fmax_def)

lemma dbl_fmin [simp]: "dbl a \<Longrightarrow> dbl b \<Longrightarrow> dbl (fmin a b)"
  by (simp add: fmin_def)

section \<open>Closure and signs of the operations\<close>

lemma dbl_fneg [simp]: "dbl a \<Longrightarrow> dbl (fneg a)"
  by (cases a) (auto simp: dbl_rat_def grid_minus)

lemma dbl_fadd [simp]: "dbl (fadd a b)"
  by (cases a; cases b) auto

lemma dbl_fsub [simp]: "dbl (fsub a b)"
  by (simp add: fsub_def)

lemma dbl_fmul [simp]: "dbl (fmul a b)"
  by (cases a; cases b) (auto simp: inf_of_sign_def)

lemma dbl_fdiv: "fdiv a b = Inr c \<Longrightarrow> dbl c"
  by (cases a; cases b) (auto split: if_splits)

text \<open>A float is non-negative: comparable with zero and not below it.\<close>

abbreviation nonneg :: "pyfloat \<Rightarrow> bool" where
  "nonneg a \<equiv> fle (Fin 0) a"

lemma nonneg_not_NaN: "nonneg a \<Longrightarrow> a \<noteq> NaN"
  by (cases a) auto

lemma nonneg_fadd: "nonneg a \<Longrightarrow> nonneg b \<Longrightarrow> nonneg (fadd a b)"
  by (cases a; cases b) (auto intro: rnd_lower)

lemma nonneg_fmul_Fin: "nonneg a \<Longrightarrow> 0 < y \<Longrightarrow> nonneg (fmul a (Fin y))"
  by (cases a) (auto intro: rnd_lower simp: inf_of_sign_def)

lemma nonneg_fmul: "nonneg (Fin x) \<Longrightarrow> nonneg (Fin y) \<Longrightarrow> nonneg (fmul (Fin x) (Fin y))"
  by (auto intro: rnd_lower)

lemma nonneg_fdiv: "nonneg a \<Longrightarrow> 0 < y \<Longrightarrow> \<exists>c. fdiv a (Fin y) = Inr c \<and> nonneg c"
  by (cases a) (auto intro: rnd_lower)

lemma nonneg_fmax: "nonneg (fmax (Fin 0) b)"
  by (rule fmax_lower) simp

text \<open>Adding a non-negative amount never lowers a stored float.\<close>

lemma fadd_nonneg_mono:
  assumes "dbl a" "a \<noteq> NaN" "nonneg b" "fadd a b \<noteq> NaN"
  shows "fle a (fadd a b)"
  using assms by (cases a; cases b) (auto intro!: rnd_lower)

lemma nonneg_fadd_mono: "dbl a \<Longrightarrow> nonneg a \<Longrightarrow> nonneg b \<Longrightarrow> fle a (fadd a b)"
  by (cases a; cases b) (auto intro!: rnd_lower)

section \<open>Literals\<close>

text \<open>A source literal is the float nearest to the decimal it spells.\<close>

abbreviation lit :: "rat \<Rightarrow> pyfloat" where
  "lit \<equiv> rnd"

lemma lit_int: "n \<le> (2 ^ 53 :: nat) \<Longrightarrow> lit (of_nat n) = Fin (of_nat n)"
proof -
  assume "n \<le> 2 ^ 53"
  then have "int n \<le> int (2 ^ 53)" by (simp only: of_nat_le_iff)
  then show ?thesis using rnd_dbl [OF dbl_rat_int [of "int n"]] by simp
qed

lemma lit_numeral: "numeral k \<le> (2 ^ 53 :: int) \<Longrightarrow> lit (numeral k) = Fin (numeral k)"
  by (rule rnd_dbl) (rule dbl_rat_numeral)

lemma lit_0 [simp]: "lit 0 = Fin 0"
  by (rule rnd_dbl) simp

lemma lit_1 [simp]: "lit 1 = Fin 1"
  by (rule rnd_dbl) simp

lemma lit_half [simp]: "lit (1 / 2) = Fin (1 / 2)"
  using grid_exact [of "1 / 2" 1 "- 1"] by (simp add: rnd_def Let_def)

lemma grid_tenth: "grid (1 / 10) = 3602879701896397 / 36028797018963968"
  using grid_near [of "- 56" "1 / 10" 7205759403792794] by (simp add: power_int_def power_divide)

lemma lit_tenth: "lit (1 / 10) = Fin (3602879701896397 / 36028797018963968)"
  by (simp add: rnd_def grid_tenth)

end
