(* ===== verification/Py_Json.thy ===== *)
theory Py_Json
  imports Py_Float
begin

text \<open>
  The dynamically typed values the Scheduler receives: decoded JSON bodies, telemetry
  dictionaries, task descriptions and JWT claims, with the conversions and tests Python
  applies to them (truth value, \<^verbatim>\<open>or\<close>, \<^verbatim>\<open>float()\<close>, \<^verbatim>\<open>int()\<close>, \<^verbatim>\<open>str()\<close>, \<^verbatim>\<open>.get\<close>,
  \<^verbatim>\<open>str.lower\<close>, \<^verbatim>\<open>str.strip\<close>, \<^verbatim>\<open>str.split\<close>). Strings are sequences of 8-bit characters;
  case mapping and white space are those of ASCII.
\<close>

datatype json =
    JNull
  | JBool bool
  | JInt int
  | JFloat pyfloat
  | JStr string
  | JList "json list"
  | JObj "(string \<times> json) list"

type_synonym jobj = "(string, json) dict"

section \<open>Strings\<close>

abbreviation code_of :: "char \<Rightarrow> nat" where
  "code_of c \<equiv> of_char c"

definition is_digit :: "char \<Rightarrow> bool" where
  "is_digit c = (48 \<le> code_of c \<and> code_of c \<le> 57)"

definition digit_val :: "char \<Rightarrow> int" where
  "digit_val c = int (code_of c) - 48"

definition is_space :: "char \<Rightarrow> bool" where
  "is_space c = (code_of c = 32 \<or> (9 \<le> code_of c \<and> code_of c \<le> 13) \<or> (28 \<le> code_of c \<and> code_of c \<le> 31))"

definition lower_char :: "char \<Rightarrow> char" where
  "lower_char c = (if 65 \<le> code_of c \<and> code_of c \<le> 90 then char_of (code_of c + 32) else c)"

definition upper_char :: "char \<Rightarrow> char" where
  "upper_char c = (if 97 \<le> code_of c \<and> code_of c \<le> 122 then char_of (code_of c - 32) else c)"

definition py_lower :: "string \<Rightarrow> string" where
  "py_lower s = map lower_char s"

definition py_strip :: "string \<Rightarrow> string" where
  "py_strip s = rev (dropWhile is_space (rev (dropWhile is_space s)))"

definition startswith :: "string \<Rightarrow> string \<Rightarrow> bool" where
  "startswith s p = (take (length p) s = p)"

text \<open>A string in single quotes, as in an interpolated message.\<close>

definition quoted :: "string \<Rightarrow> string" where
  "quoted s = CHR 0x27 # s @ [CHR 0x27]"

text \<open>\<^verbatim>\<open>s.split(sep)\<close> for a one-character separator: one more part than separators.\<close>

fun py_split :: "char \<Rightarrow> string \<Rightarrow> string list" where
  "py_split sep [] = [[]]"
| "py_split sep (c # cs) =
     (if c = sep then [] # py_split sep cs
      else case py_split sep cs of [] \<Rightarrow> [[c]] | p # ps \<Rightarrow> (c # p) # ps)"

fun py_join :: "string \<Rightarrow> string list \<Rightarrow> string" where
  "py_join sep [] = []"
| "py_join sep [p] = p"
| "py_join sep (p # q # ps) = p @ sep @ py_join sep (q # ps)"

lemma py_split_not_Nil [simp]: "py_split sep s \<noteq> []"
  by (induction s) (auto split: list.splits)

lemma py_split_no_sep: "p \<in> set (py_split sep s) \<Longrightarrow> sep \<notin> set p"
proof (induction s arbitrary: p)
  case (Cons c cs)
  then show ?case by (auto split: if_splits list.splits)
qed simp

lemma py_join_split: "py_join [sep] (py_split sep s) = s"
proof (induction s)
  case (Cons c cs)
  obtain p ps where ps: "py_split sep cs = p # ps" by (cases "py_split sep cs") auto
  with Cons show ?case by (cases ps) auto
qed simp

lemma py_split_plain: "sep \<notin> set s \<Longrightarrow> py_split sep s = [s]"
  by (induction s) auto

lemma py_split_append: "sep \<notin> set p \<Longrightarrow> py_split sep (p @ sep # s) = p # py_split sep s"
  by (induction p) auto

lemma lower_char_idem [simp]: "lower_char (lower_char c) = lower_char c"
proof (cases "65 \<le> code_of c \<and> code_of c \<le> 90")
  case True
  then have "code_of (char_of (code_of c + 32) :: char) = code_of c + 32"
    by (simp add: of_char_of)
  with True show ?thesis by (simp add: lower_char_def)
qed (auto simp: lower_char_def)

lemma py_lower_idem [simp]: "py_lower (py_lower s) = py_lower s"
  by (simp add: py_lower_def)

section \<open>Decimal numbers\<close>

text \<open>
  Digits with single underscores between them, as \<^verbatim>\<open>int()\<close> and \<^verbatim>\<open>float()\<close> accept them: the value
  read, how many digits there were, and the rest of the text.
\<close>

fun scan_digits :: "int \<Rightarrow> nat \<Rightarrow> string \<Rightarrow> int \<times> nat \<times> string" where
  "scan_digits v n [] = (v, n, [])"
| "scan_digits v n (c # cs) =
     (if is_digit c then scan_digits (10 * v + digit_val c) (Suc n) cs
      else if c = CHR ''_'' \<and> 0 < n \<and> (case cs of [] \<Rightarrow> False | d # ds \<Rightarrow> is_digit d)
      then scan_digits v n cs
      else (v, n, c # cs))"

definition scan_sign :: "string \<Rightarrow> int \<times> string" where
  "scan_sign s = (case s of
      [] \<Rightarrow> (1, [])
    | c # cs \<Rightarrow> if c = CHR ''-'' then (- 1, cs) else if c = CHR ''+'' then (1, cs) else (1, s))"

definition scan_frac :: "string \<Rightarrow> int \<times> nat \<times> string" where
  "scan_frac s = (case s of
      [] \<Rightarrow> (0, 0, [])
    | c # cs \<Rightarrow> if c = CHR ''.'' then scan_digits 0 0 cs else (0, 0, s))"

definition scan_exp :: "string \<Rightarrow> (int \<times> string) option" where
  "scan_exp s = (case s of
      [] \<Rightarrow> Some (0, [])
    | c # cs \<Rightarrow>
        if c = CHR ''e'' \<or> c = CHR ''E''
        then (let (sg, r) = scan_sign cs; (v, n, r') = scan_digits 0 0 r
              in if n = 0 then None else Some (sg * v, r'))
        else Some (0, s))"

definition parse_float :: "string \<Rightarrow> pyfloat option" where
  "parse_float s =
     (let (sg, r) = scan_sign (py_strip s); w = py_lower r
      in if w = ''inf'' \<or> w = ''infinity'' then Some (if sg < 0 then NInf else PInf)
         else if w = ''nan'' then Some NaN
         else let (ip, ni, r1) = scan_digits 0 0 r; (fp, nf, r2) = scan_frac r1
         in if ni + nf = 0 then None
            else case scan_exp r2 of
                None \<Rightarrow> None
              | Some (x, r3) \<Rightarrow>
                  if r3 \<noteq> [] then None
                  else Some (rnd (of_int sg * (of_int ip + of_int fp / 10 ^ nf) * 10 powi x)))"

definition parse_int :: "string \<Rightarrow> int option" where
  "parse_int s =
     (let (sg, r) = scan_sign (py_strip s); (v, n, r') = scan_digits 0 0 r
      in if n = 0 \<or> r' \<noteq> [] then None else Some (sg * v))"

text \<open>\<^verbatim>\<open>str(n)\<close> for an integer.\<close>

function nat_digits :: "nat \<Rightarrow> string" where
  "nat_digits n =
     (if n < 10 then [char_of (48 + n)] else nat_digits (n div 10) @ [char_of (48 + n mod 10)])"
  by pat_completeness auto
termination
  by (relation "measure id") auto

declare nat_digits.simps [simp del]

definition str_of_int :: "int \<Rightarrow> string" where
  "str_of_int n = (if n < 0 then CHR ''-'' # nat_digits (nat (- n)) else nat_digits (nat n))"

lemma code_of_digit: "d < (10 :: nat) \<Longrightarrow> code_of (char_of (48 + d) :: char) = 48 + d"
  by (simp add: of_char_of)

lemma is_digit_char [simp]: "d < (10 :: nat) \<Longrightarrow> is_digit (char_of (48 + d))"
  by (simp add: is_digit_def code_of_digit)

lemma digit_val_char [simp]: "d < (10 :: nat) \<Longrightarrow> digit_val (char_of (48 + d)) = int d"
  by (simp add: digit_val_def code_of_digit)

lemma scan_digits_append:
  "list_all is_digit ds \<Longrightarrow>
   scan_digits v n (ds @ r) = scan_digits (foldl (\<lambda>a c. 10 * a + digit_val c) v ds) (n + length ds) r"
  by (induction ds arbitrary: v n) auto

lemma nat_digits_digits: "list_all is_digit (nat_digits n)"
proof (induction n rule: nat_digits.induct)
  case (1 n)
  then show ?case by (subst nat_digits.simps) auto
qed

lemma nat_digits_value: "foldl (\<lambda>a c. 10 * a + digit_val c) 0 (nat_digits n) = int n"
proof (induction n rule: nat_digits.induct)
  case (1 n)
  then show ?case by (subst nat_digits.simps) (auto simp: zdiv_int zmod_int)
qed

lemma nat_digits_not_Nil [simp]: "nat_digits n \<noteq> []"
  by (subst nat_digits.simps) simp

text \<open>Printing a natural number and reading it back.\<close>

lemma scan_nat_digits: "scan_digits 0 0 (nat_digits n) = (int n, length (nat_digits n), [])"
  using scan_digits_append [OF nat_digits_digits, of 0 0 n "[]"] by (simp add: nat_digits_value)

section \<open>Values\<close>

text \<open>\<^verbatim>\<open>bool(v)\<close>.\<close>

fun truthy :: "json \<Rightarrow> bool" where
  "truthy JNull = False"
| "truthy (JBool b) = b"
| "truthy (JInt n) = (n \<noteq> 0)"
| "truthy (JFloat f) = (f \<noteq> Fin 0)"
| "truthy (JStr s) = (s \<noteq> [])"
| "truthy (JList xs) = (xs \<noteq> [])"
| "truthy (JObj d) = (d \<noteq> [])"

text \<open>\<^verbatim>\<open>a or b\<close>.\<close>

definition py_or :: "json \<Rightarrow> json \<Rightarrow> json" where
  "py_or a b = (if truthy a then a else b)"

text \<open>\<^verbatim>\<open>d.get(k)\<close>: a missing key reads as \<^verbatim>\<open>None\<close>.\<close>

definition jget :: "jobj \<Rightarrow> string \<Rightarrow> json" where
  "jget d k = dget_or d k JNull"

text \<open>\<^verbatim>\<open>float(v)\<close> and \<^verbatim>\<open>int(v)\<close>.\<close>

fun py_float :: "json \<Rightarrow> pyfloat res" where
  "py_float (JBool b) = Inr (if b then Fin 1 else Fin 0)"
| "py_float (JInt n) = float_of_int n"
| "py_float (JFloat f) = Inr f"
| "py_float (JStr s) = (case parse_float s of
      None \<Rightarrow> Inl (ValueError ''could not convert string to float'')
    | Some f \<Rightarrow> Inr f)"
| "py_float _ = Inl (TypeError ''float() argument must be a string or a real number'')"

fun py_int :: "json \<Rightarrow> int res" where
  "py_int (JBool b) = Inr (if b then 1 else 0)"
| "py_int (JInt n) = Inr n"
| "py_int (JFloat f) = int_of_float f"
| "py_int (JStr s) = (case parse_int s of
      None \<Rightarrow> Inl (ValueError ''invalid literal for int() with base 10'')
    | Some n \<Rightarrow> Inr n)"
| "py_int _ = Inl (TypeError ''int() argument must be a string or a real number'')"

text \<open>
  \<^verbatim>\<open>str(v)\<close>. The text of floats and containers is \<^verbatim>\<open>repr\<close>, which the code only feeds to a
  comparison, a message or a hash; it is the argument \<open>rep\<close>.
\<close>

fun py_str :: "(json \<Rightarrow> string) \<Rightarrow> json \<Rightarrow> string" where
  "py_str rep JNull = ''None''"
| "py_str rep (JBool b) = (if b then ''True'' else ''False'')"
| "py_str rep (JInt n) = str_of_int n"
| "py_str rep (JStr s) = s"
| "py_str rep v = rep v"

text \<open>\<^verbatim>\<open>v in xs\<close> for a list of strings.\<close>

definition in_strs :: "json \<Rightarrow> string list \<Rightarrow> bool" where
  "in_strs v xs = (case v of JStr s \<Rightarrow> s \<in> set xs | _ \<Rightarrow> False)"

text \<open>\<^verbatim>\<open>v + 1\<close> on a decoded number.\<close>

fun py_plus_one :: "json \<Rightarrow> json res" where
  "py_plus_one (JInt n) = Inr (JInt (n + 1))"
| "py_plus_one (JBool b) = Inr (JInt (if b then 2 else 1))"
| "py_plus_one (JFloat f) = Inr (JFloat (fadd f (Fin 1)))"
| "py_plus_one _ = Inl (TypeError ''unsupported operand type(s) for +'')"

lemma jget_dset [dict_simps]: "jget (dset k v d) k' = (if k' = k then v else jget d k')"
  by (simp add: jget_def dget_or_def dict_simps)

lemma py_float_int: "\<bar>n\<bar> \<le> 2 ^ 53 \<Longrightarrow> py_float (JInt n) = Inr (Fin (of_int n))"
  by (simp add: float_of_int_def rnd_dbl dbl_rat_int)

lemma dbl_py_float:
  assumes "py_float v = Inr f" "\<And>g. v = JFloat g \<Longrightarrow> dbl g"
  shows "dbl f"
  using assms
  by (cases v) (auto simp: float_of_int_def parse_float_def Let_def rnd_dbl
      split: pyfloat.splits option.splits prod.splits if_splits
      dest: arg_cong [of _ _ dbl])

end
