(* ===== verification/Models.thy ===== *)
theory Models
  imports Py_Json
begin

text \<open>
  The data the Scheduler keeps: nodes and their hardware (\<^verbatim>\<open>scheduler/models/node.py\<close>),
  heartbeats (\<^verbatim>\<open>scheduler/models/heartbeat.py\<close>), credit accounts
  (\<^verbatim>\<open>scheduler/core/credit_ledger.py\<close>), usage records (\<^verbatim>\<open>scheduler/core/metering.py\<close>) and
  invite codes (\<^verbatim>\<open>scheduler/core/invites.py\<close>). A pydantic model is a record; the constraints its
  fields declare are the predicate that goes with it. Field names that occur in several models
  carry a prefix. Time stamps are opaque numbers.
\<close>

text \<open>
  Lookups stay lookups: facts about dictionaries are stated with \<^const>\<open>map_of\<close>, never by
  membership of pairs.
\<close>

declare map_of_eq_Some_iff [simp del]

section \<open>Nodes\<close>

datatype node_status = ONLINE | OFFLINE | BUSY | UNKNOWN

record gpu_info =
  gpu_name :: string
  vram_total_gb :: pyfloat
  vram_available_gb :: pyfloat

definition gpu_valid :: "gpu_info \<Rightarrow> bool" where
  "gpu_valid g = (fle (Fin 0) (vram_total_gb g) \<and> fle (Fin 0) (vram_available_gb g))"

record node =
  node_id :: string
  hostname :: string
  ip_address :: string
  region :: string
  gpu :: gpu_info
  cpu_cores :: int
  ram_total_gb :: pyfloat
  available_models :: "string list"

definition node_valid :: "node \<Rightarrow> bool" where
  "node_valid n = (gpu_valid (gpu n) \<and> 0 < cpu_cores n \<and> flt (Fin 0) (ram_total_gb n))"

datatype reachability = MESH | HTTP

record node_view =
  view_node :: node
  reachability_of :: reachability

definition from_node :: "node \<Rightarrow> bool \<Rightarrow> node_view" where
  "from_node n mesh_reachable =
     \<lparr>view_node = n, reachability_of = (if mesh_reachable then MESH else HTTP)\<rparr>"

section \<open>Heartbeats\<close>

record heartbeat =
  hb_node_id :: string
  hb_timestamp :: int
  hb_status :: node_status
  queue_length :: int
  cpu_utilization :: pyfloat
  ram_available_gb :: pyfloat
  gpu_utilization :: pyfloat
  hb_vram_available_gb :: pyfloat

definition heartbeat_valid :: "heartbeat \<Rightarrow> bool" where
  "heartbeat_valid h =
     (0 \<le> queue_length h
      \<and> fle (Fin 0) (cpu_utilization h) \<and> fle (cpu_utilization h) (Fin 100)
      \<and> fle (Fin 0) (ram_available_gb h)
      \<and> fle (Fin 0) (gpu_utilization h) \<and> fle (gpu_utilization h) (Fin 100)
      \<and> fle (Fin 0) (hb_vram_available_gb h))"

section \<open>Credit accounts\<close>

record credit_account =
  account_id :: string
  earned_credits :: pyfloat
  consumed_credits :: pyfloat
  updated_at :: pyfloat

definition account_valid :: "credit_account \<Rightarrow> bool" where
  "account_valid a = (fle (Fin 0) (earned_credits a) \<and> fle (Fin 0) (consumed_credits a))"

definition net_balance :: "credit_account \<Rightarrow> pyfloat" where
  "net_balance a = fsub (earned_credits a) (consumed_credits a)"

section \<open>Usage records\<close>

record usage_record =
  request_id :: string
  tenant_id :: string
  us_node_id :: string
  us_model :: string
  prompt_tokens :: int
  completion_tokens :: int
  duration_seconds :: pyfloat
  succeeded :: bool
  recorded_at :: pyfloat

definition usage_valid :: "usage_record \<Rightarrow> bool" where
  "usage_valid u =
     (0 \<le> prompt_tokens u \<and> 0 \<le> completion_tokens u \<and> fle (Fin 0) (duration_seconds u))"

definition total_tokens :: "usage_record \<Rightarrow> int" where
  "total_tokens u = prompt_tokens u + completion_tokens u"

section \<open>Invite codes\<close>

record invite_code =
  code_hash :: string
  label :: string
  max_uses :: int
  uses :: int
  revoked :: bool
  created_at :: pyfloat

definition invite_valid :: "invite_code \<Rightarrow> bool" where
  "invite_valid i = (1 \<le> max_uses i \<and> 0 \<le> uses i)"

definition spent :: "invite_code \<Rightarrow> bool" where
  "spent i = (max_uses i \<le> uses i)"

definition usable :: "invite_code \<Rightarrow> bool" where
  "usable i = (\<not> revoked i \<and> \<not> spent i)"

end
