(* ===== verification/Persistence.thy ===== *)
theory Persistence
  imports Models
begin

text \<open>
  The durable store: the interface \<^verbatim>\<open>SchedulerStore\<close>
  (\<^verbatim>\<open>scheduler/persistence/store.py\<close>) as the locale \<open>scheduler_store\<close>, and the SQLite
  implementation (\<^verbatim>\<open>scheduler/persistence/sqlite_store.py\<close>) as the record \<open>sqlite_store\<close>, one
  field per table. A table with a primary key is an insertion-ordered dictionary: an upsert
  keeps the row's place (its rowid), a new row goes to the end. The node table holds JSON text;
  pydantic's \<^verbatim>\<open>model_dump_json\<close> and \<^verbatim>\<open>model_validate_json\<close> are the arguments \<open>dump\<close> and
  \<open>validate\<close> of the operations that use them.
\<close>

section \<open>The interface\<close>

text \<open>Nodes as a dictionary keyed by their own identifier, the shape the registry keeps them in.\<close>

definition nodes_dict :: "node list \<Rightarrow> (string, node) dict" where
  "nodes_dict ns = map (\<lambda>n. (node_id n, n)) ns"

lemma nodes_dict_Nil [simp]: "nodes_dict [] = []"
  by (simp add: nodes_dict_def)

text \<open>
  Writes that change what a restart brings back, and their effect on the two dictionaries the
  registry restores from a store.
\<close>

datatype node_write =
    PutNode node
  | DropNode string
  | DropAll
  | PutToken string "string option"

fun mem_write :: "node_write \<Rightarrow> (string, node) dict \<times> (string, string) dict
    \<Rightarrow> (string, node) dict \<times> (string, string) dict" where
  "mem_write (PutNode n) (ns, ts) = (dset (node_id n) n ns, ts)"
| "mem_write (DropNode k) (ns, ts) = (ddel k ns, ddel k ts)"
| "mem_write DropAll (ns, ts) = ([], [])"
| "mem_write (PutToken k t) (ns, ts) =
     (ns, case t of None \<Rightarrow> ddel k ts | Some v \<Rightarrow> if v = [] then ddel k ts else dset k v ts)"

fun write_ok :: "(node \<Rightarrow> bool) \<Rightarrow> node_write \<Rightarrow> bool" where
  "write_ok storable (PutNode n) = storable n"
| "write_ok storable _ = True"

locale scheduler_store =
  fixes load_nodes :: "'s \<Rightarrow> node list"
    and save_node :: "node \<Rightarrow> 's \<Rightarrow> 's"
    and delete_node :: "string \<Rightarrow> 's \<Rightarrow> 's"
    and clear_nodes :: "'s \<Rightarrow> 's"
    and load_node_tokens :: "'s \<Rightarrow> (string, string) dict"
    and save_node_token :: "string \<Rightarrow> string option \<Rightarrow> 's \<Rightarrow> 's"
    and ok :: "'s \<Rightarrow> bool"
    and storable :: "node \<Rightarrow> bool"
  assumes nodes_save: "ok s \<Longrightarrow> storable n \<Longrightarrow>
      nodes_dict (load_nodes (save_node n s)) = dset (node_id n) n (nodes_dict (load_nodes s))"
    and nodes_delete: "ok s \<Longrightarrow> nodes_dict (load_nodes (delete_node k s)) = ddel k (nodes_dict (load_nodes s))"
    and nodes_clear: "ok s \<Longrightarrow> load_nodes (clear_nodes s) = []"
    and nodes_token: "ok s \<Longrightarrow> load_nodes (save_node_token k t s) = load_nodes s"
    and tokens_save: "ok s \<Longrightarrow> load_node_tokens (save_node n s) = load_node_tokens s"
    and tokens_delete: "ok s \<Longrightarrow> load_node_tokens (delete_node k s) = ddel k (load_node_tokens s)"
    and tokens_clear: "ok s \<Longrightarrow> load_node_tokens (clear_nodes s) = []"
    and tokens_token: "ok s \<Longrightarrow> load_node_tokens (save_node_token k t s) =
      (case t of None \<Rightarrow> ddel k (load_node_tokens s)
       | Some v \<Rightarrow> if v = [] then ddel k (load_node_tokens s) else dset k v (load_node_tokens s))"
    and ok_save: "ok s \<Longrightarrow> storable n \<Longrightarrow> ok (save_node n s)"
    and ok_delete: "ok s \<Longrightarrow> ok (delete_node k s)"
    and ok_clear: "ok s \<Longrightarrow> ok (clear_nodes s)"
    and ok_token: "ok s \<Longrightarrow> ok (save_node_token k t s)"
begin

definition view :: "'s \<Rightarrow> (string, node) dict \<times> (string, string) dict" where
  "view s = (nodes_dict (load_nodes s), load_node_tokens s)"

fun store_write :: "node_write \<Rightarrow> 's \<Rightarrow> 's" where
  "store_write (PutNode n) s = save_node n s"
| "store_write (DropNode k) s = delete_node k s"
| "store_write DropAll s = clear_nodes s"
| "store_write (PutToken k t) s = save_node_token k t s"

lemma store_write_ok: "ok s \<Longrightarrow> write_ok storable w \<Longrightarrow> ok (store_write w s)"
  by (cases w) (simp_all add: ok_save ok_delete ok_clear ok_token)

lemma view_write: "ok s \<Longrightarrow> write_ok storable w \<Longrightarrow> view (store_write w s) = mem_write w (view s)"
  by (cases w) (simp_all add: view_def nodes_save nodes_delete nodes_clear nodes_token
      tokens_save tokens_delete tokens_clear tokens_token)

text \<open>
  A client that applies every write to memory and to the store, in the same order, has in
  memory what a restart would load.
\<close>

lemma view_writes:
  "ok s \<Longrightarrow> list_all (write_ok storable) ws \<Longrightarrow>
   ok (fold store_write ws s) \<and> view (fold store_write ws s) = fold mem_write ws (view s)"
proof (induction ws arbitrary: s)
  case (Cons w ws)
  then have "ok (store_write w s)" "view (store_write w s) = mem_write w (view s)"
    by (simp_all add: store_write_ok view_write)
  with Cons show ?case by simp
qed simp

end

section \<open>The SQLite store\<close>

record usage_row =
  row_request_id :: string
  row_tenant_id :: string
  row_node_id :: string
  row_model :: string
  row_prompt_tokens :: int
  row_completion_tokens :: int
  row_duration_seconds :: pyfloat
  row_succeeded :: int
  row_recorded_at :: pyfloat

record invite_row =
  row_label :: string
  row_max_uses :: int
  row_uses :: int
  row_revoked :: int
  row_created_at :: pyfloat

record account_row =
  row_earned_credits :: pyfloat
  row_consumed_credits :: pyfloat
  row_updated_at :: pyfloat

record sqlite_store =
  tbl_nodes :: "(string, string) dict"
  tbl_node_tokens :: "(string, string) dict"
  tbl_credit_accounts :: "(string, account_row) dict"
  tbl_usage_records :: "usage_row list"
  tbl_invites :: "(string, invite_row) dict"
  schema_version :: "string option"

definition SCHEMA_VERSION :: int where
  "SCHEMA_VERSION = 1"

text \<open>
  \<^verbatim>\<open>_conn\<close> creates the tables and \<^verbatim>\<open>_check_schema_version\<close> records the version in a file that
  has none; a file of another version is left as it is (and logged).
\<close>

definition empty_store :: sqlite_store where
  "empty_store = \<lparr>tbl_nodes = [], tbl_node_tokens = [], tbl_credit_accounts = [],
     tbl_usage_records = [], tbl_invites = [], schema_version = None\<rparr>"

definition check_schema_version :: "sqlite_store \<Rightarrow> sqlite_store" where
  "check_schema_version s =
     (case schema_version s of
        None \<Rightarrow> s\<lparr>schema_version := Some (str_of_int SCHEMA_VERSION)\<rparr>
      | Some v \<Rightarrow> s)"

text \<open>
  The first use of \<^verbatim>\<open>_conn\<close> on a path: \<open>None\<close> is a file that does not exist yet; the
  \<^verbatim>\<open>CREATE TABLE IF NOT EXISTS\<close> script leaves the tables of an existing file alone.
\<close>

definition open_conn :: "sqlite_store option \<Rightarrow> sqlite_store" where
  "open_conn file = check_schema_version (case file of None \<Rightarrow> empty_store | Some s \<Rightarrow> s)"

subsection \<open>Nodes and credentials\<close>

definition load_nodes :: "(string \<Rightarrow> node option) \<Rightarrow> sqlite_store \<Rightarrow> node list" where
  "load_nodes validate s = List.map_filter (\<lambda>(k, payload). validate payload) (tbl_nodes s)"

definition save_node :: "(node \<Rightarrow> string) \<Rightarrow> node \<Rightarrow> sqlite_store \<Rightarrow> sqlite_store" where
  "save_node dump n s = s\<lparr>tbl_nodes := dset (node_id n) (dump n) (tbl_nodes s)\<rparr>"

definition delete_node :: "string \<Rightarrow> sqlite_store \<Rightarrow> sqlite_store" where
  "delete_node k s =
     s\<lparr>tbl_nodes := ddel k (tbl_nodes s), tbl_node_tokens := ddel k (tbl_node_tokens s)\<rparr>"

definition clear_nodes :: "sqlite_store \<Rightarrow> sqlite_store" where
  "clear_nodes s = s\<lparr>tbl_nodes := [], tbl_node_tokens := []\<rparr>"

definition load_node_tokens :: "sqlite_store \<Rightarrow> (string, string) dict" where
  "load_node_tokens s = tbl_node_tokens s"

definition save_node_token :: "string \<Rightarrow> string option \<Rightarrow> sqlite_store \<Rightarrow> sqlite_store" where
  "save_node_token k t s =
     (case t of
        None \<Rightarrow> s\<lparr>tbl_node_tokens := ddel k (tbl_node_tokens s)\<rparr>
      | Some v \<Rightarrow>
          if v = [] then s\<lparr>tbl_node_tokens := ddel k (tbl_node_tokens s)\<rparr>
          else s\<lparr>tbl_node_tokens := dset k v (tbl_node_tokens s)\<rparr>)"

subsection \<open>Credit accounts\<close>

definition account_of_row :: "string \<Rightarrow> account_row \<Rightarrow> credit_account" where
  "account_of_row k r = \<lparr>account_id = k, earned_credits = row_earned_credits r,
     consumed_credits = row_consumed_credits r, updated_at = row_updated_at r\<rparr>"

text \<open>
  Unlike the other tables, a row of this one that does not validate is not skipped: the
  constructor's exception leaves the load.
\<close>

definition load_accounts :: "sqlite_store \<Rightarrow> credit_account list res" where
  "load_accounts s =
     mapM (\<lambda>(k, r).
         if account_valid (account_of_row k r) then Inr (account_of_row k r)
         else Inl (ValueError ''validation error for CreditAccount''))
       (tbl_credit_accounts s)"

text \<open>
  SQLite binds a NaN as \<^verbatim>\<open>NULL\<close>, which the \<^verbatim>\<open>NOT NULL\<close> columns of this table refuse.
\<close>

definition save_account :: "credit_account \<Rightarrow> sqlite_store \<Rightarrow> unit res \<times> sqlite_store" where
  "save_account a s =
     (if earned_credits a = NaN \<or> consumed_credits a = NaN \<or> updated_at a = NaN
      then (Inl (OtherError ''IntegrityError: NOT NULL constraint failed''), s)
      else (Inr (), s\<lparr>tbl_credit_accounts := dset (account_id a)
             \<lparr>row_earned_credits = earned_credits a, row_consumed_credits = consumed_credits a,
              row_updated_at = updated_at a\<rparr> (tbl_credit_accounts s)\<rparr>))"

subsection \<open>Invites\<close>

definition invite_of_row :: "string \<times> invite_row \<Rightarrow> invite_code" where
  "invite_of_row = (\<lambda>(h, r). \<lparr>code_hash = h, label = row_label r, max_uses = row_max_uses r,
      uses = row_uses r, revoked = (row_revoked r \<noteq> 0), created_at = row_created_at r\<rparr>)"

definition load_invites :: "sqlite_store \<Rightarrow> invite_code list" where
  "load_invites s = filter invite_valid (map invite_of_row (tbl_invites s))"

text \<open>The upsert of an existing row leaves its \<^verbatim>\<open>created_at\<close> alone.\<close>

definition save_invite :: "invite_code \<Rightarrow> sqlite_store \<Rightarrow> sqlite_store" where
  "save_invite i s =
     (let r = \<lparr>row_label = label i, row_max_uses = max_uses i, row_uses = uses i,
               row_revoked = (if revoked i then 1 else 0),
               row_created_at = (case dget (tbl_invites s) (code_hash i) of
                   None \<Rightarrow> created_at i | Some old \<Rightarrow> row_created_at old)\<rparr>
      in s\<lparr>tbl_invites := dset (code_hash i) r (tbl_invites s)\<rparr>)"

subsection \<open>Usage\<close>

definition usage_of_row :: "usage_row \<Rightarrow> usage_record" where
  "usage_of_row r = \<lparr>request_id = row_request_id r, tenant_id = row_tenant_id r,
     us_node_id = row_node_id r, us_model = row_model r, prompt_tokens = row_prompt_tokens r,
     completion_tokens = row_completion_tokens r, duration_seconds = row_duration_seconds r,
     succeeded = (row_succeeded r \<noteq> 0), recorded_at = row_recorded_at r\<rparr>"

definition row_of_usage :: "usage_record \<Rightarrow> usage_row" where
  "row_of_usage u = \<lparr>row_request_id = request_id u, row_tenant_id = tenant_id u,
     row_node_id = us_node_id u, row_model = us_model u, row_prompt_tokens = prompt_tokens u,
     row_completion_tokens = completion_tokens u, row_duration_seconds = duration_seconds u,
     row_succeeded = (if succeeded u then 1 else 0), row_recorded_at = recorded_at u\<rparr>"

text \<open>\<^verbatim>\<open>ORDER BY id DESC LIMIT ?\<close>, read back oldest first; SQLite takes a negative limit as none.\<close>

definition load_usage :: "int \<Rightarrow> sqlite_store \<Rightarrow> usage_record list" where
  "load_usage max_rows s =
     (let newest = (if max_rows < 0 then rev (tbl_usage_records s) else take (nat max_rows) (rev (tbl_usage_records s)))
      in filter usage_valid (map usage_of_row (rev newest)))"

definition save_usage :: "usage_record \<Rightarrow> sqlite_store \<Rightarrow> sqlite_store" where
  "save_usage u s = s\<lparr>tbl_usage_records := tbl_usage_records s @ [row_of_usage u]\<rparr>"

section \<open>The store implements the interface\<close>

text \<open>
  What the node table may hold for the interface to be met: every payload under key \<open>k\<close> is the
  text of a node whose identifier is \<open>k\<close>, and pydantic reads back the text it wrote.
\<close>

definition codec_ok :: "(node \<Rightarrow> string) \<Rightarrow> (string \<Rightarrow> node option) \<Rightarrow> node \<Rightarrow> bool" where
  "codec_ok dump validate n = (validate (dump n) = Some n)"

definition store_ok :: "(node \<Rightarrow> string) \<Rightarrow> (string \<Rightarrow> node option) \<Rightarrow> sqlite_store \<Rightarrow> bool" where
  "store_ok dump validate s =
     (dict_ok (tbl_nodes s) \<and> dict_ok (tbl_node_tokens s)
      \<and> (\<forall>(k, p)\<in>set (tbl_nodes s). case validate p of None \<Rightarrow> False | Some n \<Rightarrow> node_id n = k))"

lemma nodes_dict_load:
  assumes "\<forall>(k, p)\<in>set t. case validate p of None \<Rightarrow> False | Some n \<Rightarrow> node_id n = k"
  shows "nodes_dict (List.map_filter (\<lambda>(k, p). validate p) t) = map (\<lambda>(k, p). (k, the (validate p))) t"
  using assms by (induction t) (auto simp: nodes_dict_def List.map_filter_simps split: option.splits)

lemma dset_map_snd: "map (\<lambda>(k, p). (k, f p)) (dset k v t) = dset k (f v) (map (\<lambda>(k, p). (k, f p)) t)"
  by (induction t) auto

lemma ddel_map_snd: "map (\<lambda>(k, p). (k, f p)) (ddel k t) = ddel k (map (\<lambda>(k, p). (k, f p)) t)"
  by (induction t) auto

lemma set_dset_pairs: "set (dset k v d) \<subseteq> insert (k, v) (set d)"
  by (induction d) auto

lemma set_ddel_pairs: "set (ddel k d) \<subseteq> set d"
  by (induction d) auto

lemma store_ok_save:
  "store_ok dump validate s \<Longrightarrow> codec_ok dump validate n \<Longrightarrow> store_ok dump validate (save_node dump n s)"
  using set_dset_pairs [of "node_id n" "dump n" "tbl_nodes s"]
  by (fastforce simp: store_ok_def save_node_def codec_ok_def)

lemma store_ok_delete: "store_ok dump validate s \<Longrightarrow> store_ok dump validate (delete_node k s)"
  using set_ddel_pairs [of k "tbl_nodes s"] by (fastforce simp: store_ok_def delete_node_def)

lemma store_ok_clear: "store_ok dump validate s \<Longrightarrow> store_ok dump validate (clear_nodes s)"
  by (simp add: store_ok_def clear_nodes_def)

lemma store_ok_token: "store_ok dump validate s \<Longrightarrow> store_ok dump validate (save_node_token k t s)"
  by (auto simp: store_ok_def save_node_token_def split: option.splits)

lemma nodes_dict_tbl:
  "store_ok dump validate s \<Longrightarrow>
   nodes_dict (load_nodes validate s) = map (\<lambda>(k, p). (k, the (validate p))) (tbl_nodes s)"
  by (simp add: store_ok_def load_nodes_def nodes_dict_load)

lemma nodes_dict_save:
  assumes "store_ok dump validate s" "codec_ok dump validate n"
  shows "nodes_dict (load_nodes validate (save_node dump n s))
     = dset (node_id n) n (nodes_dict (load_nodes validate s))"
proof -
  have "nodes_dict (load_nodes validate (save_node dump n s))
     = dset (node_id n) (the (validate (dump n))) (map (\<lambda>(k, p). (k, the (validate p))) (tbl_nodes s))"
    using nodes_dict_tbl [OF store_ok_save [OF assms]] by (simp add: save_node_def dset_map_snd)
  then show ?thesis using assms by (simp add: nodes_dict_tbl codec_ok_def)
qed

lemma nodes_dict_delete:
  assumes "store_ok dump validate s"
  shows "nodes_dict (load_nodes validate (delete_node k s)) = ddel k (nodes_dict (load_nodes validate s))"
  using nodes_dict_tbl [OF store_ok_delete [OF assms, of k]] nodes_dict_tbl [OF assms]
  by (simp add: delete_node_def ddel_map_snd)

interpretation sqlite: scheduler_store "load_nodes validate" "save_node dump" delete_node clear_nodes
  load_node_tokens save_node_token "store_ok dump validate" "codec_ok dump validate"
  for dump :: "node \<Rightarrow> string" and validate :: "string \<Rightarrow> node option"
proof (unfold_locales, goal_cases)
  case (1 s n) then show ?case by (rule nodes_dict_save)
next
  case (2 s k) then show ?case by (rule nodes_dict_delete)
next
  case (3 s) show ?case by (simp add: load_nodes_def clear_nodes_def List.map_filter_simps)
next
  case (4 s k t) show ?case
    by (auto simp: load_nodes_def save_node_token_def split: option.splits)
next
  case (5 s n) show ?case by (simp add: load_node_tokens_def save_node_def)
next
  case (6 s k) show ?case by (simp add: load_node_tokens_def delete_node_def)
next
  case (7 s) show ?case by (simp add: load_node_tokens_def clear_nodes_def)
next
  case (8 s k t) show ?case
    by (auto simp: load_node_tokens_def save_node_token_def split: option.splits)
next
  case (9 s n) then show ?case by (rule store_ok_save)
next
  case (10 s k) then show ?case by (rule store_ok_delete)
next
  case (11 s) then show ?case by (rule store_ok_clear)
next
  case (12 s k t) then show ?case by (rule store_ok_token)
qed

section \<open>Round trips of the other tables\<close>

lemma usage_of_row_of_usage [simp]: "usage_of_row (row_of_usage u) = u"
  by (simp add: usage_of_row_def row_of_usage_def)

lemma load_usage_tail:
  assumes "0 < max_rows" "\<forall>u\<in>set us. usage_valid u" "tbl_usage_records s = map row_of_usage us"
  shows "load_usage max_rows s = slice_from_neg max_rows us"
proof -
  have "rev (take (nat max_rows) (rev (tbl_usage_records s))) = slice_from_neg max_rows (tbl_usage_records s)"
    using assms(1) by (simp add: rev_take slice_from_neg_def)
  moreover have "slice_from_neg max_rows (tbl_usage_records s) = map row_of_usage (slice_from_neg max_rows us)"
    using assms(1) by (simp add: assms(3) slice_from_neg_def drop_map)
  moreover have "filter usage_valid (slice_from_neg max_rows us) = slice_from_neg max_rows us"
    using assms(2) set_slice_from_neg [of max_rows us] by (auto simp: filter_id_conv)
  ultimately show ?thesis using assms(1) by (simp add: load_usage_def Let_def comp_def)
qed

lemma map_of_keyed: "map_of (map (\<lambda>(k, r). (k, g k r)) t) k = map_option (g k) (map_of t k)"
  by (induction t) auto

text \<open>The credit table read as a dictionary of accounts.\<close>

definition accounts_view :: "sqlite_store \<Rightarrow> (string, credit_account) dict" where
  "accounts_view s = map (\<lambda>(k, r). (k, account_of_row k r)) (tbl_credit_accounts s)"

lemma mapM_guarded:
  "(\<forall>x\<in>set xs. p x) \<Longrightarrow> mapM (\<lambda>x. if p x then Inr (f x) else Inl (e x)) xs = Inr (map f xs)"
  by (induction xs) auto

lemma load_accounts_view:
  assumes "\<forall>(k, a)\<in>set (accounts_view s). account_valid a"
  shows "load_accounts s = Inr (map snd (accounts_view s))"
proof -
  let ?p = "\<lambda>x. account_valid (account_of_row (fst x) (snd x))"
  have "\<forall>x\<in>set (tbl_credit_accounts s). ?p x"
    using assms by (auto simp: accounts_view_def)
  from mapM_guarded [OF this, of "\<lambda>x. account_of_row (fst x) (snd x)"] show ?thesis
    by (simp add: load_accounts_def accounts_view_def split_def comp_def)
qed

lemma accounts_view_save:
  assumes "save_account a s = (Inr (), s')"
  shows "accounts_view s' = dset (account_id a) a (accounts_view s)"
proof -
  let ?r = "\<lparr>row_earned_credits = earned_credits a, row_consumed_credits = consumed_credits a,
              row_updated_at = updated_at a\<rparr>"
  have "map (\<lambda>(k, r). (k, account_of_row k r)) (dset (account_id a) ?r t)
      = dset (account_id a) a (map (\<lambda>(k, r). (k, account_of_row k r)) t)" for t
    by (induction t) (auto simp: account_of_row_def)
  then show ?thesis using assms by (auto simp: save_account_def accounts_view_def split: if_splits)
qed

end
