(* ===== verification/Registry.thy ===== *)
theory Registry
  imports Persistence
begin

text \<open>
  \<^verbatim>\<open>NodeRegistry\<close> (\<^verbatim>\<open>scheduler/registry/node_registry.py\<close>): six in-memory structures keyed by
  node identifier and an optional durable store. Every method holds one lock for its whole
  body (or touches a single dictionary entry without awaiting), so each is one atomic step on
  the record \<open>registry\<close>. A method that can raise returns its result together with the state.
\<close>

section \<open>State and operations\<close>

record registry =
  reg_store :: "sqlite_store option"
  reg_nodes :: "(string, node) dict"
  reg_heartbeats :: "(string, heartbeat) dict"
  reg_dampeners :: "(string, pyfloat) dict"
  reg_telemetry :: "(string, jobj) dict"
  reg_node_tokens :: "(string, string) dict"
  reg_mesh_nodes :: "string set"

definition init_registry :: "sqlite_store option \<Rightarrow> registry" where
  "init_registry st = \<lparr>reg_store = st, reg_nodes = [], reg_heartbeats = [], reg_dampeners = [],
     reg_telemetry = [], reg_node_tokens = [], reg_mesh_nodes = {}\<rparr>"

definition write_store :: "(sqlite_store \<Rightarrow> sqlite_store) \<Rightarrow> registry \<Rightarrow> registry" where
  "write_store f r = r\<lparr>reg_store := map_option f (reg_store r)\<rparr>"

definition load_registry :: "(string \<Rightarrow> node option) \<Rightarrow> registry \<Rightarrow> registry" where
  "load_registry validate r =
     (case reg_store r of
        None \<Rightarrow> r
      | Some s \<Rightarrow>
          r\<lparr>reg_nodes := fold (\<lambda>n. dset (node_id n) n) (load_nodes validate s) (reg_nodes r),
            reg_dampeners := fold (\<lambda>n. dset (node_id n) (Fin 0)) (load_nodes validate s) (reg_dampeners r),
            reg_node_tokens := fold (\<lambda>(k, t). dset k t) (load_node_tokens s) (reg_node_tokens r)\<rparr>)"

definition set_node_token :: "string \<Rightarrow> string option \<Rightarrow> registry \<Rightarrow> registry" where
  "set_node_token k t r =
     write_store (save_node_token k t)
       (case t of
          None \<Rightarrow> r\<lparr>reg_node_tokens := ddel k (reg_node_tokens r), reg_mesh_nodes := reg_mesh_nodes r - {k}\<rparr>
        | Some v \<Rightarrow>
            if v = [] then r\<lparr>reg_node_tokens := ddel k (reg_node_tokens r), reg_mesh_nodes := reg_mesh_nodes r - {k}\<rparr>
            else r\<lparr>reg_node_tokens := dset k v (reg_node_tokens r)\<rparr>)"

definition get_node_token :: "string \<Rightarrow> registry \<Rightarrow> string option" where
  "get_node_token k r = dget (reg_node_tokens r) k"

definition mark_mesh_reachable :: "string \<Rightarrow> registry \<Rightarrow> registry" where
  "mark_mesh_reachable k r = r\<lparr>reg_mesh_nodes := insert k (reg_mesh_nodes r)\<rparr>"

definition is_mesh_reachable :: "string \<Rightarrow> registry \<Rightarrow> bool" where
  "is_mesh_reachable k r = (k \<in> reg_mesh_nodes r)"

definition not_found :: "string \<Rightarrow> exc" where
  "not_found k = ValueError (''Node not found: '' @ k)"

definition local_register :: "(node \<Rightarrow> string) \<Rightarrow> node \<Rightarrow> registry \<Rightarrow> unit res \<times> registry" where
  "local_register dump n r =
     (if dmem (node_id n) (reg_nodes r)
      then (Inl (ValueError (''Node already registered: '' @ node_id n)), r)
      else (Inr (), write_store (save_node dump n)
              (r\<lparr>reg_nodes := dset (node_id n) n (reg_nodes r),
                 reg_dampeners := dset (node_id n) (Fin 0) (reg_dampeners r)\<rparr>)))"

definition register :: "(node \<Rightarrow> string) \<Rightarrow> node \<Rightarrow> registry \<Rightarrow> unit res \<times> registry" where
  "register dump n r = local_register dump n r"

text \<open>The six \<^verbatim>\<open>pop\<close>s and the store write both ways of leaving share.\<close>

definition drop_node :: "string \<Rightarrow> registry \<Rightarrow> registry" where
  "drop_node k r =
     write_store (delete_node k)
       (r\<lparr>reg_nodes := ddel k (reg_nodes r), reg_heartbeats := ddel k (reg_heartbeats r),
          reg_dampeners := ddel k (reg_dampeners r), reg_telemetry := ddel k (reg_telemetry r),
          reg_node_tokens := ddel k (reg_node_tokens r), reg_mesh_nodes := reg_mesh_nodes r - {k}\<rparr>)"

definition local_unregister :: "string \<Rightarrow> registry \<Rightarrow> unit res \<times> registry" where
  "local_unregister k r =
     (if \<not> dmem k (reg_nodes r) then (Inl (not_found k), r) else (Inr (), drop_node k r))"

definition unregister :: "string \<Rightarrow> registry \<Rightarrow> unit res \<times> registry" where
  "unregister k r = local_unregister k r"

definition registry_get :: "string \<Rightarrow> registry \<Rightarrow> node option" where
  "registry_get k r = dget (reg_nodes r) k"

definition registry_list :: "registry \<Rightarrow> node list" where
  "registry_list r = dvals (reg_nodes r)"

definition snapshot :: "registry \<Rightarrow> (node \<times> heartbeat option) list" where
  "snapshot r = map (\<lambda>(k, n). (n, dget (reg_heartbeats r) k)) (reg_nodes r)"

definition update_node :: "(node \<Rightarrow> string) \<Rightarrow> node \<Rightarrow> registry \<Rightarrow> unit res \<times> registry" where
  "update_node dump n r =
     (if \<not> dmem (node_id n) (reg_nodes r) then (Inl (not_found (node_id n)), r)
      else (Inr (), write_store (save_node dump n) (r\<lparr>reg_nodes := dset (node_id n) n (reg_nodes r)\<rparr>)))"

definition set_available_models ::
    "(node \<Rightarrow> string) \<Rightarrow> string \<Rightarrow> string list \<Rightarrow> registry \<Rightarrow> unit res \<times> registry" where
  "set_available_models dump k models r =
     (case dget (reg_nodes r) k of
        None \<Rightarrow> (Inl (not_found k), r)
      | Some n \<Rightarrow>
          let updated = n\<lparr>available_models := models\<rparr>
          in (Inr (), write_store (save_node dump updated) (r\<lparr>reg_nodes := dset k updated (reg_nodes r)\<rparr>)))"

definition registry_exists :: "string \<Rightarrow> registry \<Rightarrow> bool" where
  "registry_exists k r = dmem k (reg_nodes r)"

definition clear_registry :: "registry \<Rightarrow> registry" where
  "clear_registry r =
     write_store clear_nodes
       (r\<lparr>reg_nodes := [], reg_heartbeats := [], reg_dampeners := [], reg_telemetry := [],
          reg_node_tokens := [], reg_mesh_nodes := {}\<rparr>)"

definition registry_count :: "registry \<Rightarrow> nat" where
  "registry_count r = length (reg_nodes r)"

definition update_heartbeat :: "heartbeat \<Rightarrow> registry \<Rightarrow> unit res \<times> registry" where
  "update_heartbeat h r =
     (if \<not> dmem (hb_node_id h) (reg_nodes r) then (Inl (not_found (hb_node_id h)), r)
      else (Inr (), r\<lparr>reg_heartbeats := dset (hb_node_id h) h (reg_heartbeats r),
                      reg_dampeners := dset (hb_node_id h) (Fin 0) (reg_dampeners r)\<rparr>))"

definition get_heartbeat :: "string \<Rightarrow> registry \<Rightarrow> heartbeat option" where
  "get_heartbeat k r = dget (reg_heartbeats r) k"

definition get_dampener :: "string \<Rightarrow> registry \<Rightarrow> pyfloat" where
  "get_dampener k r = dget_or (reg_dampeners r) k (Fin 0)"

definition increment_dampener :: "string \<Rightarrow> registry \<Rightarrow> unit res \<times> registry" where
  "increment_dampener k r =
     (if \<not> dmem k (reg_nodes r) then (Inl (not_found k), r)
      else (Inr (), r\<lparr>reg_dampeners :=
              dset k (fadd (dget_or (reg_dampeners r) k (Fin 0)) (lit (1 / 10))) (reg_dampeners r)\<rparr>))"

definition local_unregister_node :: "string \<Rightarrow> registry \<Rightarrow> bool \<times> registry" where
  "local_unregister_node k r = (dmem k (reg_nodes r), drop_node k r)"

definition unregister_node :: "string \<Rightarrow> registry \<Rightarrow> bool \<times> registry" where
  "unregister_node k r = local_unregister_node k r"

section \<open>The well-formedness invariant\<close>

text \<open>
  Keys are unique, a node is stored under its own identifier, and every observation (heartbeat,
  dampener, telemetry, mesh reachability) belongs to a registered node. A dampener is a
  non-negative double, a stored credential is not empty.
\<close>

definition reg_inv :: "registry \<Rightarrow> bool" where
  "reg_inv r \<longleftrightarrow>
     dict_ok (reg_nodes r) \<and> dict_ok (reg_heartbeats r) \<and> dict_ok (reg_dampeners r)
   \<and> dict_ok (reg_telemetry r) \<and> dict_ok (reg_node_tokens r)
   \<and> (\<forall>k n. dget (reg_nodes r) k = Some n \<longrightarrow> node_id n = k)
   \<and> (\<forall>k h. dget (reg_heartbeats r) k = Some h \<longrightarrow> hb_node_id h = k)
   \<and> (\<forall>k. dmem k (reg_heartbeats r) \<longrightarrow> dmem k (reg_nodes r))
   \<and> (\<forall>k. dmem k (reg_dampeners r) \<longleftrightarrow> dmem k (reg_nodes r))
   \<and> (\<forall>k. dmem k (reg_telemetry r) \<longrightarrow> dmem k (reg_nodes r))
   \<and> (\<forall>k\<in>reg_mesh_nodes r. dmem k (reg_nodes r))
   \<and> (\<forall>k d. dget (reg_dampeners r) k = Some d \<longrightarrow> nonneg d \<and> dbl d)
   \<and> (\<forall>k t. dget (reg_node_tokens r) k = Some t \<longrightarrow> t \<noteq> [])"

lemma write_store_fields [reg_simps, simp]:
  "reg_nodes (write_store f r) = reg_nodes r"
  "reg_heartbeats (write_store f r) = reg_heartbeats r"
  "reg_dampeners (write_store f r) = reg_dampeners r"
  "reg_telemetry (write_store f r) = reg_telemetry r"
  "reg_node_tokens (write_store f r) = reg_node_tokens r"
  "reg_mesh_nodes (write_store f r) = reg_mesh_nodes r"
  "reg_store (write_store f r) = map_option f (reg_store r)"
  by (simp_all add: write_store_def)

lemma reg_inv_write_store [simp]: "reg_inv (write_store f r) = reg_inv r"
  by (simp add: reg_inv_def)

lemma reg_inv_init: "reg_inv (init_registry st)"
  by (simp add: reg_inv_def init_registry_def)

lemma reg_inv_register: "reg_inv r \<Longrightarrow> reg_inv (snd (local_register dump n r))"
  by (simp add: local_register_def reg_inv_def dict_simps)

lemma reg_inv_drop: "reg_inv r \<Longrightarrow> reg_inv (drop_node k r)"
  unfolding drop_node_def reg_inv_write_store by (simp add: reg_inv_def dict_simps)

lemma reg_inv_unregister: "reg_inv r \<Longrightarrow> reg_inv (snd (local_unregister k r))"
  by (simp add: local_unregister_def reg_inv_drop)

lemma reg_inv_update: "reg_inv r \<Longrightarrow> reg_inv (snd (update_node dump n r))"
  by (auto simp: update_node_def reg_inv_def dict_simps)

lemma reg_inv_models: "reg_inv r \<Longrightarrow> reg_inv (snd (set_available_models dump k ms r))"
  by (cases "dget (reg_nodes r) k")
    (auto simp: set_available_models_def Let_def reg_inv_def dict_simps dest: dmem_SomeI)

lemma reg_inv_token: "reg_inv r \<Longrightarrow> reg_inv (set_node_token k t r)"
  unfolding set_node_token_def reg_inv_write_store
  by (cases t) (simp_all add: reg_inv_def dict_simps)

lemma reg_inv_clear: "reg_inv (clear_registry r)"
  unfolding clear_registry_def reg_inv_write_store by (simp add: reg_inv_def)

lemma reg_inv_heartbeat: "reg_inv r \<Longrightarrow> reg_inv (snd (update_heartbeat h r))"
  by (auto simp: update_heartbeat_def reg_inv_def dict_simps)

lemma reg_inv_dampener: "reg_inv r \<Longrightarrow> reg_inv (snd (increment_dampener k r))"
proof -
  assume inv: "reg_inv r"
  have "nonneg (dget_or (reg_dampeners r) k (Fin 0))"
    using inv by (auto simp: reg_inv_def dget_or_def split: option.splits)
  then have "nonneg (fadd (dget_or (reg_dampeners r) k (Fin 0)) (lit (1 / 10)))"
    by (rule nonneg_fadd) (simp add: lit_tenth)
  then show ?thesis using inv by (auto simp: increment_dampener_def reg_inv_def dict_simps)
qed

lemma reg_inv_mark: "reg_inv r \<Longrightarrow> registry_exists k r \<Longrightarrow> reg_inv (mark_mesh_reachable k r)"
  by (simp add: mark_mesh_reachable_def reg_inv_def registry_exists_def)

lemma reg_inv_telemetry:
  "reg_inv r \<Longrightarrow> registry_exists k r \<Longrightarrow> reg_inv (r\<lparr>reg_telemetry := dset k d (reg_telemetry r)\<rparr>)"
  by (auto simp: reg_inv_def registry_exists_def dict_simps)

lemmas reg_inv_ops =
  reg_inv_init reg_inv_register reg_inv_drop reg_inv_unregister reg_inv_update reg_inv_models
  reg_inv_token reg_inv_clear reg_inv_heartbeat reg_inv_dampener reg_inv_mark reg_inv_telemetry

section \<open>Sequences of operations\<close>

datatype reg_op =
    Register node
  | Unregister string
  | Update node
  | SetModels string "string list"
  | SetToken string "string option"
  | Clear
  | UpdateHeartbeat heartbeat
  | IncrementDampener string
  | UnregisterNode string

fun reg_step :: "(node \<Rightarrow> string) \<Rightarrow> reg_op \<Rightarrow> registry \<Rightarrow> registry" where
  "reg_step dump (Register n) r = snd (register dump n r)"
| "reg_step dump (Unregister k) r = snd (unregister k r)"
| "reg_step dump (Update n) r = snd (update_node dump n r)"
| "reg_step dump (SetModels k ms) r = snd (set_available_models dump k ms r)"
| "reg_step dump (SetToken k t) r = set_node_token k t r"
| "reg_step dump Clear r = clear_registry r"
| "reg_step dump (UpdateHeartbeat h) r = snd (update_heartbeat h r)"
| "reg_step dump (IncrementDampener k) r = snd (increment_dampener k r)"
| "reg_step dump (UnregisterNode k) r = snd (unregister_node k r)"

definition reg_run :: "(node \<Rightarrow> string) \<Rightarrow> reg_op list \<Rightarrow> registry \<Rightarrow> registry" where
  "reg_run dump ops r = fold (reg_step dump) ops r"

lemma reg_inv_step: "reg_inv r \<Longrightarrow> reg_inv (reg_step dump op r)"
  by (cases op) (simp_all add: register_def unregister_def unregister_node_def
      local_unregister_node_def reg_inv_ops)

lemma reg_inv_run: "reg_inv r \<Longrightarrow> reg_inv (reg_run dump ops r)"
  unfolding reg_run_def by (induction ops arbitrary: r) (simp_all add: reg_inv_step)

subsection \<open>Memory and store move together\<close>

text \<open>The writes an operation performs, in the state it runs in.\<close>

fun op_writes :: "reg_op \<Rightarrow> registry \<Rightarrow> node_write list" where
  "op_writes (Register n) r = (if dmem (node_id n) (reg_nodes r) then [] else [PutNode n])"
| "op_writes (Unregister k) r = (if dmem k (reg_nodes r) then [DropNode k] else [])"
| "op_writes (Update n) r = (if dmem (node_id n) (reg_nodes r) then [PutNode n] else [])"
| "op_writes (SetModels k ms) r =
     (case dget (reg_nodes r) k of None \<Rightarrow> [] | Some n \<Rightarrow> [PutNode (n\<lparr>available_models := ms\<rparr>)])"
| "op_writes (SetToken k t) r = [PutToken k t]"
| "op_writes Clear r = [DropAll]"
| "op_writes (UnregisterNode k) r = [DropNode k]"
| "op_writes _ r = []"

lemma step_memory:
  assumes "reg_inv r"
  shows "(reg_nodes (reg_step dump op r), reg_node_tokens (reg_step dump op r))
     = fold mem_write (op_writes op r) (reg_nodes r, reg_node_tokens r)"
  using assms
  by (cases op) (auto simp: register_def unregister_def unregister_node_def local_register_def
      local_unregister_def local_unregister_node_def drop_node_def update_node_def
      set_available_models_def set_node_token_def clear_registry_def update_heartbeat_def
      increment_dampener_def reg_inv_def Let_def split: option.splits)

lemma step_store:
  "reg_store (reg_step dump op r) = map_option (fold (sqlite.store_write dump) (op_writes op r)) (reg_store r)"
  by (cases op; cases "reg_store r")
    (auto simp: register_def unregister_def unregister_node_def local_register_def
      local_unregister_def local_unregister_node_def drop_node_def update_node_def
      set_available_models_def set_node_token_def clear_registry_def update_heartbeat_def
      increment_dampener_def Let_def split: option.splits)

text \<open>
  The store text round-trips for nodes whose measurements are finite (JSON has no infinity or
  NaN); \<open>op_finite\<close> restricts an operation to such nodes.
\<close>

definition node_finite :: "node \<Rightarrow> bool" where
  "node_finite n = (finite_float (vram_total_gb (gpu n)) \<and> finite_float (vram_available_gb (gpu n))
      \<and> finite_float (ram_total_gb n))"

fun op_finite :: "reg_op \<Rightarrow> bool" where
  "op_finite (Register n) = node_finite n"
| "op_finite (Update n) = node_finite n"
| "op_finite _ = True"

definition coherent :: "(node \<Rightarrow> string) \<Rightarrow> (string \<Rightarrow> node option) \<Rightarrow> registry \<Rightarrow> bool" where
  "coherent dump validate r \<longleftrightarrow>
     reg_inv r \<and> (\<forall>k n. dget (reg_nodes r) k = Some n \<longrightarrow> node_finite n)
   \<and> (\<exists>s. reg_store r = Some s \<and> store_ok dump validate s
        \<and> sqlite.view validate s = (reg_nodes r, reg_node_tokens r))"

lemma node_finite_models [simp]: "node_finite (n\<lparr>available_models := ms\<rparr>) = node_finite n"
  by (simp add: node_finite_def)

lemma step_finite:
  assumes "op_finite op" "\<forall>k n. dget (reg_nodes r) k = Some n \<longrightarrow> node_finite n"
  shows "\<forall>k n. dget (reg_nodes (reg_step dump op r)) k = Some n \<longrightarrow> node_finite n"
  using assms
  by (cases op) (auto simp: register_def unregister_def unregister_node_def local_register_def
      local_unregister_def local_unregister_node_def drop_node_def update_node_def
      set_available_models_def set_node_token_def clear_registry_def update_heartbeat_def
      increment_dampener_def Let_def dict_simps split: option.splits if_splits)

lemma writes_storable:
  assumes "\<forall>n. node_finite n \<longrightarrow> codec_ok dump validate n" "op_finite op"
    "\<forall>k n. dget (reg_nodes r) k = Some n \<longrightarrow> node_finite n"
  shows "list_all (write_ok (codec_ok dump validate)) (op_writes op r)"
  using assms by (cases op) (auto split: option.splits)

lemma coherent_step:
  assumes codec: "\<forall>n. node_finite n \<longrightarrow> codec_ok dump validate n"
    and "coherent dump validate r" "op_finite op"
  shows "coherent dump validate (reg_step dump op r)"
proof -
  from assms(2) obtain s where s: "reg_inv r" "\<forall>k n. dget (reg_nodes r) k = Some n \<longrightarrow> node_finite n"
    "reg_store r = Some s" "store_ok dump validate s"
    "sqlite.view validate s = (reg_nodes r, reg_node_tokens r)"
    by (auto simp: coherent_def)
  let ?ws = "op_writes op r"
  have ok: "list_all (write_ok (codec_ok dump validate)) ?ws" using codec assms(3) s(2) by (rule writes_storable)
  note v = sqlite.view_writes [OF s(4) ok]
  have "sqlite.view validate (fold (sqlite.store_write dump) ?ws s)
      = (reg_nodes (reg_step dump op r), reg_node_tokens (reg_step dump op r))"
    using v s(5) step_memory [OF s(1), of dump op] by simp
  moreover have "reg_store (reg_step dump op r) = Some (fold (sqlite.store_write dump) ?ws s)"
    by (simp add: step_store s(3))
  ultimately show ?thesis
    using v reg_inv_step [OF s(1)] step_finite [OF assms(3) s(2)] by (auto simp: coherent_def)
qed

lemma coherent_run:
  assumes "\<forall>n. node_finite n \<longrightarrow> codec_ok dump validate n"
  shows "coherent dump validate r \<Longrightarrow> list_all op_finite ops \<Longrightarrow> coherent dump validate (reg_run dump ops r)"
  unfolding reg_run_def by (induction ops arbitrary: r) (simp_all add: coherent_step [OF assms])

lemma coherent_init: "coherent dump validate (init_registry (Some empty_store))"
  by (simp add: coherent_def reg_inv_init, simp add: init_registry_def store_ok_def empty_store_def
      sqlite.view_def load_nodes_def load_node_tokens_def List.map_filter_simps)

lemma fold_dset_nodes:
  assumes "dict_ok (nodes_dict ns)"
  shows "fold (\<lambda>n. dset (node_id n) n) ns [] = nodes_dict ns"
    and "fold (\<lambda>n. dset (node_id n) v) ns [] = map (\<lambda>(k, n). (k, v)) (nodes_dict ns)"
proof -
  have "fold (\<lambda>n. dset (node_id n) n) ns [] = fold (\<lambda>(k, n). dset k n) (nodes_dict ns) []"
    by (simp add: nodes_dict_def fold_map comp_def)
  then show "fold (\<lambda>n. dset (node_id n) n) ns [] = nodes_dict ns"
    using fold_dset_pairs [of "[]" "nodes_dict ns"] assms by simp
  let ?e = "map (\<lambda>(k, n). (k, v)) (nodes_dict ns)"
  have "fold (\<lambda>n. dset (node_id n) v) ns [] = fold (\<lambda>(k, n). dset k n) ?e []"
    by (simp add: nodes_dict_def fold_map comp_def)
  moreover have "dict_ok ?e" using assms by (simp add: nodes_dict_def comp_def)
  ultimately show "fold (\<lambda>n. dset (node_id n) v) ns [] = ?e"
    using fold_dset_pairs [of "[]" ?e] by simp
qed

lemma load_coherent:
  assumes "coherent dump validate r"
  shows "load_registry validate (init_registry (reg_store r))
     = \<lparr>reg_store = reg_store r, reg_nodes = reg_nodes r, reg_heartbeats = [],
        reg_dampeners = map (\<lambda>(k, n). (k, Fin 0)) (reg_nodes r), reg_telemetry = [],
        reg_node_tokens = reg_node_tokens r, reg_mesh_nodes = {}\<rparr>"
proof -
  from assms obtain s where s: "reg_inv r" "reg_store r = Some s"
    "nodes_dict (load_nodes validate s) = reg_nodes r" "load_node_tokens s = reg_node_tokens r"
    by (auto simp: coherent_def sqlite.view_def)
  have d: "dict_ok (nodes_dict (load_nodes validate s))" "dict_ok (reg_node_tokens r)"
    using s by (auto simp: reg_inv_def)
  show ?thesis
    using fold_dset_nodes [OF d(1)] fold_dset_pairs [of "[]" "reg_node_tokens r"] d s
    by (simp add: load_registry_def init_registry_def)
qed

section \<open>A store text for nodes\<close>

text \<open>
  A concrete pair of node printer and parser that satisfies the round trip the restart theorem
  asks of pydantic: nodes are numbered (their type is countable) and written in unary.
\<close>

definition node_tuple :: "node \<Rightarrow> string \<times> string \<times> string \<times> string \<times> (string \<times> pyfloat \<times> pyfloat) \<times> int \<times> pyfloat \<times> string list" where
  "node_tuple n = (node_id n, hostname n, ip_address n, region n,
     (gpu_name (gpu n), vram_total_gb (gpu n), vram_available_gb (gpu n)), cpu_cores n, ram_total_gb n, available_models n)"

definition tuple_node :: "string \<times> string \<times> string \<times> string \<times> (string \<times> pyfloat \<times> pyfloat) \<times> int \<times> pyfloat \<times> string list \<Rightarrow> node" where
  "tuple_node = (\<lambda>(i, h, a, rg, (g, vt, va), c, m, ms).
     \<lparr>node_id = i, hostname = h, ip_address = a, region = rg,
      gpu = \<lparr>gpu_name = g, vram_total_gb = vt, vram_available_gb = va\<rparr>, cpu_cores = c,
      ram_total_gb = m, available_models = ms\<rparr>)"

definition unary_dump :: "node \<Rightarrow> string" where
  "unary_dump n = replicate (to_nat (node_tuple n)) (CHR ''1'')"

definition unary_validate :: "string \<Rightarrow> node option" where
  "unary_validate s = Some (tuple_node (from_nat (length s)))"

lemma unary_codec: "codec_ok unary_dump unary_validate n"
  by (simp add: codec_ok_def unary_dump_def unary_validate_def node_tuple_def tuple_node_def)

definition sample_node :: "string \<Rightarrow> node" where
  "sample_node k = \<lparr>node_id = k, hostname = ''h'', ip_address = ''10.0.0.1'', region = ''eu'',
     gpu = \<lparr>gpu_name = ''g'', vram_total_gb = Fin 8, vram_available_gb = Fin 6\<rparr>, cpu_cores = 4,
     ram_total_gb = Fin 16, available_models = [''m'']\<rparr>"

section \<open>Properties\<close>

text \<open>
  Memory and store never part ways: start with an empty database file, apply any sequence of
  registry operations (failing ones included), and restart. The loaded registry has exactly the
  nodes and credentials that were in memory, in the same order, with dampeners back at zero and
  without heartbeats, telemetry or mesh reachability; and the well-formedness invariant held
  throughout. The hypothesis is that pydantic reads back the JSON text it wrote for a node whose
  measurements are finite.
\<close>

theorem registry_restart:
  assumes "\<forall>n. node_finite n \<longrightarrow> codec_ok dump validate n" "list_all op_finite ops"
    "r = reg_run dump ops (init_registry (Some empty_store))"
  shows "reg_inv r \<and> load_registry validate (init_registry (reg_store r))
     = \<lparr>reg_store = reg_store r, reg_nodes = reg_nodes r, reg_heartbeats = [],
        reg_dampeners = map (\<lambda>(k, n). (k, Fin 0)) (reg_nodes r), reg_telemetry = [],
        reg_node_tokens = reg_node_tokens r, reg_mesh_nodes = {}\<rparr>"
proof -
  have "coherent dump validate r" using coherent_run [OF assms(1) coherent_init assms(2)] assms(3) by simp
  then show ?thesis using load_coherent by (auto simp: coherent_def)
qed

theorem registry_restart_witness:
  "reg_inv (reg_run unary_dump [Register (sample_node ''a''), SetToken ''a'' (Some ''t''), Unregister ''b'']
      (init_registry (Some empty_store)))"
  using registry_restart [OF _ _ refl, of unary_dump unary_validate
      "[Register (sample_node ''a''), SetToken ''a'' (Some ''t''), Unregister ''b'']"]
  by (simp add: unary_codec node_finite_def sample_node_def dbl_rat_numeral)

text \<open>
  Leaving leaves no trace: after \<^verbatim>\<open>unregister_node\<close> (the self-eviction path, which does not
  require the node to be known) nothing the registry keeps mentions the node, its credential and
  mesh reachability included; it reports whether the node was there; every other node is
  untouched; and registering the identifier again succeeds and starts from a clean state.
\<close>

theorem unregister_leaves_no_trace:
  assumes "unregister_node k r = (found, r')"
  shows "found = registry_exists k r \<and> registry_get k r' = None \<and> get_heartbeat k r' = None
    \<and> get_node_token k r' = None \<and> get_dampener k r' = Fin 0 \<and> dget (reg_telemetry r') k = None
    \<and> \<not> is_mesh_reachable k r'
    \<and> (\<forall>j. j \<noteq> k \<longrightarrow> registry_get j r' = registry_get j r \<and> get_heartbeat j r' = get_heartbeat j r
        \<and> get_node_token j r' = get_node_token j r \<and> get_dampener j r' = get_dampener j r
        \<and> is_mesh_reachable j r' = is_mesh_reachable j r)
    \<and> (node_id n = k \<longrightarrow> fst (register dump n r') = Inr ())"
  using assms
  by (auto simp: unregister_node_def local_unregister_node_def drop_node_def registry_exists_def registry_get_def
      get_heartbeat_def get_node_token_def get_dampener_def dget_or_def is_mesh_reachable_def register_def
      local_register_def dict_simps)

theorem unregister_leaves_no_trace_witness:
  "\<not> is_mesh_reachable ''a'' (snd (unregister_node ''a'' (mark_mesh_reachable ''a'' (init_registry None))))"
  using unregister_leaves_no_trace [OF surjective_pairing, of "''a''" "mark_mesh_reachable ''a'' (init_registry None)"]
  by blast

end
