(* ===== verification/Invites.thy ===== *)
theory Invites
  imports Persistence
begin

text \<open>
  \<^verbatim>\<open>InviteRegistry\<close> (\<^verbatim>\<open>scheduler/core/invites.py\<close>): the invite codes that admit nodes. Only hashes are
  kept; SHA-256 is the argument \<open>sha256\<close> of the operations, and the random code of \<^verbatim>\<open>issue\<close> and the
  clock are arguments too. Nothing here needs the hash to be injective.
\<close>

section \<open>State and operations\<close>

record invites =
  inv_invites :: "(string, invite_code) dict"
  inv_store :: "sqlite_store option"

definition init_invites :: "sqlite_store option \<Rightarrow> invites" where
  "init_invites st = \<lparr>inv_invites = [], inv_store = st\<rparr>"

definition hash_code :: "(string \<Rightarrow> string) \<Rightarrow> string \<Rightarrow> string" where
  "hash_code sha256 code = sha256 code"

definition load_invite_registry :: "invites \<Rightarrow> invites" where
  "load_invite_registry v =
     (case inv_store v of
        None \<Rightarrow> v
      | Some s \<Rightarrow> v\<lparr>inv_invites := fold (\<lambda>i. dset (code_hash i) i) (load_invites s) (inv_invites v)\<rparr>)"

definition enforcing :: "invites \<Rightarrow> bool" where
  "enforcing v = (inv_invites v \<noteq> [])"

text \<open>An invite that was created or changed: it is in memory, then it is saved.\<close>

definition put_invite :: "invite_code \<Rightarrow> invites \<Rightarrow> invites" where
  "put_invite i v = v\<lparr>inv_invites := dset (code_hash i) i (inv_invites v),
     inv_store := map_option (save_invite i) (inv_store v)\<rparr>"

definition issue :: "(string \<Rightarrow> string) \<Rightarrow> string \<Rightarrow> string \<Rightarrow> int \<Rightarrow> pyfloat \<Rightarrow> invites
    \<Rightarrow> (string \<times> invite_code) res \<times> invites" where
  "issue sha256 code lbl n now v =
     (let i = \<lparr>code_hash = hash_code sha256 code, label = lbl, max_uses = n, uses = 0,
               revoked = False, created_at = now\<rparr>
      in if invite_valid i then (Inr (code, i), put_invite i v)
         else (Inl (ValueError ''validation error for InviteCode''), v))"

definition verify :: "(string \<Rightarrow> string) \<Rightarrow> string option \<Rightarrow> invites \<Rightarrow> invite_code option" where
  "verify sha256 code v =
     (case code of
        None \<Rightarrow> None
      | Some c \<Rightarrow>
          if c = [] then None
          else (case dget (inv_invites v) (hash_code sha256 c) of
                  None \<Rightarrow> None
                | Some i \<Rightarrow> if usable i then Some i else None))"

definition redeem :: "(string \<Rightarrow> string) \<Rightarrow> string \<Rightarrow> string \<Rightarrow> invites \<Rightarrow> invite_code option \<times> invites" where
  "redeem sha256 code admitted v =
     (case verify sha256 (Some code) v of
        None \<Rightarrow> (None, v)
      | Some i \<Rightarrow> let i' = i\<lparr>uses := uses i + 1\<rparr> in (Some i', put_invite i' v))"

definition revoke :: "(string \<Rightarrow> string) \<Rightarrow> string \<Rightarrow> invites \<Rightarrow> bool \<times> invites" where
  "revoke sha256 code v =
     (case dget (inv_invites v) (hash_code sha256 code) of
        None \<Rightarrow> (False, v)
      | Some i \<Rightarrow> if revoked i then (False, v) else (True, put_invite (i\<lparr>revoked := True\<rparr>) v))"

record invite_summary =
  sm_label :: string
  sm_max_uses :: int
  sm_uses :: int
  sm_revoked :: bool
  sm_usable :: bool
  sm_created_at :: pyfloat

definition invite_summaries :: "invites \<Rightarrow> invite_summary list" where
  "invite_summaries v = map (\<lambda>i. \<lparr>sm_label = label i, sm_max_uses = max_uses i, sm_uses = uses i,
     sm_revoked = revoked i, sm_usable = usable i, sm_created_at = created_at i\<rparr>) (dvals (inv_invites v))"

section \<open>Runs\<close>

datatype invite_op =
    Issue string string int pyfloat
  | Redeem string string
  | Revoke string

fun invite_step :: "(string \<Rightarrow> string) \<Rightarrow> invite_op \<Rightarrow> invites \<Rightarrow> invites" where
  "invite_step sha256 (Issue code lbl n now) v = snd (issue sha256 code lbl n now v)"
| "invite_step sha256 (Redeem code k) v = snd (redeem sha256 code k v)"
| "invite_step sha256 (Revoke code) v = snd (revoke sha256 code v)"

fun invite_run :: "(string \<Rightarrow> string) \<Rightarrow> invite_op list \<Rightarrow> invites \<Rightarrow> invites" where
  "invite_run sha256 [] v = v"
| "invite_run sha256 (op # ops) v = invite_run sha256 ops (invite_step sha256 op v)"

text \<open>How many nodes a run admits under the code whose hash is \<open>h\<close>.\<close>

fun admitted_by :: "(string \<Rightarrow> string) \<Rightarrow> string \<Rightarrow> invite_op \<Rightarrow> invites \<Rightarrow> nat" where
  "admitted_by sha256 h (Redeem code k) v =
     (if hash_code sha256 code = h \<and> fst (redeem sha256 code k v) \<noteq> None then 1 else 0)"
| "admitted_by sha256 h _ v = 0"

fun admissions :: "(string \<Rightarrow> string) \<Rightarrow> string \<Rightarrow> invite_op list \<Rightarrow> invites \<Rightarrow> nat" where
  "admissions sha256 h [] v = 0"
| "admissions sha256 h (op # ops) v =
     admitted_by sha256 h op v + admissions sha256 h ops (invite_step sha256 op v)"

text \<open>The random codes drawn by \<^verbatim>\<open>issue\<close> do not repeat a hash that is already known.\<close>

fun fresh_op :: "(string \<Rightarrow> string) \<Rightarrow> invite_op \<Rightarrow> invites \<Rightarrow> bool" where
  "fresh_op sha256 (Issue code lbl n now) v = (\<not> dmem (hash_code sha256 code) (inv_invites v))"
| "fresh_op sha256 _ v = True"

fun fresh_run :: "(string \<Rightarrow> string) \<Rightarrow> invite_op list \<Rightarrow> invites \<Rightarrow> bool" where
  "fresh_run sha256 [] v = True"
| "fresh_run sha256 (op # ops) v = (fresh_op sha256 op v \<and> fresh_run sha256 ops (invite_step sha256 op v))"

section \<open>The invariant\<close>

definition invites_inv :: "invites \<Rightarrow> bool" where
  "invites_inv v \<longleftrightarrow>
     dict_ok (inv_invites v)
   \<and> (\<forall>h i. dget (inv_invites v) h = Some i \<longrightarrow> code_hash i = h \<and> invite_valid i \<and> uses i \<le> max_uses i)"

lemma invites_invD:
  assumes "invites_inv v" "dget (inv_invites v) h = Some i"
  shows "code_hash i = h" "invite_valid i" "uses i \<le> max_uses i"
  using assms unfolding invites_inv_def by blast+

lemma put_invite_invites [simp]: "inv_invites (put_invite i v) = dset (code_hash i) i (inv_invites v)"
  by (simp add: put_invite_def)

lemma put_invite_inv:
  "invites_inv v \<Longrightarrow> invite_valid i \<Longrightarrow> uses i \<le> max_uses i \<Longrightarrow> invites_inv (put_invite i v)"
  by (simp add: invites_inv_def dict_simps)

lemma verify_Some:
  "verify sha256 code v = Some i \<longleftrightarrow>
   (\<exists>c. code = Some c \<and> c \<noteq> [] \<and> dget (inv_invites v) (hash_code sha256 c) = Some i \<and> usable i)"
  by (auto simp: verify_def split: option.splits if_splits)

text \<open>
  A step is the identity on the invites or one \<^const>\<open>put_invite\<close>: of a new code, or of a known one
  with one more use of those it has left, or revoked.
\<close>

lemma invite_step_cases:
  assumes "invites_inv v"
  obtains (same) "invite_step sha256 op v = v" "\<And>h. admitted_by sha256 h op v = 0"
  | (issued) code i where "invite_step sha256 op v = put_invite i v" "invite_valid i" "uses i = 0"
      "op = Issue code (label i) (max_uses i) (created_at i)" "code_hash i = hash_code sha256 code"
      "\<not> revoked i" "\<And>h. admitted_by sha256 h op v = 0"
  | (redeemed) i where "invite_step sha256 op v = put_invite (i\<lparr>uses := uses i + 1\<rparr>) v"
      "dget (inv_invites v) (code_hash i) = Some i" "usable i"
      "\<And>h. admitted_by sha256 h op v = (if h = code_hash i then 1 else 0)"
  | (revoked) i where "invite_step sha256 op v = put_invite (i\<lparr>revoked := True\<rparr>) v"
      "dget (inv_invites v) (code_hash i) = Some i" "\<And>h. admitted_by sha256 h op v = 0"
proof (cases op)
  case (Issue code lbl n now)
  let ?i = "\<lparr>code_hash = hash_code sha256 code, label = lbl, max_uses = n, uses = 0,
               revoked = False, created_at = now\<rparr>"
  show ?thesis
  proof (cases "invite_valid ?i")
    case True
    then show ?thesis using Issue by (intro issued [of ?i code]) (auto simp: issue_def Let_def)
  next
    case False
    then show ?thesis using Issue by (intro same) (auto simp: issue_def Let_def)
  qed
next
  case (Redeem code k)
  show ?thesis
  proof (cases "verify sha256 (Some code) v")
    case None
    then show ?thesis using Redeem by (intro same) (auto simp: redeem_def Let_def)
  next
    case (Some i)
    then have i: "dget (inv_invites v) (hash_code sha256 code) = Some i" "usable i" by (auto simp: verify_Some)
    then have "code_hash i = hash_code sha256 code" using assms invites_invD by blast
    then show ?thesis using Redeem Some i by (intro redeemed [of i]) (auto simp: redeem_def Let_def)
  qed
next
  case (Revoke code)
  show ?thesis
  proof (cases "\<exists>i. dget (inv_invites v) (hash_code sha256 code) = Some i \<and> \<not> invite_code.revoked i")
    case True
    then obtain i where i: "dget (inv_invites v) (hash_code sha256 code) = Some i" "\<not> invite_code.revoked i" by auto
    then have "code_hash i = hash_code sha256 code" using assms invites_invD by blast
    then show ?thesis using Revoke i by (intro revoked [of i]) (auto simp: revoke_def)
  next
    case False
    then show ?thesis using Revoke by (intro same) (auto simp: revoke_def split: option.splits)
  qed
qed

lemma invite_step_inv:
  assumes "invites_inv v"
  shows "invites_inv (invite_step sha256 op v)"
  using assms
proof (cases rule: invite_step_cases [of v sha256 op])
  case (issued code i)
  then show ?thesis using assms by (simp add: put_invite_inv invite_valid_def)
next
  case (redeemed i)
  then have "invite_valid i" using assms invites_invD by blast
  then show ?thesis using redeemed assms
    by (simp add: put_invite_inv invite_valid_def usable_def spent_def)
next
  case (revoked i)
  then have "invite_valid i" "uses i \<le> max_uses i" using assms invites_invD by blast+
  then show ?thesis using revoked assms by (simp add: put_invite_inv invite_valid_def)
qed (use assms in simp)

lemma invite_run_inv: "invites_inv v \<Longrightarrow> invites_inv (invite_run sha256 ops v)"
  by (induction ops arbitrary: v) (simp_all add: invite_step_inv)

lemma invites_inv_init: "invites_inv (init_invites st)"
  by (simp add: invites_inv_def init_invites_def)

section \<open>What one code can still admit\<close>

text \<open>The admissions a code has left; a code nobody issued has none.\<close>

definition left_of :: "invites \<Rightarrow> string \<Rightarrow> nat" where
  "left_of v h = (case dget (inv_invites v) h of None \<Rightarrow> 0
     | Some i \<Rightarrow> if usable i then nat (max_uses i - uses i) else 0)"

lemma left_of_step:
  assumes "invites_inv v" "fresh_op sha256 op v" "dmem h (inv_invites v)"
  shows "admitted_by sha256 h op v + left_of (invite_step sha256 op v) h \<le> left_of v h"
    and "dmem h (inv_invites (invite_step sha256 op v))"
proof -
  have "admitted_by sha256 h op v + left_of (invite_step sha256 op v) h \<le> left_of v h
      \<and> dmem h (inv_invites (invite_step sha256 op v))"
    using assms(1)
  proof (cases rule: invite_step_cases [of v sha256 op])
    case (issued code i)
    have "code_hash i \<noteq> h" using issued assms(2,3) by auto
    then show ?thesis using issued assms(3) by (simp add: left_of_def dict_simps)
  next
    case (redeemed i)
    then show ?thesis using assms(3)
      by (auto simp: left_of_def dict_simps usable_def spent_def)
  next
    case (revoked i)
    then show ?thesis using assms(3) by (auto simp: left_of_def dict_simps usable_def)
  qed (use assms(3) in simp)
  then show "admitted_by sha256 h op v + left_of (invite_step sha256 op v) h \<le> left_of v h"
    and "dmem h (inv_invites (invite_step sha256 op v))" by simp_all
qed

lemma admissions_left:
  "invites_inv v \<Longrightarrow> fresh_run sha256 ops v \<Longrightarrow> dmem h (inv_invites v) \<Longrightarrow> admissions sha256 h ops v \<le> left_of v h"
proof (induction ops arbitrary: v)
  case (Cons op ops)
  note step = left_of_step [OF Cons.prems(1) _ Cons.prems(3), of sha256 op]
  have "admissions sha256 h ops (invite_step sha256 op v) \<le> left_of (invite_step sha256 op v) h"
    using Cons.prems step by (intro Cons.IH) (auto simp: invite_step_inv)
  then show ?case using step(1) Cons.prems by fastforce
qed simp

lemma enforcing_step: "enforcing v \<Longrightarrow> enforcing (invite_step sha256 op v)"
proof (cases op)
  case (Issue code lbl n now)
  then show "enforcing v \<Longrightarrow> enforcing (invite_step sha256 op v)"
    by (simp add: enforcing_def issue_def Let_def)
next
  case (Redeem code k)
  then show "enforcing v \<Longrightarrow> enforcing (invite_step sha256 op v)"
    by (simp add: enforcing_def redeem_def Let_def split: option.splits)
next
  case (Revoke code)
  then show "enforcing v \<Longrightarrow> enforcing (invite_step sha256 op v)"
    by (simp add: enforcing_def revoke_def split: option.splits)
qed

section \<open>Durability\<close>

text \<open>The rows of the invites table are the invites in memory, in the same order.\<close>

definition invites_durable :: "invites \<Rightarrow> bool" where
  "invites_durable v \<longleftrightarrow>
     invites_inv v \<and> (\<exists>s. inv_store v = Some s \<and> map invite_of_row (tbl_invites s) = dvals (inv_invites v)
        \<and> dkeys (tbl_invites s) = dkeys (inv_invites v))"

lemma dvals_dset_same_keys:
  assumes "dkeys t = dkeys d" "map f t = dvals d"  "f (k, r) = v"
  shows "map f (dset k r t) = dvals (dset k v d)" "dkeys (dset k r t) = dkeys (dset k v d)"
  using assms by (induction t d rule: list_induct2') auto

lemma put_invite_durable:
  assumes "invites_durable v" "invite_valid i" "uses i \<le> max_uses i"
    "\<And>old. dget (inv_invites v) (code_hash i) = Some old \<Longrightarrow> created_at old = created_at i"
  shows "invites_durable (put_invite i v)"
proof -
  obtain s where s: "invites_inv v" "inv_store v = Some s" "map invite_of_row (tbl_invites s) = dvals (inv_invites v)"
    "dkeys (tbl_invites s) = dkeys (inv_invites v)" using assms(1) by (auto simp: invites_durable_def)
  let ?c = "case dget (tbl_invites s) (code_hash i) of None \<Rightarrow> created_at i | Some old \<Rightarrow> row_created_at old"
  let ?row = "\<lparr>row_label = label i, row_max_uses = max_uses i, row_uses = uses i,
               row_revoked = (if invite_code.revoked i then 1 else 0), row_created_at = ?c\<rparr>"
  have look: "map_option (\<lambda>r. invite_of_row (k, r)) (dget t k) = dget d k"
    if "map invite_of_row t = dvals d" "dkeys t = dkeys d" for t d k
    using that by (induction t d rule: list_induct2') auto
  have "?c = created_at i"
  proof (cases "dget (tbl_invites s) (code_hash i)")
    case (Some r)
    then have "created_at (invite_of_row (code_hash i, r)) = created_at i"
      using look [OF s(3,4), of "code_hash i"] by (intro assms(4)) simp
    then show ?thesis using Some by (simp add: invite_of_row_def)
  qed simp
  then have "invite_of_row (code_hash i, ?row) = i" by (simp add: invite_of_row_def)
  from dvals_dset_same_keys [OF s(4,3) this]
  show ?thesis using put_invite_inv [OF s(1) assms(2,3)] s(2)
    by (simp add: invites_durable_def put_invite_def save_invite_def Let_def)
qed

lemma invite_step_durable:
  assumes "invites_durable v" "fresh_op sha256 op v"
  shows "invites_durable (invite_step sha256 op v)"
proof -
  have inv: "invites_inv v" using assms(1) by (simp add: invites_durable_def)
  then show ?thesis
  proof (cases rule: invite_step_cases [of v sha256 op])
    case (issued code i)
    then show ?thesis using assms
      by (auto intro!: put_invite_durable simp: invite_valid_def dmem_def)
  next
    case (redeemed i)
    then have "invite_valid i" using inv invites_invD by blast
    then show ?thesis using redeemed assms(1)
      by (auto intro!: put_invite_durable simp: invite_valid_def usable_def spent_def)
  next
    case (revoked i)
    then have "invite_valid i" "uses i \<le> max_uses i" using inv invites_invD by blast+
    then show ?thesis using revoked assms(1) by (auto intro!: put_invite_durable simp: invite_valid_def)
  qed (use assms(1) in simp)
qed

lemma invite_run_durable:
  "invites_durable v \<Longrightarrow> fresh_run sha256 ops v \<Longrightarrow> invites_durable (invite_run sha256 ops v)"
  by (induction ops arbitrary: v) (simp_all add: invite_step_durable)

lemma invites_durable_init: "invites_durable (init_invites (Some empty_store))"
  by (simp add: invites_durable_def invites_inv_init, simp add: init_invites_def empty_store_def)

lemma restart_invites:
  assumes "invites_durable v"
  shows "load_invite_registry (init_invites (inv_store v)) = v"
proof -
  obtain s where s: "invites_inv v" "inv_store v = Some s" "map invite_of_row (tbl_invites s) = dvals (inv_invites v)"
    using assms by (auto simp: invites_durable_def)
  have good: "code_hash i = h \<and> invite_valid i" if "(h, i) \<in> set (inv_invites v)" for h i
    using s(1) that by (simp add: invites_inv_def map_of_eq_Some_iff)
  have "load_invites s = dvals (inv_invites v)"
    using good s(3) by (auto simp: load_invites_def filter_id_conv)
  moreover have "fold (\<lambda>i. dset (code_hash i) i) (dvals (inv_invites v)) d = fold (\<lambda>(h, i). dset h i) (inv_invites v) d" for d
    using good by (auto simp: fold_map intro!: fold_cong)
  ultimately show ?thesis
    using s fold_dset_pairs [of "[]" "inv_invites v"]
    by (simp add: load_invite_registry_def init_invites_def invites_inv_def)
qed

section \<open>Properties\<close>

text \<open>
  A code admits at most as many nodes as it was issued for: from the moment a code is issued,
  whatever sequence of redemptions (of any codes), revocations and further issues follows, the
  number of successful redemptions of that code is at most its \<open>max_uses\<close>. The draws of
  \<^verbatim>\<open>issue\<close> are assumed not to repeat a known hash.
\<close>

theorem invite_admits_at_most:
  assumes "invites_inv v" "issue sha256 code lbl n now v = (Inr (c, i), v')" "fresh_run sha256 ops v'"
  shows "int (admissions sha256 (hash_code sha256 code) ops v') \<le> n"
proof -
  have v': "v' = put_invite i v" "code_hash i = hash_code sha256 code" "max_uses i = n" "uses i = 0" "invite_valid i"
    using assms(2) by (auto simp: issue_def Let_def split: if_splits)
  have "left_of v' (code_hash i) \<le> nat n"
    using v' by (simp add: left_of_def dict_simps)
  moreover have "admissions sha256 (hash_code sha256 code) ops v' \<le> left_of v' (hash_code sha256 code)"
    using assms(1,3) v' by (intro admissions_left) (auto simp: dict_simps put_invite_inv invite_valid_def)
  ultimately show ?thesis using v' by (simp add: invite_valid_def)
qed

theorem invite_admits_at_most_witness:
  "int (admissions id ''k'' [Redeem ''k'' ''a'', Redeem ''k'' ''b'']
      (put_invite \<lparr>code_hash = ''k'', label = ''l'', max_uses = 1, uses = 0, revoked = False, created_at = Fin 0\<rparr>
        (init_invites None))) \<le> 1"
proof -
  let ?i = "\<lparr>code_hash = ''k'', label = ''l'', max_uses = 1, uses = 0, revoked = False, created_at = Fin 0\<rparr>"
  have "issue id ''k'' ''l'' 1 (Fin 0) (init_invites None) = (Inr (''k'', ?i), put_invite ?i (init_invites None))"
    by (simp add: issue_def Let_def hash_code_def invite_valid_def)
  from invite_admits_at_most [OF invites_inv_init this, of "[Redeem ''k'' ''a'', Redeem ''k'' ''b'']"]
  show ?thesis by (simp add: hash_code_def)
qed

text \<open>
  Admission control survives a restart and does not switch itself off: after any run from an
  empty store file the registry loaded from the file is the registry that was running (spent and
  revoked codes included), and once a code has been issued, later operations leave admission
  enforced.
\<close>

theorem invite_restart:
  assumes "fresh_run sha256 ops (init_invites (Some empty_store))"
    "v = invite_run sha256 ops (init_invites (Some empty_store))"
  shows "load_invite_registry (init_invites (inv_store v)) = v
    \<and> (enforcing v \<longrightarrow> enforcing (invite_step sha256 op v))
    \<and> (\<forall>h i. dget (inv_invites v) h = Some i \<longrightarrow> uses i \<le> max_uses i)"
  using invite_run_durable [OF invites_durable_init assms(1)] assms(2) restart_invites enforcing_step
  by (auto simp: invites_durable_def invites_inv_def)

theorem invite_restart_witness:
  "load_invite_registry (init_invites (inv_store
      (invite_run id [Issue ''k'' ''l'' 1 (Fin 0), Redeem ''k'' ''a'', Revoke ''k''] (init_invites (Some empty_store)))))
   = invite_run id [Issue ''k'' ''l'' 1 (Fin 0), Redeem ''k'' ''a'', Revoke ''k''] (init_invites (Some empty_store))"
  using invite_restart [OF _ refl, of id "[Issue ''k'' ''l'' 1 (Fin 0), Redeem ''k'' ''a'', Revoke ''k'']" "Revoke ''k''"]
  by (simp add: init_invites_def)

end
