(* ===== verification/Canary.thy ===== *)
theory Canary
  imports Models
begin

text \<open>
  \<^verbatim>\<open>scheduler/core/canary.py\<close>: known-answer checks of nodes and the quarantine they feed. The regular
  expression \<^verbatim>\<open>[a-z0-9]+\<close> is the scanner \<open>find_words\<close>. The verifier is single-threaded and keeps one
  mutable state object per node; the clock of a check is its argument.
\<close>

section \<open>Scoring\<close>

record canary =
  prompt_of :: string
  accept :: "string list"

definition CANARIES :: "canary list" where
  "CANARIES =
    [\<lparr>prompt_of = ''What is the capital of France? Answer with one word.'', accept = [''paris'']\<rparr>,
     \<lparr>prompt_of = ''What is 2 + 2? Answer with one number.'', accept = [''4'', ''four'']\<rparr>,
     \<lparr>prompt_of = ''Complete: the opposite of hot is ___. One word.'', accept = [''cold'']\<rparr>,
     \<lparr>prompt_of = ''What colour is the clear daytime sky? One word.'', accept = [''blue'']\<rparr>]"

definition word_char :: "char \<Rightarrow> bool" where
  "word_char c = (97 \<le> code_of c \<and> code_of c \<le> 122 \<or> 48 \<le> code_of c \<and> code_of c \<le> 57)"

fun scan_words :: "string \<Rightarrow> string \<Rightarrow> string list" where
  "scan_words w [] = (if w = [] then [] else [rev w])"
| "scan_words w (c # cs) =
     (if word_char c then scan_words (c # w) cs
      else if w = [] then scan_words [] cs else rev w # scan_words [] cs)"

definition find_words :: "string \<Rightarrow> string list" where
  "find_words s = scan_words [] s"

definition score :: "canary \<Rightarrow> string \<Rightarrow> bool" where
  "score c response =
     (if response = [] \<or> py_strip response = [] then False
      else (let ws = find_words (py_lower response)
            in list_ex (\<lambda>t. py_lower t \<in> set ws) (accept c)))"

text \<open>
  \<^verbatim>\<open>/\<close> on two ints is the correctly rounded quotient. The divisor is not zero where it is used.
\<close>

definition looks_like_an_echo :: "string \<Rightarrow> string \<Rightarrow> bool" where
  "looks_like_an_echo prompt response =
     (if response = [] then False
      else (let prompt_words = set (find_words (py_lower prompt));
                response_words = find_words (py_lower response)
            in if response_words = [] then False
               else (let overlap = length (filter (\<lambda>w. w \<in> prompt_words) response_words)
                     in flt (lit (8 / 10)) (rnd (of_nat overlap / of_nat (length response_words))))))"

section \<open>The verifier\<close>

record canary_state =
  consecutive_failures :: int
  passes :: int
  failures :: int
  quarantined :: bool
  last_checked_at :: pyfloat
  last_detail :: string
  history :: "bool list"

definition new_canary_state :: canary_state where
  "new_canary_state = \<lparr>consecutive_failures = 0, passes = 0, failures = 0, quarantined = False,
     last_checked_at = Fin 0, last_detail = [], history = []\<rparr>"

record verifier =
  failures_before_quarantine :: int
  vf_state :: "(string, canary_state) dict"

definition DEFAULT_FAILURES_BEFORE_QUARANTINE :: int where
  "DEFAULT_FAILURES_BEFORE_QUARANTINE = 3"

definition MAX_HISTORY :: int where
  "MAX_HISTORY = 50"

definition init_verifier :: "int option \<Rightarrow> verifier" where
  "init_verifier n = \<lparr>failures_before_quarantine =
       (case n of None \<Rightarrow> DEFAULT_FAILURES_BEFORE_QUARANTINE
        | Some k \<Rightarrow> if k = 0 then DEFAULT_FAILURES_BEFORE_QUARANTINE else k),
     vf_state = []\<rparr>"

definition state_for :: "string \<Rightarrow> verifier \<Rightarrow> canary_state \<times> verifier" where
  "state_for k v =
     (case dget (vf_state v) k of
        Some s \<Rightarrow> (s, v)
      | None \<Rightarrow> (new_canary_state, v\<lparr>vf_state := dset k new_canary_state (vf_state v)\<rparr>))"

definition is_quarantined :: "string \<Rightarrow> verifier \<Rightarrow> bool" where
  "is_quarantined k v = (case dget (vf_state v) k of None \<Rightarrow> False | Some s \<Rightarrow> quarantined s)"

definition check_passed :: "canary \<Rightarrow> string \<Rightarrow> bool" where
  "check_passed c response = (score c response \<and> \<not> looks_like_an_echo (prompt_of c) response)"

text \<open>\<^verbatim>\<open>del history[:-50]\<close> keeps the last 50 entries.\<close>

definition update_state :: "int \<Rightarrow> bool \<Rightarrow> bool \<Rightarrow> pyfloat \<Rightarrow> canary_state \<Rightarrow> canary_state" where
  "update_state threshold echoed passed now s0 =
     (let s = s0\<lparr>last_checked_at := now, history := slice_from_neg MAX_HISTORY (history s0 @ [passed])\<rparr>
      in if passed
         then s\<lparr>passes := passes s + 1, consecutive_failures := 0, last_detail := ''ok'', quarantined := False\<rparr>
         else (let s' = s\<lparr>failures := failures s + 1, consecutive_failures := consecutive_failures s + 1,
                          last_detail := (if echoed then ''echoed the prompt'' else ''wrong or empty answer'')\<rparr>
               in if threshold \<le> consecutive_failures s' \<and> \<not> quarantined s' then s'\<lparr>quarantined := True\<rparr> else s'))"

definition record_check :: "string \<Rightarrow> canary \<Rightarrow> string \<Rightarrow> pyfloat \<Rightarrow> verifier \<Rightarrow> bool \<times> verifier" where
  "record_check k c response now v =
     (let echoed = looks_like_an_echo (prompt_of c) response;
          passed = (score c response \<and> \<not> echoed)
      in case state_for k v of
           (s, v') \<Rightarrow>
             (passed, v'\<lparr>vf_state := dset k (update_state (failures_before_quarantine v') echoed passed now s) (vf_state v')\<rparr>))"

definition forget :: "string \<Rightarrow> verifier \<Rightarrow> verifier" where
  "forget k v = v\<lparr>vf_state := ddel k (vf_state v)\<rparr>"

record canary_summary =
  cs_quarantined :: bool
  cs_passes :: int
  cs_failures :: int
  cs_consecutive_failures :: int
  cs_last_checked_at :: pyfloat
  cs_last_detail :: string

definition canary_summaries :: "verifier \<Rightarrow> (string, canary_summary) dict" where
  "canary_summaries v = map (\<lambda>(k, s). (k, \<lparr>cs_quarantined = quarantined s, cs_passes = passes s,
     cs_failures = failures s, cs_consecutive_failures = consecutive_failures s,
     cs_last_checked_at = last_checked_at s, cs_last_detail = last_detail s\<rparr>)) (vf_state v)"

section \<open>Words\<close>

text \<open>Handing a prompt back is recognised whenever the prompt contains a word.\<close>

lemma echo_self:
  assumes "find_words (py_lower p) \<noteq> []"
  shows "looks_like_an_echo p p"
proof -
  have "p \<noteq> []" using assms by (auto simp: find_words_def py_lower_def)
  have all: "filter (\<lambda>w. w \<in> set (find_words (py_lower p))) (find_words (py_lower p)) = find_words (py_lower p)"
    by (simp add: filter_id_conv)
  have "grid (8 / 10) = 3602879701896397 / 4503599627370496"
    using grid_near [of "- 53" "8 / 10" 7205759403792794] by (simp add: power_int_def power_divide)
  then have "flt (lit (8 / 10)) (Fin 1)" by (simp add: rnd_def)
  then show ?thesis using assms \<open>p \<noteq> []\<close> by (simp add: looks_like_an_echo_def Let_def all)
qed

section \<open>Quarantine as a function of the results\<close>

text \<open>The specification: the run of failures at the end of the results, and the threshold it reaches.\<close>

definition trailing_failures :: "bool list \<Rightarrow> nat" where
  "trailing_failures bs = length (takeWhile Not (rev bs))"

definition quarantine_spec :: "int \<Rightarrow> bool list \<Rightarrow> bool" where
  "quarantine_spec threshold bs = (max 1 threshold \<le> int (trailing_failures bs))"

definition state_matches :: "int \<Rightarrow> bool list \<Rightarrow> canary_state \<Rightarrow> bool" where
  "state_matches threshold bs s \<longleftrightarrow>
     consecutive_failures s = int (trailing_failures bs)
   \<and> quarantined s = quarantine_spec threshold bs
   \<and> passes s = int (length (filter (\<lambda>b. b) bs)) \<and> failures s = int (length (filter Not bs))
   \<and> history s = slice_from_neg MAX_HISTORY bs"

lemma trailing_snoc: "trailing_failures (bs @ [b]) = (if b then 0 else Suc (trailing_failures bs))"
  by (simp add: trailing_failures_def)

lemma update_state_matches:
  assumes "state_matches threshold bs s"
  shows "state_matches threshold (bs @ [b]) (update_state threshold e b now s)"
proof -
  have h: "slice_from_neg MAX_HISTORY (slice_from_neg MAX_HISTORY bs @ [b]) = slice_from_neg MAX_HISTORY (bs @ [b])"
    by (rule slice_from_neg_snoc) (simp add: MAX_HISTORY_def)
  show ?thesis
  proof (cases b)
    case True
    then show ?thesis using assms h
      by (simp add: state_matches_def update_state_def Let_def trailing_snoc quarantine_spec_def)
  next
    case False
    then show ?thesis using assms h
      by (auto simp: state_matches_def update_state_def Let_def trailing_snoc quarantine_spec_def)
  qed
qed

lemma new_state_matches: "state_matches threshold [] new_canary_state"
  by (simp add: state_matches_def new_canary_state_def trailing_failures_def quarantine_spec_def slice_from_neg_def)

text \<open>A run of checks over many nodes, and the results that concern one of them.\<close>

fun check_run :: "(string \<times> canary \<times> string \<times> pyfloat) list \<Rightarrow> verifier \<Rightarrow> verifier" where
  "check_run [] v = v"
| "check_run ((k, c, response, now) # checks) v = check_run checks (snd (record_check k c response now v))"

definition results_for :: "string \<Rightarrow> (string \<times> canary \<times> string \<times> pyfloat) list \<Rightarrow> bool list" where
  "results_for k checks = map (\<lambda>(_, c, response, _). check_passed c response) (filter (\<lambda>x. fst x = k) checks)"

definition node_state :: "string \<Rightarrow> verifier \<Rightarrow> canary_state" where
  "node_state k v = (case dget (vf_state v) k of None \<Rightarrow> new_canary_state | Some s \<Rightarrow> s)"

lemma record_check_state:
  "failures_before_quarantine (snd (record_check k c response now v)) = failures_before_quarantine v"
  "node_state k' (snd (record_check k c response now v)) =
     (if k' = k then update_state (failures_before_quarantine v) (looks_like_an_echo (prompt_of c) response)
          (check_passed c response) now (node_state k v)
      else node_state k' v)"
  by (auto simp: record_check_def state_for_def node_state_def check_passed_def Let_def dict_simps split: option.splits)

lemma check_run_matches:
  "state_matches (failures_before_quarantine v) bs (node_state k v) \<Longrightarrow>
   state_matches (failures_before_quarantine v) (bs @ results_for k checks) (node_state k (check_run checks v))"
proof (induction checks arbitrary: v bs)
  case (Cons x checks)
  obtain j c response now where x: "x = (j, c, response, now)" by (cases x)
  let ?v = "snd (record_check j c response now v)"
  show ?case
  proof (cases "j = k")
    case True
    then have "state_matches (failures_before_quarantine ?v) (bs @ [check_passed c response]) (node_state k ?v)"
      using Cons.prems by (simp add: record_check_state update_state_matches)
    from Cons.IH [OF this] show ?thesis using x True by (simp add: results_for_def record_check_state)
  next
    case False
    then have "state_matches (failures_before_quarantine ?v) bs (node_state k ?v)"
      using Cons.prems by (simp add: record_check_state)
    from Cons.IH [OF this] show ?thesis using x False by (simp add: results_for_def record_check_state)
  qed
qed (simp add: results_for_def)

lemma is_quarantined_state: "is_quarantined k v = quarantined (node_state k v)"
  by (simp add: is_quarantined_def node_state_def new_canary_state_def split: option.splits)

section \<open>Properties\<close>

text \<open>
  C19. Quarantine refines its specification: after any interleaving of checks of any nodes, a node
  is quarantined exactly when the run of failures at the end of its own results has reached the
  threshold; so a single pass releases it, a node never checked is not quarantined, and the checks
  of other nodes play no part. The counters are the counts of its passes and failures and the
  history is its last 50 results.
\<close>

theorem quarantine_refines:
  assumes "v = check_run checks (init_verifier n)" "t = failures_before_quarantine (init_verifier n)"
  shows "is_quarantined k v = quarantine_spec t (results_for k checks)
      \<and> state_matches t (results_for k checks) (node_state k v)"
proof -
  have "node_state k (init_verifier n) = new_canary_state" by (simp add: node_state_def init_verifier_def)
  then have "state_matches t (results_for k checks) (node_state k v)"
    using check_run_matches [of "init_verifier n" "[]" k checks] assms by (simp add: new_state_matches)
  then show ?thesis by (simp add: is_quarantined_state state_matches_def)
qed

theorem quarantine_refines_witness:
  "is_quarantined ''n'' (check_run [(''n'', CANARIES ! 0, [], Fin 1)] (init_verifier (Some 1)))"
  using quarantine_refines [OF refl refl, of "''n''" "[(''n'', CANARIES ! 0, [], Fin 1)]" "Some 1"]
  by (simp add: results_for_def check_passed_def score_def quarantine_spec_def trailing_failures_def init_verifier_def)

text \<open>
  A node that hands prompts back cannot pass: for a canary whose prompt contains a word, the
  reply that repeats the prompt fails the check, and so many of them in a row as the threshold
  quarantine the node, whatever it did before.
\<close>

theorem echoing_node_quarantined:
  assumes "find_words (py_lower (prompt_of c)) \<noteq> []" "0 < failures_before_quarantine v"
    "state_matches (failures_before_quarantine v) bs (node_state k v)"
    "checks = replicate (nat (failures_before_quarantine v)) (k, c, prompt_of c, now)"
  shows "\<not> check_passed c (prompt_of c) \<and> is_quarantined k (check_run checks v)"
proof -
  have fail: "\<not> check_passed c (prompt_of c)" using echo_self [OF assms(1)] by (simp add: check_passed_def)
  have "results_for k checks = replicate (nat (failures_before_quarantine v)) False"
    using fail by (simp add: results_for_def assms(4) filter_replicate)
  moreover have "nat (failures_before_quarantine v) \<le> trailing_failures (bs @ replicate (nat (failures_before_quarantine v)) False)"
    by (simp add: trailing_failures_def takeWhile_append)
  ultimately have "quarantine_spec (failures_before_quarantine v) (bs @ results_for k checks)"
    using assms(2) by (auto simp: quarantine_spec_def)
  then show ?thesis
    using fail check_run_matches [OF assms(3), of checks] by (simp add: is_quarantined_state state_matches_def)
qed

theorem echoing_node_quarantined_witness:
  "is_quarantined ''n'' (check_run (replicate 3 (''n'', \<lparr>prompt_of = ''hi'', accept = [''hi'']\<rparr>, ''hi'', Fin 1))
      (init_verifier None))"
  using echoing_node_quarantined [of "\<lparr>prompt_of = ''hi'', accept = [''hi'']\<rparr>" "init_verifier None" "[]" "''n''" _ "Fin 1"]
  by (simp add: init_verifier_def DEFAULT_FAILURES_BEFORE_QUARANTINE_def node_state_def new_state_matches
      find_words_def py_lower_def lower_char_def word_char_def)

end
