(* ===== verification/Matchmaking.thy ===== *)
theory Matchmaking
  imports Registry Canary
begin

text \<open>
  Choice of a node: the strategy interface (\<^verbatim>\<open>scheduler/core/strategy.py\<close>) as a locale, its
  implementation \<^verbatim>\<open>CapabilityMatchmaker\<close> (\<^verbatim>\<open>scheduler/core/matchmaker.py\<close>) with the interpretation,
  and the heartbeat-based \<^verbatim>\<open>Scheduler.select_node\<close> (\<^verbatim>\<open>scheduler/scheduler/algorithm.py\<close>). Both read
  the registry; the text of non-scalar JSON values is the argument \<open>rep\<close>.
\<close>

section \<open>The strategy interface\<close>

locale scheduling_strategy =
  fixes filter_stage :: "registry \<Rightarrow> jobj \<Rightarrow> node list \<Rightarrow> node list res"
    and score_stage :: "registry \<Rightarrow> jobj \<Rightarrow> node list \<Rightarrow> (node \<times> pyfloat) list res"
    and admissible :: "registry \<Rightarrow> jobj \<Rightarrow> node \<Rightarrow> bool"
    and fitness_of :: "registry \<Rightarrow> node \<Rightarrow> pyfloat"
  assumes filter_exact: "filter_stage r reqs ns = Inr es \<Longrightarrow> es = filter (admissible r reqs) ns"
    and score_members: "score_stage r task es = Inr ss \<Longrightarrow> set ss = (\<lambda>n. (n, fitness_of r n)) ` set es"
    and score_length: "score_stage r task es = Inr ss \<Longrightarrow> length ss = length es"
    and score_sorted: "score_stage r task es = Inr ss \<Longrightarrow> \<forall>n\<in>set es. fitness_of r n \<noteq> NaN \<Longrightarrow>
          sorted_wrt (\<lambda>a b. \<not> flt (snd a) (snd b)) ss"
begin

lemma best_is_admissible:
  assumes "filter_stage r reqs ns = Inr es" "score_stage r task es = Inr ((n, x) # rest)"
  shows "n \<in> set ns \<and> admissible r reqs n \<and> x = fitness_of r n"
proof -
  have "(n, x) \<in> (\<lambda>n. (n, fitness_of r n)) ` set es" using score_members [OF assms(2)] by auto
  then show ?thesis using filter_exact [OF assms(1)] by auto
qed

lemma best_is_maximal:
  assumes "filter_stage r reqs ns = Inr es" "score_stage r task es = Inr ((n, x) # rest)"
    "\<forall>m\<in>set es. fitness_of r m \<noteq> NaN" "m \<in> set ns" "admissible r reqs m"
  shows "\<not> flt (fitness_of r n) (fitness_of r m)"
proof -
  have m: "m \<in> set es" using filter_exact [OF assms(1)] assms(4,5) by simp
  then have mem: "(m, fitness_of r m) \<in> set ((n, x) # rest)" using score_members [OF assms(2)] by auto
  have x: "x = fitness_of r n" using best_is_admissible [OF assms(1,2)] by simp
  have "sorted_wrt (\<lambda>a b. \<not> flt (snd a) (snd b)) ((n, x) # rest)" using score_sorted [OF assms(2,3)] .
  then show ?thesis using mem x assms(3) m by (auto simp: flt.irrefl)
qed

lemma scored_not_empty: "score_stage r task es = Inr ss \<Longrightarrow> es \<noteq> [] \<Longrightarrow> ss \<noteq> []"
  using score_length by fastforce

end

section \<open>The capability matchmaker\<close>

definition model_requirement :: "jobj \<Rightarrow> json" where
  "model_requirement reqs = py_or (jget reqs ''model_name'') (jget reqs ''model'')"

definition vram_requirement :: "jobj \<Rightarrow> json" where
  "vram_requirement reqs = py_or (jget reqs ''min_vram_gb'') (jget reqs ''vram'')"

definition vram_now :: "registry \<Rightarrow> node \<Rightarrow> pyfloat" where
  "vram_now r n = (case dget (reg_heartbeats r) (node_id n) of
      None \<Rightarrow> vram_available_gb (gpu n) | Some h \<Rightarrow> hb_vram_available_gb h)"

definition telemetry_of :: "registry \<Rightarrow> node \<Rightarrow> jobj" where
  "telemetry_of r n = dget_or (reg_telemetry r) (node_id n) []"

definition skip_quarantined :: "verifier option \<Rightarrow> node \<Rightarrow> bool" where
  "skip_quarantined canary n = (case canary of None \<Rightarrow> False | Some v \<Rightarrow> is_quarantined (node_id n) v)"

definition vram_fits :: "registry \<Rightarrow> jobj \<Rightarrow> node \<Rightarrow> bool res" where
  "vram_fits r reqs n =
     (if vram_requirement reqs = JNull then Inr True
      else rbind (py_float (vram_requirement reqs)) (\<lambda>m. Inr (\<not> flt (vram_now r n) m)))"

definition backend_fits :: "(json \<Rightarrow> string) \<Rightarrow> registry \<Rightarrow> jobj \<Rightarrow> node \<Rightarrow> bool" where
  "backend_fits rep r reqs n =
     (let backend_req = jget reqs ''backend_type''
      in if truthy backend_req
         then (let backend_type = jget (telemetry_of r n) ''backend_type''
               in truthy backend_type \<and> py_lower (py_str rep backend_type) = py_lower (py_str rep backend_req))
         else True)"

text \<open>One pass of the filter loop, in the order of its \<^verbatim>\<open>continue\<close>s.\<close>

definition node_eligible :: "(json \<Rightarrow> string) \<Rightarrow> verifier option \<Rightarrow> registry \<Rightarrow> jobj \<Rightarrow> node \<Rightarrow> bool res" where
  "node_eligible rep canary r reqs n =
     (if skip_quarantined canary n then Inr False
      else if truthy (model_requirement reqs) \<and> \<not> in_strs (model_requirement reqs) (available_models n) then Inr False
      else rbind (vram_fits r reqs n) (\<lambda>fits. Inr (fits \<and> backend_fits rep r reqs n)))"

definition filter_nodes :: "(json \<Rightarrow> string) \<Rightarrow> verifier option \<Rightarrow> registry \<Rightarrow> jobj \<Rightarrow> node list \<Rightarrow> node list res" where
  "filter_nodes rep canary r reqs live_nodes = filterM (node_eligible rep canary r reqs) live_nodes"

definition fitness :: "registry \<Rightarrow> node \<Rightarrow> pyfloat res" where
  "fitness r n =
     (let tel = telemetry_of r n;
          hb = dget (reg_heartbeats r) (node_id n)
      in rbind (py_float (dget_or tel ''current_queue_depth'' (dget_or tel ''queue_depth''
              (case hb of None \<Rightarrow> JInt 0 | Some h \<Rightarrow> JInt (queue_length h))))) (\<lambda>depth.
         rbind (py_float (dget_or tel ''current_cpu_utilization_pct'' (dget_or tel ''cpu_utilization''
              (case hb of None \<Rightarrow> JFloat (Fin 0) | Some h \<Rightarrow> JFloat (cpu_utilization h))))) (\<lambda>cpu.
         rbind (py_float (dget_or tel ''reliability_score'' (dget_or tel ''reliability'' (JFloat (Fin 1))))) (\<lambda>reliability.
         Inr (fsub (fsub (fmul reliability (Fin 100)) (fmul depth (Fin 15))) (fmul cpu (lit (1 / 2))))))))"

definition score_nodes :: "registry \<Rightarrow> jobj \<Rightarrow> node list \<Rightarrow> (node \<times> pyfloat) list res" where
  "score_nodes r task eligible_nodes =
     rbind (mapM (\<lambda>n. rbind (fitness r n) (\<lambda>x. Inr (n, x))) eligible_nodes) (\<lambda>scored.
       Inr (sort_desc flt snd scored))"

text \<open>The specification of the filter and of the score as total functions.\<close>

definition admissible_node :: "(json \<Rightarrow> string) \<Rightarrow> verifier option \<Rightarrow> registry \<Rightarrow> jobj \<Rightarrow> node \<Rightarrow> bool" where
  "admissible_node rep canary r reqs n \<longleftrightarrow>
     \<not> skip_quarantined canary n
   \<and> (truthy (model_requirement reqs) \<longrightarrow> (\<exists>m\<in>set (available_models n). model_requirement reqs = JStr m))
   \<and> (vram_requirement reqs \<noteq> JNull \<longrightarrow> (\<exists>x. py_float (vram_requirement reqs) = Inr x \<and> \<not> flt (vram_now r n) x))
   \<and> backend_fits rep r reqs n"

definition fitness_value :: "registry \<Rightarrow> node \<Rightarrow> pyfloat" where
  "fitness_value r n = (case fitness r n of Inl _ \<Rightarrow> NaN | Inr x \<Rightarrow> x)"

lemma in_strs_iff: "in_strs v xs \<longleftrightarrow> (\<exists>m\<in>set xs. v = JStr m)"
  by (cases v) (auto simp: in_strs_def)

lemma node_eligible_iff: "node_eligible rep canary r reqs n = Inr True \<longleftrightarrow> admissible_node rep canary r reqs n"
proof -
  have "vram_fits r reqs n = Inr True \<longleftrightarrow>
      (vram_requirement reqs \<noteq> JNull \<longrightarrow> (\<exists>x. py_float (vram_requirement reqs) = Inr x \<and> \<not> flt (vram_now r n) x))"
    by (auto simp: vram_fits_def rbind_eq_Inr)
  then show ?thesis
    by (auto simp: node_eligible_def admissible_node_def rbind_eq_Inr in_strs_iff)
qed

lemma filter_nodes_exact:
  "filter_nodes rep canary r reqs ns = Inr es \<Longrightarrow> es = filter (admissible_node rep canary r reqs) ns"
  using filterM_Inr [of "node_eligible rep canary r reqs" ns es]
  by (simp add: filter_nodes_def node_eligible_iff)

lemma scored_members:
  "mapM (\<lambda>n. rbind (fitness r n) (\<lambda>x. Inr (n, x))) es = Inr ss \<Longrightarrow> ss = map (\<lambda>n. (n, fitness_value r n)) es"
  by (induction es arbitrary: ss) (auto simp: rbind_eq_Inr fitness_value_def)

interpretation matchmaker: scheduling_strategy "filter_nodes rep canary" score_nodes
    "admissible_node rep canary" fitness_value
  for rep :: "json \<Rightarrow> string" and canary :: "verifier option"
proof (unfold_locales, goal_cases)
  case (1 r reqs ns es)
  then show ?case by (rule filter_nodes_exact)
next
  case (2 r task es ss)
  then show ?case by (auto simp: score_nodes_def rbind_eq_Inr dest: scored_members)
next
  case (3 r task es ss)
  then show ?case by (auto simp: score_nodes_def rbind_eq_Inr dest: scored_members)
next
  case (4 r task es ss)
  then obtain scored where s: "scored = map (\<lambda>n. (n, fitness_value r n)) es" "ss = sort_desc flt snd scored"
    by (auto simp: score_nodes_def rbind_eq_Inr dest: scored_members)
  show ?case unfolding s(2) using 4(2) s(1) by (intro flt.sorted_sort_desc) auto
qed

section \<open>Selection by heartbeat\<close>

definition heartbeat_candidates :: "string \<Rightarrow> registry \<Rightarrow> (node \<times> heartbeat) list" where
  "heartbeat_candidates model_name r =
     List.map_filter (\<lambda>n.
       if model_name \<notin> set (available_models n) then None
       else (case get_heartbeat (node_id n) r of
               None \<Rightarrow> None
             | Some h \<Rightarrow> if hb_status h = OFFLINE then None else Some (n, h)))
     (registry_list r)"

definition load_score :: "registry \<Rightarrow> node \<times> heartbeat \<Rightarrow> pyfloat res" where
  "load_score r = (\<lambda>(n, h).
     rbind (fdiv (gpu_utilization h) (Fin 100)) (\<lambda>gpu_util.
     rbind (fdiv (cpu_utilization h) (Fin 100)) (\<lambda>cpu_util.
     rbind (if flt (Fin 0) (vram_total_gb (gpu n)) then fdiv (hb_vram_available_gb h) (vram_total_gb (gpu n))
            else Inr (Fin 0)) (\<lambda>vram_ratio.
     rbind (float_of_int (queue_length h)) (\<lambda>q.
     Inr (fadd (fadd (fadd (fadd (fmul q (lit (4 / 10))) (fmul gpu_util (lit (3 / 10))))
              (fmul cpu_util (lit (1 / 10)))) (fmul (fsub (Fin 1) vram_ratio) (lit (2 / 10))))
              (get_dampener (node_id n) r)))))))"

definition select_node :: "string \<Rightarrow> registry \<Rightarrow> node res \<times> registry" where
  "select_node model_name r =
     (case mapM (\<lambda>c. rbind (load_score r c) (\<lambda>x. Inr (fst c, x))) (heartbeat_candidates model_name r) of
        Inl e \<Rightarrow> (Inl e, r)
      | Inr [] \<Rightarrow> (Inl (ValueError (''No eligible nodes found for model: '' @ model_name)), r)
      | Inr (c # cs) \<Rightarrow>
          (let selected = fst (min_key flt snd c cs)
           in case increment_dampener (node_id selected) r of
                (Inl e, r') \<Rightarrow> (Inl e, r')
              | (Inr _, r') \<Rightarrow> (Inr selected, r')))"

text \<open>
  What a node may report for the score to be a number: finite measurements in the ranges the
  heartbeat model declares, and a queue length a double holds exactly.
\<close>

definition candidate_measured :: "registry \<Rightarrow> node \<times> heartbeat \<Rightarrow> bool" where
  "candidate_measured r = (\<lambda>(n, h).
     heartbeat_valid h \<and> queue_length h \<le> 2 ^ 52 \<and> hb_vram_available_gb h \<noteq> PInf
   \<and> vram_total_gb (gpu n) \<noteq> PInf \<and> get_dampener (node_id n) r \<noteq> PInf \<and> nonneg (get_dampener (node_id n) r))"

definition score_value :: "registry \<Rightarrow> node \<times> heartbeat \<Rightarrow> pyfloat" where
  "score_value r c = (case load_score r c of Inl _ \<Rightarrow> NaN | Inr x \<Rightarrow> x)"

text \<open>A float with an upper bound that integers of double precision can state is no NaN and no infinity above.\<close>

lemma fadd_upper:
  assumes "fle a (Fin (of_int m))" "fle b (Fin (of_int n))" "\<bar>m + n\<bar> \<le> 2 ^ 53"
  shows "fle (fadd a b) (Fin (of_int (m + n)))"
proof (cases a; cases b)
  fix x y
  assume ab: "a = Fin x" "b = Fin y"
  then have "x + y \<le> of_int (m + n)" using assms(1,2) by simp
  then have "fle (rnd (x + y)) (Fin (of_int (m + n)))" using dbl_rat_int [OF assms(3)] by (intro rnd_upper)
  then show ?thesis using ab by simp
qed (use assms in auto)

lemma fmul_upper:
  assumes "0 \<le> x" "x \<le> of_int n" "0 \<le> c" "c \<le> 1" "0 \<le> n" "n \<le> 2 ^ 53"
  shows "fle (fmul (Fin x) (Fin c)) (Fin (of_int n))"
proof -
  have "x * c \<le> x * 1" using assms by (intro mult_left_mono)
  then have "x * c \<le> of_int n" using assms by simp
  then show ?thesis using dbl_rat_int [of n] assms by (auto intro: rnd_upper)
qed

text \<open>The weights of the score are doubles between a tenth and one.\<close>

lemma weight:
  assumes "1 / 10 \<le> y" "y \<le> 1"
  obtains c where "rnd y = Fin c" "0 < c" "c \<le> 1"
proof -
  have "fle (rnd (1 / 10)) (rnd y)" using assms by (intro rnd_mono)
  moreover have "fle (rnd y) (Fin 1)" using assms by (intro rnd_upper) auto
  ultimately show ?thesis using that by (cases "rnd y") (auto simp: lit_tenth)
qed

lemma percentage:
  assumes "nonneg u" "fle u (Fin 100)"
  obtains x where "fdiv u (Fin 100) = Inr (Fin x)" "0 \<le> x" "x \<le> 1"
proof -
  obtain y where y: "u = Fin y" "0 \<le> y" "y \<le> 100" using assms by (cases u) auto
  have "nonneg (rnd (y / 100))" "fle (rnd (y / 100)) (Fin 1)"
    using y by (auto intro: rnd_lower rnd_upper)
  then show ?thesis using y that by (cases "rnd (y / 100)") auto
qed

lemma fsub_one_le: "nonneg x \<Longrightarrow> fle (fsub (Fin 1) x) (Fin 1)"
  by (cases x) (auto simp: fsub_def intro: rnd_upper)

lemma vram_term:
  assumes "nonneg ratio" "0 < c" "c \<le> 1"
  shows "fle (fmul (fsub (Fin 1) ratio) (Fin c)) (Fin 1)"
proof (cases "fsub (Fin 1) ratio")
  case (Fin z)
  then have "z \<le> 1" using fsub_one_le [OF assms(1)] by simp
  then have "z * c \<le> 1" using assms by (cases "0 \<le> z") (auto intro: mult_le_one order_trans [OF mult_nonpos_nonneg])
  then show ?thesis using Fin by (auto intro: rnd_upper)
qed (use fsub_one_le [OF assms(1)] assms in \<open>auto simp: inf_of_sign_def\<close>)

lemma load_score_total:
  assumes "candidate_measured r c"
  shows "load_score r c = Inr (score_value r c)" "score_value r c \<noteq> NaN"
proof -
  obtain n h where c: "c = (n, h)" by force
  note m = assms [unfolded c candidate_measured_def heartbeat_valid_def, simplified]
  obtain g where g: "fdiv (gpu_utilization h) (Fin 100) = Inr (Fin g)" "0 \<le> g" "g \<le> 1"
    using percentage m by metis
  obtain u where u: "fdiv (cpu_utilization h) (Fin 100) = Inr (Fin u)" "0 \<le> u" "u \<le> 1"
    using percentage m by metis
  obtain ratio where ratio: "(if flt (Fin 0) (vram_total_gb (gpu n))
      then fdiv (hb_vram_available_gb h) (vram_total_gb (gpu n)) else Inr (Fin 0)) = Inr ratio" "nonneg ratio"
  proof (cases "flt (Fin 0) (vram_total_gb (gpu n))")
    case True
    then obtain y where "vram_total_gb (gpu n) = Fin y" "0 < y" using m by (cases "vram_total_gb (gpu n)") auto
    then show thesis using that nonneg_fdiv [of "hb_vram_available_gb h" y] m True by auto
  qed simp
  have q: "float_of_int (queue_length h) = Inr (Fin (of_int (queue_length h)))"
    using rnd_dbl [OF dbl_rat_int [of "queue_length h"]] m by (simp add: float_of_int_def)
  obtain w4 where w4: "rnd (4 / 10) = Fin w4" "0 < w4" "w4 \<le> 1" by (rule weight [of "4 / 10"], simp, simp, rule that)
  obtain w3 where w3: "rnd (3 / 10) = Fin w3" "0 < w3" "w3 \<le> 1" by (rule weight [of "3 / 10"], simp, simp, rule that)
  obtain w2 where w2: "rnd (2 / 10) = Fin w2" "0 < w2" "w2 \<le> 1" by (rule weight [of "2 / 10"], simp, simp, rule that)
  obtain w1 where w1: "rnd (1 / 10) = Fin w1" "0 < w1" "w1 \<le> 1" by (rule weight [of "1 / 10"], simp, simp, rule that)
  note w = w4 w3 w2 w1
  let ?q = "fmul (Fin (of_int (queue_length h))) (Fin w4)"
  let ?s = "fadd (fadd (fadd ?q (fmul (Fin g) (Fin w3))) (fmul (Fin u) (Fin w1)))
     (fmul (fsub (Fin 1) ratio) (Fin w2))"
  have "fle ?q (Fin (of_int (queue_length h)))" using m w by (intro fmul_upper) auto
  moreover have "fle (fmul (Fin g) (Fin w3)) (Fin (of_int 1))" using g w by (intro fmul_upper) auto
  moreover have "fle (fmul (Fin u) (Fin w1)) (Fin (of_int 1))" using u w by (intro fmul_upper) auto
  moreover have "fle (fmul (fsub (Fin 1) ratio) (Fin w2)) (Fin (of_int 1))"
    using vram_term [OF ratio(2)] w by simp
  ultimately have "fle ?s (Fin (of_int (queue_length h + 1 + 1 + 1)))"
    using m by (intro fadd_upper) auto
  moreover obtain d where d: "get_dampener (node_id n) r = Fin d" using m by (cases "get_dampener (node_id n) r") auto
  ultimately have "fadd ?s (get_dampener (node_id n) r) \<noteq> NaN" by (cases ?s) auto
  moreover have "load_score r c = Inr (fadd ?s (get_dampener (node_id n) r))"
    by (simp only: load_score_def c prod.case g u ratio(1) q w rbind_simps)
  ultimately show "load_score r c = Inr (score_value r c)" "score_value r c \<noteq> NaN"
    by (simp_all add: score_value_def)
qed

lemma load_scores:
  "\<forall>c\<in>set cs. candidate_measured r c \<Longrightarrow>
   mapM (\<lambda>c. rbind (load_score r c) (\<lambda>x. Inr (fst c, x))) cs = Inr (map (\<lambda>c. (fst c, score_value r c)) cs)"
  by (induction cs) (simp_all add: load_score_total)

lemma candidate_registered:
  assumes "reg_inv r" "c \<in> set (heartbeat_candidates m r)"
  shows "registry_get (node_id (fst c)) r = Some (fst c)"
proof -
  have "fst c \<in> set (dvals (reg_nodes r))"
    using assms(2) by (auto simp: heartbeat_candidates_def registry_list_def List.map_filter_def split: option.splits if_splits)
  then obtain k where "dget (reg_nodes r) k = Some (fst c)"
    using assms(1) dvals_mem [of "reg_nodes r"] by (auto simp: reg_inv_def)
  then show ?thesis using assms(1) by (auto simp: reg_inv_def registry_get_def)
qed

lemma select_node_chooses:
  assumes "reg_inv r" "cands = heartbeat_candidates m r" "\<forall>c\<in>set cands. candidate_measured r c" "cands \<noteq> []"
  obtains us c vs where "cands = us @ c # vs" "select_node m r = (Inr (fst c), snd (increment_dampener (node_id (fst c)) r))"
    "\<forall>u\<in>set us. flt (score_value r c) (score_value r u)" "\<forall>d\<in>set cands. \<not> flt (score_value r d) (score_value r c)"
proof -
  obtain c0 cs where cands: "cands = c0 # cs" using assms(4) by (cases cands) auto
  let ?f = "score_value r" and ?g = "\<lambda>c. (fst c, score_value r c)"
  have ok: "?f c0 \<noteq> NaN" "\<forall>x\<in>set cs. ?f x \<noteq> NaN" using assms(3) cands load_score_total(2) by auto
  have pair: "min_key flt snd (?g b) (map ?g xs) = ?g (min_key flt ?f b xs)" for b xs
    by (induction xs arbitrary: b) auto
  let ?c = "min_key flt ?f c0 cs"
  obtain us vs where dec: "c0 # cs = us @ ?c # vs" "\<forall>u\<in>set us. flt (?f ?c) (?f u)"
    using flt.min_key_first [of ?f c0 cs] ok by blast
  have least: "\<forall>d\<in>set cands. \<not> flt (?f d) (?f ?c)" using flt.min_key_least [of ?f c0 cs] ok cands by auto
  have "?c \<in> set cands" using min_key_in [of flt ?f c0 cs] cands by simp
  then have "registry_get (node_id (fst ?c)) r = Some (fst ?c)" using candidate_registered assms(1,2) by blast
  then have "fst (increment_dampener (node_id (fst ?c)) r) = Inr ()"
    by (simp add: increment_dampener_def registry_get_def dmem_def)
  then have "select_node m r = (Inr (fst ?c), snd (increment_dampener (node_id (fst ?c)) r))"
    using load_scores [OF assms(3)] cands assms(2) pair
    by (cases "increment_dampener (node_id (fst ?c)) r") (auto simp: select_node_def Let_def)
  then show ?thesis using that dec least cands by blast
qed

section \<open>Properties\<close>

text \<open>
  The filter is exact: when it returns, its result is the live nodes, in their order, that are
  not quarantined, serve the requested model, have at least the requested VRAM by their latest
  heartbeat (or by their registration when they have none), and match the requested backend; no
  other node gets through and none of these is lost.
\<close>

theorem filter_nodes_sound_complete:
  assumes "filter_nodes rep canary r reqs live = Inr es"
  shows "es = filter (admissible_node rep canary r reqs) live
    \<and> (\<forall>v n. canary = Some v \<longrightarrow> n \<in> set es \<longrightarrow> \<not> is_quarantined (node_id n) v)"
  using filter_nodes_exact [OF assms] by (auto simp: admissible_node_def skip_quarantined_def)

theorem filter_nodes_sound_complete_witness:
  "filter_nodes (\<lambda>_. []) None (init_registry None) [(''model'', JStr ''m'')] [sample_node ''a'']
     = Inr (filter (admissible_node (\<lambda>_. []) None (init_registry None) [(''model'', JStr ''m'')]) [sample_node ''a''])"
proof -
  have f: "filter_nodes (\<lambda>_. []) None (init_registry None) [(''model'', JStr ''m'')] [sample_node ''a''] = Inr [sample_node ''a'']"
    by (simp add: filter_nodes_def node_eligible_def skip_quarantined_def model_requirement_def vram_requirement_def
        vram_fits_def backend_fits_def py_or_def jget_def dget_or_def in_strs_def sample_node_def Let_def)
  show ?thesis unfolding f
    by (rule arg_cong [of _ _ Inr], rule conjunct1, rule filter_nodes_sound_complete [OF f])
qed

text \<open>
  \<^verbatim>\<open>select_node\<close> picks a least loaded candidate, the earliest registered one among equals, and
  adds a tenth to its dampener and to nothing else; with no candidate it raises \<^verbatim>\<open>ValueError\<close> and
  changes nothing. A candidate is a registered node that serves the model and whose last heartbeat
  is not \<^verbatim>\<open>OFFLINE\<close>. Scores are computed in double arithmetic; with finite measurements they are
  never NaN, which is what makes the comparison an order.
\<close>

theorem select_node_least_loaded:
  assumes "reg_inv r" "cands = heartbeat_candidates m r" "\<forall>c\<in>set cands. candidate_measured r c"
  shows "if cands = []
    then select_node m r = (Inl (ValueError (''No eligible nodes found for model: '' @ m)), r)
    else (\<exists>us c vs. cands = us @ c # vs
       \<and> (\<forall>u\<in>set us. flt (score_value r c) (score_value r u))
       \<and> (\<forall>d\<in>set cands. \<not> flt (score_value r d) (score_value r c))
       \<and> select_node m r = (Inr (fst c), r\<lparr>reg_dampeners := dset (node_id (fst c))
             (fadd (get_dampener (node_id (fst c)) r) (lit (1 / 10))) (reg_dampeners r)\<rparr>))"
proof (cases "cands = []")
  case True
  then show ?thesis using assms(2) by (simp add: select_node_def)
next
  case False
  obtain us c vs where c: "cands = us @ c # vs" "select_node m r = (Inr (fst c), snd (increment_dampener (node_id (fst c)) r))"
    "\<forall>u\<in>set us. flt (score_value r c) (score_value r u)" "\<forall>d\<in>set cands. \<not> flt (score_value r d) (score_value r c)"
    using select_node_chooses [OF assms False] by blast
  have "registry_get (node_id (fst c)) r = Some (fst c)"
    using candidate_registered [OF assms(1), of c m] c(1) assms(2) by simp
  then have "select_node m r = (Inr (fst c), r\<lparr>reg_dampeners := dset (node_id (fst c))
             (fadd (get_dampener (node_id (fst c)) r) (lit (1 / 10))) (reg_dampeners r)\<rparr>)"
    using c(2) by (simp add: increment_dampener_def registry_get_def dmem_def get_dampener_def)
  then show ?thesis using False c(1,3,4) by (simp only: if_False) blast
qed

definition sample_heartbeat :: "string \<Rightarrow> heartbeat" where
  "sample_heartbeat k = \<lparr>hb_node_id = k, hb_timestamp = 0, hb_status = ONLINE, queue_length = 2,
     cpu_utilization = Fin 50, ram_available_gb = Fin 8, gpu_utilization = Fin 10, hb_vram_available_gb = Fin 4\<rparr>"

definition sample_registry :: registry where
  "sample_registry = (init_registry None)\<lparr>reg_nodes := [(''a'', sample_node ''a'')],
     reg_heartbeats := [(''a'', sample_heartbeat ''a'')], reg_dampeners := [(''a'', Fin 0)]\<rparr>"

lemma sample_registry_inv: "reg_inv sample_registry"
  by (simp add: sample_registry_def reg_inv_def init_registry_def sample_node_def sample_heartbeat_def dmem_def)

theorem select_node_least_loaded_witness:
  "fst (select_node ''m'' sample_registry) = Inr (sample_node ''a'')"
proof -
  have c: "heartbeat_candidates ''m'' sample_registry = [(sample_node ''a'', sample_heartbeat ''a'')]"
    by (simp add: heartbeat_candidates_def sample_registry_def init_registry_def registry_list_def get_heartbeat_def
        sample_node_def sample_heartbeat_def List.map_filter_simps)
  have "candidate_measured sample_registry (sample_node ''a'', sample_heartbeat ''a'')"
    by (simp add: candidate_measured_def heartbeat_valid_def sample_registry_def init_registry_def get_dampener_def
        dget_or_def sample_node_def sample_heartbeat_def)
  then show ?thesis
    using select_node_least_loaded [OF sample_registry_inv refl, of "''m''"] c
    by (auto simp: Cons_eq_append_conv)
qed

end
