(* ===== verification/Nodes_Api.thy ===== *)
theory Nodes_Api
  imports Registry Invites Matchmaking
begin

text \<open>
  The operator and host side of the HTTP interface: admission and registration of nodes, their
  catalogue, removal, heartbeats and node selection (\<^verbatim>\<open>scheduler/api/auth.py\<close>, \<^verbatim>\<open>nodes.py\<close>,
  \<^verbatim>\<open>heartbeat.py\<close>, \<^verbatim>\<open>schedule.py\<close>). A handler takes the request's headers and body and returns the
  response body or the \<^verbatim>\<open>HTTPException\<close>, with the application state after it. No handler here
  suspends, so each is one step. The registry and the invite registry write different tables of one
  store; each carries its own copy.
\<close>

section \<open>Authentication\<close>

record node_app =
  na_registry :: registry
  na_invites :: "invites option"
  na_auth_token :: "string option"

definition verify_auth_token :: "string option \<Rightarrow> string option \<Rightarrow> unit res" where
  "verify_auth_token configured header =
     (if configured \<noteq> None \<and> header \<noteq> configured then Inl (HTTPException 401 ''Unauthorized'') else Inr ())"

text \<open>A route with the dependency: the handler runs only if the token is accepted.\<close>

definition guarded :: "string option \<Rightarrow> (node_app \<Rightarrow> 'a res \<times> node_app) \<Rightarrow> node_app \<Rightarrow> 'a res \<times> node_app" where
  "guarded header handler app =
     (case verify_auth_token (na_auth_token app) header of Inl e \<Rightarrow> (Inl e, app) | Inr _ \<Rightarrow> handler app)"

section \<open>Registration\<close>

definition credential_of :: "string option \<Rightarrow> string option \<Rightarrow> string option" where
  "credential_of cred header = (case cred of None \<Rightarrow> header | Some c \<Rightarrow> if c = [] then header else cred)"

definition invite_refuses :: "(string \<Rightarrow> string) \<Rightarrow> string option \<Rightarrow> node_app \<Rightarrow> bool" where
  "invite_refuses sha256 code app =
     (case na_invites app of None \<Rightarrow> False | Some v \<Rightarrow> enforcing v \<and> verify sha256 code v = None)"

definition redeem_invite :: "(string \<Rightarrow> string) \<Rightarrow> string option \<Rightarrow> string \<Rightarrow> node_app \<Rightarrow> node_app" where
  "redeem_invite sha256 code k app =
     (case (na_invites app, code) of
        (Some v, Some c) \<Rightarrow>
          if enforcing v \<and> c \<noteq> [] then app\<lparr>na_invites := Some (snd (redeem sha256 c k v))\<rparr> else app
      | _ \<Rightarrow> app)"

definition register_handler :: "(node \<Rightarrow> string) \<Rightarrow> (string \<Rightarrow> string) \<Rightarrow> string option \<Rightarrow> string option \<Rightarrow> string option
    \<Rightarrow> node \<Rightarrow> node_app \<Rightarrow> node res \<times> node_app" where
  "register_handler dump sha256 header cred code n app =
     (if invite_refuses sha256 code app
      then (Inl (HTTPException 403 (''A valid X-Invite-Code header is required to register a node. ''
              @ ''Ask the operator to issue one with scripts/mint_invite.py.'')), app)
      else let app1 = app\<lparr>na_registry := set_node_token (node_id n) (credential_of cred header) (na_registry app)\<rparr>
        in case register dump n (na_registry app1) of
             (Inl e, r) \<Rightarrow>
               (if is_value_error e then Inl (HTTPException 409 (''Node already registered: '' @ node_id n)) else Inl e,
                app1\<lparr>na_registry := r\<rparr>)
           | (Inr _, r) \<Rightarrow> (Inr n, redeem_invite sha256 code (node_id n) (app1\<lparr>na_registry := r\<rparr>)))"

definition register_node :: "(node \<Rightarrow> string) \<Rightarrow> (string \<Rightarrow> string) \<Rightarrow> string option \<Rightarrow> string option \<Rightarrow> string option
    \<Rightarrow> node \<Rightarrow> node_app \<Rightarrow> node res \<times> node_app" where
  "register_node dump sha256 header cred code n = guarded header (register_handler dump sha256 header cred code n)"

section \<open>The other routes\<close>

definition http_not_found :: "string \<Rightarrow> exc" where
  "http_not_found k = HTTPException 404 (''Node not found: '' @ k)"

definition list_nodes :: "string option \<Rightarrow> node_app \<Rightarrow> node_view list res \<times> node_app" where
  "list_nodes header = guarded header (\<lambda>app.
     (Inr (map (\<lambda>n. from_node n (is_mesh_reachable (node_id n) (na_registry app))) (registry_list (na_registry app))), app))"

definition get_node :: "string option \<Rightarrow> string \<Rightarrow> node_app \<Rightarrow> node_view res \<times> node_app" where
  "get_node header k = guarded header (\<lambda>app.
     (case registry_get k (na_registry app) of
        None \<Rightarrow> Inl (http_not_found k)
      | Some n \<Rightarrow> Inr (from_node n (is_mesh_reachable k (na_registry app))), app))"

definition update_node_models :: "(node \<Rightarrow> string) \<Rightarrow> string option \<Rightarrow> string \<Rightarrow> string list \<Rightarrow> node_app
    \<Rightarrow> node_view res \<times> node_app" where
  "update_node_models dump header k models = guarded header (\<lambda>app.
     case set_available_models dump k models (na_registry app) of
       (Inl e, r) \<Rightarrow> (Inl (if is_value_error e then http_not_found k else e), app\<lparr>na_registry := r\<rparr>)
     | (Inr _, r) \<Rightarrow>
         (case registry_get k r of
            None \<Rightarrow> (Inl (http_not_found k), app\<lparr>na_registry := r\<rparr>)
          | Some n \<Rightarrow> (Inr (from_node n (is_mesh_reachable k r)), app\<lparr>na_registry := r\<rparr>)))"

definition unregister_endpoint :: "string option \<Rightarrow> string \<Rightarrow> node_app \<Rightarrow> unit res \<times> node_app" where
  "unregister_endpoint header k = guarded header (\<lambda>app.
     case unregister k (na_registry app) of
       (Inl e, r) \<Rightarrow> (Inl (if is_value_error e then http_not_found k else e), app\<lparr>na_registry := r\<rparr>)
     | (Inr _, r) \<Rightarrow> (Inr (), app\<lparr>na_registry := r\<rparr>))"

definition receive_heartbeat :: "string option \<Rightarrow> heartbeat \<Rightarrow> node_app \<Rightarrow> unit res \<times> node_app" where
  "receive_heartbeat header h = guarded header (\<lambda>app.
     case update_heartbeat h (na_registry app) of
       (Inl e, r) \<Rightarrow> (Inl (if is_value_error e then http_not_found (hb_node_id h) else e), app\<lparr>na_registry := r\<rparr>)
     | (Inr _, r) \<Rightarrow> (Inr (), app\<lparr>na_registry := r\<rparr>))"

record schedule_response =
  sr_node_id :: string
  sr_hostname :: string
  sr_ip_address :: string
  sr_region :: string

definition schedule_request :: "string option \<Rightarrow> string \<Rightarrow> node_app \<Rightarrow> schedule_response res \<times> node_app" where
  "schedule_request header model = guarded header (\<lambda>app.
     case select_node model (na_registry app) of
       (Inl (ValueError m), r) \<Rightarrow> (Inl (HTTPException 404 m), app\<lparr>na_registry := r\<rparr>)
     | (Inl e, r) \<Rightarrow> (Inl e, app\<lparr>na_registry := r\<rparr>)
     | (Inr n, r) \<Rightarrow> (Inr \<lparr>sr_node_id = node_id n, sr_hostname = hostname n, sr_ip_address = ip_address n,
                          sr_region = region n\<rparr>, app\<lparr>na_registry := r\<rparr>))"

section \<open>Sequences of requests\<close>

datatype node_request =
    RegisterReq "string option" "string option" "string option" node
  | ModelsReq "string option" string "string list"
  | DeleteReq "string option" string
  | HeartbeatReq "string option" heartbeat
  | ScheduleReq "string option" string
  | InviteReq invite_op

fun serve_request :: "(node \<Rightarrow> string) \<Rightarrow> (string \<Rightarrow> string) \<Rightarrow> node_request \<Rightarrow> node_app \<Rightarrow> node_app" where
  "serve_request dump sha256 (RegisterReq header cred code n) app = snd (register_node dump sha256 header cred code n app)"
| "serve_request dump sha256 (ModelsReq header k ms) app = snd (update_node_models dump header k ms app)"
| "serve_request dump sha256 (DeleteReq header k) app = snd (unregister_endpoint header k app)"
| "serve_request dump sha256 (HeartbeatReq header h) app = snd (receive_heartbeat header h app)"
| "serve_request dump sha256 (ScheduleReq header m) app = snd (schedule_request header m app)"
| "serve_request dump sha256 (InviteReq op) app = app\<lparr>na_invites := map_option (invite_step sha256 op) (na_invites app)\<rparr>"

text \<open>Registrations answered 201 whose request carried a code with hash \<open>h\<close>.\<close>

fun admitted_with :: "(node \<Rightarrow> string) \<Rightarrow> (string \<Rightarrow> string) \<Rightarrow> string \<Rightarrow> node_request \<Rightarrow> node_app \<Rightarrow> nat" where
  "admitted_with dump sha256 h (RegisterReq header cred code n) app =
     (if (\<exists>x. fst (register_node dump sha256 header cred code n app) = Inr x) \<and> map_option (hash_code sha256) code = Some h
      then 1 else 0)"
| "admitted_with dump sha256 h _ app = 0"

fun registrations_with :: "(node \<Rightarrow> string) \<Rightarrow> (string \<Rightarrow> string) \<Rightarrow> string \<Rightarrow> node_request list \<Rightarrow> node_app \<Rightarrow> nat" where
  "registrations_with dump sha256 h [] app = 0"
| "registrations_with dump sha256 h (rq # rqs) app =
     admitted_with dump sha256 h rq app + registrations_with dump sha256 h rqs (serve_request dump sha256 rq app)"

text \<open>The operator's issues draw fresh codes; a redemption happens only through registration.\<close>

fun operator_ok :: "(string \<Rightarrow> string) \<Rightarrow> node_request \<Rightarrow> node_app \<Rightarrow> bool" where
  "operator_ok sha256 (InviteReq op) app = (case na_invites app of None \<Rightarrow> True | Some v \<Rightarrow> fresh_op sha256 op v)"
| "operator_ok sha256 _ app = True"

fun operator_run_ok :: "(node \<Rightarrow> string) \<Rightarrow> (string \<Rightarrow> string) \<Rightarrow> node_request list \<Rightarrow> node_app \<Rightarrow> bool" where
  "operator_run_ok dump sha256 [] app = True"
| "operator_run_ok dump sha256 (rq # rqs) app =
     (operator_ok sha256 rq app \<and> operator_run_ok dump sha256 rqs (serve_request dump sha256 rq app))"

section \<open>Registration, case by case\<close>

lemma guarded_cases:
  obtains (denied) e where "guarded header f app = (Inl e, app)" "e = HTTPException 401 ''Unauthorized''"
      "verify_auth_token (na_auth_token app) header = Inl e"
  | (passed) "guarded header f app = f app" "verify_auth_token (na_auth_token app) header = Inr ()"
  by (cases "na_auth_token app \<noteq> None \<and> header \<noteq> na_auth_token app") (auto simp: guarded_def verify_auth_token_def)

lemma reg_nodes_token [simp]: "reg_nodes (set_node_token k t r) = reg_nodes r"
  by (simp add: set_node_token_def split: option.splits)

lemma get_token_set: "get_node_token k (set_node_token k t r) = (case t of None \<Rightarrow> None | Some v \<Rightarrow> if v = [] then None else Some v)"
  by (simp add: set_node_token_def get_node_token_def dict_simps split: option.splits)

lemma register_tokens: "get_node_token k (snd (register dump n r)) = get_node_token k r"
  by (simp add: register_def local_register_def get_node_token_def)

definition stored_credential :: "string option \<Rightarrow> string option \<Rightarrow> string option" where
  "stored_credential cred header = (case credential_of cred header of None \<Rightarrow> None | Some v \<Rightarrow> if v = [] then None else Some v)"

text \<open>The registry after the credential was recorded, and after the node was admitted as well.\<close>

definition with_credential :: "node \<Rightarrow> string option \<Rightarrow> string option \<Rightarrow> node_app \<Rightarrow> node_app" where
  "with_credential n cred header app =
     app\<lparr>na_registry := set_node_token (node_id n) (credential_of cred header) (na_registry app)\<rparr>"

lemma register_node_cases:
  obtains (denied) "register_node dump sha256 header cred code n app = (Inl (HTTPException 401 ''Unauthorized''), app)"
  | (uninvited) m where "register_node dump sha256 header cred code n app = (Inl (HTTPException 403 m), app)"
      "invite_refuses sha256 code app"
  | (conflict) "register_node dump sha256 header cred code n app =
        (Inl (HTTPException 409 (''Node already registered: '' @ node_id n)), with_credential n cred header app)"
      "registry_exists (node_id n) (na_registry app)" "\<not> invite_refuses sha256 code app"
  | (admitted) r where "register_node dump sha256 header cred code n app =
        (Inr n, redeem_invite sha256 code (node_id n) (app\<lparr>na_registry := r\<rparr>))"
      "\<not> registry_exists (node_id n) (na_registry app)" "\<not> invite_refuses sha256 code app"
      "register dump n (na_registry (with_credential n cred header app)) = (Inr (), r)"
      "dget (reg_nodes r) (node_id n) = Some n" "get_node_token (node_id n) r = stored_credential cred header"
proof (cases rule: guarded_cases [of header "register_handler dump sha256 header cred code n" app])
  case (denied e)
  then show ?thesis using that(1) by (simp add: register_node_def register_handler_def)
next
  case passed
  show ?thesis
  proof (cases "invite_refuses sha256 code app")
    case True
    then show ?thesis using passed that(2) by (simp add: register_node_def register_handler_def)
  next
    case invited: False
    show ?thesis
    proof (cases "registry_exists (node_id n) (na_registry app)")
      case True
      then show ?thesis using passed invited that(3)
        by (simp add: register_node_def register_handler_def register_def local_register_def registry_exists_def with_credential_def)
    next
      case False
      obtain r where r: "register dump n (na_registry (with_credential n cred header app)) = (Inr (), r)"
          "dget (reg_nodes r) (node_id n) = Some n"
        using False by (simp add: register_def local_register_def registry_exists_def with_credential_def dict_simps)
      have "get_node_token (node_id n) r = stored_credential cred header"
        using register_tokens [of "node_id n" dump n "na_registry (with_credential n cred header app)"] r(1)
        by (simp add: with_credential_def get_token_set stored_credential_def)
      with r show ?thesis using passed invited False
        by (intro that(4) [of r]) (simp_all add: register_node_def register_handler_def with_credential_def)
    qed
  qed
qed

section \<open>Invites across requests\<close>

lemma enforcing_mem: "dmem h (inv_invites v) \<Longrightarrow> enforcing v"
  by (auto simp: enforcing_def)

lemma redeem_invite_admitted:
  assumes "na_invites app = Some v" "enforcing v" "verify sha256 code v = Some i"
  shows "\<exists>c. code = Some c \<and> c \<noteq> [] \<and> na_invites (redeem_invite sha256 code k app) = Some (invite_step sha256 (Redeem c k) v)
    \<and> fst (redeem sha256 c k v) = Some (i\<lparr>uses := uses i + 1\<rparr>)
    \<and> invite_step sha256 (Redeem c k) v = put_invite (i\<lparr>uses := uses i + 1\<rparr>) v"
proof -
  obtain c where c: "code = Some c" "c \<noteq> []" using assms(3) by (auto simp: verify_Some)
  then show ?thesis using assms by (simp add: redeem_invite_def redeem_def Let_def)
qed

lemma redeem_invite_fields [simp]: "na_registry (redeem_invite sha256 code k app) = na_registry app"
  by (simp add: redeem_invite_def split: option.splits)

lemma other_requests_invites:
  "na_invites (snd (update_node_models dump header k ms app)) = na_invites app"
  "na_invites (snd (unregister_endpoint header k app)) = na_invites app"
  "na_invites (snd (receive_heartbeat header h app)) = na_invites app"
  "na_invites (snd (schedule_request header m app)) = na_invites app"
  by (auto simp: update_node_models_def unregister_endpoint_def receive_heartbeat_def schedule_request_def guarded_def
      split: sum.splits prod.splits option.splits exc.splits)

lemma invites_step_request:
  assumes v: "na_invites app = Some v" "invites_inv v" "dmem h (inv_invites v)" and ok: "operator_ok sha256 rq app"
  obtains v' where "na_invites (serve_request dump sha256 rq app) = Some v'" "invites_inv v'" "dmem h (inv_invites v')"
    "admitted_with dump sha256 h rq app + left_of v' h \<le> left_of v h"
proof (cases rq)
  case (RegisterReq header cred code n)
  show ?thesis
  proof (cases rule: register_node_cases [of dump sha256 header cred code n app])
    case (admitted r)
    have "enforcing v" using v(3) by (rule enforcing_mem)
    then obtain i where "verify sha256 code v = Some i"
      using admitted(3) v(1) by (auto simp: invite_refuses_def)
    then obtain c where c: "code = Some c"
        "na_invites (redeem_invite sha256 code (node_id n) (app\<lparr>na_registry := r\<rparr>)) = Some (invite_step sha256 (Redeem c (node_id n)) v)"
        "fst (redeem sha256 c (node_id n) v) = Some (i\<lparr>uses := uses i + 1\<rparr>)"
      using redeem_invite_admitted [of "app\<lparr>na_registry := r\<rparr>" v] v(1) \<open>enforcing v\<close> by fastforce
    show ?thesis
      by (rule that [of "invite_step sha256 (Redeem c (node_id n)) v"])
        (use RegisterReq admitted(1) c v left_of_step [OF v(2) _ v(3), of sha256 "Redeem c (node_id n)"] in
          \<open>simp_all add: invite_step_inv del: invite_step.simps\<close>)
  qed (rule that [of v], use RegisterReq v in \<open>simp_all add: with_credential_def\<close>)+
next
  case (InviteReq op)
  show ?thesis
    by (rule that [of "invite_step sha256 op v"])
      (use InviteReq v ok left_of_step [OF v(2) _ v(3), of sha256 op] in \<open>simp_all add: invite_step_inv\<close>)
qed (rule that [of v], use v in \<open>simp_all add: other_requests_invites\<close>)+

lemma registrations_left:
  "na_invites app = Some v \<Longrightarrow> invites_inv v \<Longrightarrow> dmem h (inv_invites v) \<Longrightarrow> operator_run_ok dump sha256 rqs app \<Longrightarrow>
   registrations_with dump sha256 h rqs app \<le> left_of v h"
proof (induction rqs arbitrary: app v)
  case (Cons rq rqs)
  have ok: "operator_ok sha256 rq app" using Cons.prems(4) by simp
  obtain v' where v': "na_invites (serve_request dump sha256 rq app) = Some v'" "invites_inv v'" "dmem h (inv_invites v')"
    "admitted_with dump sha256 h rq app + left_of v' h \<le> left_of v h"
    by (rule invites_step_request [OF Cons.prems(1-3) ok])
  have "registrations_with dump sha256 h rqs (serve_request dump sha256 rq app) \<le> left_of v' h"
    using v'(1-3) by (rule Cons.IH) (use Cons.prems(4) in simp)
  then show ?case using v'(4) by simp
qed simp

section \<open>Properties\<close>

text \<open>
  Registration of a node. A failure never changes the registered nodes or the invites, and changes
  nothing at all unless it is the conflict of a name already taken, in which case the stored credential
  of that name is the one this request presented. A success registers exactly the node of the request
  under its own name, which was free, stores the credential presented (its own, else the fleet's), and
  while admission is enforced it needs a usable code, of which exactly one use is consumed.
\<close>

theorem register_node_effect:
  "case register_node dump sha header cred code n app of
     (Inl e, app') \<Rightarrow>
        reg_nodes (na_registry app') = reg_nodes (na_registry app) \<and> na_invites app' = na_invites app
        \<and> (app' = app \<or> e = HTTPException 409 (''Node already registered: '' @ node_id n)
             \<and> registry_exists (node_id n) (na_registry app)
             \<and> get_node_token (node_id n) (na_registry app') = stored_credential cred header)
   | (Inr x, app') \<Rightarrow>
        x = n \<and> \<not> registry_exists (node_id n) (na_registry app)
        \<and> registry_get (node_id n) (na_registry app') = Some n
        \<and> get_node_token (node_id n) (na_registry app') = stored_credential cred header
        \<and> (\<forall>v. na_invites app = Some v \<and> enforcing v \<longrightarrow>
             (\<exists>i. verify sha code v = Some i \<and> na_invites app' = Some (put_invite (i\<lparr>uses := uses i + 1\<rparr>) v)))"
proof (cases rule: register_node_cases [of dump sha header cred code n app])
  case conflict
  then show ?thesis by (simp add: with_credential_def get_token_set stored_credential_def)
next
  case (admitted r)
  have "\<exists>i. verify sha code v = Some i
      \<and> na_invites (redeem_invite sha code (node_id n) (app\<lparr>na_registry := r\<rparr>)) = Some (put_invite (i\<lparr>uses := uses i + 1\<rparr>) v)"
    if v: "na_invites app = Some v" "enforcing v" for v
  proof -
    obtain i where "verify sha code v = Some i" using admitted(3) v by (auto simp: invite_refuses_def)
    then show ?thesis using redeem_invite_admitted [of "app\<lparr>na_registry := r\<rparr>" v sha code i "node_id n"] v by auto
  qed
  then show ?thesis using admitted by (simp add: registry_get_def)
qed simp_all

text \<open>
  C17. Across any sequence of requests to the node routes and any issues and revocations by the operator,
  the registrations answered 201 that carried a given issued code are at most the uses that code had
  left at the start.
\<close>

theorem registrations_within_invite:
  assumes "na_invites app = Some v" "invites_inv v" "dmem h (inv_invites v)" "operator_run_ok dump sha256 rqs app"
  shows "registrations_with dump sha256 h rqs app \<le> left_of v h"
  using assms by (rule registrations_left)

section \<open>Witnesses\<close>

definition one_use_invites :: invites where
  "one_use_invites = put_invite \<lparr>code_hash = ''k'', label = ''l'', max_uses = 1, uses = 0, revoked = False, created_at = Fin 0\<rparr>
     (init_invites None)"

definition invited_app :: node_app where
  "invited_app = \<lparr>na_registry = init_registry None, na_invites = Some one_use_invites, na_auth_token = Some ''fleet''\<rparr>"

lemma one_use_inv: "invites_inv one_use_invites"
  by (simp add: one_use_invites_def put_invite_inv invites_inv_init invite_valid_def)

theorem register_node_effect_witness:
  "\<exists>app'. register_node unary_dump id (Some ''fleet'') (Some ''own'') (Some ''k'') (sample_node ''a'') invited_app
       = (Inr (sample_node ''a''), app')
     \<and> get_node_token ''a'' (na_registry app') = Some ''own''
     \<and> (\<exists>i. na_invites app' = Some (put_invite (i\<lparr>uses := uses i + 1\<rparr>) one_use_invites))"
proof -
  obtain app' where a: "register_node unary_dump id (Some ''fleet'') (Some ''own'') (Some ''k'') (sample_node ''a'') invited_app
       = (Inr (sample_node ''a''), app')"
    by (simp add: register_node_def guarded_def verify_auth_token_def register_handler_def invited_app_def invite_refuses_def
        one_use_invites_def verify_def hash_code_def usable_def spent_def init_invites_def register_def local_register_def
        init_registry_def set_node_token_def credential_of_def)
  have "enforcing one_use_invites" "na_invites invited_app = Some one_use_invites"
    by (simp_all add: enforcing_def one_use_invites_def invited_app_def init_invites_def)
  then show ?thesis
    using register_node_effect [where dump = unary_dump and sha = id and header = "Some ''fleet''" and cred = "Some ''own''"
        and code = "Some ''k''" and n = "sample_node ''a''" and app = invited_app] a
    by (auto simp: sample_node_def stored_credential_def credential_of_def)
qed

theorem registrations_within_invite_witness:
  "registrations_with unary_dump id ''k'' [RegisterReq (Some ''fleet'') None (Some ''k'') (sample_node ''a''),
     DeleteReq (Some ''fleet'') ''a'', RegisterReq (Some ''fleet'') None (Some ''k'') (sample_node ''b'')] invited_app \<le> 1"
proof -
  have "left_of one_use_invites ''k'' = 1"
    by (simp add: one_use_invites_def left_of_def usable_def spent_def init_invites_def)
  moreover have "na_invites invited_app = Some one_use_invites" "dmem ''k'' (inv_invites one_use_invites)"
    by (simp_all add: invited_app_def one_use_invites_def dict_simps)
  ultimately show ?thesis
    using registrations_within_invite [of invited_app one_use_invites "''k''" unary_dump id
        "[RegisterReq (Some ''fleet'') None (Some ''k'') (sample_node ''a''), DeleteReq (Some ''fleet'') ''a'',
          RegisterReq (Some ''fleet'') None (Some ''k'') (sample_node ''b'')]"] one_use_inv by simp
qed

end
