(* ===== verification/Mesh_Protocol.thy ===== *)
theory Mesh_Protocol
  imports Models
begin

text \<open>
  The signed inference requests of the mesh (\<^verbatim>\<open>pi_shared/mesh_protocol.py\<close>), shared by Scheduler and
  node. The JSON codec, SHA-256 and HMAC-SHA-256 are the fields of the record \<open>mesh_lib\<close>, an argument of
  every operation: what is shown holds for any such functions. A parser returns \<open>None\<close> where the code
  catches a decoding error. Verification runs under the nonce cache's lock only while it claims the
  nonce, so one verification is one step on the cache.
\<close>

section \<open>Library functions\<close>

record mesh_lib =
  json_loads :: "string \<Rightarrow> json option"
  json_dumps :: "json \<Rightarrow> string"
  sha256_hex :: "string \<Rightarrow> string"
  hmac_hex :: "string \<Rightarrow> string \<Rightarrow> string"
  py_repr :: "json \<Rightarrow> string"

text \<open>\<^verbatim>\<open>f"{x:.6f}"\<close>: the decimal with six places nearest to the exact value, ties to even.\<close>

definition pad6 :: "nat \<Rightarrow> string" where
  "pad6 n = replicate (6 - length (nat_digits n)) (CHR ''0'') @ nat_digits n"

definition format_6f :: "pyfloat \<Rightarrow> string" where
  "format_6f f = (case f of
      Fin x \<Rightarrow> (let n = nat (round_even (\<bar>x\<bar> * 1000000))
               in (if x < 0 then ''-'' else []) @ nat_digits (n div 1000000) @ ''.'' @ pad6 (n mod 1000000))
    | PInf \<Rightarrow> ''inf'' | NInf \<Rightarrow> ''-inf'' | NaN \<Rightarrow> ''nan'')"

section \<open>Requests\<close>

definition MAX_CLOCK_SKEW_SECONDS :: pyfloat where
  "MAX_CLOCK_SKEW_SECONDS = Fin 30"

definition NONCE_CACHE_SIZE :: int where
  "NONCE_CACHE_SIZE = 4096"

definition PROTOCOL_VERSION :: int where
  "PROTOCOL_VERSION = 1"

record mesh_request =
  mr_node_id :: string
  mr_model :: string
  mr_prompt :: string
  mr_stream :: bool

definition infer_key_expr :: "string \<Rightarrow> string" where
  "infer_key_expr k = ''public-intelligence/net/'' @ k @ ''/infer''"

definition canonical_timestamp :: "pyfloat \<Rightarrow> string" where
  "canonical_timestamp t = format_6f t"

definition NUL :: char where
  "NUL = CHR 0x00"

definition body_material :: "string \<Rightarrow> string \<Rightarrow> bool \<Rightarrow> string" where
  "body_material model prompt stream = model @ [NUL] @ prompt @ [NUL] @ (if stream then ''1'' else ''0'')"

definition body_digest :: "mesh_lib \<Rightarrow> string \<Rightarrow> string \<Rightarrow> bool \<Rightarrow> string" where
  "body_digest lib model prompt stream = sha256_hex lib (body_material model prompt stream)"

definition newline :: string where
  "newline = [char_of (10 :: nat)]"

definition signed_message :: "string \<Rightarrow> string \<Rightarrow> pyfloat \<Rightarrow> string \<Rightarrow> string" where
  "signed_message k nonce timestamp digest =
     k @ newline @ nonce @ newline @ canonical_timestamp timestamp @ newline @ digest"

definition signature :: "mesh_lib \<Rightarrow> string \<Rightarrow> string \<Rightarrow> string \<Rightarrow> pyfloat \<Rightarrow> string \<Rightarrow> string" where
  "signature lib token k nonce timestamp digest = hmac_hex lib token (signed_message k nonce timestamp digest)"

section \<open>The nonce cache\<close>

record nonce_cache =
  nc_capacity :: int
  nc_seen :: "(string, pyfloat) dict"

definition init_nonce_cache :: "int \<Rightarrow> nonce_cache" where
  "init_nonce_cache capacity = \<lparr>nc_capacity = capacity, nc_seen = []\<rparr>"

definition claim :: "string \<Rightarrow> pyfloat \<Rightarrow> nonce_cache \<Rightarrow> bool res \<times> nonce_cache" where
  "claim nonce timestamp c =
     (if dmem nonce (nc_seen c) then (Inr False, c)
      else if nc_capacity c \<le> int (length (nc_seen c))
      then (case nc_seen c of
              [] \<Rightarrow> (Inl (ValueError ''min() iterable argument is empty''), c)
            | p # ps \<Rightarrow>
                let oldest = fst (min_key flt snd p ps)
                in (Inr True, c\<lparr>nc_seen := dset nonce timestamp (ddel oldest (nc_seen c))\<rparr>))
      else (Inr True, c\<lparr>nc_seen := dset nonce timestamp (nc_seen c)\<rparr>))"

section \<open>Building and verifying\<close>

definition build_request :: "mesh_lib \<Rightarrow> string \<Rightarrow> string \<Rightarrow> string \<Rightarrow> bool \<Rightarrow> string \<Rightarrow> pyfloat \<Rightarrow> string \<Rightarrow> jobj" where
  "build_request lib k model prompt stream token ts nonce =
     [(''v'', JInt PROTOCOL_VERSION), (''node_id'', JStr k), (''model'', JStr model), (''prompt'', JStr prompt),
      (''stream'', JBool stream), (''nonce'', JStr nonce), (''timestamp'', JFloat ts),
      (''signature'', JStr (signature lib token k nonce ts (body_digest lib model prompt stream)))]"

definition encode_request :: "mesh_lib \<Rightarrow> string \<Rightarrow> string \<Rightarrow> string \<Rightarrow> bool \<Rightarrow> string \<Rightarrow> pyfloat \<Rightarrow> string \<Rightarrow> string" where
  "encode_request lib k model prompt stream token ts nonce =
     json_dumps lib (JObj (build_request lib k model prompt stream token ts nonce))"

text \<open>\<^verbatim>\<open>version != PROTOCOL_VERSION\<close> compares numbers across \<^verbatim>\<open>bool\<close>, \<^verbatim>\<open>int\<close> and \<^verbatim>\<open>float\<close>.\<close>

fun equals_int :: "json \<Rightarrow> int \<Rightarrow> bool" where
  "equals_int (JInt m) n = (m = n)"
| "equals_int (JBool b) n = ((if b then 1 else 0) = n)"
| "equals_int (JFloat f) n = (f = Fin (of_int n))"
| "equals_int _ n = False"

datatype claims = Claims string string string bool string json string

text \<open>The type checks on the fields of an envelope; the time stamp is an int or a float, never a bool.\<close>

definition envelope_claims :: "jobj \<Rightarrow> claims option" where
  "envelope_claims env =
     (case (jget env ''node_id'', jget env ''model'', jget env ''prompt'', dget_or env ''stream'' (JBool False),
            jget env ''nonce'', jget env ''timestamp'', jget env ''signature'') of
        (JStr k, JStr m, JStr p, JBool s, JStr n, JInt t, JStr sg) \<Rightarrow> Some (Claims k m p s n (JInt t) sg)
      | (JStr k, JStr m, JStr p, JBool s, JStr n, JFloat t, JStr sg) \<Rightarrow> Some (Claims k m p s n (JFloat t) sg)
      | _ \<Rightarrow> None)"

text \<open>\<^verbatim>\<open>hmac.compare_digest\<close> on two strings refuses a non-ASCII one.\<close>

definition compare_digest :: "string \<Rightarrow> string \<Rightarrow> bool res" where
  "compare_digest a b =
     (if list_all (\<lambda>c. code_of c < 128) a \<and> list_all (\<lambda>c. code_of c < 128) b then Inr (a = b)
      else Inl (TypeError ''comparing strings with non-ASCII characters is not supported''))"

definition malformed :: exc where
  "malformed = MeshRequestError ''Malformed mesh request payload.'' 400"

text \<open>Everything \<^verbatim>\<open>verify_request\<close> does before it claims the nonce: the request, its nonce and time stamp.\<close>

definition check_request :: "mesh_lib \<Rightarrow> string \<Rightarrow> string \<Rightarrow> string option \<Rightarrow> pyfloat
    \<Rightarrow> (mesh_request \<times> string \<times> pyfloat) res" where
  "check_request lib payload k token now =
     (case token of
        None \<Rightarrow> Inl (MeshRequestError ''Node is not configured for network auth.'' 401)
      | Some tok \<Rightarrow>
          if tok = [] then Inl (MeshRequestError ''Node is not configured for network auth.'' 401)
          else (case json_loads lib payload of
             Some (JObj env) \<Rightarrow>
               if \<not> equals_int (jget env ''v'') PROTOCOL_VERSION
               then Inl (MeshRequestError (''Unsupported mesh protocol version: '' @ py_repr lib (jget env ''v'') @ ''.'') 400)
               else (case envelope_claims env of
                  None \<Rightarrow> Inl malformed
                | Some (Claims claimed model prompt stream nonce t sg) \<Rightarrow>
                    if claimed \<noteq> k then Inl (MeshRequestError ''Mesh request addressed to a different node.'' 401)
                    else rbind (py_float t) (\<lambda>ts.
                      if flt MAX_CLOCK_SKEW_SECONDS (fabs (fsub now ts))
                      then Inl (MeshRequestError ''Mesh request is outside the 30s freshness window.'' 401)
                      else rbind (compare_digest sg (signature lib tok k nonce ts (body_digest lib model prompt stream))) (\<lambda>ok.
                        if \<not> ok then Inl (MeshRequestError ''Mesh request signature is not valid.'' 401)
                        else Inr (\<lparr>mr_node_id = k, mr_model = model, mr_prompt = prompt, mr_stream = stream\<rparr>, nonce, ts))))
           | _ \<Rightarrow> Inl malformed))"

definition verify_request :: "mesh_lib \<Rightarrow> string \<Rightarrow> string \<Rightarrow> string option \<Rightarrow> pyfloat \<Rightarrow> nonce_cache option
    \<Rightarrow> mesh_request res \<times> nonce_cache option" where
  "verify_request lib payload k token now cache =
     (case check_request lib payload k token now of
        Inl e \<Rightarrow> (Inl e, cache)
      | Inr (req, nonce, ts) \<Rightarrow>
          (case cache of
             None \<Rightarrow> (Inr req, None)
           | Some c \<Rightarrow>
               (case claim nonce ts c of
                  (Inl e, c') \<Rightarrow> (Inl e, Some c')
                | (Inr ok, c') \<Rightarrow>
                    if ok then (Inr req, Some c')
                    else (Inl (MeshRequestError ''Mesh request nonce has already been used.'' 401), Some c'))))"

section \<open>Replies\<close>

definition encode_result :: "mesh_lib \<Rightarrow> string \<Rightarrow> string \<Rightarrow> string" where
  "encode_result lib model response =
     json_dumps lib (JObj [(''ok'', JBool True), (''model'', JStr model), (''response'', JStr response)])"

definition encode_chunk :: "mesh_lib \<Rightarrow> int \<Rightarrow> string \<Rightarrow> string" where
  "encode_chunk lib index chunk =
     json_dumps lib (JObj [(''ok'', JBool True), (''i'', JInt index), (''chunk'', JStr chunk)])"

definition encode_done :: "mesh_lib \<Rightarrow> string" where
  "encode_done lib = json_dumps lib (JObj [(''ok'', JBool True), (''done'', JBool True)])"

definition encode_error :: "mesh_lib \<Rightarrow> string \<Rightarrow> int \<Rightarrow> string" where
  "encode_error lib message status =
     json_dumps lib (JObj [(''ok'', JBool False), (''status'', JInt status), (''error'', JStr message)])"

definition decode_reply :: "mesh_lib \<Rightarrow> string \<Rightarrow> jobj res" where
  "decode_reply lib payload =
     (case json_loads lib payload of
        None \<Rightarrow> Inl (ValueError ''Expecting value'')
      | Some (JObj d) \<Rightarrow> Inr d
      | Some _ \<Rightarrow> Inl (ValueError ''Mesh reply is not a JSON object.''))"

section \<open>What an accepted request satisfies\<close>

lemma envelope_claims_Some:
  assumes "envelope_claims env = Some (Claims k m p s n t sg)"
  shows "jget env ''node_id'' = JStr k" "jget env ''model'' = JStr m" "jget env ''prompt'' = JStr p"
    "dget_or env ''stream'' (JBool False) = JBool s" "jget env ''nonce'' = JStr n" "jget env ''timestamp'' = t"
    "jget env ''signature'' = JStr sg"
  using assms by (auto simp: envelope_claims_def split: json.splits)

lemma check_request_Inr:
  assumes "check_request lib payload k token now = Inr (req, nonce, ts)"
  obtains tok env t sg where "token = Some tok" "tok \<noteq> []" "json_loads lib payload = Some (JObj env)"
    "equals_int (jget env ''v'') PROTOCOL_VERSION"
    "envelope_claims env = Some (Claims k (mr_model req) (mr_prompt req) (mr_stream req) nonce t sg)"
    "mr_node_id req = k" "py_float t = Inr ts" "\<not> flt MAX_CLOCK_SKEW_SECONDS (fabs (fsub now ts))"
    "sg = signature lib tok k nonce ts (body_digest lib (mr_model req) (mr_prompt req) (mr_stream req))"
  using assms
  by (auto simp: check_request_def rbind_eq_Inr compare_digest_def
      split: option.splits if_splits json.splits claims.splits)

definition signed_for :: "mesh_lib \<Rightarrow> string \<Rightarrow> string \<Rightarrow> string \<Rightarrow> mesh_request \<Rightarrow> string \<Rightarrow> pyfloat \<Rightarrow> bool" where
  "signed_for lib payload tok k req nonce ts \<longleftrightarrow>
     (\<exists>env. json_loads lib payload = Some (JObj env) \<and> equals_int (jget env ''v'') 1
        \<and> jget env ''node_id'' = JStr k \<and> mr_node_id req = k
        \<and> jget env ''nonce'' = JStr nonce \<and> py_float (jget env ''timestamp'') = Inr ts
        \<and> jget env ''signature'' = JStr (hmac_hex lib tok (signed_message k nonce ts
              (sha256_hex lib (body_material (mr_model req) (mr_prompt req) (mr_stream req))))))"

definition within_window :: "pyfloat \<Rightarrow> pyfloat \<Rightarrow> bool" where
  "within_window now ts = (fle (fabs (fsub now ts)) (Fin 30) \<or> fsub now ts = NaN)"

lemma check_request_signed:
  assumes "check_request lib payload k token now = Inr (req, nonce, ts)"
  obtains tok where "token = Some tok" "tok \<noteq> []" "signed_for lib payload tok k req nonce ts" "within_window now ts"
proof -
  obtain tok env t sg where e: "token = Some tok" "tok \<noteq> []" "json_loads lib payload = Some (JObj env)"
    "equals_int (jget env ''v'') PROTOCOL_VERSION"
    "envelope_claims env = Some (Claims k (mr_model req) (mr_prompt req) (mr_stream req) nonce t sg)"
    "mr_node_id req = k" "py_float t = Inr ts" "\<not> flt MAX_CLOCK_SKEW_SECONDS (fabs (fsub now ts))"
    "sg = signature lib tok k nonce ts (body_digest lib (mr_model req) (mr_prompt req) (mr_stream req))"
    by (rule check_request_Inr [OF assms])
  have "within_window now ts"
    using e(8) by (cases "fsub now ts") (auto simp: MAX_CLOCK_SKEW_SECONDS_def within_window_def)
  moreover have "signed_for lib payload tok k req nonce ts"
    unfolding signed_for_def using e envelope_claims_Some [OF e(5)]
    by (intro exI [of _ env] conjI) (simp_all add: signature_def body_digest_def PROTOCOL_VERSION_def)
  ultimately show ?thesis using that e(1,2) by blast
qed

section \<open>Replay\<close>

text \<open>The nonce and time stamp of a payload that passed every check before the cache.\<close>

definition stamp_of :: "(mesh_request \<times> string \<times> pyfloat) res \<Rightarrow> string \<times> pyfloat" where
  "stamp_of r = (case r of Inr (_, nonce, ts) \<Rightarrow> (nonce, ts) | Inl _ \<Rightarrow> ([], NaN))"

text \<open>A node serving queries one after the other: the stamps it accepted, in order, and its cache.\<close>

fun serve_one :: "mesh_lib \<Rightarrow> string \<Rightarrow> string option \<Rightarrow> string \<times> pyfloat
    \<Rightarrow> (string \<times> pyfloat) list \<times> nonce_cache \<Rightarrow> (string \<times> pyfloat) list \<times> nonce_cache" where
  "serve_one lib k token (payload, now) (seen, c) =
     (case verify_request lib payload k token now (Some c) of
        (Inr _, Some c') \<Rightarrow> (seen @ [stamp_of (check_request lib payload k token now)], c')
      | (Inl _, Some c') \<Rightarrow> (seen, c')
      | (_, None) \<Rightarrow> (seen, c))"

definition serve_queries :: "mesh_lib \<Rightarrow> string \<Rightarrow> string option \<Rightarrow> (string \<times> pyfloat) list
    \<Rightarrow> (string \<times> pyfloat) list \<times> nonce_cache \<Rightarrow> (string \<times> pyfloat) list \<times> nonce_cache" where
  "serve_queries lib k token qs st = fold (serve_one lib k token) qs st"

definition as_recent :: "pyfloat \<Rightarrow> (string \<times> pyfloat) list \<Rightarrow> nat" where
  "as_recent t H = length (filter (\<lambda>p. fle t (snd p)) H)"

definition cache_inv :: "(string \<times> pyfloat) list \<Rightarrow> nonce_cache \<Rightarrow> bool" where
  "cache_inv H c \<longleftrightarrow>
     0 < nc_capacity c \<and> dict_ok (nc_seen c) \<and> set (nc_seen c) \<subseteq> set H
   \<and> int (length (nc_seen c)) \<le> nc_capacity c
   \<and> (\<forall>n t. (n, t) \<in> set H \<longrightarrow> dget (nc_seen c) n = Some t \<or> nc_capacity c \<le> int (as_recent t H))"

lemma as_recent_append: "as_recent t H \<le> as_recent t (H @ [p])"
  by (simp add: as_recent_def)

lemma ddel_pairs: "set (ddel k d) \<subseteq> set d"
  by (induction d) auto

lemma dset_pairs: "set (dset k v d) \<subseteq> insert (k, v) (set d)"
  by (induction d) auto

lemma length_ddel: "dict_ok d \<Longrightarrow> k \<in> set (dkeys d) \<Longrightarrow> Suc (length (ddel k d)) = length d"
  by (induction d) (auto simp: delete_idem)

text \<open>A full cache has at least its capacity of stamps as recent as its oldest.\<close>

lemma oldest_recent:
  assumes "cache_inv H c" "nc_seen c = p # ps" "nc_capacity c \<le> int (length (nc_seen c))" "\<forall>q\<in>set H. snd q \<noteq> NaN"
    "m = min_key flt snd p ps"
  shows "m \<in> set (nc_seen c)" "nc_capacity c \<le> int (as_recent (snd m) H)"
proof -
  have sub: "set (nc_seen c) \<subseteq> set H" and d: "dict_ok (nc_seen c)" using assms(1) by (auto simp: cache_inv_def)
  show m: "m \<in> set (nc_seen c)" using min_key_in [of flt snd p ps] assms(2,5) by simp
  have ok: "\<forall>q\<in>set (nc_seen c). snd q \<noteq> NaN" using sub assms(4) by auto
  have "fle (snd m) (snd q)" if "q \<in> set (nc_seen c)" for q
  proof -
    have "\<not> flt (snd q) (snd m)" unfolding assms(5)
      using that ok assms(2) by (intro flt.min_key_least) auto
    then show ?thesis using that m ok by (auto simp: fle_iff)
  qed
  then have "set (nc_seen c) \<subseteq> set (filter (\<lambda>q. fle (snd m) (snd q)) H)" using sub by auto
  then have "card (set (nc_seen c)) \<le> length (filter (\<lambda>q. fle (snd m) (snd q)) H)"
    by (meson List.finite_set card_length card_mono le_trans)
  moreover have "card (set (nc_seen c)) = length (nc_seen c)"
    using d by (simp add: distinct_card distinct_map)
  ultimately show "nc_capacity c \<le> int (as_recent (snd m) H)" using assms(3) by (simp add: as_recent_def)
qed

lemma claim_inv:
  assumes "cache_inv H c" "claim n ts c = (Inr True, c')" "\<forall>q\<in>set H. snd q \<noteq> NaN"
  shows "cache_inv (H @ [(n, ts)]) c'" "nc_capacity c' = nc_capacity c"
    "\<forall>t. (n, t) \<in> set H \<longrightarrow> nc_capacity c \<le> int (as_recent t H)"
proof -
  have new: "dget (nc_seen c) n = None" using assms(2) by (auto simp: claim_def dmem_def split: if_splits)
  show replay: "\<forall>t. (n, t) \<in> set H \<longrightarrow> nc_capacity c \<le> int (as_recent t H)"
    using assms(1) new unfolding cache_inv_def by fastforce
  obtain d where d: "c' = c\<lparr>nc_seen := dset n ts d\<rparr>" "set d \<subseteq> set (nc_seen c)" "dict_ok d" "dget d n = None"
    "int (length d) < nc_capacity c"
    "\<forall>m t. dget (nc_seen c) m = Some t \<longrightarrow> dget d m = Some t \<or> nc_capacity c \<le> int (as_recent t H)"
  proof (cases "nc_capacity c \<le> int (length (nc_seen c))")
    case False
    then show thesis using assms(1,2) new
      by (intro that [of "nc_seen c"]) (auto simp: claim_def dmem_def cache_inv_def)
  next
    case True
    then obtain p ps where p: "nc_seen c = p # ps" using assms(1) by (cases "nc_seen c") (auto simp: cache_inv_def)
    let ?m = "min_key flt snd p ps"
    note old = oldest_recent [OF assms(1) p True assms(3) refl]
    have dk: "dict_ok (nc_seen c)" "int (length (nc_seen c)) \<le> nc_capacity c" using assms(1) by (auto simp: cache_inv_def)
    have len: "Suc (length (ddel (fst ?m) (nc_seen c))) = length (nc_seen c)"
      using dk(1) old(1) by (intro length_ddel) auto
    have look: "dget (nc_seen c) (fst ?m) = Some (snd ?m)" using old(1) dk(1) by (simp add: map_of_eq_Some_iff)
    show thesis
    proof (rule that [of "ddel (fst ?m) (nc_seen c)"])
      show "c' = c\<lparr>nc_seen := dset n ts (ddel (fst ?m) (nc_seen c))\<rparr>"
        using assms(2) new True p by (simp add: claim_def dmem_def Let_def)
      show "\<forall>m t. dget (nc_seen c) m = Some t \<longrightarrow> dget (ddel (fst ?m) (nc_seen c)) m = Some t \<or> nc_capacity c \<le> int (as_recent t H)"
        using look old(2) by (auto simp: dict_simps)
      show "set (ddel (fst ?m) (nc_seen c)) \<subseteq> set (nc_seen c)" by (rule ddel_pairs)
    qed (use dk len new in \<open>auto simp: dict_simps\<close>)
  qed
  have "int (as_recent t H) \<le> int (as_recent t (H @ [(n, ts)]))" for t using as_recent_append [of t H] by simp
  then have mono: "nc_capacity c \<le> int (as_recent t H) \<Longrightarrow> nc_capacity c \<le> int (as_recent t (H @ [(n, ts)]))" for t
    by (meson order_trans)
  have "dget (dset n ts d) m = Some t \<or> nc_capacity c \<le> int (as_recent t (H @ [(n, ts)]))"
    if mt: "(m, t) \<in> set (H @ [(n, ts)])" for m t
  proof (cases "(m, t) = (n, ts)")
    case False
    then have "(m, t) \<in> set H" using mt by auto
    then consider "dget (nc_seen c) m = Some t" | "nc_capacity c \<le> int (as_recent t H)"
      using assms(1) by (auto simp: cache_inv_def)
    then show ?thesis
    proof cases
      case 1
      then have "m \<noteq> n" using new by auto
      then show ?thesis using d(6) 1 mono by (auto simp: dict_simps)
    qed (use mono in blast)
  qed (simp add: dict_simps)
  moreover have "length (dset n ts d) = Suc (length d)" using d(4) by (simp add: length_dset map_of_eq_None_iff)
  moreover have "set (dset n ts d) \<subseteq> set (H @ [(n, ts)])"
    using dset_pairs [of n ts d] d(2) assms(1) by (auto simp: cache_inv_def)
  ultimately show "cache_inv (H @ [(n, ts)]) c'" "nc_capacity c' = nc_capacity c"
    using d(1,3,5) assms(1) by (auto simp: cache_inv_def)
qed

lemma claim_refused: "claim n ts c = (r, c') \<Longrightarrow> r \<noteq> Inr True \<Longrightarrow> c' = c"
  by (auto simp: claim_def Let_def split: if_splits list.splits)

text \<open>What a verification does to the cache, by its outcome.\<close>

lemma verify_request_cases:
  assumes "verify_request lib payload k token now (Some c) = (r, c')"
  obtains (accepted) req nonce ts c1 where "check_request lib payload k token now = Inr (req, nonce, ts)"
      "claim nonce ts c = (Inr True, c1)" "r = Inr req" "c' = Some c1"
  | (refused) e where "r = Inl e" "c' = Some c"
proof (cases "check_request lib payload k token now")
  case (Inl e)
  then show ?thesis using assms refused by (auto simp: verify_request_def)
next
  case (Inr x)
  obtain req nonce ts where x: "x = (req, nonce, ts)" by (cases x)
  obtain b c1 where b: "claim nonce ts c = (b, c1)" by force
  show ?thesis
  proof (cases "b = Inr True")
    case True
    then show ?thesis using assms Inr x b by (intro accepted) (auto simp: verify_request_def)
  next
    case False
    then have "c1 = c" using claim_refused [OF b] by simp
    then show ?thesis using False assms Inr x b refused by (auto simp: verify_request_def split: sum.splits if_splits)
  qed
qed

lemma serve_one_grows: "set (fst st) \<subseteq> set (fst (serve_one lib k token q st))"
  by (cases q; cases st) (auto split: sum.splits option.splits prod.splits)

lemma serve_queries_grows: "set (fst st) \<subseteq> set (fst (serve_queries lib k token qs st))"
proof (induction qs arbitrary: st)
  case (Cons q qs)
  have "set (fst st) \<subseteq> set (fst (serve_one lib k token q st))" by (rule serve_one_grows)
  also have "\<dots> \<subseteq> set (fst (serve_queries lib k token qs (serve_one lib k token q st)))" by (rule Cons.IH)
  finally show ?case by (simp add: serve_queries_def)
qed (simp add: serve_queries_def)

lemma serve_queries_inv:
  assumes "\<forall>q\<in>set (fst (serve_queries lib k token qs (H, c))). snd q \<noteq> NaN" "cache_inv H c"
  shows "cache_inv (fst (serve_queries lib k token qs (H, c))) (snd (serve_queries lib k token qs (H, c)))
     \<and> nc_capacity (snd (serve_queries lib k token qs (H, c))) = nc_capacity c
     \<and> set H \<subseteq> set (fst (serve_queries lib k token qs (H, c)))"
  using assms
proof (induction qs arbitrary: H c)
  case (Cons q qs)
  obtain payload now where q: "q = (payload, now)" by force
  obtain r c' where v: "verify_request lib payload k token now (Some c) = (r, c')" by force
  from v show ?case
  proof (cases rule: verify_request_cases)
    case (refused e)
    then show ?thesis using Cons v q by (simp add: serve_queries_def)
  next
    case (accepted req nonce ts c1)
    let ?H = "H @ [(nonce, ts)]"
    have eq: "serve_queries lib k token (q # qs) (H, c) = serve_queries lib k token qs (?H, c1)"
      using accepted v q by (simp add: stamp_of_def serve_queries_def)
    have mono: "set ?H \<subseteq> set (fst (serve_queries lib k token qs (?H, c1)))"
      using serve_queries_grows [of "(?H, c1)"] by simp
    then have "\<forall>p\<in>set H. snd p \<noteq> NaN" using Cons.prems(1) eq by auto
    note step = claim_inv [OF Cons.prems(2) accepted(2) this]
    from Cons.IH [OF Cons.prems(1) [unfolded eq] step(1)] show ?thesis using eq step(2) by auto
  qed
qed (simp add: serve_queries_def)

lemma cache_inv_init: "0 < capacity \<Longrightarrow> cache_inv [] (init_nonce_cache capacity)"
  by (simp add: cache_inv_def init_nonce_cache_def)

section \<open>Separators\<close>

lemma append_sep_inject:
  assumes "x @ s # y = x' @ s # y'" "s \<notin> set x" "s \<notin> set x'"
  shows "x = x' \<and> y = y'"
  using assms
proof (induction x arbitrary: x')
  case Nil
  then show ?case by (cases x') auto
next
  case (Cons a x)
  then show ?case by (cases x') auto
qed

lemma body_material_inject:
  assumes "body_material m p s = body_material m' p' s'" "NUL \<notin> set m" "NUL \<notin> set m'" "NUL \<notin> set p" "NUL \<notin> set p'"
  shows "m = m' \<and> p = p' \<and> s = s'"
proof -
  define t where "t = (\<lambda>s. if s then ''1'' else ''0'')"
  have "m @ NUL # (p @ NUL # t s) = m' @ NUL # (p' @ NUL # t s')"
    using assms(1) by (simp only: body_material_def t_def append_Cons append_Nil)
  from append_sep_inject [OF this assms(2,3)] have m: "m = m'" and "p @ NUL # t s = p' @ NUL # t s'" by blast+
  from append_sep_inject [OF this(2) assms(4,5)] have "p = p'" "t s = t s'" by blast+
  moreover have "s = s'" using \<open>t s = t s'\<close> by (auto simp: t_def split: if_splits)
  ultimately show ?thesis using m by blast
qed

section \<open>Properties\<close>


text \<open>
  C16. Replay is bounded by the cache alone: let a node have served any sequence of queries from an
  empty cache. If it now accepts a payload whose nonce and time stamp it has accepted before, then at
  least as many accepted requests as the cache holds (4096 by default) carry a time stamp no older
  than the replayed one. So until that many requests of one freshness window have been accepted, no
  captured request is served twice. Accepted time stamps are assumed to be numbers.
\<close>

theorem replay_needs_full_window:
  assumes "serve_queries lib k token qs ([], init_nonce_cache capacity) = (H, c)" "0 < capacity"
    "\<forall>q\<in>set H. snd q \<noteq> NaN"
    "verify_request lib payload k token now (Some c) = (Inr req, c')"
    "stamp_of (check_request lib payload k token now) \<in> set H"
  shows "capacity \<le> int (length (filter (\<lambda>p. fle (snd (stamp_of (check_request lib payload k token now))) (snd p)) H))"
proof -
  have inv: "cache_inv H c" "nc_capacity c = capacity"
    using serve_queries_inv [of lib k token qs "[]" "init_nonce_cache capacity"] assms(1-3) cache_inv_init [OF assms(2)]
    by (auto simp: init_nonce_cache_def)
  from assms(4) show ?thesis
  proof (cases rule: verify_request_cases)
    case (accepted req' nonce ts c1)
    then show ?thesis
      using claim_inv(3) [OF inv(1) accepted(2) assms(3)] assms(5) inv(2) by (simp add: stamp_of_def as_recent_def)
  qed simp
qed

text \<open>What the Scheduler builds passes every check of the node it is for.\<close>

lemma built_request_accepted:
  assumes "token \<noteq> []" "env = build_request lib k model prompt stream token ts nonce"
    "json_loads lib (json_dumps lib (JObj env)) = Some (JObj env)"
    "\<forall>key msg. list_all (\<lambda>ch. code_of ch < 128) (hmac_hex lib key msg)"
    "fle (fabs (fsub now ts)) (Fin 30)" "\<not> dmem nonce (nc_seen c)" "int (length (nc_seen c)) < nc_capacity c"
  shows "verify_request lib (encode_request lib k model prompt stream token ts nonce) k (Some token) now (Some c)
     = (Inr \<lparr>mr_node_id = k, mr_model = model, mr_prompt = prompt, mr_stream = stream\<rparr>,
        Some (c\<lparr>nc_seen := dset nonce ts (nc_seen c)\<rparr>))"
proof -
  have fresh: "\<not> flt MAX_CLOCK_SKEW_SECONDS (fabs (fsub now ts))"
    using assms(5) by (simp add: fle_iff MAX_CLOCK_SKEW_SECONDS_def)
  have claims: "envelope_claims env = Some (Claims k model prompt stream nonce (JFloat ts)
      (signature lib token k nonce ts (body_digest lib model prompt stream)))"
    by (simp add: assms(2) build_request_def envelope_claims_def jget_def dget_or_def)
  have v: "equals_int (jget env ''v'') PROTOCOL_VERSION"
    by (simp add: assms(2) build_request_def jget_def dget_or_def)
  have cmp: "compare_digest s s = Inr True" if "s = signature lib token k nonce ts d" for s d
    using assms(4) that by (simp add: compare_digest_def signature_def)
  have "check_request lib (encode_request lib k model prompt stream token ts nonce) k (Some token) now
      = Inr (\<lparr>mr_node_id = k, mr_model = model, mr_prompt = prompt, mr_stream = stream\<rparr>, nonce, ts)"
    using assms(1,3) claims v fresh cmp by (simp add: check_request_def encode_request_def assms(2) [symmetric])
  then show ?thesis using assms(6,7) by (simp add: verify_request_def claim_def)
qed

text \<open>
  A request the Scheduler builds is accepted by the node it is for: with the same non-empty token,
  a clock difference of at most 30 seconds, a nonce the node has not seen and room in its cache,
  verification returns exactly the model, prompt and stream flag that went in. The hypotheses on the
  library are that JSON decoding inverts encoding on this envelope and that a digest is ASCII text.
\<close>

theorem request_roundtrip:
  assumes "token \<noteq> []" "env = build_request lib k model prompt stream token ts nonce"
    "json_loads lib (json_dumps lib (JObj env)) = Some (JObj env)"
    "\<forall>key msg. list_all (\<lambda>ch. code_of ch < 128) (hmac_hex lib key msg)"
    "fle (fabs (fsub now ts)) (Fin 30)" "\<not> dmem nonce (nc_seen c)" "int (length (nc_seen c)) < nc_capacity c"
  shows "verify_request lib (encode_request lib k model prompt stream token ts nonce) k (Some token) now (Some c)
     = (Inr \<lparr>mr_node_id = k, mr_model = model, mr_prompt = prompt, mr_stream = stream\<rparr>,
        Some (c\<lparr>nc_seen := dset nonce ts (nc_seen c)\<rparr>))"
  by (rule built_request_accepted [OF assms])

definition sample_lib :: "json \<Rightarrow> mesh_lib" where
  "sample_lib v = \<lparr>json_loads = (\<lambda>_. Some v), json_dumps = (\<lambda>_. ''{}''), sha256_hex = (\<lambda>_. ''d''),
     hmac_hex = (\<lambda>key msg. ''ab''), py_repr = (\<lambda>_. [])\<rparr>"

definition sample_envelope :: jobj where
  "sample_envelope = build_request (sample_lib JNull) ''n'' ''m'' ''p'' False ''tok'' (Fin 100) ''x''"

lemma sample_build: "build_request (sample_lib v) ''n'' ''m'' ''p'' False ''tok'' (Fin 100) ''x'' = sample_envelope"
  by (simp add: sample_envelope_def build_request_def signature_def body_digest_def sample_lib_def)

theorem request_roundtrip_witness:
  "fst (verify_request (sample_lib (JObj sample_envelope)) ''{}'' ''n'' (Some ''tok'') (Fin 100) (Some (init_nonce_cache 4)))
     = Inr \<lparr>mr_node_id = ''n'', mr_model = ''m'', mr_prompt = ''p'', mr_stream = False\<rparr>"
proof -
  have e: "encode_request (sample_lib (JObj sample_envelope)) ''n'' ''m'' ''p'' False ''tok'' (Fin 100) ''x'' = ''{}''"
    by (simp add: encode_request_def sample_lib_def)
  show ?thesis
    using request_roundtrip [OF _ sample_build [symmetric], of "JObj sample_envelope" "Fin 100" "init_nonce_cache 4"] e
    by (simp add: sample_lib_def init_nonce_cache_def fsub_def)
qed


definition replay_lib :: mesh_lib where
  "replay_lib = (sample_lib JNull)\<lparr>json_loads := (\<lambda>payload. Some (JObj
     (build_request (sample_lib JNull) ''n'' ''m'' ''p'' False ''tok'' (Fin 100) payload)))\<rparr>"

lemma replay_check:
  "check_request replay_lib payload ''n'' (Some ''tok'') (Fin 100)
     = Inr (\<lparr>mr_node_id = ''n'', mr_model = ''m'', mr_prompt = ''p'', mr_stream = False\<rparr>, payload, Fin 100)"
  by (simp add: check_request_def replay_lib_def sample_lib_def build_request_def envelope_claims_def jget_def dget_or_def
      signature_def body_digest_def compare_digest_def PROTOCOL_VERSION_def MAX_CLOCK_SKEW_SECONDS_def fsub_def)

theorem replay_needs_full_window_witness:
  "\<exists>H c req c'. serve_queries replay_lib ''n'' (Some ''tok'') [(''x'', Fin 100), (''y'', Fin 100)] ([], init_nonce_cache 1) = (H, c)
     \<and> verify_request replay_lib ''x'' ''n'' (Some ''tok'') (Fin 100) (Some c) = (Inr req, c')
     \<and> 1 \<le> int (length (filter (\<lambda>p. fle (Fin 100) (snd p)) H))"
proof -
  let ?H = "[(''x'', Fin 100), (''y'', Fin 100)]" and ?c = "\<lparr>nc_capacity = 1, nc_seen = [(''y'', Fin 100)]\<rparr>"
  have run: "serve_queries replay_lib ''n'' (Some ''tok'') ?H ([], init_nonce_cache 1) = (?H, ?c)"
    by (simp add: serve_queries_def verify_request_def replay_check claim_def init_nonce_cache_def dmem_def stamp_of_def)
  obtain req c' where v: "verify_request replay_lib ''x'' ''n'' (Some ''tok'') (Fin 100) (Some ?c) = (Inr req, c')"
    by (simp add: verify_request_def replay_check claim_def dmem_def)
  have "1 \<le> int (length (filter (\<lambda>p. fle (Fin 100) (snd p)) ?H))"
    using replay_needs_full_window [OF run _ _ v] by (simp add: replay_check stamp_of_def)
  then show ?thesis using run v by blast
qed

text \<open>
  The signature binds the body as long as the fields are free of the separator: two bodies
  without NUL characters that have the same digest material are the same request.
\<close>

theorem body_material_binds:
  assumes "body_material m p s = body_material m' p' s'" "NUL \<notin> set m \<union> set m' \<union> set p \<union> set p'"
  shows "m = m' \<and> p = p' \<and> s = s'"
  using body_material_inject [OF assms(1)] assms(2) by simp

theorem body_material_binds_witness:
  "body_material ''m'' ''p'' True \<noteq> body_material ''mp'' [] True"
  using body_material_binds [of "''m''" "''p''" True "''mp''" "[]" True] by (auto simp: NUL_def)

text \<open>
  With a NUL in a field the claim of the code's comment fails: JSON strings may contain it, and
  two different requests (a model and a prompt split at another place) then have one digest under
  every hash function, hence one signature.
\<close>

theorem body_digest_ambiguous:
  "body_digest lib (m @ [NUL] @ x) y s = body_digest lib m (x @ [NUL] @ y) s"
  by (simp add: body_digest_def body_material_def)

end
