(* ===== verification/Dispatch.thy ===== *)
theory Dispatch
  imports Registry Mesh_Protocol
begin

text \<open>
  Reaching a node: the mesh query client (\<^verbatim>\<open>scheduler/core/mesh_inference_client.py\<close>) and the choice
  between mesh and HTTP (\<^verbatim>\<open>scheduler/core/node_dispatch.py\<close>). The network is an argument: what a query
  sent on a key with a payload brings back, and what an HTTP request brings back. Replies reach the
  client through an unbounded queue filled by a worker thread; a stream is the list of items still to
  come from that queue, and waiting on an empty queue that nobody fills is the outcome \<open>Pending\<close>.
\<close>

section \<open>The reply queue\<close>

text \<open>One element of zenoh's reply iterator: an error reply, one without a sample, or a payload.\<close>

datatype raw_reply = ReplyErr | ReplyEmpty | ReplyOk string

datatype queue_item = Reply jobj | Unavailable string | END

definition drain_one :: "mesh_lib \<Rightarrow> raw_reply \<Rightarrow> queue_item list" where
  "drain_one lib r = (case r of
      ReplyErr \<Rightarrow> [Unavailable ''Node replied with an error.'']
    | ReplyEmpty \<Rightarrow> []
    | ReplyOk raw \<Rightarrow> (case decode_reply lib raw of
          Inl e \<Rightarrow> [Unavailable ''Undecodable mesh reply'']
        | Inr d \<Rightarrow> [Reply d]))"

text \<open>The iterator may raise after some replies; the terminator is put in every case.\<close>

definition drain :: "mesh_lib \<Rightarrow> raw_reply list \<Rightarrow> string option \<Rightarrow> queue_item list" where
  "drain lib replies failure =
     concat (map (drain_one lib) replies) @ (case failure of None \<Rightarrow> [] | Some m \<Rightarrow> [Unavailable m]) @ [END]"

text \<open>
  What the mesh makes of a query: refused by \<^verbatim>\<open>Session.get\<close>, or answered, where \<open>in_time\<close> says whether
  the first queue item came before \<^verbatim>\<open>first_reply_timeout\<close>.
\<close>

datatype query_outcome = Refused string | Answered bool "raw_reply list" "string option"

type_synonym mesh_net = "string \<Rightarrow> string \<Rightarrow> query_outcome"

record mesh_client =
  mc_session :: bool
  mc_net :: mesh_net

text \<open>
  Messages of exceptions keep their fixed text; a figure or a nested message interpolated at the end is
  left out. \<open>ts\<close> and \<open>nonce\<close> are the time and the random nonce \<^verbatim>\<open>build_request\<close> draws.
\<close>

definition start_query :: "mesh_lib \<Rightarrow> mesh_client \<Rightarrow> string \<Rightarrow> string \<Rightarrow> string \<Rightarrow> string \<Rightarrow> bool \<Rightarrow> pyfloat \<Rightarrow> string
    \<Rightarrow> (bool \<times> queue_item list) res" where
  "start_query lib cl k token model prompt stream ts nonce =
     (if \<not> mc_session cl then Inl (MeshUnavailableError ''Scheduler has no Zenoh session.'')
      else (case mc_net cl (infer_key_expr k) (encode_request lib k model prompt stream token ts nonce) of
          Refused m \<Rightarrow> Inl (MeshUnavailableError (''Mesh query could not be sent: '' @ m))
        | Answered in_time replies failure \<Rightarrow> Inr (in_time, drain lib replies failure)))"

definition first_reply :: "string \<Rightarrow> bool \<times> queue_item list \<Rightarrow> (jobj \<times> queue_item list) res" where
  "first_reply k q =
     (case q of
        (False, _) \<Rightarrow> Inl (MeshUnavailableError (''Node '' @ k @ '' did not answer over the mesh in time.''))
      | (True, []) \<Rightarrow> Inl (MeshUnavailableError (''Node '' @ k @ '' did not answer over the mesh in time.''))
      | (True, END # _) \<Rightarrow> Inl (MeshUnavailableError (''No queryable answered for node '' @ k @ ''.''))
      | (True, Unavailable m # _) \<Rightarrow> Inl (MeshUnavailableError m)
      | (True, Reply d # rest) \<Rightarrow> Inr (d, rest))"

definition reply_ok :: "jobj \<Rightarrow> bool" where
  "reply_ok d = truthy (dget_or d ''ok'' (JBool False))"

definition node_failure :: "(json \<Rightarrow> string) \<Rightarrow> jobj \<Rightarrow> exc" where
  "node_failure rep d =
     (case py_int (dget_or d ''status'' (JInt 500)) of
        Inl e \<Rightarrow> e
      | Inr s \<Rightarrow> MeshNodeError (py_str rep (dget_or d ''error'' (JStr ''Node reported an error.''))) s)"

definition mesh_infer :: "mesh_lib \<Rightarrow> mesh_client \<Rightarrow> string \<Rightarrow> string \<Rightarrow> string \<Rightarrow> string \<Rightarrow> pyfloat \<Rightarrow> string
    \<Rightarrow> (string \<times> string) res" where
  "mesh_infer lib cl k token model prompt ts nonce =
     rbind (start_query lib cl k token model prompt False ts nonce) (\<lambda>q.
     rbind (first_reply k q) (\<lambda>(reply, _).
       if \<not> reply_ok reply then Inl (node_failure (py_repr lib) reply)
       else Inr (py_str (py_repr lib) (dget_or reply ''model'' (JStr model)),
                 py_str (py_repr lib) (dget_or reply ''response'' (JStr [])))))"

section \<open>Streams\<close>

record mesh_stream =
  first_chunk :: "string option"
  stream_queue :: "queue_item list"
  last_index :: int
  finished :: bool

definition mk_stream :: "string option \<Rightarrow> queue_item list \<Rightarrow> bool \<Rightarrow> mesh_stream" where
  "mk_stream c q fin = \<lparr>first_chunk = c, stream_queue = q, last_index = 0, finished = fin\<rparr>"

datatype next_result = Yield string | StopIteration | Raise exc | Pending

definition index_after :: "jobj \<Rightarrow> int \<Rightarrow> int" where
  "index_after d i = (case jget d ''i'' of JInt n \<Rightarrow> n | JBool b \<Rightarrow> (if b then 1 else 0) | _ \<Rightarrow> i)"

text \<open>The loop of \<^verbatim>\<open>__anext__\<close>: result, items left, last index seen, and whether the stream is finished.\<close>

fun next_loop :: "(json \<Rightarrow> string) \<Rightarrow> int \<Rightarrow> queue_item list \<Rightarrow> next_result \<times> queue_item list \<times> int \<times> bool" where
  "next_loop rep i [] = (Pending, [], i, False)"
| "next_loop rep i (END # q) =
     (Raise (MeshNodeError ''Node stopped streaming without completing the response.'' 502), q, i, True)"
| "next_loop rep i (Unavailable m # q) = (Raise (MeshNodeError (''Mesh stream failed: '' @ m) 502), q, i, True)"
| "next_loop rep i (Reply d # q) =
     (if \<not> reply_ok d then (Raise (node_failure rep d), q, i, True)
      else if truthy (jget d ''done'') then (StopIteration, q, i, True)
      else (case jget d ''chunk'' of
          JNull \<Rightarrow> next_loop rep (index_after d i) q
        | c \<Rightarrow> (Yield (py_str rep c), q, index_after d i, False)))"

definition anext :: "(json \<Rightarrow> string) \<Rightarrow> mesh_stream \<Rightarrow> next_result \<times> mesh_stream" where
  "anext rep s =
     (case first_chunk s of
        Some c \<Rightarrow> (Yield c, s\<lparr>first_chunk := None\<rparr>)
      | None \<Rightarrow>
          if finished s then (StopIteration, s)
          else (case next_loop rep (last_index s) (stream_queue s) of
             (r, q, i, fin) \<Rightarrow> (r, s\<lparr>stream_queue := q, last_index := i, finished := fin\<rparr>)))"

definition open_stream :: "mesh_lib \<Rightarrow> mesh_client \<Rightarrow> string \<Rightarrow> string \<Rightarrow> string \<Rightarrow> string \<Rightarrow> pyfloat \<Rightarrow> string
    \<Rightarrow> mesh_stream res" where
  "open_stream lib cl k token model prompt ts nonce =
     rbind (start_query lib cl k token model prompt True ts nonce) (\<lambda>q.
     rbind (first_reply k q) (\<lambda>(reply, rest).
       if \<not> reply_ok reply then Inl (node_failure (py_repr lib) reply)
       else if truthy (jget reply ''done'') then Inr (mk_stream None rest True)
       else (case jget reply ''chunk'' of
           JNull \<Rightarrow> Inl (MeshNodeError ''Node sent a reply with no content.'' 502)
         | c \<Rightarrow> Inr (mk_stream (Some (py_str (py_repr lib) c)) rest False))))"

text \<open>\<^verbatim>\<open>async for\<close> over a stream: the texts delivered and how it ended.\<close>

datatype stream_end = Completed | Failed exc | Hanging

lemma next_loop_shorter: "next_loop rep i q = (Yield c, q', i', fin) \<Longrightarrow> length q' < length q"
  by (induction rep i q rule: next_loop.induct) (auto split: if_splits json.splits)

definition stream_weight :: "mesh_stream \<Rightarrow> nat" where
  "stream_weight s = length (stream_queue s) + (if first_chunk s = None then 0 else 1)"

lemma anext_weight: "anext rep s = (Yield c, s') \<Longrightarrow> stream_weight s' < stream_weight s"
  by (auto simp: anext_def stream_weight_def dest: next_loop_shorter split: option.splits if_splits prod.splits)

function consume :: "(json \<Rightarrow> string) \<Rightarrow> mesh_stream \<Rightarrow> string list \<times> stream_end" where
  "consume rep s =
     (case anext rep s of
        (Yield c, s') \<Rightarrow> (case consume rep s' of (cs, e) \<Rightarrow> (c # cs, e))
      | (StopIteration, _) \<Rightarrow> ([], Completed)
      | (Raise e, _) \<Rightarrow> ([], Failed e)
      | (Pending, _) \<Rightarrow> ([], Hanging))"
  by pat_completeness auto
termination
  by (relation "measure (\<lambda>(rep, s). stream_weight s)") (auto dest: anext_weight [OF sym])

declare consume.simps [simp del]

section \<open>Dispatch\<close>

record dispatch_settings =
  ds_network_auth_token :: "string option"
  ds_node_api_port :: int
  ds_mesh_enabled :: bool

definition node_infer_url :: "string \<Rightarrow> int \<Rightarrow> string" where
  "node_infer_url ip port =
     (if startswith ip ''http://'' \<or> startswith ip ''https://'' then ip @ ''/infer''
      else ''http://'' @ ip @ '':'' @ str_of_int port @ ''/infer'')"

text \<open>\<^verbatim>\<open>a or b\<close> on optional strings: an empty string is as good as none.\<close>

definition or_string :: "string option \<Rightarrow> string option \<Rightarrow> string option" where
  "or_string a b = (case a of None \<Rightarrow> b | Some s \<Rightarrow> if s = [] then b else a)"

definition resolve_token :: "registry \<Rightarrow> string \<Rightarrow> dispatch_settings \<Rightarrow> string option" where
  "resolve_token r k st = or_string (get_node_token k r) (ds_network_auth_token st)"

definition use_mesh :: "registry \<Rightarrow> string \<Rightarrow> dispatch_settings \<Rightarrow> mesh_client option \<Rightarrow> bool" where
  "use_mesh r k st cl = (case cl of None \<Rightarrow> False | Some _ \<Rightarrow> ds_mesh_enabled st \<and> is_mesh_reachable k r)"

text \<open>An HTTP exchange: the transport failed, or a status, the text and the lines of the body arrived.\<close>

datatype http_outcome = RequestError string | Response int string "string list"

record http_request =
  hr_url :: string
  hr_token :: "string option"
  hr_body :: jobj

type_synonym http_net = "http_request \<Rightarrow> http_outcome"

definition infer_http_request :: "dispatch_settings \<Rightarrow> string \<Rightarrow> string \<Rightarrow> string \<Rightarrow> string option \<Rightarrow> bool \<Rightarrow> http_request" where
  "infer_http_request st ip model prompt token stream =
     \<lparr>hr_url = node_infer_url ip (ds_node_api_port st), hr_token = or_string token None,
      hr_body = [(''model'', JStr model), (''prompt'', JStr prompt), (''stream'', JBool stream)]\<rparr>"

definition http_infer_once :: "mesh_lib \<Rightarrow> dispatch_settings \<Rightarrow> http_net \<Rightarrow> string \<Rightarrow> string \<Rightarrow> string \<Rightarrow> string option
    \<Rightarrow> (string \<times> string) res" where
  "http_infer_once lib st net ip model prompt token =
     (case net (infer_http_request st ip model prompt token False) of
        RequestError m \<Rightarrow> Inl (NodeDispatchError (''Failed to communicate with compute node: '' @ m) 502)
      | Response code body lines \<Rightarrow>
          if code \<noteq> 200 then Inl (NodeDispatchError (''Compute node error: '' @ body) code)
          else (case json_loads lib body of
             None \<Rightarrow> Inl (ValueError ''JSONDecodeError'')
           | Some (JObj d) \<Rightarrow> Inr (py_str (py_repr lib) (dget_or d ''model'' (JStr model)),
                                 py_str (py_repr lib) (dget_or d ''response'' (JStr [])))
           | Some _ \<Rightarrow> Inl (OtherError ''AttributeError'')))"

text \<open>One line of a streamed body: \<open>None\<close> where the generator skips it.\<close>

definition unwrap_line :: "mesh_lib \<Rightarrow> string \<Rightarrow> string option" where
  "unwrap_line lib line =
     (if py_strip line = [] then None
      else let clean = (if startswith line ''data: '' then py_strip (drop 6 line) else line)
        in if startswith clean ''session_id:'' then None
           else (case json_loads lib clean of
              Some (JObj d) \<Rightarrow>
                (case dget_or d ''response'' (dget_or d ''text'' (JStr clean)) of
                   JNull \<Rightarrow> Some []
                 | v \<Rightarrow> Some (py_str (py_repr lib) v))
            | _ \<Rightarrow> Some clean))"

definition http_stream :: "mesh_lib \<Rightarrow> dispatch_settings \<Rightarrow> http_net \<Rightarrow> string \<Rightarrow> string \<Rightarrow> string \<Rightarrow> string option
    \<Rightarrow> string list \<times> stream_end" where
  "http_stream lib st net ip model prompt token =
     (case net (infer_http_request st ip model prompt token True) of
        RequestError m \<Rightarrow> ([], Failed (OtherError m))
      | Response code body lines \<Rightarrow>
          if code \<noteq> 200 then ([], Failed (NodeDispatchError body code))
          else (List.map_filter (unwrap_line lib) lines, Completed))"

definition mesh_tokens :: "mesh_lib \<Rightarrow> mesh_stream \<Rightarrow> string list \<times> stream_end" where
  "mesh_tokens lib s =
     (case consume (py_repr lib) s of
        (cs, Failed (MeshNodeError m status)) \<Rightarrow> (cs, Failed (NodeDispatchError m status))
      | r \<Rightarrow> r)"

datatype transport = Mesh | Http

text \<open>The transports tried, in order, and the result.\<close>

definition infer_once :: "mesh_lib \<Rightarrow> registry \<Rightarrow> dispatch_settings \<Rightarrow> mesh_client option \<Rightarrow> http_net \<Rightarrow> string \<Rightarrow> string
    \<Rightarrow> string \<Rightarrow> string \<Rightarrow> pyfloat \<Rightarrow> string \<Rightarrow> transport list \<times> (string \<times> string) res" where
  "infer_once lib r st cl net k ip model prompt ts nonce =
     (let token = resolve_token r k st;
          http = http_infer_once lib st net ip model prompt token
      in case cl of
           Some c \<Rightarrow>
             if use_mesh r k st cl
             then (case mesh_infer lib c k (case token of None \<Rightarrow> [] | Some t \<Rightarrow> t) model prompt ts nonce of
                Inr result \<Rightarrow> ([Mesh], Inr result)
              | Inl (MeshNodeError m status) \<Rightarrow> ([Mesh], Inl (NodeDispatchError m status))
              | Inl (MeshUnavailableError m) \<Rightarrow> ([Mesh, Http], http)
              | Inl e \<Rightarrow> ([Mesh], Inl e))
             else ([Http], http)
         | None \<Rightarrow> ([Http], http))"

definition open_inference_stream :: "mesh_lib \<Rightarrow> registry \<Rightarrow> dispatch_settings \<Rightarrow> mesh_client option \<Rightarrow> http_net \<Rightarrow> string
    \<Rightarrow> string \<Rightarrow> string \<Rightarrow> string \<Rightarrow> pyfloat \<Rightarrow> string \<Rightarrow> transport list \<times> (string list \<times> stream_end) res" where
  "open_inference_stream lib r st cl net k ip model prompt ts nonce =
     (let token = resolve_token r k st;
          http = Inr (http_stream lib st net ip model prompt token)
      in case cl of
           Some c \<Rightarrow>
             if use_mesh r k st cl
             then (case open_stream lib c k (case token of None \<Rightarrow> [] | Some t \<Rightarrow> t) model prompt ts nonce of
                Inr s \<Rightarrow> ([Mesh], Inr (mesh_tokens lib s))
              | Inl (MeshNodeError m status) \<Rightarrow> ([Mesh], Inl (NodeDispatchError m status))
              | Inl (MeshUnavailableError m) \<Rightarrow> ([Mesh, Http], http)
              | Inl e \<Rightarrow> ([Mesh], Inl e))
             else ([Http], http)
         | None \<Rightarrow> ([Http], http))"

section \<open>What a stream delivers\<close>

text \<open>Reading the items of a queue in order, without the state of the iterator.\<close>

fun relay :: "(json \<Rightarrow> string) \<Rightarrow> queue_item list \<Rightarrow> string list \<times> stream_end" where
  "relay rep [] = ([], Hanging)"
| "relay rep (END # q) = ([], Failed (MeshNodeError ''Node stopped streaming without completing the response.'' 502))"
| "relay rep (Unavailable m # q) = ([], Failed (MeshNodeError (''Mesh stream failed: '' @ m) 502))"
| "relay rep (Reply d # q) =
     (if \<not> reply_ok d then ([], Failed (node_failure rep d))
      else if truthy (jget d ''done'') then ([], Completed)
      else (case jget d ''chunk'' of
          JNull \<Rightarrow> relay rep q
        | c \<Rightarrow> (case relay rep q of (cs, e) \<Rightarrow> (py_str rep c # cs, e))))"

lemma relay_next_loop:
  "relay rep q = (case next_loop rep i q of
      (Yield c, q', i', fin) \<Rightarrow> (case relay rep q' of (cs, e) \<Rightarrow> (c # cs, e))
    | (StopIteration, _) \<Rightarrow> ([], Completed)
    | (Raise e, _) \<Rightarrow> ([], Failed e)
    | (Pending, _) \<Rightarrow> ([], Hanging))"
  by (induction rep i q rule: next_loop.induct) (auto split: json.splits prod.splits)

lemma next_loop_yield: "next_loop rep i q = (Yield c, q', i', fin) \<Longrightarrow> \<not> fin"
  by (induction rep i q rule: next_loop.induct) (auto split: if_splits json.splits)

text \<open>The iterator relays its queue, after the chunk it was opened with.\<close>

lemma consume_relay:
  "\<not> finished s \<Longrightarrow> consume rep s = (case relay rep (stream_queue s) of
     (cs, e) \<Rightarrow> ((case first_chunk s of None \<Rightarrow> [] | Some c \<Rightarrow> [c]) @ cs, e))"
proof (induction rep s rule: consume.induct)
  case (1 rep s)
  show ?case
  proof (cases "first_chunk s")
    case None
    obtain r q i fin where n: "next_loop rep (last_index s) (stream_queue s) = (r, q, i, fin)"
      by (cases "next_loop rep (last_index s) (stream_queue s)") auto
    have a: "anext rep s = (r, s\<lparr>stream_queue := q, last_index := i, finished := fin\<rparr>)"
      using None 1(2) n by (simp add: anext_def)
    show ?thesis
    proof (cases r)
      case (Yield c)
      have "\<not> fin" using n Yield next_loop_yield by blast
      then have "consume rep (s\<lparr>stream_queue := q, last_index := i, finished := fin\<rparr>) = relay rep q"
        using 1(1) [OF a [unfolded Yield, symmetric] refl] None by (simp split: prod.splits)
      then show ?thesis
        using a Yield None relay_next_loop [of rep "stream_queue s" "last_index s"] n
        by (subst consume.simps) (simp split: prod.splits)
    qed (use a None relay_next_loop [of rep "stream_queue s" "last_index s"] n in
        \<open>subst consume.simps; simp\<close>)+
  next
    case (Some c)
    have a: "anext rep s = (Yield c, s\<lparr>first_chunk := None\<rparr>)" using Some by (simp add: anext_def)
    have "consume rep (s\<lparr>first_chunk := None\<rparr>) = relay rep (stream_queue s)"
      using 1(1) [OF a [symmetric] refl] 1(2) by (simp split: prod.splits)
    then show ?thesis using a Some by (subst consume.simps) (simp split: prod.splits)
  qed
qed

definition carries_on :: "jobj \<Rightarrow> bool" where
  "carries_on d = (reply_ok d \<and> \<not> truthy (jget d ''done''))"

definition chunk_text :: "(json \<Rightarrow> string) \<Rightarrow> jobj \<Rightarrow> string option" where
  "chunk_text rep d = (case jget d ''chunk'' of JNull \<Rightarrow> None | c \<Rightarrow> Some (py_str rep c))"

text \<open>
  A queue splits into replies that carry on, then the item the stream ends with: the terminator of the
  node, or a failure, or the end of the queue. \<open>delivered\<close> are the texts of the first part, in order.
\<close>

definition delivered :: "(json \<Rightarrow> string) \<Rightarrow> jobj list \<Rightarrow> string list" where
  "delivered rep ds = List.map_filter (chunk_text rep) ds"

fun ends_stream :: "(json \<Rightarrow> string) \<Rightarrow> queue_item \<Rightarrow> stream_end \<Rightarrow> bool" where
  "ends_stream rep (Reply d) e =
     (if reply_ok d then truthy (jget d ''done'') \<and> e = Completed else e = Failed (node_failure rep d))"
| "ends_stream rep _ e = (\<exists>m. e = Failed (MeshNodeError m 502))"

definition stream_spec :: "(json \<Rightarrow> string) \<Rightarrow> queue_item list \<Rightarrow> string list \<times> stream_end \<Rightarrow> bool" where
  "stream_spec rep q out \<longleftrightarrow>
     (\<exists>ds last rest. q = map Reply ds @ last # rest \<and> list_all carries_on ds
        \<and> fst out = delivered rep ds \<and> ends_stream rep last (snd out))"

lemma delivered_Cons: "delivered rep (d # ds) = (case chunk_text rep d of None \<Rightarrow> [] | Some t \<Rightarrow> [t]) @ delivered rep ds"
  by (simp add: delivered_def List.map_filter_simps split: option.splits)

lemma stream_spec_Reply:
  assumes "stream_spec rep q (cs, e)" "carries_on d"
  shows "stream_spec rep (Reply d # q) ((case chunk_text rep d of None \<Rightarrow> [] | Some t \<Rightarrow> [t]) @ cs, e)"
proof -
  obtain ds last rest where "q = map Reply ds @ last # rest" "list_all carries_on ds" "cs = delivered rep ds" "ends_stream rep last e"
    using assms(1) by (auto simp: stream_spec_def)
  then show ?thesis unfolding stream_spec_def
    by (intro exI [of _ "d # ds"] exI [of _ last] exI [of _ rest]) (simp add: assms(2) delivered_Cons)
qed

lemma stream_spec_last: "ends_stream rep it e \<Longrightarrow> stream_spec rep (it # q) ([], e)"
  unfolding stream_spec_def by (intro exI [of _ "[]"] exI [of _ it] exI [of _ q]) (simp add: delivered_def List.map_filter_simps)

lemma stream_spec_ends: "stream_spec rep q out \<Longrightarrow> snd out \<noteq> Hanging"
proof -
  have "ends_stream rep it e \<Longrightarrow> e \<noteq> Hanging" for it e by (cases it) (auto split: if_splits)
  then show "stream_spec rep q out \<Longrightarrow> ?thesis" by (auto simp: stream_spec_def)
qed

lemma relay_spec: "END \<in> set q \<Longrightarrow> stream_spec rep q (relay rep q)"
proof (induction rep q rule: relay.induct)
  case (4 rep d q)
  show ?case
  proof (cases "carries_on d")
    case True
    obtain cs e where r: "relay rep q = (cs, e)" by fastforce
    then have "stream_spec rep (Reply d # q) ((case chunk_text rep d of None \<Rightarrow> [] | Some t \<Rightarrow> [t]) @ cs, e)"
      using 4 True by (intro stream_spec_Reply) (cases "jget d ''chunk''"; simp add: carries_on_def)+
    then show ?thesis using True r by (cases "jget d ''chunk''") (simp_all add: carries_on_def chunk_text_def)
  next
    case False
    then show ?thesis by (auto simp: carries_on_def intro: stream_spec_last)
  qed
qed (auto intro: stream_spec_last)

lemma drain_ends: "END \<in> set (drain lib replies failure)"
  by (simp add: drain_def)

lemma start_query_drained:
  "start_query lib cl k token model prompt stream ts nonce = Inr (b, q) \<Longrightarrow> END \<in> set q"
  by (auto simp: start_query_def drain_ends split: if_splits query_outcome.splits)

lemma first_reply_Inr: "first_reply k (b, q) = Inr (d, rest) \<longleftrightarrow> b \<and> q = Reply d # rest"
  by (auto simp: first_reply_def split: bool.splits list.splits queue_item.splits)

text \<open>An opened stream relays the whole queue of its query.\<close>

lemma open_stream_relay:
  assumes "open_stream lib cl k token model prompt ts nonce = Inr s"
  shows "\<exists>q. start_query lib cl k token model prompt True ts nonce = Inr (True, q) \<and> consume (py_repr lib) s = relay (py_repr lib) q"
proof -
  let ?rep = "py_repr lib"
  obtain q d rest where q: "start_query lib cl k token model prompt True ts nonce = Inr (True, q)" and qd: "q = Reply d # rest"
    and ok: "reply_ok d"
    and s: "s = (if truthy (jget d ''done'') then mk_stream None rest True else mk_stream (chunk_text ?rep d) rest False)"
    and c: "truthy (jget d ''done'') \<or> chunk_text ?rep d \<noteq> None"
    using assms unfolding open_stream_def
    by (auto simp: rbind_eq_Inr first_reply_Inr chunk_text_def split: if_splits json.splits)
  have "consume ?rep s = relay ?rep q"
  proof (cases "truthy (jget d ''done'')")
    case True
    then show ?thesis using s qd ok by (subst consume.simps) (simp add: anext_def mk_stream_def)
  next
    case False
    then show ?thesis using s qd ok c consume_relay [of s ?rep]
      by (cases "jget d ''chunk''") (simp_all add: mk_stream_def chunk_text_def split: prod.splits)
  qed
  then show ?thesis using q by blast
qed

section \<open>Properties\<close>

text \<open>
  C13. No truncated completion is passed off as a whole one. A stream that opens is fed by the query's
  replies: it delivers, in order and without loss, the texts of the replies up to the first one that
  ends it, and it completes normally only if that one is the node's own terminator. If the node falls
  silent, the transport fails or the node reports an error, iteration ends with an exception. It never
  hangs on a queue the worker thread has finished.
\<close>

theorem stream_never_truncates:
  assumes "open_stream lib cl k token model prompt ts nonce = Inr s"
  shows "\<exists>q. start_query lib cl k token model prompt True ts nonce = Inr (True, q)
    \<and> stream_spec (py_repr lib) q (consume (py_repr lib) s) \<and> snd (consume (py_repr lib) s) \<noteq> Hanging"
proof -
  obtain q where q: "start_query lib cl k token model prompt True ts nonce = Inr (True, q)"
    and c: "consume (py_repr lib) s = relay (py_repr lib) q"
    using open_stream_relay [OF assms] by blast
  have "stream_spec (py_repr lib) q (relay (py_repr lib) q)" using start_query_drained [OF q] by (rule relay_spec)
  then show ?thesis using q c stream_spec_ends by (metis (no_types))
qed

text \<open>
  Routing of a single inference. The mesh is tried only for a node seen on it, and then first. If
  the node answered the query in time, that answer is final: there is no second transport, a success
  returns the reply's texts and a failure is raised with the node's own status. HTTP is used exactly
  when the mesh was not tried or nobody answered, and then its result is the result.
\<close>

theorem infer_once_routes:
  "infer_once lib r st cl net k ip model prompt ts nonce =
     (let token = resolve_token r k st; http = http_infer_once lib st net ip model prompt token
      in if use_mesh r k st cl
         then (case start_query lib (the cl) k (case token of None \<Rightarrow> [] | Some t \<Rightarrow> t) model prompt False ts nonce of
              Inr (True, Reply d # _) \<Rightarrow>
                ([Mesh], if reply_ok d
                   then Inr (py_str (py_repr lib) (dget_or d ''model'' (JStr model)),
                             py_str (py_repr lib) (dget_or d ''response'' (JStr [])))
                   else (case py_int (dget_or d ''status'' (JInt 500)) of
                      Inl e \<Rightarrow> Inl e
                    | Inr status \<Rightarrow> Inl (NodeDispatchError
                        (py_str (py_repr lib) (dget_or d ''error'' (JStr ''Node reported an error.''))) status)))
            | _ \<Rightarrow> ([Mesh, Http], http))
         else ([Http], http))"
proof -
  have py_int_exc: "py_int v = Inl e \<Longrightarrow> (\<exists>m. e = ValueError m) \<or> (\<exists>m. e = TypeError m) \<or> (\<exists>m. e = OverflowError m)" for v e
    by (cases v) (auto split: option.splits elim: int_of_float.elims)
  show ?thesis
  proof (cases "use_mesh r k st cl")
    case True
    then obtain c where c: "cl = Some c" by (auto simp: use_mesh_def split: option.splits)
    define tok where "tok = (case resolve_token r k st of None \<Rightarrow> [] | Some t \<Rightarrow> t)"
    have unav: "\<exists>m. e = MeshUnavailableError m"
      if "start_query lib c k tok model prompt False ts nonce = Inl e" for e
      using that by (auto simp: start_query_def split: if_splits query_outcome.splits)
    show ?thesis
    proof (cases "start_query lib c k tok model prompt False ts nonce")
      case (Inl e)
      then show ?thesis using True c unav by (auto simp: infer_once_def mesh_infer_def Let_def tok_def)
    next
      case (Inr bq)
      obtain b q where bq: "bq = (b, q)" by fastforce
      show ?thesis
        using True c Inr bq py_int_exc
        by (auto simp: infer_once_def mesh_infer_def Let_def tok_def first_reply_def node_failure_def
            split: bool.splits list.splits queue_item.splits sum.splits exc.splits)
    qed
  next
    case False
    then show ?thesis by (cases cl) (simp_all add: infer_once_def Let_def)
  qed
qed

section \<open>Witness\<close>

definition stream_lib :: mesh_lib where
  "stream_lib = \<lparr>json_loads = (\<lambda>s. if s = ''1'' then Some (JObj [(''ok'', JBool True), (''i'', JInt 0), (''chunk'', JStr ''hel'')])
       else if s = ''2'' then Some (JObj [(''ok'', JBool True), (''i'', JInt 1), (''chunk'', JStr ''lo'')]) else None),
     json_dumps = (\<lambda>_. []), sha256_hex = (\<lambda>_. []), hmac_hex = (\<lambda>_ _. []), py_repr = (\<lambda>_. [])\<rparr>"

definition cut_off :: mesh_client where
  "cut_off = \<lparr>mc_session = True, mc_net = (\<lambda>_ _. Answered True [ReplyOk ''1'', ReplyOk ''2''] None)\<rparr>"

text \<open>A node that sends two chunks and then falls silent: both are delivered, the stream fails.\<close>

theorem stream_never_truncates_witness:
  "\<exists>s. open_stream stream_lib cut_off ''n'' ''t'' ''m'' ''p'' (Fin 0) ''x'' = Inr s
    \<and> fst (consume (py_repr stream_lib) s) = [''hel'', ''lo''] \<and> snd (consume (py_repr stream_lib) s) \<noteq> Completed"
proof -
  let ?s = "mk_stream (Some ''hel'') [Reply [(''ok'', JBool True), (''i'', JInt 1), (''chunk'', JStr ''lo'')], END] False"
  have o: "open_stream stream_lib cut_off ''n'' ''t'' ''m'' ''p'' (Fin 0) ''x'' = Inr ?s"
    by (simp add: open_stream_def start_query_def cut_off_def drain_def drain_one_def decode_reply_def stream_lib_def
        first_reply_def reply_ok_def jget_def dget_or_def)
  have "snd (consume (py_repr stream_lib) ?s) \<noteq> Hanging" using stream_never_truncates [OF o] by blast
  moreover have "consume (py_repr stream_lib) ?s = ([''hel'', ''lo''],
      Failed (MeshNodeError ''Node stopped streaming without completing the response.'' 502))"
    by (simp add: consume_relay mk_stream_def reply_ok_def jget_def dget_or_def)
  ultimately show ?thesis using o by auto
qed

end
