(* ===== verification/Pipeline.thy ===== *)
theory Pipeline
  imports Models
begin

text \<open>
  The pipeline models of \<^verbatim>\<open>scheduler/models/pipeline.py\<close>: layer ranges, stages and their
  validators, the configuration of a whole pipeline, the split-inference boundary check of a tensor
  payload, and the checksum of a cache snapshot. A constructor that validates returns the record or
  the \<^verbatim>\<open>ValueError\<close>. Byte strings are strings of characters below 256; SHA-256 is an argument.
\<close>

section \<open>Stages\<close>

record layer_range =
  start_layer :: int
  end_layer :: int

definition mk_layer_range :: "int \<Rightarrow> int \<Rightarrow> layer_range res" where
  "mk_layer_range s e =
     (if s < 0 \<or> e < 0 then Inl (ValueError ''Input should be greater than or equal to 0'')
      else if e < s then Inl (ValueError ''start_layer must be less than or equal to end_layer'')
      else Inr \<lparr>start_layer = s, end_layer = e\<rparr>)"

definition num_layers :: "layer_range \<Rightarrow> int" where
  "num_layers l = end_layer l - start_layer l + 1"

datatype stage_type = CLIENT_EMBEDDING | REMOTE_HIDDEN | CLIENT_LM_HEAD | COMPUTE | OtherStage string

record pipeline_stage =
  stage_index :: int
  total_stages :: int
  layers_of :: layer_range
  ps_node_id :: string
  ps_model_id :: string
  is_local_boundary :: bool
  stage_type_of :: stage_type
  ps_is_split_inference :: bool

definition mk_stage :: "pipeline_stage \<Rightarrow> pipeline_stage res" where
  "mk_stage s =
     (if stage_index s < 0 then Inl (ValueError ''Input should be greater than or equal to 0'')
      else if total_stages s \<le> 0 then Inl (ValueError ''Input should be greater than 0'')
      else if total_stages s \<le> stage_index s
      then Inl (ValueError ''stage_index must be strictly less than total_stages'')
      else Inr s)"

definition is_first_stage :: "pipeline_stage \<Rightarrow> bool" where
  "is_first_stage s = (stage_index s = 0)"

definition is_last_stage :: "pipeline_stage \<Rightarrow> bool" where
  "is_last_stage s = (stage_index s = total_stages s - 1)"

section \<open>The configuration of a pipeline\<close>

fun check_indices :: "int \<Rightarrow> pipeline_stage list \<Rightarrow> unit res" where
  "check_indices i [] = Inr ()"
| "check_indices i (s # ss) =
     (if stage_index s \<noteq> i
      then Inl (ValueError (''Stage index mismatch at position '' @ str_of_int i @ '': got '' @ str_of_int (stage_index s)))
      else check_indices (i + 1) ss)"

fun check_contiguous :: "int \<Rightarrow> pipeline_stage list \<Rightarrow> unit res" where
  "check_contiguous i (s # t # ss) =
     (if end_layer (layers_of s) + 1 \<noteq> start_layer (layers_of t)
      then Inl (ValueError (''Discontinuity between stage '' @ str_of_int i))
      else check_contiguous (i + 1) (t # ss))"
| "check_contiguous i _ = Inr ()"

definition ends_split :: "pipeline_stage \<Rightarrow> bool" where
  "ends_split s = (ps_is_split_inference s \<or> is_local_boundary s
      \<or> stage_type_of s = CLIENT_LM_HEAD \<or> stage_type_of s = OtherStage ''client_lm_head'')"

text \<open>\<^verbatim>\<open>PipelineConfig.validate_bounds\<close>.\<close>

definition validate_config :: "int \<Rightarrow> pipeline_stage list \<Rightarrow> unit res" where
  "validate_config total_layers ss =
     (if total_layers \<le> 0 then Inl (ValueError ''Input should be greater than 0'')
      else if ss = [] then Inr ()
      else rbind (check_indices 0 ss) (\<lambda>_.
        if start_layer (layers_of (hd ss)) \<noteq> 0 then Inl (ValueError ''First pipeline stage must start at layer 0'')
        else (let expected = (if ends_split (last ss) then total_layers else total_layers - 1)
              in if end_layer (layers_of (last ss)) \<noteq> expected
                 then Inl (ValueError ''Last pipeline stage end layer must match expected end layer'')
                 else check_contiguous 0 ss)))"

text \<open>The layers of a list of stages, in order.\<close>

definition layers_in :: "pipeline_stage list \<Rightarrow> int list" where
  "layers_in ss = concat (map (\<lambda>s. [start_layer (layers_of s) .. end_layer (layers_of s)]) ss)"

lemma layers_in_Cons: "layers_in (s # ss) = [start_layer (layers_of s) .. end_layer (layers_of s)] @ layers_in ss"
  by (simp add: layers_in_def)

lemma upto_join: "a \<le> b + 1 \<Longrightarrow> b \<le> c \<Longrightarrow> [a .. b] @ [b + 1 .. c] = [a .. c]"
proof (cases "a \<le> b")
  case False
  assume "a \<le> b + 1"
  with False have "a = b + 1" by simp
  then show ?thesis by simp
qed (simp add: upto_split2 [of a b c])

lemma contiguous_layers:
  "check_contiguous i (s # ss) = Inr () \<Longrightarrow>
   \<forall>t\<in>set (s # ss). start_layer (layers_of t) \<le> end_layer (layers_of t) \<Longrightarrow>
   start_layer (layers_of s) \<le> end_layer (layers_of (last (s # ss)))
   \<and> layers_in (s # ss) = [start_layer (layers_of s) .. end_layer (layers_of (last (s # ss)))]"
proof (induction ss arbitrary: i s)
  case Nil
  then show ?case by (simp add: layers_in_def)
next
  case (Cons t ss)
  have c: "end_layer (layers_of s) + 1 = start_layer (layers_of t)" "check_contiguous (i + 1) (t # ss) = Inr ()"
    using Cons.prems by (auto split: if_splits)
  have ih: "start_layer (layers_of t) \<le> end_layer (layers_of (last (t # ss)))"
    "layers_in (t # ss) = [start_layer (layers_of t) .. end_layer (layers_of (last (t # ss)))]"
    using Cons.IH [OF c(2)] Cons.prems(2) by auto
  have "start_layer (layers_of s) \<le> end_layer (layers_of s)" using Cons.prems(2) by simp
  then show ?case using ih c(1) upto_join [of "start_layer (layers_of s)" "end_layer (layers_of s)"]
    by (auto simp: layers_in_Cons [of s])
qed

lemma config_layers:
  assumes "validate_config total_layers ss = Inr ()" "ss \<noteq> []"
    "\<forall>s\<in>set ss. start_layer (layers_of s) \<le> end_layer (layers_of s)"
  shows "layers_in ss = [0 .. (if ends_split (last ss) then total_layers else total_layers - 1)]
    \<and> map stage_index ss = [0 .. int (length ss) - 1]"
proof -
  have idx: "check_indices i xs = Inr () \<Longrightarrow> map stage_index xs = [i .. i + int (length xs) - 1]" for i xs
    by (induction i xs rule: check_indices.induct) (auto simp: upto_rec1 algebra_simps split: if_splits)
  have v: "check_indices 0 ss = Inr ()" "start_layer (layers_of (hd ss)) = 0"
    "end_layer (layers_of (last ss)) = (if ends_split (last ss) then total_layers else total_layers - 1)"
    "check_contiguous 0 ss = Inr ()"
    using assms(1,2) by (auto simp: validate_config_def rbind_eq_Inr Let_def split: if_splits)
  obtain s ts where ss: "ss = s # ts" using assms(2) by (cases ss) auto
  have "layers_in ss = [start_layer (layers_of s) .. end_layer (layers_of (last ss))]"
    using contiguous_layers [of 0 s ts] v(4) assms(3) ss by simp
  then show ?thesis using v idx [OF v(1)] ss by simp
qed

section \<open>Tensor payloads\<close>

datatype tensor_data = TBytes string | TFloats "pyfloat list" | TDict jobj

record tensor_payload =
  tp_task_id :: string
  tp_stage_index :: int
  tp_target_stage_index :: int
  tp_is_split_inference :: bool
  tensor_type :: string
  tensor_data_of :: tensor_data
  shape :: "int list"
  dtype :: string
  sequence_id :: int
  shm_name :: "string option"
  is_quantized :: bool
  quantization_type :: "string option"
  scale_factor :: pyfloat
  is_speculative :: bool
  speculative_block_size :: int

definition validate_split_activation_boundary :: "tensor_payload \<Rightarrow> unit res" where
  "validate_split_activation_boundary p =
     (if \<not> tp_is_split_inference p then Inl (ValueError ''Split stage payload must set is_split_inference=True'')
      else if tensor_type p \<notin> {''activation'', ''intermediate_activation''}
      then Inl (ValueError ''Split stage payload tensor_type must be an activation'')
      else if dtype p \<notin> {''float16'', ''float32'', ''float64'', ''bfloat16'', ''float8_e4m3'', ''float8_e4m3fn''}
           \<and> \<not> is_quantized p
      then Inl (ValueError ''Split stage payload dtype must be a floating-point tensor type'')
      else if shape p = [] \<or> list_ex (\<lambda>d. d \<le> 0) (shape p)
      then Inl (ValueError ''Split stage payload shape must contain positive dimensions'')
      else (case tensor_data_of p of
          TDict _ \<Rightarrow> Inl (ValueError ''Split stage payload data must not contain structured prompt fields'')
        | TBytes b \<Rightarrow>
            if b = [] then Inl (ValueError ''Split stage payload bytes cannot be empty'')
            else if dtype p \<in> {''float32'', ''float64''} \<and> length b mod 4 \<noteq> 0
            then Inl (ValueError ''Split stage payload bytes must align to float elements'')
            else Inr ()
        | TFloats xs \<Rightarrow>
            if xs = [] then Inl (ValueError ''Split stage payload data cannot be empty'')
            else if prod_list (shape p) \<noteq> int (length xs)
            then Inl (ValueError ''Split stage payload data length must match tensor shape'')
            else Inr ()))"

section \<open>Cache snapshots\<close>

record kv_snapshot =
  kv_task_id :: string
  kv_sequence_id :: int
  kv_node_id :: string
  kv_start_layer :: int
  kv_end_layer :: int
  cache_bytes :: string
  checksum :: string
  kv_timestamp :: pyfloat

definition verify_checksum :: "(string \<Rightarrow> string) \<Rightarrow> kv_snapshot \<Rightarrow> unit res" where
  "verify_checksum sha256 k =
     (let actual = sha256 (cache_bytes k)
      in if actual \<noteq> checksum k
         then Inl (ValueError (''Checksum mismatch: expected '' @ checksum k @ '', got '' @ actual))
         else Inr ())"

section \<open>Properties\<close>

text \<open>
  A configuration the validator accepts describes the whole model exactly once: with stages
  that passed their own validation, the layers of the stages, taken in order, are
  \<open>0, 1, ..., total_layers - 1\<close> (and \<open>total_layers\<close>, the client-side head, for a split pipeline), without gap,
  overlap or repetition.
\<close>

theorem config_covers_layers:
  assumes "validate_config total_layers ss = Inr ()" "ss \<noteq> []"
    "\<forall>s\<in>set ss. start_layer (layers_of s) \<le> end_layer (layers_of s)"
  shows "layers_in ss = [0 .. (if ends_split (last ss) then total_layers else total_layers - 1)]
    \<and> map stage_index ss = [0 .. int (length ss) - 1]"
  using config_layers [OF assms] .

theorem config_covers_layers_witness:
  "layers_in [\<lparr>stage_index = 0, total_stages = 1, layers_of = \<lparr>start_layer = 0, end_layer = 3\<rparr>, ps_node_id = ''a'',
     ps_model_id = ''m'', is_local_boundary = False, stage_type_of = COMPUTE, ps_is_split_inference = False\<rparr>] = [0 .. 3]"
  using config_covers_layers [of 4 "[\<lparr>stage_index = 0, total_stages = 1, layers_of = \<lparr>start_layer = 0, end_layer = 3\<rparr>,
     ps_node_id = ''a'', ps_model_id = ''m'', is_local_boundary = False, stage_type_of = COMPUTE, ps_is_split_inference = False\<rparr>]"]
  by (simp add: validate_config_def Let_def ends_split_def)

text \<open>
  The activation boundary: a payload the check accepts is no dictionary (nothing that could
  carry a prompt), is typed as an activation, has only positive dimensions, and if it is a list of
  numbers it has exactly as many as its shape says.
\<close>

theorem split_boundary_accepts_activations_only:
  assumes "validate_split_activation_boundary p = Inr ()"
  shows "tp_is_split_inference p \<and> tensor_type p \<in> {''activation'', ''intermediate_activation''}
    \<and> shape p \<noteq> [] \<and> (\<forall>d\<in>set (shape p). 0 < d)
    \<and> (case tensor_data_of p of TDict _ \<Rightarrow> False | TBytes b \<Rightarrow> b \<noteq> []
        | TFloats xs \<Rightarrow> int (length xs) = prod_list (shape p) \<and> xs \<noteq> [])"
  using assms
  by (auto simp: validate_split_activation_boundary_def list_ex_iff not_le split: if_splits tensor_data.splits)

definition sample_payload :: tensor_payload where
  "sample_payload = \<lparr>tp_task_id = ''t'', tp_stage_index = 0, tp_target_stage_index = 1, tp_is_split_inference = True,
      tensor_type = ''activation'', tensor_data_of = TFloats [Fin 1, Fin 2], shape = [2, 1], dtype = ''float32'',
      sequence_id = 0, shm_name = None, is_quantized = False, quantization_type = None, scale_factor = Fin 1,
      is_speculative = False, speculative_block_size = 1\<rparr>"

theorem split_boundary_accepts_activations_only_witness:
  "validate_split_activation_boundary sample_payload = Inr () \<and> (\<forall>d\<in>set (shape sample_payload). 0 < d)"
proof -
  have "validate_split_activation_boundary sample_payload = Inr ()"
    by (simp add: validate_split_activation_boundary_def sample_payload_def)
  with split_boundary_accepts_activations_only [OF this] show ?thesis by blast
qed

end
