(* ===== verification/Engine.thy ===== *)
theory Engine
  imports Matchmaking Pipeline
begin

text \<open>
  \<^verbatim>\<open>SchedulingEngine\<close> (\<^verbatim>\<open>scheduler/core/engine.py\<close>). The strategy is the pair of arguments \<open>filt\<close>, \<open>sc\<close>
  (an instance of the locale \<open>scheduling_strategy\<close>); SHA-256, the text of non-scalar values and the
  fresh UUID are arguments as well. Every method runs on the registry and returns its result with
  the registry it leaves behind: the telemetry and the dampeners it changed before an exception stay
  changed. The methods are modelled as atomic; the only suspension points are the registry's own
  lock acquisitions.
\<close>

section \<open>Shared steps\<close>

text \<open>
  \<^verbatim>\<open>task.get("requirements", {})\<close>. The gateway builds the task with an object there; anything else
  fails on its first use as a mapping.
\<close>

definition requirements_of :: "jobj \<Rightarrow> jobj res" where
  "requirements_of task =
     (case dget_or task ''requirements'' (JObj []) of
        JObj d \<Rightarrow> Inr d
      | _ \<Rightarrow> Inl (TypeError ''requirements is not a mapping''))"

text \<open>The tracked queue depth of a node goes up by one; a new telemetry entry starts at zero.\<close>

definition bump_queue :: "string \<Rightarrow> registry \<Rightarrow> unit res \<times> registry" where
  "bump_queue k r =
     (let r1 = (if dmem k (reg_telemetry r) then r else r\<lparr>reg_telemetry := dset k [] (reg_telemetry r)\<rparr>);
          tel = dget_or (reg_telemetry r1) k []
      in case py_plus_one (dget_or tel ''queue_depth'' (JInt 0)) of
           Inl e \<Rightarrow> (Inl e, r1)
         | Inr v \<Rightarrow> (Inr (), r1\<lparr>reg_telemetry := dset k (dset ''queue_depth'' v tel) (reg_telemetry r1)\<rparr>))"

definition schedule_task ::
    "(registry \<Rightarrow> jobj \<Rightarrow> node list \<Rightarrow> node list res) \<Rightarrow> (registry \<Rightarrow> jobj \<Rightarrow> node list \<Rightarrow> (node \<times> pyfloat) list res)
     \<Rightarrow> (json \<Rightarrow> string) \<Rightarrow> (string \<Rightarrow> string) \<Rightarrow> string \<Rightarrow> jobj \<Rightarrow> registry \<Rightarrow> (string \<times> string) res \<times> registry" where
  "schedule_task filt sc rep sha256 uuid task r =
     (case rbind (requirements_of task) (\<lambda>reqs. filt r reqs (registry_list r)) of
        Inl e \<Rightarrow> (Inl e, r)
      | Inr eligible \<Rightarrow>
          if eligible = [] then (Inl (ValueError ''No active nodes satisfy the task requirements.''), r)
          else (case sc r task eligible of
             Inl e \<Rightarrow> (Inl e, r)
           | Inr [] \<Rightarrow> (Inl (OtherError ''IndexError: list index out of range''), r)
           | Inr ((selected, fit) # _) \<Rightarrow>
               (case bump_queue (node_id selected) r of
                  (Inl e, r') \<Rightarrow> (Inl e, r')
                | (Inr _, r') \<Rightarrow>
                    (Inr (sha256 (node_id selected @ '':'' @ py_str rep (dget_or task ''task_id'' (JStr uuid)) @ '':''
                            @ py_str rep (JFloat fit)),
                          node_id selected), r'))))"

section \<open>Capacities and allocations\<close>

definition capacity_on :: "registry \<Rightarrow> pyfloat \<Rightarrow> int \<Rightarrow> node \<Rightarrow> int res" where
  "capacity_on r per_layer whole n =
     (if flt (Fin 0) per_layer then rbind (ffloordiv (vram_now r n) per_layer) int_of_float else Inr whole)"

definition node_capacities :: "registry \<Rightarrow> pyfloat \<Rightarrow> int \<Rightarrow> node list \<Rightarrow> (node \<times> int) list res" where
  "node_capacities r per_layer whole ranked =
     rbind (mapM (\<lambda>n. rbind (capacity_on r per_layer whole n) (\<lambda>c. Inr (n, c))) ranked) (\<lambda>caps.
       Inr (filter (\<lambda>(n, c). 0 < c) caps))"

text \<open>Greedy: as many layers as fit, node by node, until none remain.\<close>

fun allocate :: "int \<Rightarrow> (node \<times> int) list \<Rightarrow> (node \<times> int) list \<times> int" where
  "allocate remaining [] = ([], remaining)"
| "allocate remaining ((n, c) # caps) =
     (if remaining \<le> 0 then ([], remaining)
      else (let a = min remaining c; (al, rest) = allocate (remaining - a) caps in ((n, a) # al, rest)))"

text \<open>Even: the requested number of stages, the first ones one layer longer.\<close>

fun allocate_even :: "int \<Rightarrow> int \<Rightarrow> int \<Rightarrow> (node \<times> int) list \<Rightarrow> (node \<times> int) list res" where
  "allocate_even base_l rem_l i [] = Inr []"
| "allocate_even base_l rem_l i ((n, c) # caps) =
     (let a = base_l + (if i < rem_l then 1 else 0)
      in if c < a
         then Inl (ValueError (''Node '' @ node_id n @ '' capacity insufficient for stage assignment''))
         else rbind (allocate_even base_l rem_l (i + 1) caps) (\<lambda>al. Inr ((n, a) # al)))"

definition stage_allocations :: "int \<Rightarrow> json \<Rightarrow> (node \<times> int) list \<Rightarrow> (node \<times> int) list res" where
  "stage_allocations total_layers requested caps =
     (if requested \<noteq> JNull
      then rbind (py_int requested) (\<lambda>num_stages.
        if num_stages \<le> 0 then Inl (ValueError ''num_stages must be > 0'')
        else if int (length caps) < num_stages
        then Inl (ValueError (''Requested '' @ str_of_int num_stages @ '' stages, but only ''
               @ str_of_int (int (length caps)) @ '' eligible nodes available.''))
        else allocate_even (total_layers div num_stages) (total_layers mod num_stages) 0 (take (nat num_stages) caps))
      else (case allocate total_layers caps of
          (al, rest) \<Rightarrow>
            if 0 < rest then Inl (ValueError ''Insufficient VRAM across cluster to schedule pipeline.'')
            else Inr al))"

section \<open>Building stages\<close>

text \<open>What the stages of a chain share: their number, the model and the three boundary fields.\<close>

record stage_kind =
  sk_total :: int
  sk_model_id :: string
  sk_local :: bool
  sk_type :: stage_type
  sk_split :: bool

definition stage_of :: "stage_kind \<Rightarrow> int \<Rightarrow> layer_range \<Rightarrow> string \<Rightarrow> pipeline_stage" where
  "stage_of kd i l k = \<lparr>stage_index = i, total_stages = sk_total kd, layers_of = l, ps_node_id = k,
     ps_model_id = sk_model_id kd, is_local_boundary = sk_local kd, stage_type_of = sk_type kd,
     ps_is_split_inference = sk_split kd\<rparr>"

fun build_stages :: "stage_kind \<Rightarrow> int \<Rightarrow> int \<Rightarrow> (node \<times> int) list \<Rightarrow> registry \<Rightarrow> pipeline_stage list res \<times> registry" where
  "build_stages kd i current [] r = (Inr [], r)"
| "build_stages kd i current ((n, layer_count) # al) r =
     (case rbind (mk_layer_range current (current + layer_count - 1)) (\<lambda>l. mk_stage (stage_of kd i l (node_id n))) of
        Inl e \<Rightarrow> (Inl e, r)
      | Inr s \<Rightarrow>
          (case bump_queue (node_id n) r of
             (Inl e, r1) \<Rightarrow> (Inl e, r1)
           | (Inr _, r1) \<Rightarrow>
               (case increment_dampener (node_id n) r1 of
                  (Inl e, r2) \<Rightarrow> (Inl e, r2)
                | (Inr _, r2) \<Rightarrow>
                    (case build_stages kd (i + 1) (current + layer_count) al r2 of
                       (Inl e, r3) \<Rightarrow> (Inl e, r3)
                     | (Inr ss, r3) \<Rightarrow> (Inr (s # ss), r3)))))"

section \<open>Pipelines\<close>

definition model_id_of :: "(json \<Rightarrow> string) \<Rightarrow> jobj \<Rightarrow> string" where
  "model_id_of rep task = py_str rep (py_or (py_or (jget task ''model_id'') (jget task ''model'')) (JStr []))"

text \<open>The fallbacks for the VRAM of one layer, each tried only while the value is still \<^verbatim>\<open>None\<close>.\<close>

definition quotient_of :: "jobj \<Rightarrow> string \<Rightarrow> pyfloat res \<Rightarrow> json res" where
  "quotient_of task key divisor =
     rbind (py_float (jget task key)) (\<lambda>x. rbind divisor (\<lambda>d. rbind (fdiv x d) (\<lambda>q. Inr (JFloat q))))"

definition or_else :: "bool \<Rightarrow> json res \<Rightarrow> json \<Rightarrow> json res" where
  "or_else present alternative v = (if v = JNull \<and> present then alternative else Inr v)"

definition vram_per_layer :: "jobj \<Rightarrow> int \<Rightarrow> pyfloat res" where
  "vram_per_layer task total_layers =
     (let v0 = jget task ''vram_per_layer_gb'';
          v1 = (if v0 = JNull then jget task ''layer_vram_gb'' else v0)
      in rbind (or_else (dmem ''vram_per_layer_mb'' task) (quotient_of task ''vram_per_layer_mb'' (Inr (Fin 1024))) v1) (\<lambda>v2.
         rbind (or_else (dmem ''model_vram_gb'' task) (quotient_of task ''model_vram_gb'' (float_of_int total_layers)) v2) (\<lambda>v3.
         rbind (or_else (dmem ''vram_required_gb'' task) (quotient_of task ''vram_required_gb'' (float_of_int total_layers)) v3) (\<lambda>v4.
         if v4 = JNull then Inr (Fin (1 / 2)) else py_float v4))))"

definition pipeline_requirements :: "jobj \<Rightarrow> string \<Rightarrow> jobj res" where
  "pipeline_requirements task model_id =
     rbind (requirements_of task) (\<lambda>reqs.
       Inr (if model_id \<noteq> [] \<and> \<not> dmem ''model'' reqs \<and> \<not> dmem ''model_name'' reqs
            then dset ''model'' (JStr model_id) reqs else reqs))"

text \<open>
  The part both pipeline methods share before they partition: live nodes, filter, ranking. The
  message of the empty filter result differs.
\<close>

definition ranked_nodes ::
    "(registry \<Rightarrow> jobj \<Rightarrow> node list \<Rightarrow> node list res) \<Rightarrow> (registry \<Rightarrow> jobj \<Rightarrow> node list \<Rightarrow> (node \<times> pyfloat) list res)
     \<Rightarrow> string \<Rightarrow> jobj \<Rightarrow> string \<Rightarrow> registry \<Rightarrow> node list res" where
  "ranked_nodes filt sc none_msg task model_id r =
     (if registry_list r = [] then Inl (ValueError ''No active nodes available in registry.'')
      else rbind (pipeline_requirements task model_id) (\<lambda>reqs.
        rbind (filt r reqs (registry_list r)) (\<lambda>eligible.
          if eligible = [] then Inl (ValueError none_msg)
          else rbind (sc r task eligible) (\<lambda>ranked.
            Inr (if ranked \<noteq> [] then map fst ranked else eligible)))))"

definition cluster_capacity :: "(node \<times> int) list \<Rightarrow> int" where
  "cluster_capacity caps = sum_list (map snd caps)"

text \<open>Everything of \<^verbatim>\<open>schedule_pipeline\<close> that only reads: the allocation, or the reason there is none.\<close>

definition plan_pipeline ::
    "(registry \<Rightarrow> jobj \<Rightarrow> node list \<Rightarrow> node list res) \<Rightarrow> (registry \<Rightarrow> jobj \<Rightarrow> node list \<Rightarrow> (node \<times> pyfloat) list res)
     \<Rightarrow> (json \<Rightarrow> string) \<Rightarrow> jobj \<Rightarrow> registry \<Rightarrow> (node \<times> int) list res" where
  "plan_pipeline filt sc rep task r =
     rbind (py_int (dget_or task ''total_layers'' (JInt 32))) (\<lambda>total_layers.
       if total_layers \<le> 0 then Inl (ValueError ''total_layers must be greater than 0'')
       else rbind (ranked_nodes filt sc ''No active nodes satisfy the pipeline task requirements.'' task (model_id_of rep task) r) (\<lambda>ranked.
         rbind (vram_per_layer task total_layers) (\<lambda>per_layer.
         rbind (node_capacities r per_layer total_layers ranked) (\<lambda>caps.
           if cluster_capacity caps < total_layers
           then Inl (ValueError (''Insufficient VRAM in cluster: required '' @ str_of_int total_layers
                  @ '' layers, but cluster can only host '' @ str_of_int (cluster_capacity caps) @ '' layers.''))
           else stage_allocations total_layers (py_or (jget task ''num_stages'') (jget task ''target_stages'')) caps))))"

definition schedule_pipeline ::
    "(registry \<Rightarrow> jobj \<Rightarrow> node list \<Rightarrow> node list res) \<Rightarrow> (registry \<Rightarrow> jobj \<Rightarrow> node list \<Rightarrow> (node \<times> pyfloat) list res)
     \<Rightarrow> (json \<Rightarrow> string) \<Rightarrow> (string \<Rightarrow> string) \<Rightarrow> string \<Rightarrow> jobj \<Rightarrow> registry
     \<Rightarrow> (string \<times> pipeline_stage list) res \<times> registry" where
  "schedule_pipeline filt sc rep sha256 uuid task r =
     (case plan_pipeline filt sc rep task r of
        Inl e \<Rightarrow> (Inl e, r)
      | Inr al \<Rightarrow>
          (case build_stages \<lparr>sk_total = int (length al), sk_model_id = model_id_of rep task, sk_local = False,
                  sk_type = COMPUTE, sk_split = False\<rparr> 0 0 al r of
             (Inl e, r') \<Rightarrow> (Inl e, r')
           | (Inr ss, r') \<Rightarrow>
               (Inr (sha256 (''pipeline:'' @ py_str rep (dget_or task ''task_id'' (JStr uuid)) @ '':''
                       @ str_of_int (int (length al)) @ '':'' @ py_join '','' (map ps_node_id ss)), ss), r')))"

subsection \<open>Split inference\<close>

definition split_layers :: "jobj \<Rightarrow> int \<Rightarrow> int res" where
  "split_layers task default_layers =
     (let v = dget_or task ''total_layers'' (JInt default_layers)
      in if v = JNull then Inr default_layers else py_int v)"

definition split_vram_per_layer :: "jobj \<Rightarrow> int \<Rightarrow> pyfloat res" where
  "split_vram_per_layer task t_layers =
     (let v0 = py_or (jget task ''vram_per_layer_gb'') (jget task ''layer_vram_gb'')
      in rbind (or_else (dmem ''vram_required_gb'' task) (quotient_of task ''vram_required_gb'' (float_of_int t_layers)) v0) (\<lambda>v1.
         if v1 = JNull then Inr (Fin (1 / 2)) else py_float v1))"

definition plan_split ::
    "(registry \<Rightarrow> jobj \<Rightarrow> node list \<Rightarrow> node list res) \<Rightarrow> (registry \<Rightarrow> jobj \<Rightarrow> node list \<Rightarrow> (node \<times> pyfloat) list res)
     \<Rightarrow> (json \<Rightarrow> string) \<Rightarrow> jobj \<Rightarrow> int \<Rightarrow> registry \<Rightarrow> (int \<times> (node \<times> int) list) res" where
  "plan_split filt sc rep task default_layers r =
     rbind (split_layers task default_layers) (\<lambda>t_layers.
       if t_layers < 2 then Inl (ValueError ''total_layers must be at least 2 for split inference'')
       else rbind (ranked_nodes filt sc ''No active nodes satisfy the split-inference task requirements.'' task (model_id_of rep task) r) (\<lambda>ranked.
         rbind (split_vram_per_layer task t_layers) (\<lambda>per_layer.
         rbind (node_capacities r per_layer (t_layers - 1) ranked) (\<lambda>caps.
           if cluster_capacity caps < t_layers - 1
           then Inl (ValueError (''Insufficient VRAM in cluster for intermediate layers: req '' @ str_of_int (t_layers - 1)
                  @ '', avail '' @ str_of_int (cluster_capacity caps) @ ''.''))
           else (case allocate (t_layers - 1) caps of
               (al, rest) \<Rightarrow>
                 if 0 < rest then Inl (ValueError ''Insufficient VRAM across cluster to schedule intermediate split layers.'')
                 else Inr (t_layers, al))))))"

text \<open>The final checks of the method, in their order.\<close>

definition client_boundary :: "stage_type \<Rightarrow> string \<Rightarrow> int \<Rightarrow> pipeline_stage \<Rightarrow> bool" where
  "client_boundary ty text layer s =
     (is_local_boundary s \<and> (stage_type_of s = ty \<or> stage_type_of s = OtherStage text) \<and> ps_node_id s = ''client_local''
      \<and> start_layer (layers_of s) = layer \<and> end_layer (layers_of s) = layer)"

fun remote_contiguous :: "pipeline_stage list \<Rightarrow> bool" where
  "remote_contiguous (s # t # ss) = (end_layer (layers_of s) + 1 = start_layer (layers_of t) \<and> remote_contiguous (t # ss))"
| "remote_contiguous _ = True"

definition remote_hidden :: "pipeline_stage \<Rightarrow> bool" where
  "remote_hidden s = (\<not> is_local_boundary s
     \<and> (stage_type_of s = REMOTE_HIDDEN \<or> stage_type_of s = OtherStage ''remote_hidden'') \<and> ps_is_split_inference s)"

definition check_split_chain :: "int \<Rightarrow> pipeline_stage list \<Rightarrow> unit res" where
  "check_split_chain t_layers ss =
     (let remote = butlast (tl ss)
      in if \<not> client_boundary CLIENT_EMBEDDING ''client_embedding'' 0 (hd ss)
         then Inl (ValueError ''Invalid split-inference client embedding boundary stage'')
         else if \<not> client_boundary CLIENT_LM_HEAD ''client_lm_head'' t_layers (last ss)
         then Inl (ValueError ''Invalid split-inference client LM head boundary stage'')
         else if start_layer (layers_of (ss ! 1)) \<noteq> 1
         then Inl (ValueError ''Split-inference remote stages must start at layer 1'')
         else if \<not> remote_contiguous remote
         then Inl (ValueError ''Split-inference remote stage layer ranges must be contiguous'')
         else if end_layer (layers_of (ss ! (length ss - 2))) \<noteq> t_layers - 1
         then Inl (ValueError ''Split-inference remote stages must end before the LM head layer'')
         else if \<not> list_all remote_hidden remote
         then Inl (ValueError ''Invalid split-inference remote hidden stage'')
         else Inr ())"

definition schedule_split_inference_pipeline ::
    "(registry \<Rightarrow> jobj \<Rightarrow> node list \<Rightarrow> node list res) \<Rightarrow> (registry \<Rightarrow> jobj \<Rightarrow> node list \<Rightarrow> (node \<times> pyfloat) list res)
     \<Rightarrow> (json \<Rightarrow> string) \<Rightarrow> jobj \<Rightarrow> int \<Rightarrow> registry \<Rightarrow> pipeline_stage list res \<times> registry" where
  "schedule_split_inference_pipeline filt sc rep task default_layers r =
     (case plan_split filt sc rep task default_layers r of
        Inl e \<Rightarrow> (Inl e, r)
      | Inr (t_layers, al) \<Rightarrow>
          let n = int (length al) + 2;
              kd = \<lparr>sk_total = n, sk_model_id = model_id_of rep task, sk_local = True, sk_type = CLIENT_EMBEDDING, sk_split = True\<rparr>
          in case rbind (mk_layer_range 0 0) (\<lambda>l. mk_stage (stage_of kd 0 l ''client_local'')) of
               Inl e \<Rightarrow> (Inl e, r)
             | Inr first \<Rightarrow>
                 (case build_stages (kd\<lparr>sk_local := False, sk_type := REMOTE_HIDDEN\<rparr>) 1 1 al r of
                    (Inl e, r') \<Rightarrow> (Inl e, r')
                  | (Inr remote, r') \<Rightarrow>
                      (case rbind (mk_layer_range t_layers t_layers) (\<lambda>l.
                           mk_stage (stage_of (kd\<lparr>sk_type := CLIENT_LM_HEAD\<rparr>) (n - 1) l ''client_local'')) of
                         Inl e \<Rightarrow> (Inl e, r')
                       | Inr head \<Rightarrow>
                           let ss = first # remote @ [head]
                           in case check_split_chain t_layers ss of Inl e \<Rightarrow> (Inl e, r') | Inr _ \<Rightarrow> (Inr ss, r'))))"

subsection \<open>Restitching\<close>

definition restitch_pipeline_on_eviction ::
    "(string \<Rightarrow> string) \<Rightarrow> string \<Rightarrow> string \<Rightarrow> kv_snapshot \<Rightarrow> pipeline_stage list \<Rightarrow> registry \<Rightarrow> pipeline_stage list res" where
  "restitch_pipeline_on_eviction sha256 task_id failed kv ss r =
     rbind (verify_checksum sha256 kv) (\<lambda>_.
       case filter (\<lambda>n. node_id n \<noteq> failed) (registry_list r) of
         [] \<Rightarrow> Inl (ValueError (''No replacement compute nodes available to restitch task '' @ task_id))
       | replacement # _ \<Rightarrow>
           mapM (\<lambda>s. if ps_node_id s = failed then mk_stage (s\<lparr>ps_node_id := node_id replacement\<rparr>) else Inr s) ss)"

section \<open>Allocations\<close>

lemma list_all2_left: "list_all2 P xs ys \<Longrightarrow> (\<And>x y. P x y \<Longrightarrow> Q x) \<Longrightarrow> \<forall>x\<in>set xs. Q x"
  by (induction rule: list_all2_induct) auto

lemma allocate_spec:
  assumes "allocate remaining caps = (al, rest)" "\<forall>(n, c)\<in>set caps. 0 < c"
  shows "list_all2 (\<lambda>(n, a) (m, c). n = m \<and> 0 < a \<and> a \<le> c) al (take (length al) caps)"
    and "sum_list (map snd al) = remaining - rest"
    and "0 \<le> remaining \<Longrightarrow> 0 \<le> rest"
    and "remaining \<le> cluster_capacity caps \<Longrightarrow> rest \<le> 0"
proof -
  have "list_all2 (\<lambda>(n, a) (m, c). n = m \<and> 0 < a \<and> a \<le> c) al (take (length al) caps)
      \<and> sum_list (map snd al) = remaining - rest \<and> (0 \<le> remaining \<longrightarrow> 0 \<le> rest)
      \<and> (remaining \<le> cluster_capacity caps \<longrightarrow> rest \<le> 0)"
    using assms
  proof (induction remaining caps arbitrary: al rest rule: allocate.induct)
    case (1 remaining)
    then show ?case by (simp add: cluster_capacity_def)
  next
    case (2 remaining n c caps)
    show ?case
    proof (cases "remaining \<le> 0")
      case True
      then show ?thesis using 2(2) by simp
    next
      case False
      let ?a = "min remaining c"
      obtain al' rest' where al': "allocate (remaining - ?a) caps = (al', rest')" by force
      then have al: "al = (n, ?a) # al'" "rest = rest'" using 2(2) False by (auto simp: Let_def)
      from "2.IH" [OF False refl al'] 2(3)
      have ih: "list_all2 (\<lambda>(n, a) (m, c). n = m \<and> 0 < a \<and> a \<le> c) al' (take (length al') caps)"
        "sum_list (map snd al') = remaining - ?a - rest'" "0 \<le> remaining - ?a \<longrightarrow> 0 \<le> rest'"
        "remaining - ?a \<le> cluster_capacity caps \<longrightarrow> rest' \<le> 0" by auto
      have "0 \<le> cluster_capacity caps"
        unfolding cluster_capacity_def using 2(3) by (intro sum_list_nonneg) fastforce
      then have "remaining \<le> cluster_capacity ((n, c) # caps) \<longrightarrow> remaining - ?a \<le> cluster_capacity caps"
        by (auto simp: cluster_capacity_def min_def)
      then show ?thesis using ih al False 2(3) by auto
    qed
  qed
  then show "list_all2 (\<lambda>(n, a) (m, c). n = m \<and> 0 < a \<and> a \<le> c) al (take (length al) caps)"
    "sum_list (map snd al) = remaining - rest"
    "0 \<le> remaining \<Longrightarrow> 0 \<le> rest" "remaining \<le> cluster_capacity caps \<Longrightarrow> rest \<le> 0" by auto
qed

lemma allocate_even_spec:
  "allocate_even base_l rem_l i caps = Inr al \<Longrightarrow>
   list_all2 (\<lambda>(n, a) (m, c). n = m \<and> a \<le> c) al caps
   \<and> (0 \<le> i \<longrightarrow> sum_list (map snd al) = int (length caps) * base_l + max 0 (min (rem_l - i) (int (length caps))))"
proof (induction base_l rem_l i caps arbitrary: al rule: allocate_even.induct)
  case (2 base_l rem_l i n c caps)
  let ?a = "base_l + (if i < rem_l then 1 else 0)"
  obtain al' where al': "\<not> c < ?a" "allocate_even base_l rem_l (i + 1) caps = Inr al'" "al = (n, ?a) # al'"
    using "2.prems" by (auto simp: Let_def rbind_eq_Inr split: if_splits)
  from "2.IH" [OF refl al'(1,2)] show ?case using al'
    by (auto simp: algebra_simps split: if_splits)
qed simp

text \<open>What every allocation the planner accepts has: nodes of the capacity list within their capacity, and the right sum.\<close>

definition allocation_ok :: "int \<Rightarrow> (node \<times> int) list \<Rightarrow> (node \<times> int) list \<Rightarrow> bool" where
  "allocation_ok layers caps al \<longleftrightarrow>
     list_all2 (\<lambda>(n, a) (m, c). n = m \<and> a \<le> c) al (take (length al) caps) \<and> sum_list (map snd al) = layers"

lemma stage_allocations_ok:
  assumes "stage_allocations layers requested caps = Inr al" "0 < layers" "\<forall>(n, c)\<in>set caps. 0 < c"
  shows "allocation_ok layers caps al"
proof (cases "requested = JNull")
  case True
  obtain al' rest where a: "allocate layers caps = (al', rest)" by force
  then have "al = al'" "rest \<le> 0" using assms(1) True by (auto simp: stage_allocations_def split: if_splits)
  then show ?thesis using allocate_spec [OF a assms(3)] assms(2)
    by (auto simp: allocation_ok_def split_def elim!: list_all2_mono)
next
  case False
  then obtain k where k: "0 < k" "k \<le> int (length caps)"
    "allocate_even (layers div k) (layers mod k) 0 (take (nat k) caps) = Inr al"
    using assms(1) by (auto simp: stage_allocations_def rbind_eq_Inr not_less not_le split: if_splits)
  have len: "int (length (take (nat k) caps)) = k" using k by simp
  note sp = allocate_even_spec [OF k(3), unfolded len]
  have "max 0 (min (layers mod k - 0) k) = layers mod k" using k by simp
  then have "sum_list (map snd al) = layers" using sp by (simp add: mult_div_mod_eq)
  moreover have "length al = nat k" using sp k list_all2_lengthD by fastforce
  ultimately show ?thesis using sp by (simp add: allocation_ok_def)
qed

section \<open>Stages\<close>

fun spec_stages :: "stage_kind \<Rightarrow> int \<Rightarrow> int \<Rightarrow> (node \<times> int) list \<Rightarrow> pipeline_stage list" where
  "spec_stages kd i current [] = []"
| "spec_stages kd i current ((n, a) # al) =
     stage_of kd i \<lparr>start_layer = current, end_layer = current + a - 1\<rparr> (node_id n) # spec_stages kd (i + 1) (current + a) al"

text \<open>A chain of stages that was built is the expected one, and none of its stages is empty.\<close>

lemma build_stages_spec:
  "build_stages kd i current al r = (Inr ss, r') \<Longrightarrow>
   ss = spec_stages kd i current al \<and> (\<forall>(n, a)\<in>set al. 0 < a)"
proof (induction kd i current al r arbitrary: ss r' rule: build_stages.induct)
  case (2 kd i current n a al r)
  obtain s where s: "rbind (mk_layer_range current (current + a - 1)) (\<lambda>l. mk_stage (stage_of kd i l (node_id n))) = Inr s"
    using "2.prems" by (auto split: sum.splits)
  obtain r1 where r1: "bump_queue (node_id n) r = (Inr (), r1)"
    using "2.prems" s by (auto split: sum.splits prod.splits)
  obtain r2 where r2: "increment_dampener (node_id n) r1 = (Inr (), r2)"
    using "2.prems" s r1 by (auto split: sum.splits prod.splits)
  obtain ss' where ss': "build_stages kd (i + 1) (current + a) al r2 = (Inr ss', r')" "ss = s # ss'"
    using "2.prems" s r1 r2 by (auto split: sum.splits prod.splits)
  have "ss' = spec_stages kd (i + 1) (current + a) al \<and> (\<forall>(n, a)\<in>set al. 0 < a)"
    using "2.IH" [OF s r1 [symmetric] refl r2 [symmetric] refl ss'(1)] .
  then show ?case using s ss'(2)
    by (auto simp: mk_layer_range_def mk_stage_def rbind_eq_Inr split: if_splits)
qed simp

lemma length_spec_stages [simp]: "length (spec_stages kd i current al) = length al"
  by (induction kd i current al rule: spec_stages.induct) auto

lemma spec_stages_Nil_iff [simp]: "spec_stages kd i current al = [] \<longleftrightarrow> al = []"
  by (cases al) auto

lemma spec_stages_indices: "check_indices i (spec_stages kd i current al) = Inr ()"
  by (induction kd i current al rule: spec_stages.induct) (auto simp: stage_of_def)

lemma spec_stages_contiguous: "check_contiguous j (spec_stages kd i current al) = Inr ()"
proof (induction kd i current al arbitrary: j rule: spec_stages.induct)
  case (2 kd i current n a al)
  then show ?case by (cases al) (auto simp: stage_of_def)
qed simp

lemma spec_stages_first: "al \<noteq> [] \<Longrightarrow> start_layer (layers_of (hd (spec_stages kd i current al))) = current"
  by (cases al) (auto simp: stage_of_def)

lemma spec_stages_last:
  "al \<noteq> [] \<Longrightarrow> end_layer (layers_of (last (spec_stages kd i current al))) = current + sum_list (map snd al) - 1"
proof (induction kd i current al rule: spec_stages.induct)
  case (2 kd i current n a al)
  then show ?case by (cases al) (auto simp: stage_of_def)
qed simp

lemma spec_stages_members:
  "s \<in> set (spec_stages kd i current al) \<Longrightarrow> \<forall>(n, a)\<in>set al. 0 < a \<Longrightarrow>
   \<exists>(n, a)\<in>set al. ps_node_id s = node_id n \<and> num_layers (layers_of s) = a
     \<and> start_layer (layers_of s) \<le> end_layer (layers_of s)
     \<and> is_local_boundary s = sk_local kd \<and> stage_type_of s = sk_type kd \<and> ps_is_split_inference s = sk_split kd"
  by (induction kd i current al rule: spec_stages.induct) (auto simp: stage_of_def num_layers_def)

lemma spec_stages_remote:
  "sk_local kd = False \<Longrightarrow> sk_type kd = REMOTE_HIDDEN \<Longrightarrow> sk_split kd \<Longrightarrow>
   list_all remote_hidden (spec_stages kd i current al) \<and> remote_contiguous (spec_stages kd i current al)"
proof (induction kd i current al rule: spec_stages.induct)
  case (2 kd i current n a al)
  then show ?case by (cases al) (auto simp: stage_of_def remote_hidden_def)
qed simp

section \<open>What the planner may use\<close>

context scheduling_strategy
begin

lemma ranked_nodes_spec:
  assumes "ranked_nodes filter_stage score_stage msg task model_id r = Inr ranked"
  obtains reqs where "pipeline_requirements task model_id = Inr reqs" "ranked \<noteq> []"
    "set ranked = {n \<in> set (registry_list r). admissible r reqs n}"
    "distinct (registry_list r) \<Longrightarrow> distinct ranked"
proof -
  obtain reqs es ss where x: "pipeline_requirements task model_id = Inr reqs" "filter_stage r reqs (registry_list r) = Inr es"
    "es \<noteq> []" "score_stage r task es = Inr ss" "ranked = (if ss \<noteq> [] then map fst ss else es)"
    using assms by (auto simp: ranked_nodes_def rbind_eq_Inr split: if_splits)
  have ss: "ss \<noteq> []" using scored_not_empty [OF x(4,3)] .
  have es: "es = filter (admissible r reqs) (registry_list r)" using filter_exact [OF x(2)] .
  have mem: "set (map fst ss) = set es" using score_members [OF x(4)] by force
  have "distinct ranked" if "distinct (registry_list r)"
  proof -
    have "distinct es" using that es by simp
    then have "card (set (map fst ss)) = length (map fst ss)"
      using mem score_length [OF x(4)] by (simp add: distinct_card)
    then have "distinct (map fst ss)" by (rule card_distinct)
    then show ?thesis using x(5) ss by simp
  qed
  moreover have "set ranked = {n \<in> set (registry_list r). admissible r reqs n}" using x(5) ss mem es by auto
  ultimately show ?thesis using that x ss by simp
qed

end

lemma node_capacities_spec:
  assumes "node_capacities r per_layer whole ranked = Inr caps"
  shows "\<forall>(n, c)\<in>set caps. 0 < c \<and> n \<in> set ranked \<and> capacity_on r per_layer whole n = Inr c"
    "distinct ranked \<Longrightarrow> distinct (map fst caps)"
proof -
  have m: "mapM (\<lambda>n. rbind (capacity_on r per_layer whole n) (\<lambda>c. Inr (n, c))) ns = Inr cs \<Longrightarrow>
      map fst cs = ns \<and> (\<forall>(n, c)\<in>set cs. capacity_on r per_layer whole n = Inr c)" for ns cs
    by (induction ns arbitrary: cs) (auto simp: rbind_eq_Inr)
  obtain cs where cs: "mapM (\<lambda>n. rbind (capacity_on r per_layer whole n) (\<lambda>c. Inr (n, c))) ranked = Inr cs"
    "caps = filter (\<lambda>(n, c). 0 < c) cs" using assms by (auto simp: node_capacities_def rbind_eq_Inr)
  from m [OF cs(1)] cs(2) show "\<forall>(n, c)\<in>set caps. 0 < c \<and> n \<in> set ranked \<and> capacity_on r per_layer whole n = Inr c"
    by force
  from m [OF cs(1)] cs(2) show "distinct ranked \<Longrightarrow> distinct (map fst caps)"
    by (auto intro: distinct_map_filter)
qed

lemma allocation_nodes:
  assumes "allocation_ok layers caps al"
  shows "map fst al = take (length al) (map fst caps)" "\<forall>(n, a)\<in>set al. \<exists>c. (n, c) \<in> set caps \<and> a \<le> c"
proof -
  have "list_all2 (\<lambda>(n, a) (m, c). n = m \<and> a \<le> c) al (take (length al) caps)"
    using assms by (simp add: allocation_ok_def)
  moreover have "list_all2 (\<lambda>(n, a) (m, c). n = m \<and> a \<le> c) xs ys \<Longrightarrow>
      map fst xs = map fst ys \<and> (\<forall>(n, a)\<in>set xs. \<exists>c. (n, c) \<in> set ys \<and> a \<le> c)" for xs :: "(node \<times> int) list" and ys
    by (induction rule: list_all2_induct) auto
  ultimately have "map fst al = map fst (take (length al) caps)"
    "\<forall>(n, a)\<in>set al. \<exists>c. (n, c) \<in> set (take (length al) caps) \<and> a \<le> c" by auto
  then show "map fst al = take (length al) (map fst caps)" "\<forall>(n, a)\<in>set al. \<exists>c. (n, c) \<in> set caps \<and> a \<le> c"
    by (auto simp: take_map dest: in_set_takeD) (blast dest: in_set_takeD)
qed

lemma registry_list_distinct: "reg_inv r \<Longrightarrow> distinct (registry_list r) \<and> inj_on node_id (set (registry_list r))"
proof -
  assume inv: "reg_inv r"
  have key: "node_id n = k" if "(k, n) \<in> set (reg_nodes r)" for k n
    using inv that by (auto simp: reg_inv_def map_of_eq_Some_iff)
  then have "map node_id (registry_list r) = dkeys (reg_nodes r)" by (auto simp: registry_list_def)
  moreover have "distinct (dkeys (reg_nodes r))" using inv by (simp add: reg_inv_def)
  ultimately have "distinct (map node_id (registry_list r))" by simp
  then show ?thesis by (simp add: distinct_map)
qed

lemma registry_list_get: "reg_inv r \<Longrightarrow> n \<in> set (registry_list r) \<Longrightarrow> registry_get (node_id n) r = Some n"
  by (auto simp: registry_list_def registry_get_def reg_inv_def map_of_eq_Some_iff)

lemma spec_stages_nodes: "map ps_node_id (spec_stages kd i current al) = map (node_id \<circ> fst) al"
  by (induction kd i current al rule: spec_stages.induct) (auto simp: stage_of_def)

text \<open>The facts both pipeline theorems draw from a plan: the allocated nodes.\<close>

lemma allocated_nodes:
  assumes "reg_inv r" "allocation_ok layers caps al" "node_capacities r per_layer whole ranked = Inr caps"
    "set ranked \<subseteq> set (registry_list r)" "distinct ranked"
  shows "distinct (map (node_id \<circ> fst) al)"
    "\<forall>(n, a)\<in>set al. n \<in> set ranked \<and> registry_get (node_id n) r = Some n
       \<and> (\<exists>c. capacity_on r per_layer whole n = Inr c \<and> a \<le> c)"
proof -
  note caps = node_capacities_spec [OF assms(3)] and al = allocation_nodes [OF assms(2)]
  have "distinct (map fst al)" using caps(2) [OF assms(5)] al(1) by (simp add: distinct_take)
  moreover have sub: "set (map fst al) \<subseteq> set ranked" using al(2) caps(1) by force
  then have "inj_on node_id (set (map fst al))"
    using registry_list_distinct [OF assms(1)] assms(4) by (meson inj_on_subset order_trans)
  ultimately show "distinct (map (node_id \<circ> fst) al)" by (metis distinct_map map_map)
  show "\<forall>(n, a)\<in>set al. n \<in> set ranked \<and> registry_get (node_id n) r = Some n
       \<and> (\<exists>c. capacity_on r per_layer whole n = Inr c \<and> a \<le> c)"
    using al(2) caps(1) assms(1,4) registry_list_get by fastforce
qed

section \<open>Completion\<close>

text \<open>Telemetry whose tracked queue depth is a number, which is all the engine itself ever writes.\<close>

definition numeric :: "json \<Rightarrow> bool" where
  "numeric v = (case v of JInt _ \<Rightarrow> True | JBool _ \<Rightarrow> True | JFloat _ \<Rightarrow> True | _ \<Rightarrow> False)"

definition queue_numeric :: "registry \<Rightarrow> bool" where
  "queue_numeric r = (\<forall>k. numeric (dget_or (dget_or (reg_telemetry r) k []) ''queue_depth'' (JInt 0)))"

lemma plus_one_numeric: "numeric v \<Longrightarrow> \<exists>w. py_plus_one v = Inr w \<and> numeric w"
  by (cases v) (auto simp: numeric_def)

lemma bump_queue_total:
  assumes "queue_numeric r"
  obtains r' where "bump_queue k r = (Inr (), r')" "queue_numeric r'" "reg_nodes r' = reg_nodes r"
    "reg_dampeners r' = reg_dampeners r"
proof -
  let ?r1 = "if dmem k (reg_telemetry r) then r else r\<lparr>reg_telemetry := dset k [] (reg_telemetry r)\<rparr>"
  have same: "dget_or (reg_telemetry ?r1) j [] = dget_or (reg_telemetry r) j []" for j
    by (auto simp: dget_or_def dmem_def dict_simps)
  obtain w where w: "py_plus_one (dget_or (dget_or (reg_telemetry ?r1) k []) ''queue_depth'' (JInt 0)) = Inr w" "numeric w"
    using assms plus_one_numeric unfolding queue_numeric_def same by blast
  let ?r2 = "?r1\<lparr>reg_telemetry := dset k (dset ''queue_depth'' w (dget_or (reg_telemetry ?r1) k [])) (reg_telemetry ?r1)\<rparr>"
  have "dget_or (reg_telemetry ?r2) j [] = (if j = k then dset ''queue_depth'' w (dget_or (reg_telemetry ?r1) k [])
      else dget_or (reg_telemetry r) j [])" for j
    using same [of j] by (simp add: dget_or_def dict_simps)
  then have "queue_numeric ?r2" using assms w(2) by (simp add: queue_numeric_def) (simp add: dget_or_def dict_simps)
  moreover have "bump_queue k r = (Inr (), ?r2)" using w(1) by (simp add: bump_queue_def Let_def)
  ultimately show ?thesis using that by simp
qed

lemma increment_dampener_total:
  assumes "dmem k (reg_nodes r)"
  obtains r' where "increment_dampener k r = (Inr (), r')" "reg_nodes r' = reg_nodes r" "reg_telemetry r' = reg_telemetry r"
  using assms that by (simp add: increment_dampener_def)

lemma build_stages_total:
  "queue_numeric r \<Longrightarrow> \<forall>(n, a)\<in>set al. 0 < a \<and> dmem (node_id n) (reg_nodes r) \<Longrightarrow> 0 \<le> i \<Longrightarrow> 0 \<le> current \<Longrightarrow>
   i + int (length al) \<le> sk_total kd \<Longrightarrow>
   \<exists>r'. build_stages kd i current al r = (Inr (spec_stages kd i current al), r')"
proof (induction al arbitrary: i current r)
  case (Cons x al)
  obtain n a where x: "x = (n, a)" by force
  obtain r1 where r1: "bump_queue (node_id n) r = (Inr (), r1)" "queue_numeric r1" "reg_nodes r1 = reg_nodes r"
    using bump_queue_total [OF Cons.prems(1), of "node_id n"] by blast
  obtain r2 where r2: "increment_dampener (node_id n) r1 = (Inr (), r2)" "reg_nodes r2 = reg_nodes r1"
    "reg_telemetry r2 = reg_telemetry r1"
    using increment_dampener_total [of "node_id n" r1] Cons.prems(2) x r1(3) by auto
  have "queue_numeric r2" using r1(2) r2(3) by (simp add: queue_numeric_def)
  then obtain r3 where "build_stages kd (i + 1) (current + a) al r2 = (Inr (spec_stages kd (i + 1) (current + a) al), r3)"
    using Cons.IH [of r2 "i + 1" "current + a"] Cons.prems x r1(3) r2(2) by auto
  then show ?case using x r1 r2 Cons.prems
    by (auto simp: mk_layer_range_def mk_stage_def stage_of_def)
qed simp

section \<open>The planned pipelines\<close>

lemma plan_pipeline_spec:
  assumes "reg_inv r" "plan_pipeline (filter_nodes rep canary) score_nodes rep task r = Inr al"
  obtains layers reqs per_layer where
    "py_int (dget_or task ''total_layers'' (JInt 32)) = Inr layers" "0 < layers"
    "pipeline_requirements task (model_id_of rep task) = Inr reqs" "vram_per_layer task layers = Inr per_layer"
    "sum_list (map snd al) = layers" "distinct (map (node_id \<circ> fst) al)"
    "\<forall>(n, a)\<in>set al. registry_get (node_id n) r = Some n \<and> admissible_node rep canary r reqs n
       \<and> (\<exists>c. capacity_on r per_layer layers n = Inr c \<and> a \<le> c)"
proof -
  obtain layers ranked per_layer caps where x:
    "py_int (dget_or task ''total_layers'' (JInt 32)) = Inr layers" "0 < layers"
    "ranked_nodes (filter_nodes rep canary) score_nodes ''No active nodes satisfy the pipeline task requirements.''
        task (model_id_of rep task) r = Inr ranked"
    "vram_per_layer task layers = Inr per_layer" "node_capacities r per_layer layers ranked = Inr caps"
    "stage_allocations layers (py_or (jget task ''num_stages'') (jget task ''target_stages'')) caps = Inr al"
    using assms(2) by (auto simp: plan_pipeline_def rbind_eq_Inr not_le split: if_splits)
  obtain reqs where reqs: "pipeline_requirements task (model_id_of rep task) = Inr reqs"
    "set ranked = {n \<in> set (registry_list r). admissible_node rep canary r reqs n}" "distinct ranked"
    using matchmaker.ranked_nodes_spec [OF x(3)] registry_list_distinct [OF assms(1)] by metis
  have ok: "allocation_ok layers caps al"
    using stage_allocations_ok [OF x(6,2)] node_capacities_spec(1) [OF x(5)] by auto
  have "set ranked \<subseteq> set (registry_list r)" using reqs(2) by auto
  note al = allocated_nodes [OF assms(1) ok x(5) this reqs(3)]
  show ?thesis
    using that [OF x(1,2) reqs(1) x(4) _ al(1)] ok al(2) reqs(2) by (fastforce simp: allocation_ok_def)
qed

lemma sum_list_positive: "xs \<noteq> [] \<Longrightarrow> \<forall>x\<in>set xs. 0 < x \<Longrightarrow> 0 < sum_list (xs :: int list)"
  by (induction xs rule: list_nonempty_induct) auto

lemma spec_stages_config:
  assumes "al \<noteq> []" "\<forall>(n, a)\<in>set al. 0 < a" "\<not> sk_split kd" "\<not> sk_local kd" "sk_type kd = COMPUTE"
  shows "validate_config (sum_list (map snd al)) (spec_stages kd 0 0 al) = Inr ()"
proof -
  have "\<forall>x\<in>set (map snd al). 0 < x" using assms(2) by auto
  then have "0 < sum_list (map snd al)" using assms(1) by (intro sum_list_positive) auto
  moreover have "\<not> ends_split (last (spec_stages kd 0 0 al))"
    using spec_stages_members [of "last (spec_stages kd 0 0 al)" kd 0 0 al] assms by (auto simp: ends_split_def)
  ultimately show ?thesis
    using assms(1) by (simp add: validate_config_def Let_def spec_stages_indices spec_stages_contiguous
        spec_stages_first spec_stages_last)
qed

text \<open>The chain the split method assembles around the remote stages of an allocation.\<close>

definition split_kind :: "string \<Rightarrow> int \<Rightarrow> stage_kind" where
  "split_kind model_id n = \<lparr>sk_total = n, sk_model_id = model_id, sk_local = True, sk_type = CLIENT_EMBEDDING, sk_split = True\<rparr>"

definition split_chain :: "string \<Rightarrow> int \<Rightarrow> (node \<times> int) list \<Rightarrow> pipeline_stage list" where
  "split_chain model_id t_layers al =
     (let n = int (length al) + 2; kd = split_kind model_id n
      in stage_of kd 0 \<lparr>start_layer = 0, end_layer = 0\<rparr> ''client_local''
         # spec_stages (kd\<lparr>sk_local := False, sk_type := REMOTE_HIDDEN\<rparr>) 1 1 al
         @ [stage_of (kd\<lparr>sk_type := CLIENT_LM_HEAD\<rparr>) (n - 1) \<lparr>start_layer = t_layers, end_layer = t_layers\<rparr> ''client_local''])"

lemma check_indices_append:
  "check_indices i (xs @ ys) = rbind (check_indices i xs) (\<lambda>_. check_indices (i + int (length xs)) ys)"
  by (induction xs arbitrary: i) (auto simp: algebra_simps)

lemma check_contiguous_snoc:
  "xs \<noteq> [] \<Longrightarrow> check_contiguous i xs = Inr () \<Longrightarrow> end_layer (layers_of (last xs)) + 1 = start_layer (layers_of y) \<Longrightarrow>
   check_contiguous i (xs @ [y]) = Inr ()"
proof (induction i xs rule: check_contiguous.induct)
  case (1 i s t ss)
  then show ?case by (auto split: if_splits)
qed simp_all

lemma split_chain_valid:
  assumes "al \<noteq> []" "\<forall>(n, a)\<in>set al. 0 < a" "sum_list (map snd al) = t_layers - 1" "2 \<le> t_layers"
  shows "check_split_chain t_layers (split_chain model_id t_layers al) = Inr ()"
    and "validate_config t_layers (split_chain model_id t_layers al) = Inr ()"
proof -
  let ?n = "int (length al) + 2"
  let ?kd = "split_kind model_id ?n"
  let ?r = "spec_stages (?kd\<lparr>sk_local := False, sk_type := REMOTE_HIDDEN\<rparr>) 1 1 al"
  let ?f = "stage_of ?kd 0 \<lparr>start_layer = 0, end_layer = 0\<rparr> ''client_local''"
  let ?h = "stage_of (?kd\<lparr>sk_type := CLIENT_LM_HEAD\<rparr>) (?n - 1) \<lparr>start_layer = t_layers, end_layer = t_layers\<rparr> ''client_local''"
  have r: "?r \<noteq> []" using assms(1) by simp
  have chain: "split_chain model_id t_layers al = ?f # ?r @ [?h]" by (simp add: split_chain_def Let_def)
  have rem: "list_all remote_hidden ?r" "remote_contiguous ?r"
    using spec_stages_remote [of "?kd\<lparr>sk_local := False, sk_type := REMOTE_HIDDEN\<rparr>" 1 1 al] by (auto simp: split_kind_def)
  have first: "start_layer (layers_of (hd ?r)) = 1" and last: "end_layer (layers_of (last ?r)) = t_layers - 1"
    using spec_stages_first [OF assms(1)] spec_stages_last [OF assms(1)] assms(3) by simp_all
  have nth1: "(?f # ?r @ [?h]) ! 1 = hd ?r" using r by (simp add: nth_append hd_conv_nth)
  have nth2: "(?f # ?r @ [?h]) ! (length (?f # ?r @ [?h]) - 2) = last ?r"
    using r by (simp add: nth_append last_conv_nth nth_Cons' del: length_spec_stages)
  have bf: "client_boundary CLIENT_EMBEDDING ''client_embedding'' 0 ?f"
    and bh: "client_boundary CLIENT_LM_HEAD ''client_lm_head'' t_layers ?h"
    by (simp_all add: client_boundary_def stage_of_def split_kind_def)
  show "check_split_chain t_layers (split_chain model_id t_layers al) = Inr ()"
    unfolding chain check_split_chain_def Let_def nth1 nth2 using bf bh rem first last by (simp add: butlast_append)
  have "check_contiguous 0 (?f # ?r) = Inr ()"
    using first r spec_stages_contiguous [of 1 "?kd\<lparr>sk_local := False, sk_type := REMOTE_HIDDEN\<rparr>" 1 1 al]
    by (cases ?r) (auto simp: stage_of_def)
  then have cont: "check_contiguous 0 ((?f # ?r) @ [?h]) = Inr ()"
    using last r by (intro check_contiguous_snoc) (auto simp: stage_of_def)
  have idx: "check_indices 0 (?f # ?r @ [?h]) = Inr ()"
    using spec_stages_indices [of 1 _ 1 al] by (simp add: stage_of_def check_indices_append)
  have "ends_split ?h" by (simp add: ends_split_def stage_of_def)
  then show "validate_config t_layers (split_chain model_id t_layers al) = Inr ()"
    unfolding chain validate_config_def using idx cont assms(4) by (simp add: stage_of_def)
qed

lemma plan_split_spec:
  assumes "reg_inv r" "plan_split (filter_nodes rep canary) score_nodes rep task default_layers r = Inr (t_layers, al)"
  obtains reqs per_layer where "split_layers task default_layers = Inr t_layers" "2 \<le> t_layers"
    "pipeline_requirements task (model_id_of rep task) = Inr reqs" "split_vram_per_layer task t_layers = Inr per_layer"
    "al \<noteq> []" "\<forall>(n, a)\<in>set al. 0 < a" "sum_list (map snd al) = t_layers - 1" "distinct (map (node_id \<circ> fst) al)"
    "\<forall>(n, a)\<in>set al. registry_get (node_id n) r = Some n \<and> admissible_node rep canary r reqs n
       \<and> (\<exists>c. capacity_on r per_layer (t_layers - 1) n = Inr c \<and> a \<le> c)"
proof -
  obtain ranked per_layer caps where x:
    "split_layers task default_layers = Inr t_layers" "2 \<le> t_layers"
    "ranked_nodes (filter_nodes rep canary) score_nodes ''No active nodes satisfy the split-inference task requirements.''
        task (model_id_of rep task) r = Inr ranked"
    "split_vram_per_layer task t_layers = Inr per_layer" "node_capacities r per_layer (t_layers - 1) ranked = Inr caps"
    "fst (allocate (t_layers - 1) caps) = al" "snd (allocate (t_layers - 1) caps) \<le> 0"
    using assms(2) by (auto simp: plan_split_def rbind_eq_Inr not_less case_prod_beta split: if_splits)
  obtain rest where rest: "allocate (t_layers - 1) caps = (al, rest)" "rest \<le> 0" using x(6,7) by (metis prod.collapse)
  obtain reqs where reqs: "pipeline_requirements task (model_id_of rep task) = Inr reqs"
    "set ranked = {n \<in> set (registry_list r). admissible_node rep canary r reqs n}" "distinct ranked"
    using matchmaker.ranked_nodes_spec [OF x(3)] registry_list_distinct [OF assms(1)] by metis
  have caps: "\<forall>(n, c)\<in>set caps. 0 < c" using node_capacities_spec(1) [OF x(5)] by auto
  note sp = allocate_spec [OF rest(1) caps]
  have sum: "sum_list (map snd al) = t_layers - 1" using sp(2,3) x(2) rest(2) by simp
  have ok: "allocation_ok (t_layers - 1) caps al"
    using sp(1) sum by (auto simp: allocation_ok_def split_def elim!: list_all2_mono)
  have "al \<noteq> []" using sum x(2) by auto
  moreover have "\<forall>(n, a)\<in>set al. 0 < a" using sp(1) by (rule list_all2_left) auto
  moreover have "set ranked \<subseteq> set (registry_list r)" using reqs(2) by auto
  note al = allocated_nodes [OF assms(1) ok x(5) this reqs(3)]
  ultimately show ?thesis using that [OF x(1,2) reqs(1) x(4) _ _ sum al(1)] al(2) reqs(2) by fastforce
qed

lemma schedule_split_result:
  assumes "plan_split filt sc rep task default_layers r = Inr (t_layers, al)" "2 \<le> t_layers" "al \<noteq> []"
    "\<forall>(n, a)\<in>set al. 0 < a" "sum_list (map snd al) = t_layers - 1"
    "kd = (split_kind (model_id_of rep task) (int (length al) + 2))\<lparr>sk_local := False, sk_type := REMOTE_HIDDEN\<rparr>"
  shows "schedule_split_inference_pipeline filt sc rep task default_layers r =
     (case build_stages kd 1 1 al r of
        (Inl e, r') \<Rightarrow> (Inl e, r')
      | (Inr ss, r') \<Rightarrow> (Inr (split_chain (model_id_of rep task) t_layers al), r'))"
proof (cases "build_stages kd 1 1 al r")
  case (Pair res r')
  show ?thesis
  proof (cases res)
    case (Inr ss)
    have ss: "ss = spec_stages kd 1 1 al" using build_stages_spec Pair Inr by blast
    note valid = split_chain_valid(1) [OF assms(3,4,5,2), of "model_id_of rep task"]
    show ?thesis
      using assms(1,2,6) Pair Inr valid unfolding ss
      by (simp add: schedule_split_inference_pipeline_def Let_def mk_layer_range_def mk_stage_def stage_of_def
          split_chain_def split_kind_def)
  qed (use assms(1,6) Pair in \<open>simp add: schedule_split_inference_pipeline_def Let_def mk_layer_range_def
      mk_stage_def stage_of_def split_kind_def\<close>)
qed

section \<open>A small cluster\<close>

definition sample_task :: jobj where
  "sample_task = [(''task_id'', JStr ''t1''), (''total_layers'', JInt 4), (''requirements'', JObj [])]"

lemma sample_simps:
  "registry_list sample_registry = [sample_node ''a'']" "reg_telemetry sample_registry = []"
  "reg_nodes sample_registry = [(''a'', sample_node ''a'')]" "node_id (sample_node ''a'') = ''a''"
  "dget (reg_heartbeats sample_registry) ''a'' = Some (sample_heartbeat ''a'')"
  by (simp_all add: sample_registry_def init_registry_def registry_list_def sample_node_def)

lemma sample_filter: "filter_nodes rep None sample_registry [] [sample_node ''a''] = Inr [sample_node ''a'']"
  by (simp add: filter_nodes_def node_eligible_def skip_quarantined_def model_requirement_def vram_requirement_def
      vram_fits_def backend_fits_def py_or_def jget_def dget_or_def)

lemma sample_fitness: "\<exists>x. fitness sample_registry (sample_node ''a'') = Inr x \<and> x \<noteq> NaN"
proof -
  have q: "py_float (JInt 2) = Inr (Fin 2)" using py_float_int [of 2] by simp
  have r: "rnd 100 = Fin 100" "rnd 30 = Fin 30" "rnd 70 = Fin 70" "rnd 25 = Fin 25" by (simp_all add: lit_numeral)
  show ?thesis
    by (simp add: fitness_def telemetry_of_def dget_or_def sample_simps sample_heartbeat_def q r fsub_def
        del: py_float.simps(2))
qed

lemma sample_score: "\<exists>x. score_nodes sample_registry task [sample_node ''a''] = Inr [(sample_node ''a'', x)]"
  using sample_fitness by (auto simp: score_nodes_def sort_desc_def)

lemma sample_ranked:
  "ranked_nodes (filter_nodes rep None) score_nodes msg sample_task (model_id_of rep sample_task) sample_registry = Inr [sample_node ''a'']"
proof -
  obtain x where "score_nodes sample_registry sample_task [sample_node ''a''] = Inr [(sample_node ''a'', x)]"
    using sample_score by blast
  then show ?thesis
    by (simp add: ranked_nodes_def sample_simps pipeline_requirements_def requirements_of_def sample_task_def dget_or_def
        model_id_of_def py_or_def jget_def sample_filter)
qed

lemma sample_capacity: "node_capacities sample_registry (Fin (1 / 2)) whole [sample_node ''a''] = Inr [(sample_node ''a'', 8)]"
  by (simp add: node_capacities_def capacity_on_def vram_now_def sample_simps sample_heartbeat_def lit_numeral)

lemma sample_plan: "plan_pipeline (filter_nodes rep None) score_nodes rep sample_task sample_registry = Inr [(sample_node ''a'', 4)]"
proof -
  have "vram_per_layer sample_task 4 = Inr (Fin (1 / 2))"
    by (simp add: vram_per_layer_def sample_task_def jget_def dget_or_def or_else_def dmem_def Let_def)
  then show ?thesis
    unfolding plan_pipeline_def sample_ranked
    by (simp add: sample_task_def dget_or_def jget_def py_or_def sample_capacity cluster_capacity_def stage_allocations_def)
qed

lemma sample_numeric: "queue_numeric sample_registry"
  by (simp add: queue_numeric_def sample_simps dget_or_def numeric_def)

lemma sample_registered: "dmem ''a'' (reg_nodes sample_registry)"
  by (simp add: sample_simps dmem_def)

lemma sample_plan_split:
  "plan_split (filter_nodes rep None) score_nodes rep sample_task 32 sample_registry = Inr (4, [(sample_node ''a'', 3)])"
proof -
  have "split_vram_per_layer sample_task 4 = Inr (Fin (1 / 2))" "split_layers sample_task 32 = Inr 4"
    by (simp_all add: split_vram_per_layer_def split_layers_def sample_task_def jget_def dget_or_def or_else_def dmem_def py_or_def)
  then show ?thesis unfolding plan_split_def sample_ranked by (simp add: sample_capacity cluster_capacity_def)
qed

section \<open>Properties\<close>

text \<open>
  C20. A scheduled task goes to a best node: when \<^verbatim>\<open>schedule_task\<close> returns, the node is registered,
  passes every hard requirement (and is not quarantined), and no other admissible node has a
  strictly higher fitness; its tracked queue depth has gone up by one and no other telemetry, node,
  credential or dampener has changed.
\<close>

theorem schedule_task_best:
  assumes "schedule_task (filter_nodes rep canary) score_nodes rep sha256 uuid task r = (Inr (tx, k), r')"
    "reg_inv r" "\<forall>n\<in>set (registry_list r). fitness_value r n \<noteq> NaN"
  shows "\<exists>n reqs v. registry_get k r = Some n \<and> requirements_of task = Inr reqs \<and> admissible_node rep canary r reqs n
    \<and> (\<forall>m\<in>set (registry_list r). admissible_node rep canary r reqs m \<longrightarrow> \<not> flt (fitness_value r n) (fitness_value r m))
    \<and> py_plus_one (dget_or (telemetry_of r n) ''queue_depth'' (JInt 0)) = Inr v
    \<and> reg_telemetry r' = dset k (dset ''queue_depth'' v (telemetry_of r n)) (reg_telemetry r)
    \<and> r' = r\<lparr>reg_telemetry := reg_telemetry r'\<rparr>"
proof -
  obtain reqs es n x rest where e: "requirements_of task = Inr reqs" "filter_nodes rep canary r reqs (registry_list r) = Inr es"
    "score_nodes r task es = Inr ((n, x) # rest)" "k = node_id n" "bump_queue (node_id n) r = (Inr (), r')"
    using assms(1) by (auto simp: schedule_task_def rbind_eq_Inr split: sum.splits if_splits list.splits prod.splits)
  have n: "n \<in> set (registry_list r)" "admissible_node rep canary r reqs n"
    using matchmaker.best_is_admissible [OF e(2,3)] by auto
  have "\<forall>m\<in>set es. fitness_value r m \<noteq> NaN" using assms(3) filter_nodes_exact [OF e(2)] by auto
  from matchmaker.best_is_maximal [OF e(2,3) this]
  have best: "\<forall>m\<in>set (registry_list r). admissible_node rep canary r reqs m \<longrightarrow> \<not> flt (fitness_value r n) (fitness_value r m)"
    by blast
  have dd: "dset j a (dset j b d) = dset j a d" for j :: string and a b :: jobj and d by (induction d) auto
  obtain v where v: "py_plus_one (dget_or (telemetry_of r n) ''queue_depth'' (JInt 0)) = Inr v"
    "reg_telemetry r' = dset k (dset ''queue_depth'' v (telemetry_of r n)) (reg_telemetry r)"
    "r' = r\<lparr>reg_telemetry := reg_telemetry r'\<rparr>"
    using e(4,5)
    by (auto simp: bump_queue_def Let_def telemetry_of_def dget_or_def dmem_def dict_simps dd split: sum.splits if_splits option.splits)
  show ?thesis using e(1,4) n best v registry_list_get [OF assms(2) n(1)] by blast
qed

theorem schedule_task_best_witness:
  "\<exists>tx r'. schedule_task (filter_nodes (\<lambda>_. []) None) score_nodes (\<lambda>_. []) id ''u'' sample_task sample_registry = (Inr (tx, ''a''), r')
     \<and> r' = sample_registry\<lparr>reg_telemetry := reg_telemetry r'\<rparr>"
proof -
  obtain x where x: "score_nodes sample_registry sample_task [sample_node ''a''] = Inr [(sample_node ''a'', x)]"
    using sample_score by blast
  obtain r' where r': "bump_queue ''a'' sample_registry = (Inr (), r')" using bump_queue_total [OF sample_numeric] by metis
  have "requirements_of sample_task = Inr []" by (simp add: requirements_of_def sample_task_def dget_or_def)
  then obtain tx where "schedule_task (filter_nodes (\<lambda>_. []) None) score_nodes (\<lambda>_. []) id ''u'' sample_task sample_registry = (Inr (tx, ''a''), r')"
    using x r' by (simp add: schedule_task_def sample_simps sample_filter)
  moreover have "\<forall>n\<in>set (registry_list sample_registry). fitness_value sample_registry n \<noteq> NaN"
    using sample_fitness by (auto simp: sample_simps fitness_value_def)
  ultimately show ?thesis using schedule_task_best [OF _ sample_registry_inv] by blast
qed

text \<open>
  C4. A scheduled pipeline covers the model: when \<^verbatim>\<open>schedule_pipeline\<close> returns stages, the validator of
  \<^verbatim>\<open>PipelineConfig\<close> accepts them, their layers in order are \<open>0 .. total_layers - 1\<close>, they run on distinct
  registered nodes that pass the requirements, and no stage is given more layers than its node's
  available VRAM holds. It holds for the greedy and for the even partition alike.
\<close>

theorem pipeline_covers_model:
  assumes "schedule_pipeline (filter_nodes rep canary) score_nodes rep sha256 uuid task r = (Inr (tx, ss), r')" "reg_inv r"
  shows "\<exists>layers reqs per_layer. py_int (dget_or task ''total_layers'' (JInt 32)) = Inr layers
    \<and> pipeline_requirements task (model_id_of rep task) = Inr reqs \<and> vram_per_layer task layers = Inr per_layer
    \<and> validate_config layers ss = Inr () \<and> layers_in ss = [0 .. layers - 1] \<and> distinct (map ps_node_id ss)
    \<and> (\<forall>s\<in>set ss. \<exists>n c. registry_get (ps_node_id s) r = Some n \<and> admissible_node rep canary r reqs n
          \<and> capacity_on r per_layer layers n = Inr c \<and> 0 < num_layers (layers_of s) \<and> num_layers (layers_of s) \<le> c)"
proof -
  obtain al where al: "plan_pipeline (filter_nodes rep canary) score_nodes rep task r = Inr al"
    "build_stages \<lparr>sk_total = int (length al), sk_model_id = model_id_of rep task, sk_local = False,
        sk_type = COMPUTE, sk_split = False\<rparr> 0 0 al r = (Inr ss, r')"
    using assms(1) by (auto simp: schedule_pipeline_def split: sum.splits prod.splits)
  let ?kd = "\<lparr>sk_total = int (length al), sk_model_id = model_id_of rep task, sk_local = False, sk_type = COMPUTE, sk_split = False\<rparr>"
  obtain layers reqs per_layer where p: "py_int (dget_or task ''total_layers'' (JInt 32)) = Inr layers" "0 < layers"
    "pipeline_requirements task (model_id_of rep task) = Inr reqs" "vram_per_layer task layers = Inr per_layer"
    "sum_list (map snd al) = layers" "distinct (map (node_id \<circ> fst) al)"
    "\<forall>(n, a)\<in>set al. registry_get (node_id n) r = Some n \<and> admissible_node rep canary r reqs n
       \<and> (\<exists>c. capacity_on r per_layer layers n = Inr c \<and> a \<le> c)"
    using plan_pipeline_spec [OF assms(2) al(1)] by blast
  have ss: "ss = spec_stages ?kd 0 0 al" "\<forall>(n, a)\<in>set al. 0 < a" using build_stages_spec [OF al(2)] by auto
  have ne: "al \<noteq> []" using p(2,5) by auto
  have cfg: "validate_config layers ss = Inr ()" using spec_stages_config [OF ne ss(2), of ?kd] p(5) ss(1) by simp
  have mem: "\<forall>s\<in>set ss. \<exists>(n, a)\<in>set al. ps_node_id s = node_id n \<and> num_layers (layers_of s) = a
      \<and> start_layer (layers_of s) \<le> end_layer (layers_of s) \<and> \<not> ps_is_split_inference s"
    using spec_stages_members [of _ ?kd 0 0 al] ss by fastforce
  have "\<not> ends_split (last ss)"
    using spec_stages_members [of "last ss" ?kd 0 0 al] ss ne by (auto simp: ends_split_def)
  then have "layers_in ss = [0 .. layers - 1]"
    using config_layers [OF cfg] mem ss(1) ne by fastforce
  moreover have "distinct (map ps_node_id ss)" using p(6) ss(1) by (simp add: spec_stages_nodes)
  moreover have "\<forall>s\<in>set ss. \<exists>n c. registry_get (ps_node_id s) r = Some n \<and> admissible_node rep canary r reqs n
          \<and> capacity_on r per_layer layers n = Inr c \<and> 0 < num_layers (layers_of s) \<and> num_layers (layers_of s) \<le> c"
    using mem p(7) ss(2) by fastforce
  ultimately show ?thesis using p cfg by blast
qed

theorem pipeline_covers_model_witness:
  "\<exists>tx ss r'. schedule_pipeline (filter_nodes (\<lambda>_. []) None) score_nodes (\<lambda>_. []) id ''u'' sample_task sample_registry = (Inr (tx, ss), r')
     \<and> layers_in ss = [0 .. 3]"
proof -
  let ?kd = "\<lparr>sk_total = 1, sk_model_id = model_id_of (\<lambda>_. []) sample_task, sk_local = False, sk_type = COMPUTE, sk_split = False\<rparr>"
  obtain r' where "build_stages ?kd 0 0 [(sample_node ''a'', 4)] sample_registry
      = (Inr (spec_stages ?kd 0 0 [(sample_node ''a'', 4)]), r')"
    using build_stages_total [OF sample_numeric, of "[(sample_node ''a'', 4)]" 0 0 ?kd] sample_registered
    by (auto simp: sample_simps)
  then obtain tx ss where run: "schedule_pipeline (filter_nodes (\<lambda>_. []) None) score_nodes (\<lambda>_. []) id ''u'' sample_task sample_registry
      = (Inr (tx, ss), r')" by (simp add: schedule_pipeline_def sample_plan)
  have "py_int (dget_or sample_task ''total_layers'' (JInt 32)) = Inr 4" by (simp add: sample_task_def dget_or_def)
  then have "layers_in ss = [0 .. 3]" using pipeline_covers_model [OF run sample_registry_inv] by auto
  then show ?thesis using run by blast
qed

text \<open>
  Split inference keeps the client's layers on the client: when the method returns, the first
  and the last stage are local boundary stages of the client (layer 0 and layer \<open>total_layers\<close>), every
  stage between them is a remote hidden stage on a distinct registered node that passes the
  requirements and within its capacity, and the layers of the chain are \<open>0 .. total_layers\<close> in order,
  as the validator of the configuration demands.
\<close>

theorem split_pipeline_boundary:
  assumes "schedule_split_inference_pipeline (filter_nodes rep canary) score_nodes rep task default_layers r = (Inr ss, r')"
    "reg_inv r"
  shows "\<exists>t_layers reqs remote. split_layers task default_layers = Inr t_layers
    \<and> pipeline_requirements task (model_id_of rep task) = Inr reqs
    \<and> ss = hd ss # remote @ [last ss] \<and> remote \<noteq> []
    \<and> client_boundary CLIENT_EMBEDDING ''client_embedding'' 0 (hd ss)
    \<and> client_boundary CLIENT_LM_HEAD ''client_lm_head'' t_layers (last ss)
    \<and> (\<forall>s\<in>set remote. remote_hidden s \<and> (\<exists>n. registry_get (ps_node_id s) r = Some n \<and> admissible_node rep canary r reqs n))
    \<and> distinct (map ps_node_id remote)
    \<and> validate_config t_layers ss = Inr () \<and> layers_in ss = [0 .. t_layers]"
proof -
  obtain t_layers al where plan: "plan_split (filter_nodes rep canary) score_nodes rep task default_layers r = Inr (t_layers, al)"
    using assms(1) by (auto simp: schedule_split_inference_pipeline_def split: sum.splits)
  obtain reqs per_layer where q: "split_layers task default_layers = Inr t_layers" "2 \<le> t_layers"
    "pipeline_requirements task (model_id_of rep task) = Inr reqs" "split_vram_per_layer task t_layers = Inr per_layer"
    "al \<noteq> []" "\<forall>(n, a)\<in>set al. 0 < a" "sum_list (map snd al) = t_layers - 1" "distinct (map (node_id \<circ> fst) al)"
    "\<forall>(n, a)\<in>set al. registry_get (node_id n) r = Some n \<and> admissible_node rep canary r reqs n
       \<and> (\<exists>c. capacity_on r per_layer (t_layers - 1) n = Inr c \<and> a \<le> c)"
    by (rule plan_split_spec [OF assms(2) plan])
  note p = q(1-3) q(5-9)
  let ?kd = "(split_kind (model_id_of rep task) (int (length al) + 2))\<lparr>sk_local := False, sk_type := REMOTE_HIDDEN\<rparr>"
  let ?remote = "spec_stages ?kd 1 1 al"
  have ss: "ss = split_chain (model_id_of rep task) t_layers al"
    using schedule_split_result [OF plan p(2,4,5,6) refl] assms(1) by (auto split: sum.splits prod.splits)
  note valid = split_chain_valid(2) [OF p(4,5,6,2), of "model_id_of rep task", folded ss]
  have shape: "ss = hd ss # ?remote @ [last ss]" by (simp add: ss split_chain_def Let_def)
  have bounds: "client_boundary CLIENT_EMBEDDING ''client_embedding'' 0 (hd ss)"
    "client_boundary CLIENT_LM_HEAD ''client_lm_head'' t_layers (last ss)" "ends_split (last ss)"
    by (simp_all add: ss split_chain_def Let_def client_boundary_def stage_of_def split_kind_def ends_split_def)
  have mem: "\<forall>s\<in>set ?remote. \<exists>(n, a)\<in>set al. ps_node_id s = node_id n \<and> start_layer (layers_of s) \<le> end_layer (layers_of s)"
    using spec_stages_members [of _ ?kd 1 1 al] p(5) by fastforce
  have "\<forall>s\<in>set ss. start_layer (layers_of s) \<le> end_layer (layers_of s)"
    using mem bounds(1,2) by (subst shape) (auto simp: client_boundary_def)
  then have "layers_in ss = [0 .. t_layers]"
    using config_layers [OF valid] bounds(3) by (simp add: ss split_chain_def Let_def)
  moreover have "\<forall>s\<in>set ?remote. remote_hidden s"
    using spec_stages_remote [of ?kd 1 1 al] by (simp add: split_kind_def list_all_iff)
  moreover have "\<forall>s\<in>set ?remote. \<exists>n. registry_get (ps_node_id s) r = Some n \<and> admissible_node rep canary r reqs n"
    using mem p(8) by fastforce
  moreover have "distinct (map ps_node_id ?remote)" using p(7) by (simp add: spec_stages_nodes)
  moreover have "?remote \<noteq> []" using p(4) by simp
  ultimately show ?thesis using p(1,3) shape bounds(1,2) valid
    by (intro exI [of _ t_layers] exI [of _ reqs] exI [of _ ?remote] conjI) simp_all
qed

theorem split_pipeline_boundary_witness:
  "\<exists>ss r'. schedule_split_inference_pipeline (filter_nodes (\<lambda>_. []) None) score_nodes (\<lambda>_. []) sample_task 32 sample_registry = (Inr ss, r')
     \<and> client_boundary CLIENT_EMBEDDING ''client_embedding'' 0 (hd ss)"
proof -
  let ?kd = "(split_kind (model_id_of (\<lambda>_. []) sample_task) 3)\<lparr>sk_local := False, sk_type := REMOTE_HIDDEN\<rparr>"
  obtain r' where "build_stages ?kd 1 1 [(sample_node ''a'', 3)] sample_registry
      = (Inr (spec_stages ?kd 1 1 [(sample_node ''a'', 3)]), r')"
    using build_stages_total [OF sample_numeric, of "[(sample_node ''a'', 3)]" 1 1 ?kd] sample_registered
    by (auto simp: sample_simps split_kind_def)
  then obtain ss where run: "schedule_split_inference_pipeline (filter_nodes (\<lambda>_. []) None) score_nodes (\<lambda>_. []) sample_task 32 sample_registry
      = (Inr ss, r')"
    using schedule_split_result [OF sample_plan_split, of ?kd "\<lambda>_. []"] by (simp add: split_kind_def)
  from split_pipeline_boundary [OF run sample_registry_inv] run show ?thesis by blast
qed

text \<open>
  A split plan is carried out: once enough capacity has been found, the method returns a chain,
  provided the registry is well formed and the tracked queue depths are numbers. In particular the
  consistency checks at its end never fire.
\<close>

theorem split_pipeline_completes:
  assumes "reg_inv r" "queue_numeric r"
    "plan_split (filter_nodes rep canary) score_nodes rep task default_layers r = Inr (t_layers, al)"
  shows "\<exists>ss r'. schedule_split_inference_pipeline (filter_nodes rep canary) score_nodes rep task default_layers r = (Inr ss, r')
    \<and> check_split_chain t_layers ss = Inr () \<and> length ss = length al + 2"
proof -
  obtain reqs per_layer where q: "split_layers task default_layers = Inr t_layers" "2 \<le> t_layers"
    "pipeline_requirements task (model_id_of rep task) = Inr reqs" "split_vram_per_layer task t_layers = Inr per_layer"
    "al \<noteq> []" "\<forall>(n, a)\<in>set al. 0 < a" "sum_list (map snd al) = t_layers - 1" "distinct (map (node_id \<circ> fst) al)"
    "\<forall>(n, a)\<in>set al. registry_get (node_id n) r = Some n \<and> admissible_node rep canary r reqs n
       \<and> (\<exists>c. capacity_on r per_layer (t_layers - 1) n = Inr c \<and> a \<le> c)"
    by (rule plan_split_spec [OF assms(1,3)])
  note p = q(2) q(5-7) q(9)
  let ?kd = "(split_kind (model_id_of rep task) (int (length al) + 2))\<lparr>sk_local := False, sk_type := REMOTE_HIDDEN\<rparr>"
  have "\<forall>(n, a)\<in>set al. 0 < a \<and> dmem (node_id n) (reg_nodes r)"
    using p(3,5) by (auto simp: registry_get_def dest: dmem_SomeI)
  then obtain r' where "build_stages ?kd 1 1 al r = (Inr (spec_stages ?kd 1 1 al), r')"
    using build_stages_total [OF assms(2), of al 1 1 ?kd] by (simp add: split_kind_def) blast
  then have "schedule_split_inference_pipeline (filter_nodes rep canary) score_nodes rep task default_layers r
      = (Inr (split_chain (model_id_of rep task) t_layers al), r')"
    using schedule_split_result [OF assms(3) p(1-4) refl] by simp
  moreover have "length (split_chain (model_id_of rep task) t_layers al) = length al + 2"
    by (simp add: split_chain_def Let_def)
  ultimately show ?thesis using split_chain_valid(1) [OF p(2,3,4,1), of "model_id_of rep task"] by blast
qed

theorem split_pipeline_completes_witness:
  "\<exists>ss r'. schedule_split_inference_pipeline (filter_nodes (\<lambda>_. []) None) score_nodes (\<lambda>_. []) sample_task 32 sample_registry = (Inr ss, r')
     \<and> length ss = 3"
  using split_pipeline_completes [OF sample_registry_inv sample_numeric sample_plan_split, of "\<lambda>_. []"] by fastforce

text \<open>
  Restitching after an eviction: only a snapshot whose checksum matches is accepted; with a
  replacement node available the chain keeps its length, order, layers and boundary fields, the
  failed node is gone from it, and the stages of other nodes are untouched; without one the method
  raises and nothing is returned.
\<close>

theorem restitch_replaces_failed_node:
  assumes "restitch_pipeline_on_eviction sha256 task_id failed kv ss r = Inr ss'"
  shows "sha256 (cache_bytes kv) = checksum kv
    \<and> (\<exists>n\<in>set (registry_list r). node_id n \<noteq> failed
        \<and> ss' = map (\<lambda>s. if ps_node_id s = failed then s\<lparr>ps_node_id := node_id n\<rparr> else s) ss)
    \<and> failed \<notin> set (map ps_node_id ss') \<and> layers_in ss' = layers_in ss"
proof -
  have c: "sha256 (cache_bytes kv) = checksum kv"
    using assms by (auto simp: restitch_pipeline_on_eviction_def verify_checksum_def rbind_eq_Inr Let_def split: if_splits)
  obtain n ns where n: "filter (\<lambda>n. node_id n \<noteq> failed) (registry_list r) = n # ns"
    "mapM (\<lambda>s. if ps_node_id s = failed then mk_stage (s\<lparr>ps_node_id := node_id n\<rparr>) else Inr s) ss = Inr ss'"
    using assms by (auto simp: restitch_pipeline_on_eviction_def rbind_eq_Inr split: list.splits)
  have nm: "n \<in> set (registry_list r)" "node_id n \<noteq> failed"
    using arg_cong [OF n(1), of set] by auto
  have "mapM (\<lambda>s. if ps_node_id s = failed then mk_stage (s\<lparr>ps_node_id := node_id n\<rparr>) else Inr s) xs = Inr ys \<Longrightarrow>
      ys = map (\<lambda>s. if ps_node_id s = failed then s\<lparr>ps_node_id := node_id n\<rparr> else s) xs" for xs ys
    by (induction xs arbitrary: ys) (auto simp: rbind_eq_Inr mk_stage_def split: if_splits)
  from this [OF n(2)] have ss': "ss' = map (\<lambda>s. if ps_node_id s = failed then s\<lparr>ps_node_id := node_id n\<rparr> else s) ss" .
  moreover have "failed \<notin> set (map ps_node_id ss')" using nm(2) by (auto simp: ss' split: if_splits)
  moreover have "layers_in ss' = layers_in ss" by (auto simp: ss' layers_in_def comp_def intro!: arg_cong [of _ _ concat] map_cong)
  ultimately show ?thesis using c nm by blast
qed

theorem restitch_replaces_failed_node_witness:
  "\<exists>ss. restitch_pipeline_on_eviction id ''t'' ''b''
      \<lparr>kv_task_id = ''t'', kv_sequence_id = 0, kv_node_id = ''b'', kv_start_layer = 0, kv_end_layer = 1,
       cache_bytes = ''x'', checksum = ''x'', kv_timestamp = Fin 0\<rparr>
      [\<lparr>stage_index = 0, total_stages = 1, layers_of = \<lparr>start_layer = 0, end_layer = 1\<rparr>, ps_node_id = ''b'', ps_model_id = ''m'',
        is_local_boundary = False, stage_type_of = COMPUTE, ps_is_split_inference = False\<rparr>] sample_registry = Inr ss
      \<and> ''b'' \<notin> set (map ps_node_id ss)" (is "\<exists>ss. ?run = Inr ss \<and> _ ss")
proof -
  have "\<exists>ss. ?run = Inr ss"
    by (simp add: restitch_pipeline_on_eviction_def verify_checksum_def Let_def sample_simps mk_stage_def)
  then show ?thesis using restitch_replaces_failed_node by blast
qed

end
