(* ===== verification/Rate_Limiter.thy ===== *)
theory Rate_Limiter
  imports Models
begin

text \<open>
  \<^verbatim>\<open>TokenBucketLimiter\<close> (\<^verbatim>\<open>scheduler/core/rate_limiter.py\<close>). \<^verbatim>\<open>acquire\<close> holds the limiter's lock for its
  whole body and reads the clock once, so it is one step at time \<open>now\<close>. Tokens and times are doubles.
  The abstract specification is the same limiter without the idle sweep, whose table only grows;
  the sweep is shown to be unobservable.
\<close>

section \<open>State and operations\<close>

definition DEFAULT_IDLE_EVICTION_SECONDS :: pyfloat where
  "DEFAULT_IDLE_EVICTION_SECONDS = Fin 600"

definition SWEEP_INTERVAL_ACQUISITIONS :: int where
  "SWEEP_INTERVAL_ACQUISITIONS = 256"

record limiter =
  lm_capacity :: int
  lm_refill_rate :: pyfloat
  lm_idle_eviction_seconds :: pyfloat
  lm_buckets :: "(string, pyfloat) dict"
  lm_last_updated :: "(string, pyfloat) dict"
  lm_acquisitions_since_sweep :: int

definition init_limiter :: "int \<Rightarrow> pyfloat \<Rightarrow> pyfloat \<Rightarrow> limiter" where
  "init_limiter capacity refill_rate idle = \<lparr>lm_capacity = capacity, lm_refill_rate = refill_rate,
     lm_idle_eviction_seconds = idle, lm_buckets = [], lm_last_updated = [], lm_acquisitions_since_sweep = 0\<rparr>"

text \<open>The loop body of \<^verbatim>\<open>_evict_idle\<close>; the last comparison is of a float with an int, which is exact.\<close>

definition bucket_stale :: "pyfloat \<Rightarrow> limiter \<Rightarrow> string \<times> pyfloat \<Rightarrow> bool res" where
  "bucket_stale now l = (\<lambda>(tenant, tokens).
     let idle_for = fsub now (dget_or (lm_last_updated l) tenant now)
     in if flt idle_for (lm_idle_eviction_seconds l) then Inr False
        else rbind (float_of_int (lm_capacity l)) (\<lambda>c.
          Inr (fle (Fin (of_int (lm_capacity l)))
                 (fmin c (fadd tokens (fmul idle_for (lm_refill_rate l)))))))"

definition evict_idle :: "pyfloat \<Rightarrow> limiter \<Rightarrow> limiter res" where
  "evict_idle now l =
     rbind (filterM (bucket_stale now l) (lm_buckets l)) (\<lambda>stale.
       Inr (l\<lparr>lm_buckets := fold (\<lambda>(t, _). ddel t) stale (lm_buckets l),
              lm_last_updated := fold (\<lambda>(t, _). ddel t) stale (lm_last_updated l)\<rparr>))"

text \<open>The counter and the sweep it triggers, then the bucket itself.\<close>

definition sweep :: "pyfloat \<Rightarrow> limiter \<Rightarrow> unit res \<times> limiter" where
  "sweep now l =
     (let n = lm_acquisitions_since_sweep l + 1
      in if SWEEP_INTERVAL_ACQUISITIONS \<le> n
         then (let l0 = l\<lparr>lm_acquisitions_since_sweep := 0\<rparr>
               in case evict_idle now l0 of Inl e \<Rightarrow> (Inl e, l0) | Inr l1 \<Rightarrow> (Inr (), l1))
         else (Inr (), l\<lparr>lm_acquisitions_since_sweep := n\<rparr>))"

definition take_token :: "string \<Rightarrow> pyfloat \<Rightarrow> limiter \<Rightarrow> bool res \<times> limiter" where
  "take_token tenant now l =
     (case float_of_int (lm_capacity l) of
        Inl e \<Rightarrow> (Inl e, l)
      | Inr c \<Rightarrow>
          let l1 = (if dmem tenant (lm_buckets l) then l
                    else l\<lparr>lm_buckets := dset tenant c (lm_buckets l),
                           lm_last_updated := dset tenant now (lm_last_updated l)\<rparr>)
          in case (dget (lm_last_updated l1) tenant, dget (lm_buckets l1) tenant) of
               (Some before, Some tokens) \<Rightarrow>
                 let refilled = fmul (fsub now before) (lm_refill_rate l);
                     level = fmin c (fadd tokens refilled);
                     l2 = l1\<lparr>lm_buckets := dset tenant level (lm_buckets l1),
                             lm_last_updated := dset tenant now (lm_last_updated l1)\<rparr>
                 in if fle (Fin 1) level
                    then (Inr True, l2\<lparr>lm_buckets := dset tenant (fsub level (Fin 1)) (lm_buckets l2)\<rparr>)
                    else (Inr False, l2)
             | _ \<Rightarrow> (Inl (KeyError tenant), l1))"

definition acquire :: "string \<Rightarrow> pyfloat \<Rightarrow> limiter \<Rightarrow> bool res \<times> limiter" where
  "acquire tenant now l =
     (case sweep now l of
        (Inl e, l1) \<Rightarrow> (Inl e, l1)
      | (Inr _, l1) \<Rightarrow> take_token tenant now l1)"

section \<open>The invariant\<close>

text \<open>A configuration: a capacity floats represent exactly, a finite non-negative refill rate.\<close>

definition limiter_config :: "limiter \<Rightarrow> bool" where
  "limiter_config l \<longleftrightarrow> 0 \<le> lm_capacity l \<and> lm_capacity l \<le> 2 ^ 53
     \<and> (\<exists>q. lm_refill_rate l = Fin q \<and> 0 \<le> q)"

definition clock_ok :: "pyfloat \<Rightarrow> bool" where
  "clock_ok t = (nonneg t \<and> finite_float t)"

definition bucket_ok :: "pyfloat \<Rightarrow> int \<Rightarrow> pyfloat \<Rightarrow> pyfloat \<Rightarrow> bool" where
  "bucket_ok now cap tokens before =
     (nonneg tokens \<and> fle tokens (Fin (of_int cap)) \<and> dbl tokens \<and> clock_ok before \<and> fle before now)"

definition limiter_inv :: "pyfloat \<Rightarrow> limiter \<Rightarrow> bool" where
  "limiter_inv now l \<longleftrightarrow>
     limiter_config l \<and> dict_ok (lm_buckets l) \<and> dict_ok (lm_last_updated l)
   \<and> (\<forall>t. dmem t (lm_buckets l) = dmem t (lm_last_updated l))
   \<and> (\<forall>t tok la. dget (lm_buckets l) t = Some tok \<longrightarrow> dget (lm_last_updated l) t = Some la \<longrightarrow>
        bucket_ok now (lm_capacity l) tok la)"

lemma limiter_inv_init:
  "0 \<le> c \<Longrightarrow> c \<le> 2 ^ 53 \<Longrightarrow> 0 \<le> q \<Longrightarrow> limiter_inv now (init_limiter c (Fin q) idle)"
  by (simp add: limiter_inv_def limiter_config_def init_limiter_def)

lemma limiter_keys:
  "limiter_inv now l \<Longrightarrow> dget (lm_buckets l) t = None \<longleftrightarrow> dget (lm_last_updated l) t = None"
  unfolding limiter_inv_def dmem_def by blast

lemma bucket_ok_later: "bucket_ok now c tok la \<Longrightarrow> fle now later \<Longrightarrow> bucket_ok later c tok la"
  unfolding bucket_ok_def using fle_trans by blast

lemma limiter_inv_later: "limiter_inv now l \<Longrightarrow> fle now later \<Longrightarrow> limiter_inv later l"
  unfolding limiter_inv_def using bucket_ok_later by blast

lemma capacity_float: "limiter_config l \<Longrightarrow> float_of_int (lm_capacity l) = Inr (Fin (of_int (lm_capacity l)))"
  using rnd_dbl [OF dbl_rat_int [of "lm_capacity l"]] by (simp add: limiter_config_def float_of_int_def)

lemma dbl_capacity: "limiter_config l \<Longrightarrow> dbl (Fin (of_int (lm_capacity l)))"
  by (simp add: limiter_config_def dbl_rat_int)

text \<open>The tokens a bucket has at a time, before the cap.\<close>

definition projected :: "pyfloat \<Rightarrow> pyfloat \<Rightarrow> pyfloat \<Rightarrow> pyfloat \<Rightarrow> pyfloat" where
  "projected rate now tokens before = fadd tokens (fmul (fsub now before) rate)"

lemma clock_cases:
  assumes "clock_ok t"
  obtains x where "t = Fin x" "0 \<le> x" "dbl_rat x"
  using assms by (cases t) (auto simp: clock_ok_def)

lemma elapsed_cases:
  assumes "clock_ok now" "clock_ok before" "fle before now"
  obtains e where "fsub now before = Fin e" "0 \<le> e"
proof -
  obtain x y where x: "now = Fin x" "0 \<le> x" "dbl_rat x" and y: "before = Fin y" "0 \<le> y"
    using assms by (metis clock_cases)
  have "nonneg (rnd (x - y))" "fle (rnd (x - y)) (Fin x)"
    using x y assms(3) by (auto intro: rnd_lower rnd_upper)
  then show ?thesis using x y that by (cases "rnd (x - y)") (auto simp: fsub_def)
qed

lemma elapsed_mono:
  assumes "clock_ok now" "clock_ok later" "clock_ok before" "fle now later"
  shows "fle (fsub now before) (fsub later before)"
  using assms by (auto elim!: clock_cases simp: fsub_def intro!: rnd_mono)

lemma fadd_mono_right:
  "fle b c \<Longrightarrow> nonneg a \<Longrightarrow> nonneg b \<Longrightarrow> fle (fadd a b) (fadd a c)"
  by (cases a; cases b; cases c) (auto intro!: rnd_mono)

lemma refill_nonneg:
  assumes "clock_ok now" "clock_ok before" "fle before now" "0 \<le> q"
  shows "nonneg (fmul (fsub now before) (Fin q))"
proof -
  obtain e where "fsub now before = Fin e" "0 \<le> e" using assms elapsed_cases by blast
  then show ?thesis using assms(4) by (auto intro: rnd_lower)
qed

lemma projected_grows:
  assumes "clock_ok now" "clock_ok later" "clock_ok before" "fle before now" "fle now later"
    "nonneg tokens" "0 \<le> q"
  shows "fle (projected (Fin q) now tokens before) (projected (Fin q) later tokens before)"
proof -
  have bl: "fle before later" using assms(4,5) by (rule fle_trans)
  obtain e where e: "fsub now before = Fin e" "0 \<le> e" using assms elapsed_cases by blast
  obtain e' where e': "fsub later before = Fin e'" "0 \<le> e'" using assms bl elapsed_cases by blast
  have "e \<le> e'" using elapsed_mono [OF assms(1,2,3,5)] e e' by simp
  then have "fle (fmul (Fin e) (Fin q)) (fmul (Fin e') (Fin q))"
    using assms(7) by (auto intro: rnd_mono mult_right_mono)
  then show ?thesis
    unfolding projected_def e e' using assms e(2) by (intro fadd_mono_right) (auto intro: rnd_lower)
qed

lemma projected_nonneg:
  "clock_ok now \<Longrightarrow> clock_ok before \<Longrightarrow> fle before now \<Longrightarrow> nonneg tokens \<Longrightarrow> 0 \<le> q \<Longrightarrow>
   nonneg (projected (Fin q) now tokens before)"
  unfolding projected_def by (rule nonneg_fadd) (auto intro: refill_nonneg)

lemma level_full: "fle (Fin c) p \<Longrightarrow> fmin (Fin c) p = Fin c"
  by (cases p) (auto simp: fmin_def)

lemma fmin_capped: "fle (Fin c) (fmin (Fin c) p) \<Longrightarrow> fmin (Fin c) p = Fin c"
  by (cases p) (auto simp: fmin_def)

lemma projected_fresh: "clock_ok now \<Longrightarrow> dbl tokens \<Longrightarrow> projected (Fin q) now tokens now = tokens"
  by (cases tokens) (auto elim!: clock_cases simp: projected_def fsub_def rnd_dbl)

section \<open>One acquisition\<close>

text \<open>The bucket an acquisition works on, created full when the tenant has none.\<close>

definition bucket_of :: "pyfloat \<Rightarrow> limiter \<Rightarrow> string \<Rightarrow> pyfloat \<times> pyfloat" where
  "bucket_of now l t =
     (case (dget (lm_buckets l) t, dget (lm_last_updated l) t) of
        (Some tok, Some la) \<Rightarrow> (tok, la) | _ \<Rightarrow> (Fin (of_int (lm_capacity l)), now))"

definition level :: "pyfloat \<Rightarrow> limiter \<Rightarrow> string \<Rightarrow> pyfloat" where
  "level now l t =
     fmin (Fin (of_int (lm_capacity l)))
       (projected (lm_refill_rate l) now (fst (bucket_of now l t)) (snd (bucket_of now l t)))"

lemma take_token_eq:
  assumes "limiter_inv now0 l"
  shows "take_token t now l =
     (Inr (fle (Fin 1) (level now l t)),
      l\<lparr>lm_buckets := dset t (if fle (Fin 1) (level now l t) then fsub (level now l t) (Fin 1) else level now l t)
            (lm_buckets l),
        lm_last_updated := dset t now (lm_last_updated l)\<rparr>)"
proof -
  have c: "float_of_int (lm_capacity l) = Inr (Fin (of_int (lm_capacity l)))"
    using assms by (intro capacity_float) (simp add: limiter_inv_def)
  show ?thesis
  proof (cases "dget (lm_buckets l) t")
    case None
    moreover from None have "dget (lm_last_updated l) t = None" by (simp add: limiter_keys [OF assms])
    ultimately show ?thesis using c
      by (simp add: take_token_def level_def bucket_of_def projected_def Let_def dmem_def dict_simps)
  next
    case (Some tok)
    moreover from Some assms obtain la where "dget (lm_last_updated l) t = Some la"
      by (fastforce simp: limiter_inv_def dmem_def)
    ultimately show ?thesis using c
      by (simp add: take_token_def level_def bucket_of_def projected_def Let_def dmem_def)
  qed
qed

lemma bucket_of_ok:
  assumes "limiter_inv now l" "clock_ok later" "fle now later"
  shows "bucket_ok later (lm_capacity l) (fst (bucket_of later l t)) (snd (bucket_of later l t))"
proof (cases "dget (lm_buckets l) t")
  case None
  have "limiter_config l" using assms(1) by (simp add: limiter_inv_def)
  then show ?thesis using None assms(2) dbl_capacity [of l]
    by (auto simp: bucket_of_def bucket_ok_def limiter_config_def clock_ok_def nonneg_not_NaN)
next
  case (Some tok)
  moreover from Some assms obtain la where la: "dget (lm_last_updated l) t = Some la"
    by (fastforce simp: limiter_inv_def dmem_def)
  ultimately have "bucket_ok now (lm_capacity l) tok la" using assms(1) by (simp add: limiter_inv_def)
  then show ?thesis using Some la assms(3) by (auto simp: bucket_of_def bucket_ok_def intro: fle_trans)
qed

lemma level_bounds:
  assumes "limiter_inv now l" "clock_ok later" "fle now later"
  shows "nonneg (level later l t)" "fle (level later l t) (Fin (of_int (lm_capacity l)))" "dbl (level later l t)"
proof -
  obtain q where q: "lm_refill_rate l = Fin q" "0 \<le> q" "0 \<le> lm_capacity l" and cfg: "limiter_config l"
    using assms(1) by (auto simp: limiter_inv_def limiter_config_def)
  let ?p = "projected (Fin q) later (fst (bucket_of later l t)) (snd (bucket_of later l t))"
  have "nonneg ?p"
    using bucket_of_ok [OF assms, of t] assms(2) q by (intro projected_nonneg) (auto simp: bucket_ok_def)
  moreover have "dbl ?p" by (simp add: projected_def)
  ultimately show "nonneg (level later l t)" "fle (level later l t) (Fin (of_int (lm_capacity l)))"
    "dbl (level later l t)"
    using q dbl_capacity [OF cfg] by (auto simp: level_def fmin_upper intro!: nonneg_fmin)
qed

lemma spend_ok:
  assumes "fle (Fin 1) x" "fle x (Fin c)" "dbl x"
  shows "nonneg (fsub x (Fin 1)) \<and> fle (fsub x (Fin 1)) (Fin c) \<and> dbl (fsub x (Fin 1))"
proof -
  obtain r where r: "x = Fin r" "1 \<le> r" "r \<le> c" "dbl_rat r" using assms by (cases x) auto
  have "nonneg (rnd (r - 1))" "fle (rnd (r - 1)) (Fin r)" using r by (auto intro: rnd_lower rnd_upper)
  moreover have "fle (Fin r) (Fin c)" using r by simp
  ultimately show ?thesis using r fle_trans by (fastforce simp: fsub_def)
qed

lemma take_token_inv:
  assumes "limiter_inv now l" "clock_ok later" "fle now later"
  shows "limiter_inv later (snd (take_token t later l))"
proof -
  let ?v = "if fle (Fin 1) (level later l t) then fsub (level later l t) (Fin 1) else level later l t"
  have "bucket_ok later (lm_capacity l) ?v later"
    using level_bounds [OF assms, of t] spend_ok assms(2)
    by (auto simp: bucket_ok_def clock_ok_def nonneg_not_NaN)
  then show ?thesis
    using limiter_inv_later [OF assms(1,3)] unfolding take_token_eq [OF assms(1)]
    by (auto simp: limiter_inv_def limiter_config_def dict_simps)
qed

section \<open>The sweep is unobservable\<close>

text \<open>
  \<open>l\<close> has forgotten some of the buckets of the reference limiter \<open>r\<close>, but only buckets that are
  full at \<open>now\<close>.
\<close>

definition forgets :: "pyfloat \<Rightarrow> limiter \<Rightarrow> limiter \<Rightarrow> bool" where
  "forgets now r l \<longleftrightarrow>
     limiter_inv now r \<and> limiter_inv now l
   \<and> lm_capacity l = lm_capacity r \<and> lm_refill_rate l = lm_refill_rate r
   \<and> (\<forall>t. (dget (lm_buckets l) t = dget (lm_buckets r) t \<and> dget (lm_last_updated l) t = dget (lm_last_updated r) t)
        \<or> (dget (lm_buckets l) t = None \<and> level now r t = Fin (of_int (lm_capacity r))))"

lemma forgets_cases:
  assumes "forgets now r l"
  obtains (same) "dget (lm_buckets l) t = dget (lm_buckets r) t" "dget (lm_last_updated l) t = dget (lm_last_updated r) t"
  | (full) "dget (lm_buckets l) t = None" "level now r t = Fin (of_int (lm_capacity r))"
proof -
  have "(dget (lm_buckets l) t = dget (lm_buckets r) t \<and> dget (lm_last_updated l) t = dget (lm_last_updated r) t)
      \<or> (dget (lm_buckets l) t = None \<and> level now r t = Fin (of_int (lm_capacity r)))"
    using assms by (simp add: forgets_def)
  then show thesis using that by blast
qed

lemma level_other:
  "u \<noteq> t \<Longrightarrow> level now (l\<lparr>lm_buckets := dset t v (lm_buckets l), lm_last_updated := dset t w (lm_last_updated l)\<rparr>) u
     = level now l u"
  by (simp add: level_def bucket_of_def dict_simps split: option.split)

lemma level_missing:
  assumes "limiter_inv now l" "clock_ok later" "dget (lm_buckets l) t = None"
  shows "level later l t = Fin (of_int (lm_capacity l))"
proof -
  obtain q where "lm_refill_rate l = Fin q" and cfg: "limiter_config l"
    using assms(1) by (auto simp: limiter_inv_def limiter_config_def)
  then show ?thesis using assms(2,3) dbl_capacity [OF cfg]
    by (simp add: level_def bucket_of_def projected_fresh fmin_def)
qed

lemma level_stays_full:
  assumes "limiter_inv now l" "clock_ok now" "clock_ok later" "fle now later"
    "level now l t = Fin (of_int (lm_capacity l))"
  shows "level later l t = Fin (of_int (lm_capacity l))"
proof (cases "dget (lm_buckets l) t")
  case None
  then show ?thesis using level_missing assms by blast
next
  case (Some tok)
  obtain q where q: "lm_refill_rate l = Fin q" "0 \<le> q"
    using assms(1) by (auto simp: limiter_inv_def limiter_config_def)
  from Some assms(1) obtain la where la: "dget (lm_last_updated l) t = Some la"
    by (fastforce simp: limiter_inv_def dmem_def)
  have b: "bucket_ok now (lm_capacity l) tok la" using Some la assms(1) by (simp add: limiter_inv_def)
  let ?p = "\<lambda>now. projected (Fin q) now tok la"
  have lv: "level n l t = fmin (Fin (of_int (lm_capacity l))) (?p n)" for n
    using Some la q by (simp add: level_def bucket_of_def)
  have "?p now \<noteq> NaN" using b q assms(2) by (intro nonneg_not_NaN projected_nonneg) (auto simp: bucket_ok_def)
  then have "fle (Fin (of_int (lm_capacity l))) (?p now)" using lv assms(5) by (auto simp: fle_iff fmin_def split: if_splits)
  moreover have "fle (?p now) (?p later)"
    using b q assms by (intro projected_grows) (auto simp: bucket_ok_def)
  ultimately show ?thesis using lv level_full fle_trans by metis
qed

lemma forgets_level:
  assumes "forgets now r l" "clock_ok now" "clock_ok later" "fle now later"
  shows "level later l t = level later r t"
proof -
  have inv: "limiter_inv now r" "limiter_inv now l" "lm_capacity l = lm_capacity r" "lm_refill_rate l = lm_refill_rate r"
    using assms(1) by (auto simp: forgets_def)
  show ?thesis
  proof (rule forgets_cases [OF assms(1), of t], goal_cases same full)
    case same
    then show ?thesis using inv by (simp add: level_def bucket_of_def split: option.split)
  next
    case full
    then show ?thesis using level_missing [OF inv(2) assms(3)] level_stays_full [OF inv(1) assms(2-4)] inv(3) by simp
  qed
qed

lemma forgets_take:
  assumes "forgets now r l" "clock_ok now" "clock_ok later" "fle now later"
  shows "fst (take_token t later l) = fst (take_token t later r)"
    and "forgets later (snd (take_token t later r)) (snd (take_token t later l))"
proof -
  have inv: "limiter_inv now r" "limiter_inv now l" "lm_capacity l = lm_capacity r" "lm_refill_rate l = lm_refill_rate r"
    using assms(1) by (auto simp: forgets_def)
  note lev = forgets_level [OF assms]
  show "fst (take_token t later l) = fst (take_token t later r)"
    by (simp add: take_token_eq [OF inv(1)] take_token_eq [OF inv(2)] lev)
  let ?r = "snd (take_token t later r)" and ?l = "snd (take_token t later l)"
  have "(dget (lm_buckets ?l) u = dget (lm_buckets ?r) u \<and> dget (lm_last_updated ?l) u = dget (lm_last_updated ?r) u)
      \<or> (dget (lm_buckets ?l) u = None \<and> level later ?r u = Fin (of_int (lm_capacity ?r)))" for u
  proof (cases "u = t")
    case True
    then show ?thesis
      by (simp add: take_token_eq [OF inv(1)] take_token_eq [OF inv(2)] lev dict_simps)
  next
    case False
    have "level later ?r u = level later r u"
      using False by (simp add: take_token_eq [OF inv(1)] level_other)
    then show ?thesis
      using False level_stays_full [OF inv(1) assms(2-4), of u]
      by (cases rule: forgets_cases [OF assms(1), of u])
        (simp_all add: take_token_eq [OF inv(1)] take_token_eq [OF inv(2)] dict_simps)
  qed
  then show "forgets later ?r ?l"
    using take_token_inv [OF inv(1) assms(3,4)] take_token_inv [OF inv(2) assms(3,4)] inv
    by (simp add: forgets_def take_token_eq [OF inv(1)] take_token_eq [OF inv(2)])
qed

lemma dget_fold_ddel:
  "dget (fold (\<lambda>(t, _). ddel t) xs d) k = (if k \<in> fst ` set xs then None else dget d k)"
  by (induction xs arbitrary: d) (auto simp: dict_simps)

lemma dict_ok_fold_ddel: "dict_ok d \<Longrightarrow> dict_ok (fold (\<lambda>(t, _). ddel t) xs d)"
  by (induction xs arbitrary: d) auto

lemma bucket_stale_eq:
  assumes "limiter_inv now l" "dget (lm_buckets l) t = Some tok"
  shows "\<exists>b. bucket_stale now l (t, tok) = Inr b \<and> (b \<longrightarrow> level now l t = Fin (of_int (lm_capacity l)))"
proof -
  have c: "float_of_int (lm_capacity l) = Inr (Fin (of_int (lm_capacity l)))"
    using assms by (intro capacity_float) (simp add: limiter_inv_def)
  from assms obtain la where la: "dget (lm_last_updated l) t = Some la"
    by (fastforce simp: limiter_inv_def dmem_def)
  show ?thesis using assms(2) la c
    by (auto simp: bucket_stale_def Let_def dget_or_def level_def bucket_of_def projected_def fmin_capped)
qed

lemma evict_idle_forgets:
  assumes "forgets now r l" "clock_ok now"
  obtains l' where "evict_idle now l = Inr l'" "forgets now r l'"
proof -
  have inv: "limiter_inv now r" "limiter_inv now l" "lm_capacity l = lm_capacity r" "lm_refill_rate l = lm_refill_rate r"
    using assms(1) by (auto simp: forgets_def)
  have nn: "fle now now" using assms(2) by (auto simp: clock_ok_def nonneg_not_NaN)
  have mem: "dget (lm_buckets l) t = Some tok" if "(t, tok) \<in> set (lm_buckets l)" for t tok
    using that inv(2) by (simp add: limiter_inv_def map_of_eq_Some_iff)
  define q where "q = (\<lambda>p. bucket_stale now l p = Inr True)"
  have "bucket_stale now l p = Inr (q p)" if "p \<in> set (lm_buckets l)" for p
    using that bucket_stale_eq [OF inv(2) mem, of "fst p" "snd p"] by (auto simp: q_def)
  then have stale: "filterM (bucket_stale now l) (lm_buckets l) = Inr (filter q (lm_buckets l))"
    by (rule filterM_total)
  let ?dels = "\<lambda>d. fold (\<lambda>(t, _). ddel t) (filter q (lm_buckets l)) d"
  let ?l = "l\<lparr>lm_buckets := ?dels (lm_buckets l), lm_last_updated := ?dels (lm_last_updated l)\<rparr>"
  let ?gone = "fst ` set (filter q (lm_buckets l))"
  have full: "level now r t = Fin (of_int (lm_capacity r))" if gone: "t \<in> ?gone" for t
  proof -
    from gone obtain tok where tok: "(t, tok) \<in> set (lm_buckets l)" "q (t, tok)" by auto
    then have "level now l t = Fin (of_int (lm_capacity l))"
      using bucket_stale_eq [OF inv(2) mem [OF tok(1)]] by (auto simp: q_def)
    then show ?thesis using forgets_level [OF assms(1,2,2) nn] inv(3) by simp
  qed
  have b: "dget (lm_buckets ?l) t = (if t \<in> ?gone then None else dget (lm_buckets l) t)"
    and la: "dget (lm_last_updated ?l) t = (if t \<in> ?gone then None else dget (lm_last_updated l) t)" for t
    by (simp_all add: dget_fold_ddel)
  have "limiter_inv now ?l"
    using inv(2) unfolding limiter_inv_def dmem_def b la
    by (simp add: limiter_config_def dict_ok_fold_ddel)
  moreover have "(dget (lm_buckets ?l) t = dget (lm_buckets r) t \<and> dget (lm_last_updated ?l) t = dget (lm_last_updated r) t)
      \<or> (dget (lm_buckets ?l) t = None \<and> level now r t = Fin (of_int (lm_capacity r)))" for t
    using assms(1) full [of t] unfolding forgets_def b la by auto
  ultimately have "forgets now r ?l" using inv by (simp add: forgets_def)
  then show ?thesis using that stale by (simp add: evict_idle_def)
qed

section \<open>Sequences of requests\<close>

fun serve_all :: "(string \<Rightarrow> pyfloat \<Rightarrow> limiter \<Rightarrow> bool res \<times> limiter) \<Rightarrow> (string \<times> pyfloat) list
    \<Rightarrow> limiter \<Rightarrow> bool res list" where
  "serve_all step [] l = []"
| "serve_all step ((t, now) # reqs) l = (case step t now l of (b, l') \<Rightarrow> b # serve_all step reqs l')"

text \<open>A clock that never runs backwards, from \<open>now\<close> on.\<close>

fun clock_from :: "pyfloat \<Rightarrow> (string \<times> pyfloat) list \<Rightarrow> bool" where
  "clock_from now [] = True"
| "clock_from now ((t, later) # reqs) = (clock_ok later \<and> fle now later \<and> clock_from later reqs)"

lemma forgets_counter: "forgets now r (l\<lparr>lm_acquisitions_since_sweep := n\<rparr>) = forgets now r l"
proof -
  have "limiter_inv now (l\<lparr>lm_acquisitions_since_sweep := n\<rparr>) = limiter_inv now l"
    by (simp add: limiter_inv_def limiter_config_def)
  then show ?thesis by (simp add: forgets_def)
qed

lemma forgets_later:
  assumes "forgets now r l" "clock_ok now" "clock_ok later" "fle now later"
  shows "forgets later r l"
proof -
  have "limiter_inv now r" "limiter_inv now l" using assms(1) by (auto simp: forgets_def)
  then show ?thesis
    using assms limiter_inv_later level_stays_full [of now r later] unfolding forgets_def by meson
qed

lemma forgets_sweep:
  assumes "forgets now r l" "clock_ok now"
  obtains l' where "sweep now l = (Inr (), l')" "forgets now r l'"
proof (cases "SWEEP_INTERVAL_ACQUISITIONS \<le> lm_acquisitions_since_sweep l + 1")
  case True
  obtain l' where "evict_idle now (l\<lparr>lm_acquisitions_since_sweep := 0\<rparr>) = Inr l'" "forgets now r l'"
    using evict_idle_forgets [of now r "l\<lparr>lm_acquisitions_since_sweep := 0\<rparr>"] assms
    by (auto simp: forgets_counter)
  then show ?thesis using True that by (simp add: sweep_def)
next
  case False
  then show ?thesis
    using that [of "l\<lparr>lm_acquisitions_since_sweep := lm_acquisitions_since_sweep l + 1\<rparr>"] assms(1)
    by (simp add: sweep_def forgets_counter)
qed

lemma forgets_acquire:
  assumes "forgets now r l" "clock_ok now" "clock_ok later" "fle now later"
  shows "fst (acquire t later l) = fst (take_token t later r)"
    and "forgets later (snd (take_token t later r)) (snd (acquire t later l))"
proof -
  have ll: "fle later later" using assms(3) by (auto simp: clock_ok_def nonneg_not_NaN)
  obtain l' where l': "sweep later l = (Inr (), l')" "forgets later r l'"
    using forgets_sweep [OF forgets_later [OF assms] assms(3)] by blast
  show "fst (acquire t later l) = fst (take_token t later r)"
    and "forgets later (snd (take_token t later r)) (snd (acquire t later l))"
    using l' forgets_take [OF l'(2) assms(3,3) ll, of t] by (simp_all add: acquire_def)
qed

lemma serve_forgets:
  "forgets now r l \<Longrightarrow> clock_ok now \<Longrightarrow> clock_from now reqs \<Longrightarrow> serve_all acquire reqs l = serve_all take_token reqs r"
proof (induction reqs arbitrary: now r l)
  case (Cons req reqs)
  obtain t later where req: "req = (t, later)" by force
  note step = forgets_acquire [OF Cons.prems(1,2), of later t]
  have "serve_all acquire reqs (snd (acquire t later l)) = serve_all take_token reqs (snd (take_token t later r))"
    using Cons.prems req step by (intro Cons.IH [of later]) auto
  then show ?case using Cons.prems req step by (simp add: split_def)
qed simp

lemma forgets_refl: "limiter_inv now l \<Longrightarrow> forgets now l l"
  by (simp add: forgets_def)

text \<open>Requests that share one clock reading spend from a level that only goes down.\<close>

fun grants :: "string \<Rightarrow> (string \<times> pyfloat) list \<Rightarrow> bool res list \<Rightarrow> nat" where
  "grants t ((u, _) # reqs) (b # bs) = (if u = t \<and> b = Inr True then 1 else 0) + grants t reqs bs"
| "grants t _ _ = 0"

lemma level_same_time:
  assumes "limiter_inv now l" "clock_ok now" "l' = snd (take_token u now l)"
  shows "level now l' t = (if u \<noteq> t then level now l t
     else if fle (Fin 1) (level now l t) then fsub (level now l t) (Fin 1) else level now l t)"
proof (cases "u = t")
  case True
  let ?x = "level now l t"
  let ?v = "if fle (Fin 1) ?x then fsub ?x (Fin 1) else ?x"
  have nn: "fle now now" using assms(2) by (auto simp: clock_ok_def nonneg_not_NaN)
  obtain q where q: "lm_refill_rate l = Fin q" using assms(1) by (auto simp: limiter_inv_def limiter_config_def)
  have v: "dbl ?v" "fle ?v (Fin (of_int (lm_capacity l)))"
    using level_bounds [OF assms(1,2) nn, of t] spend_ok by auto
  have "level now l' t = fmin (Fin (of_int (lm_capacity l))) (projected (Fin q) now ?v now)"
    using True assms(3) q by (simp add: take_token_eq [OF assms(1)] level_def [of now "_\<lparr>lm_last_updated := _\<rparr>"]
        bucket_of_def dict_simps)
  also have "\<dots> = ?v" using projected_fresh [OF assms(2) v(1)] v(2) fle_antisym by (auto simp: fmin_def fle_iff)
  finally show ?thesis using True by simp
next
  case False
  then show ?thesis using assms by (simp add: take_token_eq [OF assms(1)] level_other)
qed

lemma fsub_one_upper:
  assumes "fle (Fin 1) x" "fle x (Fin (of_nat n))" "int n \<le> 2 ^ 53"
  shows "\<exists>m. n = Suc m \<and> fle (fsub x (Fin 1)) (Fin (of_nat m))"
proof -
  obtain r where r: "x = Fin r" "1 \<le> r" "r \<le> of_nat n" using assms by (cases x) auto
  then have "(1 :: rat) \<le> of_nat n" by linarith
  then obtain m where m: "n = Suc m" by (cases n) auto
  have "dbl_rat (of_int (int m))" using assms(3) m by (intro dbl_rat_int) simp
  then have "fle (rnd (r - 1)) (Fin (of_nat m))" using r m by (intro rnd_upper) auto
  then show ?thesis using r m by (simp add: fsub_def)
qed

lemma grants_one_instant:
  "limiter_inv now l \<Longrightarrow> clock_ok now \<Longrightarrow> fle (level now l t) (Fin (of_nat n)) \<Longrightarrow> int n \<le> 2 ^ 53 \<Longrightarrow>
   \<forall>req\<in>set reqs. snd req = now \<Longrightarrow> grants t reqs (serve_all take_token reqs l) \<le> n"
proof (induction reqs arbitrary: l n)
  case (Cons req reqs)
  obtain u where req: "req = (u, now)" using Cons.prems(5) by (cases req) auto
  let ?l = "snd (take_token u now l)" and ?x = "level now l t"
  have nn: "fle now now" using Cons.prems(2) by (auto simp: clock_ok_def nonneg_not_NaN)
  have inv: "limiter_inv now ?l" using Cons.prems(1,2) nn by (rule take_token_inv)
  note lev = level_same_time [OF Cons.prems(1,2) refl, of u t]
  have b: "fst (take_token u now l) = Inr (fle (Fin 1) (level now l u))"
    by (simp add: take_token_eq [OF Cons.prems(1)])
  show ?case
  proof (cases "u = t \<and> fle (Fin 1) ?x")
    case True
    then obtain m where m: "n = Suc m" "fle (fsub ?x (Fin 1)) (Fin (of_nat m))"
      using fsub_one_upper Cons.prems(3,4) by blast
    have "grants t reqs (serve_all take_token reqs ?l) \<le> m"
      using True lev m Cons.prems by (intro Cons.IH inv) auto
    then show ?thesis using True req b m by (simp add: split_def)
  next
    case False
    have "grants t reqs (serve_all take_token reqs ?l) \<le> n"
      using False lev Cons.prems by (intro Cons.IH inv) auto
    then show ?thesis using False req b by (auto simp: split_def)
  qed
qed simp

section \<open>Properties\<close>

text \<open>
  C15. Eviction never hands out free capacity: for every sequence of requests under a clock that
  does not run backwards, the limiter with its periodic sweep gives exactly the answers of a
  limiter that never forgets a bucket. Tokens are floating-point numbers on both sides.
\<close>

theorem sweep_unobservable:
  assumes "0 \<le> capacity" "capacity \<le> 2 ^ 53" "0 \<le> rate" "clock_from (Fin 0) reqs"
  shows "serve_all acquire reqs (init_limiter capacity (Fin rate) idle)
     = serve_all take_token reqs (init_limiter capacity (Fin rate) idle)"
  using assms limiter_inv_init [of capacity rate "Fin 0" idle]
  by (intro serve_forgets [of "Fin 0"] forgets_refl) (auto simp: clock_ok_def)

theorem sweep_unobservable_witness:
  "serve_all acquire [(''a'', Fin 1), (''b'', Fin 2), (''a'', Fin 700)] (init_limiter 5 (Fin (1 / 2)) DEFAULT_IDLE_EVICTION_SECONDS)
     = serve_all take_token [(''a'', Fin 1), (''b'', Fin 2), (''a'', Fin 700)] (init_limiter 5 (Fin (1 / 2)) DEFAULT_IDLE_EVICTION_SECONDS)"
  by (rule sweep_unobservable) (simp_all add: clock_ok_def dbl_rat_numeral)

text \<open>
  The burst bound: of any number of requests that arrive at one clock reading, from any mix of
  tenants and with the limiter in any state it can be in, at most \<open>capacity\<close> of one tenant are
  admitted, sweeps included.
\<close>

theorem burst_bound:
  assumes "limiter_inv now l" "clock_ok now" "\<forall>req\<in>set reqs. snd req = now"
  shows "int (grants t reqs (serve_all acquire reqs l)) \<le> lm_capacity l"
proof -
  have nn: "fle now now" using assms(2) by (auto simp: clock_ok_def nonneg_not_NaN)
  have "clock_from now reqs" using assms(3)
  proof (induction reqs)
    case (Cons req reqs)
    then show ?case using nn assms(2) by (cases req) auto
  qed simp
  then have eq: "serve_all acquire reqs l = serve_all take_token reqs l"
    using assms serve_forgets forgets_refl by blast
  have cap: "0 \<le> lm_capacity l" "lm_capacity l \<le> 2 ^ 53"
    using assms(1) by (auto simp: limiter_inv_def limiter_config_def)
  have "fle (level now l t) (Fin (of_nat (nat (lm_capacity l))))"
    using level_bounds(2) [OF assms(1,2) nn, of t] cap by simp
  then have "grants t reqs (serve_all take_token reqs l) \<le> nat (lm_capacity l)"
    using grants_one_instant [OF assms(1,2) _ _ assms(3)] cap by simp
  then show ?thesis using eq cap by simp
qed

theorem burst_bound_witness:
  "int (grants ''a'' [(''a'', Fin 3), (''b'', Fin 3), (''a'', Fin 3)]
      (serve_all acquire [(''a'', Fin 3), (''b'', Fin 3), (''a'', Fin 3)] (init_limiter 1 (Fin (1 / 2)) (Fin 600)))) \<le> 1"
  using burst_bound [OF limiter_inv_init [of 1 "1 / 2" "Fin 3" "Fin 600"], of "[(''a'', Fin 3), (''b'', Fin 3), (''a'', Fin 3)]" "''a''"]
  by (simp add: clock_ok_def dbl_rat_numeral init_limiter_def)

end
