(* ===== verification/Metering.thy ===== *)
theory Metering
  imports Persistence
begin

text \<open>
  \<^verbatim>\<open>UsageMeter\<close> (\<^verbatim>\<open>scheduler/core/metering.py\<close>): a bounded in-memory tail of the usage records over
  an append-only table. \<open>usage_record\<close> and its constraints are in \<open>Models\<close>.
\<close>

section \<open>State and operations\<close>

definition MAX_RECENT :: int where
  "MAX_RECENT = 500"

record usage_meter =
  mtr_recent :: "usage_record list"
  mtr_store :: "sqlite_store option"

definition init_meter :: "sqlite_store option \<Rightarrow> usage_meter" where
  "init_meter st = \<lparr>mtr_recent = [], mtr_store = st\<rparr>"

definition load_meter :: "usage_meter \<Rightarrow> usage_meter" where
  "load_meter m =
     (case mtr_store m of
        None \<Rightarrow> m
      | Some s \<Rightarrow> m\<lparr>mtr_recent := slice_from_neg MAX_RECENT (load_usage MAX_RECENT s)\<rparr>)"

text \<open>\<^verbatim>\<open>del xs[:-n]\<close> on a list longer than \<open>n\<close> deletes everything before its last \<open>n\<close> elements.\<close>

definition record_usage :: "usage_record \<Rightarrow> usage_meter \<Rightarrow> usage_record \<times> usage_meter" where
  "record_usage u m =
     (let grown = mtr_recent m @ [u];
          kept = (if MAX_RECENT < int (length grown) then drop (length grown - nat MAX_RECENT) grown else grown)
      in (u, m\<lparr>mtr_recent := kept, mtr_store := map_option (save_usage u) (mtr_store m)\<rparr>))"

definition recent :: "string option \<Rightarrow> int \<Rightarrow> usage_meter \<Rightarrow> usage_record list" where
  "recent k n m =
     (let records = (case k of None \<Rightarrow> mtr_recent m | Some i \<Rightarrow> filter (\<lambda>r. us_node_id r = i) (mtr_recent m))
      in rev (slice_from_neg n records))"

definition totals_for_node :: "string \<Rightarrow> usage_meter \<Rightarrow> (string, pyfloat) dict res" where
  "totals_for_node k m =
     (let mine = filter (\<lambda>r. us_node_id r = k) (mtr_recent m)
      in rbind (float_of_int (int (length mine))) (\<lambda>requests.
         rbind (float_of_int (sum_list (map prompt_tokens mine))) (\<lambda>prompts.
         rbind (float_of_int (sum_list (map completion_tokens mine))) (\<lambda>completions.
         rbind (float_of_int (sum_list (map (\<lambda>_. 1) (filter (\<lambda>r. \<not> succeeded r) mine)))) (\<lambda>failed.
         Inr [(''requests'', requests), (''prompt_tokens'', prompts),
              (''completion_tokens'', completions), (''failed_requests'', failed)])))))"

section \<open>The tail\<close>

definition meter_run :: "usage_record list \<Rightarrow> usage_meter \<Rightarrow> usage_meter" where
  "meter_run us m = fold (\<lambda>u m. snd (record_usage u m)) us m"

lemma record_usage_recent:
  "mtr_recent (snd (record_usage u m)) = slice_from_neg MAX_RECENT (mtr_recent m @ [u])"
  by (simp add: record_usage_def Let_def slice_from_neg_def MAX_RECENT_def)

lemma record_usage_store:
  "mtr_store (snd (record_usage u m)) = map_option (save_usage u) (mtr_store m)"
  by (simp add: record_usage_def Let_def)

lemma meter_run_snoc: "meter_run (us @ [u]) m = snd (record_usage u (meter_run us m))"
  by (simp add: meter_run_def)

text \<open>Whatever has been recorded, memory holds exactly its last \<open>MAX_RECENT\<close> entries.\<close>

lemma meter_run_recent: "mtr_recent (meter_run us (init_meter st)) = slice_from_neg MAX_RECENT us"
proof (induction us rule: rev_induct)
  case Nil
  show ?case by (simp add: meter_run_def init_meter_def slice_from_neg_def)
next
  case (snoc u us)
  then show ?case
    using slice_from_neg_snoc [of MAX_RECENT us u]
    by (simp add: meter_run_snoc record_usage_recent MAX_RECENT_def)
qed

lemma meter_run_store:
  "mtr_store (meter_run us (init_meter (Some empty_store))) =
     Some (empty_store\<lparr>tbl_usage_records := map row_of_usage us\<rparr>)"
proof (induction us rule: rev_induct)
  case Nil
  show ?case by (simp add: meter_run_def init_meter_def empty_store_def)
next
  case (snoc u us)
  then show ?case by (simp add: meter_run_snoc record_usage_store save_usage_def)
qed

lemma float_of_int_small: "0 \<le> n \<Longrightarrow> n \<le> 2 ^ 53 \<Longrightarrow> float_of_int n = Inr (Fin (of_int n))"
  using rnd_dbl [OF dbl_rat_int [of n]] by (simp add: float_of_int_def)

section \<open>Properties\<close>

definition sample_usage :: usage_record where
  "sample_usage = \<lparr>request_id = ''r'', tenant_id = ''t'', us_node_id = ''n'', us_model = ''m'',
    prompt_tokens = 3, completion_tokens = 4, duration_seconds = Fin 1, succeeded = True, recorded_at = Fin 9\<rparr>"

text \<open>
  The in-memory tail is bounded and survives a restart: after any sequence of recorded
  requests it is the last 500 of them, in order; the table keeps all of them; and a meter loaded
  from the file has the same tail.
\<close>

theorem usage_tail:
  assumes "\<forall>u\<in>set us. usage_valid u" "m = meter_run us (init_meter (Some empty_store))"
  shows "mtr_recent m = slice_from_neg 500 us \<and> length (mtr_recent m) \<le> 500
      \<and> mtr_recent (load_meter (init_meter (mtr_store m))) = mtr_recent m
      \<and> (\<exists>s. mtr_store m = Some s \<and> map usage_of_row (tbl_usage_records s) = us)"
proof -
  have r: "mtr_recent m = slice_from_neg 500 us"
    using meter_run_recent [of us] assms(2) by (simp add: MAX_RECENT_def)
  have s: "mtr_store m = Some (empty_store\<lparr>tbl_usage_records := map row_of_usage us\<rparr>)"
    using meter_run_store assms(2) by simp
  have "load_usage 500 (empty_store\<lparr>tbl_usage_records := map row_of_usage us\<rparr>) = slice_from_neg 500 us"
    using assms(1) by (intro load_usage_tail) simp_all
  then show ?thesis using r s
    by (simp add: load_meter_def init_meter_def MAX_RECENT_def slice_from_neg_idem length_slice_from_neg comp_def)
qed

theorem usage_tail_witness:
  "mtr_recent (load_meter (init_meter (mtr_store (meter_run [sample_usage, sample_usage] (init_meter (Some empty_store))))))
     = [sample_usage, sample_usage]"
  using usage_tail [OF _ refl, of "[sample_usage, sample_usage]"]
  by (simp add: sample_usage_def usage_valid_def slice_from_neg_def)

text \<open>
  What the dashboard reads: the newest-first view of a node holds only that node's records and
  at most the number asked for (for a positive limit), and the totals are the sums over the tail,
  computed without a floating-point error as long as they stay within 2^53.
\<close>

theorem usage_views:
  assumes "0 < n" "mine = filter (\<lambda>r. us_node_id r = k) (mtr_recent m)" "\<forall>u\<in>set (mtr_recent m). usage_valid u"
    "sum_list (map prompt_tokens mine) \<le> 2 ^ 53" "sum_list (map completion_tokens mine) \<le> 2 ^ 53"
    "int (length mine) \<le> 2 ^ 53"
  shows "set (recent (Some k) n m) \<subseteq> set mine \<and> length (recent (Some k) n m) = min (nat n) (length mine)
      \<and> totals_for_node k m = Inr [(''requests'', Fin (of_nat (length mine))),
           (''prompt_tokens'', Fin (of_int (sum_list (map prompt_tokens mine)))),
           (''completion_tokens'', Fin (of_int (sum_list (map completion_tokens mine)))),
           (''failed_requests'', Fin (of_nat (length (filter (\<lambda>r. \<not> succeeded r) mine))))]"
proof -
  have pos: "0 \<le> sum_list (map prompt_tokens mine)" "0 \<le> sum_list (map completion_tokens mine)"
    using assms(2,3) by (auto intro!: sum_list_nonneg simp: usage_valid_def)
  have "length (filter (\<lambda>r. \<not> succeeded r) mine) \<le> length mine" by (rule length_filter_le)
  then have "int (length (filter (\<lambda>r. \<not> succeeded r) mine)) \<le> 2 ^ 53" using assms(6) by linarith
  then show ?thesis
    using assms pos set_slice_from_neg [of n mine]
    by (auto simp: recent_def length_slice_from_neg totals_for_node_def Let_def float_of_int_small
        sum_list_triv sum_list_replicate map_replicate_const)
qed

theorem usage_views_witness:
  "recent (Some ''n'') 5 (meter_run [sample_usage] (init_meter None)) = [sample_usage]
   \<and> totals_for_node ''n'' (meter_run [sample_usage] (init_meter None))
     = Inr [(''requests'', Fin 1), (''prompt_tokens'', Fin 3), (''completion_tokens'', Fin 4), (''failed_requests'', Fin 0)]"
proof -
  have "mtr_recent (meter_run [sample_usage] (init_meter None)) = [sample_usage]"
    by (simp add: meter_run_recent MAX_RECENT_def slice_from_neg_def)
  then show ?thesis
    using usage_views [of 5 "[sample_usage]" "''n''" "meter_run [sample_usage] (init_meter None)"]
    by (simp add: sample_usage_def usage_valid_def recent_def slice_from_neg_def)
qed

end
