(* ===== verification/Credit_Ledger.thy ===== *)
theory Credit_Ledger
  imports Persistence
begin

text \<open>
  \<^verbatim>\<open>CreditLedger\<close> (\<^verbatim>\<open>scheduler/core/credit_ledger.py\<close>): accounts keyed by tenant or node, floating
  point balances, and the credit table of the store. The clock reading of a call is its argument
  \<open>now\<close>. A call returns the account or the exception of the store write, and the ledger it leaves
  behind: the account in memory is changed before the write is attempted.
\<close>

section \<open>State and operations\<close>

record ledger =
  led_accounts :: "(string, credit_account) dict"
  led_store :: "sqlite_store option"

definition init_ledger :: "sqlite_store option \<Rightarrow> ledger" where
  "init_ledger st = \<lparr>led_accounts = [], led_store = st\<rparr>"

definition CREDITS_PER_GB_VRAM_HOUR :: pyfloat where
  "CREDITS_PER_GB_VRAM_HOUR = Fin 100"

definition CREDITS_PER_GB_RAM_HOUR :: pyfloat where
  "CREDITS_PER_GB_RAM_HOUR = Fin 10"

definition load_ledger :: "ledger \<Rightarrow> unit res \<times> ledger" where
  "load_ledger l =
     (case led_store l of
        None \<Rightarrow> (Inr (), l)
      | Some s \<Rightarrow>
          (case load_accounts s of
             Inl e \<Rightarrow> (Inl e, l)
           | Inr accounts \<Rightarrow>
               (Inr (), l\<lparr>led_accounts := fold (\<lambda>a. dset (account_id a) a) accounts (led_accounts l)\<rparr>)))"

definition balances :: "ledger \<Rightarrow> (string, pyfloat) dict" where
  "balances l = map (\<lambda>(k, a). (k, net_balance a)) (led_accounts l)"

definition new_account :: "string \<Rightarrow> pyfloat \<Rightarrow> credit_account" where
  "new_account k now = \<lparr>account_id = k, earned_credits = Fin 0, consumed_credits = Fin 0, updated_at = now\<rparr>"

definition get_or_create_account :: "string \<Rightarrow> pyfloat \<Rightarrow> ledger \<Rightarrow> credit_account \<times> ledger" where
  "get_or_create_account k now l =
     (case dget (led_accounts l) k of
        Some a \<Rightarrow> (a, l)
      | None \<Rightarrow> (new_account k now, l\<lparr>led_accounts := dset k (new_account k now) (led_accounts l)\<rparr>))"

text \<open>The tail both charging methods share: the mutated account is in memory, then it is saved.\<close>

definition put_account :: "string \<Rightarrow> credit_account \<Rightarrow> ledger \<Rightarrow> credit_account res \<times> ledger" where
  "put_account k a l =
     (let l' = l\<lparr>led_accounts := dset k a (led_accounts l)\<rparr>
      in case led_store l of
           None \<Rightarrow> (Inr a, l')
         | Some s \<Rightarrow>
             (case save_account a s of
                (Inl e, s') \<Rightarrow> (Inl e, l'\<lparr>led_store := Some s'\<rparr>)
              | (Inr _, s') \<Rightarrow> (Inr a, l'\<lparr>led_store := Some s'\<rparr>)))"

definition host_earnings :: "pyfloat \<Rightarrow> pyfloat \<Rightarrow> pyfloat \<Rightarrow> pyfloat res" where
  "host_earnings vram_gb duration ram_gb =
     (let vram = fmax (Fin 0) vram_gb;
          ram = fmax (Fin 0) ram_gb;
          hosted = fmax (Fin 0) duration
      in rbind (fdiv hosted (Fin 3600)) (\<lambda>hours.
           Inr (if flt (Fin 0) vram then fmul (fmul vram hours) CREDITS_PER_GB_VRAM_HOUR
                else fmul (fmul ram hours) CREDITS_PER_GB_RAM_HOUR)))"

definition record_host_contribution ::
    "string \<Rightarrow> pyfloat \<Rightarrow> pyfloat \<Rightarrow> pyfloat \<Rightarrow> pyfloat \<Rightarrow> ledger \<Rightarrow> credit_account res \<times> ledger" where
  "record_host_contribution k vram_gb duration ram_gb now l =
     (case host_earnings vram_gb duration ram_gb of
        Inl e \<Rightarrow> (Inl e, l)
      | Inr earned \<Rightarrow>
          (case get_or_create_account k now l of
             (a, l') \<Rightarrow>
               put_account k (a\<lparr>earned_credits := fadd (earned_credits a) earned, updated_at := now\<rparr>) l'))"

definition deduct_usage :: "string \<Rightarrow> pyfloat \<Rightarrow> pyfloat \<Rightarrow> ledger \<Rightarrow> credit_account res \<times> ledger" where
  "deduct_usage k amount now l =
     (case get_or_create_account k now l of
        (a, l') \<Rightarrow>
          put_account k
            (a\<lparr>consumed_credits := fadd (consumed_credits a) (fmax (Fin 0) amount), updated_at := now\<rparr>) l')"

section \<open>Earnings\<close>

lemma nonneg_cases: "nonneg a \<Longrightarrow> (\<exists>x. a = Fin x \<and> 0 \<le> x) \<or> a = PInf"
  by (cases a) auto

lemma fmax_zero_finite: "a \<noteq> PInf \<Longrightarrow> \<exists>x. fmax (Fin 0) a = Fin x \<and> 0 \<le> x"
  by (cases a) (auto simp: fmax_def)

lemma rnd_nonneg: "0 \<le> x \<Longrightarrow> nonneg (rnd x)"
  by (rule rnd_lower) simp_all

lemma fmul_mono_left: "fle a b \<Longrightarrow> nonneg a \<Longrightarrow> 0 < y \<Longrightarrow> fle (fmul a (Fin y)) (fmul b (Fin y))"
  by (cases a; cases b) (auto intro: rnd_mono simp: inf_of_sign_def)

lemma fmul_mono_right:
  "fle b c \<Longrightarrow> nonneg b \<Longrightarrow> 0 \<le> x \<Longrightarrow> c \<noteq> PInf \<Longrightarrow> fle (fmul (Fin x) b) (fmul (Fin x) c)"
  by (cases b; cases c) (auto simp: not_less intro!: rnd_mono mult_left_mono)

text \<open>The hours of a run: the quotient never fails, and a finite duration has finite hours.\<close>

lemma hours_finite:
  assumes "0 \<le> d" "dbl_rat d"
  shows "\<exists>h. rnd (d / 3600) = Fin h \<and> 0 \<le> h"
proof -
  have "fle (rnd (d / 3600)) (Fin d)" using assms by (intro rnd_upper) auto
  moreover have "nonneg (rnd (d / 3600))" using assms by (intro rnd_nonneg) simp
  ultimately show ?thesis by (cases "rnd (d / 3600)") auto
qed

lemma fmax_zero_dbl: "dbl a \<Longrightarrow> dbl (fmax (Fin 0) a)"
  by (rule dbl_fmax) simp_all

lemma earnings_ok:
  assumes "vram \<noteq> PInf" "ram \<noteq> PInf" "d \<noteq> PInf" "dbl d"
  obtains e where "host_earnings vram d ram = Inr e" "nonneg e" "dbl e"
proof -
  obtain v r t where v: "fmax (Fin 0) vram = Fin v" "0 \<le> v" and r: "fmax (Fin 0) ram = Fin r" "0 \<le> r"
    and t: "fmax (Fin 0) d = Fin t" "0 \<le> t"
    using assms fmax_zero_finite by metis
  have "dbl_rat t" using fmax_zero_dbl [OF assms(4)] t by simp
  then obtain h where h: "rnd (t / 3600) = Fin h" "0 \<le> h" using hours_finite t by blast
  have "nonneg (rnd (v * h))" "nonneg (rnd (r * h))" using v r h by (auto intro: rnd_nonneg)
  then show ?thesis using v r t h
    by (intro that [of "if 0 < v then fmul (rnd (v * h)) (Fin 100) else fmul (rnd (r * h)) (Fin 10)"])
      (auto simp: host_earnings_def Let_def CREDITS_PER_GB_VRAM_HOUR_def CREDITS_PER_GB_RAM_HOUR_def
        intro: nonneg_fmul_Fin)
qed

lemma fmax_zero_mono: "fle d d' \<Longrightarrow> fle (fmax (Fin 0) d) (fmax (Fin 0) d')"
  by (cases d; cases d') (auto simp: fmax_def)

lemma earnings_mono:
  assumes "vram \<noteq> PInf" "ram \<noteq> PInf" "dbl d" "dbl d'" "fle d d'" "d' \<noteq> PInf"
  shows "\<exists>e e'. host_earnings vram d ram = Inr e \<and> host_earnings vram d' ram = Inr e' \<and> nonneg e \<and> fle e e'"
proof -
  have "d \<noteq> PInf" using assms(5,6) by (cases d') auto
  then obtain v r t t' where v: "fmax (Fin 0) vram = Fin v" "0 \<le> v" and r: "fmax (Fin 0) ram = Fin r" "0 \<le> r"
    and t: "fmax (Fin 0) d = Fin t" "0 \<le> t" and t': "fmax (Fin 0) d' = Fin t'" "0 \<le> t'"
    using assms fmax_zero_finite by metis
  have "t \<le> t'" using fmax_zero_mono [OF assms(5)] t t' by simp
  have "dbl_rat t" "dbl_rat t'" using fmax_zero_dbl assms(3,4) t t' by fastforce+
  then obtain h h' where h: "rnd (t / 3600) = Fin h" "0 \<le> h" and h': "rnd (t' / 3600) = Fin h'" "0 \<le> h'"
    using hours_finite t t' by meson
  have "h \<le> h'" using rnd_mono [of "t / 3600" "t' / 3600"] \<open>t \<le> t'\<close> h h' by (simp add: divide_right_mono)
  then have "fle (rnd (x * h)) (rnd (x * h'))" "nonneg (rnd (x * h))" if "0 \<le> x" for x
    using that h by (auto intro: rnd_mono rnd_nonneg mult_left_mono)
  then show ?thesis using v r t t' h h'
    by (auto simp: host_earnings_def Let_def CREDITS_PER_GB_VRAM_HOUR_def CREDITS_PER_GB_RAM_HOUR_def
        intro: fmul_mono_left nonneg_fmul_Fin)
qed

section \<open>The invariant\<close>

definition ledger_inv :: "ledger \<Rightarrow> bool" where
  "ledger_inv l \<longleftrightarrow>
     dict_ok (led_accounts l)
   \<and> (\<forall>k a. dget (led_accounts l) k = Some a \<longrightarrow>
        account_id a = k \<and> nonneg (earned_credits a) \<and> nonneg (consumed_credits a)
        \<and> dbl (earned_credits a) \<and> dbl (consumed_credits a))"

definition good_account :: "string \<Rightarrow> credit_account \<Rightarrow> bool" where
  "good_account k a = (account_id a = k \<and> nonneg (earned_credits a) \<and> nonneg (consumed_credits a)
      \<and> dbl (earned_credits a) \<and> dbl (consumed_credits a))"

lemma ledger_inv_good:
  "ledger_inv l \<longleftrightarrow> dict_ok (led_accounts l) \<and> (\<forall>k a. dget (led_accounts l) k = Some a \<longrightarrow> good_account k a)"
  by (simp add: ledger_inv_def good_account_def)

lemma put_account_accounts:
  "led_accounts (snd (put_account k a l)) = dset k a (led_accounts l)"
  by (simp add: put_account_def Let_def split: option.splits sum.splits prod.splits)

lemma put_account_inv: "ledger_inv l \<Longrightarrow> good_account k a \<Longrightarrow> ledger_inv (snd (put_account k a l))"
  by (simp add: ledger_inv_good put_account_accounts dict_simps)

lemma get_or_create_good:
  assumes "ledger_inv l" "get_or_create_account k now l = (a, l')"
  shows "ledger_inv l'" "good_account k a" "dget (led_accounts l') k = Some a" "led_store l' = led_store l"
  using assms
  by (auto simp: get_or_create_account_def ledger_inv_good new_account_def good_account_def dict_simps
      split: option.splits if_splits)

text \<open>The account a caller sees for an identifier: a missing one is a zeroed one.\<close>

definition credits_in :: "(string, credit_account) dict \<Rightarrow> string \<Rightarrow> pyfloat \<times> pyfloat" where
  "credits_in d k =
     (case dget d k of None \<Rightarrow> (Fin 0, Fin 0) | Some a \<Rightarrow> (earned_credits a, consumed_credits a))"

abbreviation credits_of :: "ledger \<Rightarrow> string \<Rightarrow> pyfloat \<times> pyfloat" where
  "credits_of l \<equiv> credits_in (led_accounts l)"

lemma credits_in_dset [dict_simps]:
  "credits_in (dset k a d) = (credits_in d)(k := (earned_credits a, consumed_credits a))"
  by (rule ext) (simp add: credits_in_def dict_simps)

lemma get_or_create_credits:
  "get_or_create_account k now l = (a, l') \<Longrightarrow>
   (earned_credits a, consumed_credits a) = credits_of l k \<and> credits_of l' = credits_of l"
  by (auto simp: get_or_create_account_def new_account_def dict_simps credits_in_def
      intro!: ext split: option.splits)

lemma credits_of_put:
  "credits_of (snd (put_account k a l)) =
   (credits_of l)(k := (earned_credits a, consumed_credits a))"
  by (simp add: put_account_accounts dict_simps)

section \<open>Runs of the ledger\<close>

datatype ledger_op =
    Enquire string pyfloat
  | Contribute string pyfloat pyfloat pyfloat pyfloat
  | Deduct string pyfloat pyfloat

fun ledger_step :: "ledger_op \<Rightarrow> ledger \<Rightarrow> ledger" where
  "ledger_step (Enquire k now) l = snd (get_or_create_account k now l)"
| "ledger_step (Contribute k vram d ram now) l = snd (record_host_contribution k vram d ram now l)"
| "ledger_step (Deduct k amount now) l = snd (deduct_usage k amount now l)"

text \<open>
  The measurements of a call: finite sizes and durations, a clock that is a number. Everything
  else (negative, NaN) the code clamps itself.
\<close>

fun op_measured :: "ledger_op \<Rightarrow> bool" where
  "op_measured (Enquire k now) = True"
| "op_measured (Contribute k vram d ram now) =
     (vram \<noteq> PInf \<and> ram \<noteq> PInf \<and> d \<noteq> PInf \<and> dbl d \<and> now \<noteq> NaN)"
| "op_measured (Deduct k amount now) = (dbl amount \<and> now \<noteq> NaN)"

definition ledger_run :: "ledger_op list \<Rightarrow> ledger \<Rightarrow> ledger" where
  "ledger_run ops l = fold ledger_step ops l"

text \<open>
  One step seen from outside: it is either a plain enquiry or one \<open>put_account\<close> of a good account
  whose two totals did not go down.
\<close>

lemma ledger_step_cases:
  assumes "ledger_inv l" "op_measured op"
  obtains (enquiry) k now where "op = Enquire k now" "ledger_step op l = snd (get_or_create_account k now l)"
  | (charge) k a l' where "ledger_step op l = snd (put_account k a l')" "ledger_inv l'"
      "good_account k a" "credits_of l' = credits_of l" "led_store l' = led_store l"
      "fle (fst (credits_of l k)) (earned_credits a)" "fle (snd (credits_of l k)) (consumed_credits a)"
      "updated_at a \<noteq> NaN"
proof (cases op)
  case (Contribute k vram d ram now)
  obtain e where e: "host_earnings vram d ram = Inr e" "nonneg e" "dbl e"
    using earnings_ok [of vram ram d] assms(2) Contribute by auto
  obtain a l' where g: "get_or_create_account k now l = (a, l')" by force
  note ga = get_or_create_good [OF assms(1) g] get_or_create_credits [OF g]
  let ?a = "a\<lparr>earned_credits := fadd (earned_credits a) e, updated_at := now\<rparr>"
  have c: "credits_of l k = (earned_credits a, consumed_credits a)" using ga by simp
  show ?thesis
  proof (rule charge [of k ?a l'])
    show "ledger_step op l = snd (put_account k ?a l')"
      using Contribute e g by (simp add: record_host_contribution_def)
    show "good_account k ?a" using ga(2) e by (simp add: good_account_def nonneg_fadd)
    show "fle (fst (credits_of l k)) (earned_credits ?a)"
      using c ga(2) e by (simp add: good_account_def nonneg_fadd_mono)
    show "fle (snd (credits_of l k)) (consumed_credits ?a)"
      using c ga(2) by (auto simp: good_account_def dest: nonneg_not_NaN)
  qed (use ga assms(2) Contribute in auto)
next
  case (Deduct k amount now)
  obtain a l' where g: "get_or_create_account k now l = (a, l')" by force
  note ga = get_or_create_good [OF assms(1) g] get_or_create_credits [OF g]
  let ?a = "a\<lparr>consumed_credits := fadd (consumed_credits a) (fmax (Fin 0) amount), updated_at := now\<rparr>"
  have c: "credits_of l k = (earned_credits a, consumed_credits a)" using ga by simp
  show ?thesis
  proof (rule charge [of k ?a l'])
    show "ledger_step op l = snd (put_account k ?a l')" using Deduct g by (simp add: deduct_usage_def)
    show "good_account k ?a" using ga(2) by (simp add: good_account_def nonneg_fadd nonneg_fmax)
    show "fle (fst (credits_of l k)) (earned_credits ?a)"
      using c ga(2) by (auto simp: good_account_def dest: nonneg_not_NaN)
    show "fle (snd (credits_of l k)) (consumed_credits ?a)"
      using c ga(2) by (simp add: good_account_def nonneg_fadd_mono nonneg_fmax)
  qed (use ga assms(2) Deduct in auto)
qed (use enquiry in auto)

lemma ledger_step_inv:
  assumes "ledger_inv l" "op_measured op"
  shows "ledger_inv (ledger_step op l)"
  using assms
proof (cases rule: ledger_step_cases)
  case (enquiry k now)
  then show ?thesis using get_or_create_good(1) [OF assms(1)] by (metis prod.collapse)
next
  case (charge k a l')
  then show ?thesis by (simp add: put_account_inv)
qed

lemma ledger_run_inv: "ledger_inv l \<Longrightarrow> list_all op_measured ops \<Longrightarrow> ledger_inv (ledger_run ops l)"
  unfolding ledger_run_def by (induction ops arbitrary: l) (simp_all add: ledger_step_inv)

lemma ledger_inv_init: "ledger_inv (init_ledger st)"
  by (simp add: ledger_inv_def init_ledger_def)

definition credits_le :: "pyfloat \<times> pyfloat \<Rightarrow> pyfloat \<times> pyfloat \<Rightarrow> bool" where
  "credits_le p q = (fle (fst p) (fst q) \<and> fle (snd p) (snd q))"

lemma credits_le_refl: "ledger_inv l \<Longrightarrow> credits_le (credits_of l k) (credits_of l k)"
  by (auto simp: credits_le_def credits_in_def ledger_inv_def dest: nonneg_not_NaN split: option.splits)

lemma credits_le_step:
  assumes "ledger_inv l" "op_measured op"
  shows "credits_le (credits_of l k) (credits_of (ledger_step op l) k)"
  using assms
proof (cases rule: ledger_step_cases)
  case (enquiry j now)
  then show ?thesis
    using get_or_create_credits [of j now l] credits_le_refl [OF assms(1), of k] by (metis prod.collapse)
next
  case (charge j a l')
  then show ?thesis using credits_le_refl [OF assms(1), of k]
    by (auto simp: credits_of_put credits_le_def)
qed

lemma credits_le_run:
  "ledger_inv l \<Longrightarrow> list_all op_measured ops \<Longrightarrow>
   credits_le (credits_of l k) (credits_of (ledger_run ops l) k)"
proof (induction ops arbitrary: l)
  case Nil
  then show ?case by (simp add: ledger_run_def credits_le_refl)
next
  case (Cons op ops)
  have "credits_le (credits_of l k) (credits_of (ledger_step op l) k)"
    using Cons.prems by (simp add: credits_le_step)
  moreover have "credits_le (credits_of (ledger_step op l) k) (credits_of (ledger_run ops (ledger_step op l)) k)"
    using Cons by (simp add: ledger_step_inv)
  ultimately show ?case by (auto simp: credits_le_def ledger_run_def intro: fle_trans)
qed

section \<open>Durability\<close>

text \<open>
  The store holds every balance that is not zero: what the credit table gives for an identifier is
  what memory gives, for accounts that only exist because someone asked about them included.
\<close>

definition durable :: "ledger \<Rightarrow> bool" where
  "durable l \<longleftrightarrow> ledger_inv l
   \<and> (\<exists>s. led_store l = Some s \<and> dict_ok (accounts_view s)
        \<and> (\<forall>k a. dget (accounts_view s) k = Some a \<longrightarrow> good_account k a)
        \<and> credits_in (accounts_view s) = credits_of l)"

lemma put_account_store:
  assumes "led_store l = Some s" "good_account k a" "updated_at a \<noteq> NaN"
  obtains s' where "put_account k a l = (Inr a, l\<lparr>led_accounts := dset k a (led_accounts l), led_store := Some s'\<rparr>)"
    "accounts_view s' = dset k a (accounts_view s)"
proof -
  have "earned_credits a \<noteq> NaN" "consumed_credits a \<noteq> NaN"
    using assms(2) by (auto simp: good_account_def dest: nonneg_not_NaN)
  then obtain s' where s': "save_account a s = (Inr (), s')" using assms(3) by (auto simp: save_account_def)
  then have "put_account k a l = (Inr a, l\<lparr>led_accounts := dset k a (led_accounts l), led_store := Some s'\<rparr>)"
    using assms(1) by (simp add: put_account_def)
  moreover have "accounts_view s' = dset k a (accounts_view s)"
    using accounts_view_save [OF s'] assms(2) by (simp add: good_account_def)
  ultimately show ?thesis by (rule that)
qed

lemma durable_step:
  assumes "durable l" "op_measured op"
  shows "durable (ledger_step op l)"
proof -
  from assms obtain s where s: "ledger_inv l" "led_store l = Some s" "dict_ok (accounts_view s)"
    "\<forall>k a. dget (accounts_view s) k = Some a \<longrightarrow> good_account k a"
    "credits_in (accounts_view s) = credits_of l" by (auto simp: durable_def)
  note inv = ledger_step_inv [OF s(1) assms(2)]
  from s(1) assms(2) show ?thesis
  proof (cases rule: ledger_step_cases)
    case (enquiry k now)
    obtain a l' where g: "get_or_create_account k now l = (a, l')" by force
    show ?thesis
      using enquiry s inv g get_or_create_good(4) [OF s(1) g] get_or_create_credits [OF g]
      by (auto simp: durable_def)
  next
    case (charge k a l')
    obtain s' where s': "put_account k a l' = (Inr a, l'\<lparr>led_accounts := dset k a (led_accounts l'), led_store := Some s'\<rparr>)"
      "accounts_view s' = dset k a (accounts_view s)"
      using put_account_store [of l' s k a] charge s(2) by auto
    have "credits_in (accounts_view s') = credits_of (ledger_step op l)"
      using s(5) charge(1,4) s' by (simp add: dict_simps)
    then show ?thesis using inv charge(1) s' s(3,4) charge(3) by (auto simp: durable_def dict_simps)
  qed
qed

lemma durable_run: "durable l \<Longrightarrow> list_all op_measured ops \<Longrightarrow> durable (ledger_run ops l)"
  unfolding ledger_run_def by (induction ops arbitrary: l) (simp_all add: durable_step)

lemma durable_init: "durable (init_ledger (Some empty_store))"
  by (simp add: durable_def ledger_inv_init, simp add: init_ledger_def accounts_view_def empty_store_def)

lemma fold_dset_accounts:
  assumes "dict_ok d" "\<forall>(k, a)\<in>set d. account_id a = k"
  shows "fold (\<lambda>a. dset (account_id a) a) (map snd d) [] = d"
proof -
  have "fold (\<lambda>a. dset (account_id a) a) (map snd d) e = fold (\<lambda>(k, a). dset k a) d e" for e
    using assms(2) by (induction d arbitrary: e) auto
  then show ?thesis using fold_dset_pairs [of "[]" d] assms(1) by simp
qed

text \<open>A restart of a durable ledger succeeds and brings every balance back.\<close>

lemma restart_durable:
  assumes "durable l"
  obtains l' where "load_ledger (init_ledger (led_store l)) = (Inr (), l')" "durable l'"
    "credits_of l' = credits_of l"
proof -
  from assms obtain s where s: "led_store l = Some s" "dict_ok (accounts_view s)"
    "\<forall>k a. dget (accounts_view s) k = Some a \<longrightarrow> good_account k a"
    "credits_in (accounts_view s) = credits_of l" by (auto simp: durable_def)
  have good: "\<forall>(k, a)\<in>set (accounts_view s). good_account k a"
    using s(2,3) by (auto simp: map_of_eq_Some_iff)
  have "load_accounts s = Inr (map snd (accounts_view s))"
    using good by (intro load_accounts_view) (auto simp: good_account_def account_valid_def)
  moreover have "fold (\<lambda>a. dset (account_id a) a) (map snd (accounts_view s)) [] = accounts_view s"
    using s(2) good by (intro fold_dset_accounts) (auto simp: good_account_def)
  ultimately have load: "load_ledger (init_ledger (led_store l))
      = (Inr (), \<lparr>led_accounts = accounts_view s, led_store = Some s\<rparr>)"
    using s(1) by (simp add: load_ledger_def init_ledger_def)
  let ?l = "\<lparr>led_accounts = accounts_view s, led_store = Some s\<rparr>"
  have "credits_of ?l = credits_of l" using s(4) by simp
  moreover have "durable ?l" using s by (auto simp: durable_def ledger_inv_good)
  ultimately show ?thesis using that load by blast
qed

section \<open>Properties\<close>

text \<open>
  Balances are monotone: over any sequence of enquiries, host contributions and deductions
  whose measurements are finite, the ledger keeps its invariant (every account stored under its
  own identifier, both totals non-negative doubles) and neither the earned nor the consumed total
  of any account ever goes down. Negative and NaN inputs are included: the code clamps them.
\<close>

theorem ledger_totals_monotone:
  assumes "ledger_inv l" "list_all op_measured ops"
  shows "ledger_inv (ledger_run ops l) \<and> credits_le (credits_of l k) (credits_of (ledger_run ops l) k)"
  using assms by (simp add: ledger_run_inv credits_le_run)

theorem ledger_totals_monotone_witness:
  "ledger_inv (ledger_run [Contribute ''n'' (Fin (- 1)) (Fin 7200) (Fin 4) (Fin 1), Deduct ''n'' NaN (Fin 2)]
      (init_ledger None))"
  using ledger_totals_monotone [of "init_ledger None"
      "[Contribute ''n'' (Fin (- 1)) (Fin 7200) (Fin 4) (Fin 1), Deduct ''n'' NaN (Fin 2)]"]
  by (simp add: ledger_inv_init dbl_rat_numeral)

text \<open>
  No balance is lost in a restart: after any sequence of operations on a ledger that started
  with an empty store file, loading a fresh ledger from that file succeeds, and every account
  (an account that was only enquired about and never written included) has the totals it had.
\<close>

theorem ledger_restart:
  assumes "list_all op_measured ops" "l = ledger_run ops (init_ledger (Some empty_store))"
  shows "\<exists>l'. load_ledger (init_ledger (led_store l)) = (Inr (), l') \<and> credits_of l' = credits_of l"
  using restart_durable [of l] durable_run [OF durable_init assms(1)] assms(2) by metis

theorem ledger_restart_witness:
  "\<exists>l'. load_ledger (init_ledger (led_store
        (ledger_run [Enquire ''t'' (Fin 0), Contribute ''n'' (Fin 8) (Fin 3600) (Fin 16) (Fin 1)]
          (init_ledger (Some empty_store))))) = (Inr (), l')"
  using ledger_restart [of "[Enquire ''t'' (Fin 0), Contribute ''n'' (Fin 8) (Fin 3600) (Fin 16) (Fin 1)]"]
  by (auto simp: dbl_rat_numeral)

text \<open>
  The earning formula: for finite measurements it never fails; hosting longer never earns
  less, in floating point as in the reals; and a host with a GPU earns the same whatever RAM it
  declares (the RAM rate is a fallback, not an addition).
\<close>

theorem host_earnings_formula:
  assumes "vram \<noteq> PInf" "ram \<noteq> PInf" "dbl d" "dbl d'" "fle d d'" "d' \<noteq> PInf"
  shows "\<exists>e e'. host_earnings vram d ram = Inr e \<and> host_earnings vram d' ram = Inr e' \<and> nonneg e \<and> fle e e'
      \<and> (flt (Fin 0) vram \<longrightarrow> (\<forall>ram'. host_earnings vram d ram' = Inr e))"
proof -
  have "host_earnings vram d ram' = host_earnings vram d ram" if "flt (Fin 0) vram" for ram'
    using that by (simp add: host_earnings_def fmax_def)
  then show ?thesis using earnings_mono [OF assms] by metis
qed

theorem host_earnings_formula_witness:
  "\<exists>e e'. host_earnings (Fin 24) (Fin 60) (Fin 64) = Inr e \<and> host_earnings (Fin 24) (Fin 90) (Fin 64) = Inr e'
      \<and> fle e e' \<and> host_earnings (Fin 24) (Fin 60) (Fin 0) = Inr e"
  using host_earnings_formula [of "Fin 24" "Fin 64" "Fin 60" "Fin 90"] by (auto simp: dbl_rat_numeral)

end
