(* ===== verification/Gateway.thy ===== *)
theory Gateway
  imports Nodes_Api Dispatch Engine Rate_Limiter Metering Credit_Ledger
begin

text \<open>
  The requester side of the HTTP interface: JWT verification and task submission
  (\<^verbatim>\<open>scheduler/api/ingress.py\<close>) and the OpenAI-compatible completions with their metering
  (\<^verbatim>\<open>scheduler/api/openai.py\<close>). A completion suspends while the node works, so it is two steps: admission
  up to the choice of a node, and settlement when the node's result is there; other requests run in
  between. A streamed completion settles when its generator ends. PyJWT is an argument.
\<close>

section \<open>JSON web tokens\<close>

text \<open>
  \<open>unverified_kid\<close> is the \<^verbatim>\<open>kid\<close> header of a token that parses (PyJWT refuses one that is not a string);
  \<open>jwt_decode\<close> returns the claims if the RS256 signature verifies under the key and the token has not
  expired.
\<close>

record jwt_lib =
  unverified_kid :: "string \<Rightarrow> string option"
  jwt_decode :: "string \<Rightarrow> string \<Rightarrow> jobj option"

definition KID_PRIMARY :: string where
  "KID_PRIMARY = ''primary''"

definition KID_SECONDARY :: string where
  "KID_SECONDARY = ''secondary''"

definition configured_key :: "string \<Rightarrow> string option \<Rightarrow> (string, string) dict \<Rightarrow> (string, string) dict" where
  "configured_key kid key d = (case key of None \<Rightarrow> d | Some k \<Rightarrow> if k = [] then d else dset kid k d)"

definition verification_keys :: "string option \<Rightarrow> string option \<Rightarrow> (string, string) dict" where
  "verification_keys primary secondary = configured_key KID_SECONDARY secondary (configured_key KID_PRIMARY primary [])"

text \<open>A stable sort on whether an entry is not the named one.\<close>

definition ordered_keys :: "string option \<Rightarrow> (string, string) dict \<Rightarrow> (string, string) dict" where
  "ordered_keys named candidates =
     (case named of
        None \<Rightarrow> candidates
      | Some kid \<Rightarrow>
          if dmem kid candidates then filter (\<lambda>e. fst e = kid) candidates @ filter (\<lambda>e. fst e \<noteq> kid) candidates
          else candidates)"

fun first_decoded :: "(string \<Rightarrow> string \<Rightarrow> jobj option) \<Rightarrow> string \<Rightarrow> (string, string) dict \<Rightarrow> jobj option" where
  "first_decoded dec token [] = None"
| "first_decoded dec token ((kid, key) # rest) =
     (case dec token key of Some payload \<Rightarrow> Some payload | None \<Rightarrow> first_decoded dec token rest)"

definition decode_with_any :: "jwt_lib \<Rightarrow> string \<Rightarrow> (string, string) dict \<Rightarrow> jobj option" where
  "decode_with_any lib token candidates =
     first_decoded (jwt_decode lib) token (ordered_keys (unverified_kid lib token) candidates)"

definition verify_jwt :: "jwt_lib \<Rightarrow> string option \<Rightarrow> string option \<Rightarrow> string option \<Rightarrow> jobj res" where
  "verify_jwt lib primary secondary authorization =
     (case authorization of
        None \<Rightarrow> Inl (HTTPException 401 ''Missing Authorization header. Must be Bearer <JWT>.'')
      | Some auth \<Rightarrow>
          if \<not> startswith auth ''Bearer ''
          then Inl (HTTPException 401 ''Invalid Authorization header format. Must be Bearer <JWT>.'')
          else let token = py_split (CHR '' '') auth ! 1; candidates = verification_keys primary secondary
            in if candidates = []
               then Inl (HTTPException 401 ''Gateway has no JWT verification key configured; refusing all requests.'')
               else (case decode_with_any lib token candidates of
                  None \<Rightarrow> Inl (HTTPException 401 ''JWT signature verification failed.'')
                | Some payload \<Rightarrow>
                    if \<not> dmem ''tenant_id'' payload
                    then Inl (HTTPException 401 ''Invalid claims: Missing 'tenant_id' in token payload.'')
                    else Inr payload))"

section \<open>The gateway's state\<close>

record gateway =
  gw_registry :: registry
  gw_limiter :: "limiter option"
  gw_engine :: bool
  gw_canary :: "verifier option"
  gw_meter :: "usage_meter option"
  gw_ledger :: "ledger option"
  gw_settings :: dispatch_settings
  gw_enable_split :: bool

record gw_lib =
  gl_mesh :: mesh_lib
  gl_sha256 :: "string \<Rightarrow> string"

text \<open>
  The tenant of a verified request. Credentials issued by the Scheduler carry a non-empty string there;
  a signed token with another type of value is outside the model.
\<close>

definition tenant_of :: "jobj \<Rightarrow> string res" where
  "tenant_of claims = (case jget claims ''tenant_id'' of
      JStr t \<Rightarrow> if t = [] then Inl (HTTPException 401 ''Invalid claims: Missing 'tenant_id' in token payload.'') else Inr t
    | v \<Rightarrow> if truthy v then Inl (OtherError ''tenant_id is not a string'')
           else Inl (HTTPException 401 ''Invalid claims: Missing 'tenant_id' in token payload.''))"

definition rate_guard :: "string \<Rightarrow> pyfloat \<Rightarrow> gateway \<Rightarrow> unit res \<times> gateway" where
  "rate_guard tenant now gw =
     (case gw_limiter gw of
        None \<Rightarrow> (Inr (), gw)
      | Some l \<Rightarrow>
          (case acquire tenant now l of
             (Inl e, l') \<Rightarrow> (Inl e, gw\<lparr>gw_limiter := Some l'\<rparr>)
           | (Inr allowed, l') \<Rightarrow>
               (if allowed then Inr () else Inl (HTTPException 429 ''Rate limit exceeded. Multi-tenant quota exhausted.''),
                gw\<lparr>gw_limiter := Some l'\<rparr>)))"

section \<open>Task submission\<close>

definition submission_task :: "string \<Rightarrow> jobj \<Rightarrow> jobj" where
  "submission_task task_id data =
     [(''task_id'', JStr task_id),
      (''requirements'', JObj
         [(''model_name'', py_or (jget data ''model_name'') (jget data ''model'')),
          (''min_vram_gb'', py_or (jget data ''min_vram_gb'') (jget data ''vram'')),
          (''backend_type'', jget data ''backend_type'')])]"

definition run_engine :: "gw_lib \<Rightarrow> string \<Rightarrow> jobj \<Rightarrow> gateway \<Rightarrow> (string \<times> string) res \<times> gateway" where
  "run_engine lib uuid task gw =
     (case schedule_task (filter_nodes (py_repr (gl_mesh lib)) (gw_canary gw)) score_nodes (py_repr (gl_mesh lib))
             (gl_sha256 lib) uuid task (gw_registry gw) of
        (x, r) \<Rightarrow> (x, gw\<lparr>gw_registry := r\<rparr>))"

record submit_response =
  sb_task_id :: string
  sb_node_id :: string
  sb_tx_hash :: string

definition submit_task :: "gw_lib \<Rightarrow> jobj \<Rightarrow> string \<Rightarrow> jobj \<Rightarrow> string \<Rightarrow> pyfloat \<Rightarrow> gateway \<Rightarrow> submit_response res \<times> gateway" where
  "submit_task lib claims task_id data uuid now gw =
     (case tenant_of claims of
        Inl e \<Rightarrow> (Inl e, gw)
      | Inr tenant \<Rightarrow>
          (case rate_guard tenant now gw of
             (Inl e, gw1) \<Rightarrow> (Inl e, gw1)
           | (Inr _, gw1) \<Rightarrow>
               if \<not> gw_engine gw1 then (Inl (HTTPException 500 ''Scheduling engine is uninitialized.''), gw1)
               else (case run_engine lib uuid (submission_task task_id data) gw1 of
                  (Inl (ValueError m), gw2) \<Rightarrow> (Inl (HTTPException 400 m), gw2)
                | (Inl e, gw2) \<Rightarrow> (Inl e, gw2)
                | (Inr (tx, k), gw2) \<Rightarrow> (Inr \<lparr>sb_task_id = task_id, sb_node_id = k, sb_tx_hash = tx\<rparr>, gw2))))"

section \<open>Prompts and token counts\<close>

definition py_capitalize :: "string \<Rightarrow> string" where
  "py_capitalize s = (case s of [] \<Rightarrow> [] | c # cs \<Rightarrow> upper_char c # py_lower cs)"

definition message_part :: "string \<times> string \<Rightarrow> string" where
  "message_part m = (case m of (role, content) \<Rightarrow>
     (if role = ''system'' then ''System: '' else if role = ''user'' then ''User: ''
      else if role = ''assistant'' then ''Assistant: '' else py_capitalize role @ '': '') @ content)"

definition messages_to_prompt :: "(string \<times> string) list \<Rightarrow> string" where
  "messages_to_prompt ms = py_join (newline @ newline) (map message_part ms @ [''Assistant:''])"

definition estimate_tokens :: "string \<Rightarrow> int" where
  "estimate_tokens t = (if t = [] then 0 else max 1 (int (length t) div 4))"

section \<open>Completions: admission\<close>

record chat_request =
  cr_model :: string
  cr_messages :: "(string \<times> string) list"
  cr_stream :: bool
  cr_split :: bool

record ticket =
  tk_id :: string
  tk_tenant :: string
  tk_node :: node
  tk_model :: string
  tk_prompt :: string
  tk_started :: pyfloat

definition completion_task :: "string \<Rightarrow> string \<Rightarrow> jobj" where
  "completion_task task_id model = [(''task_id'', JStr task_id), (''requirements'', JObj [(''model_name'', JStr model)])]"

definition unavailable_503 :: "string \<Rightarrow> exc" where
  "unavailable_503 detail = HTTPException 503 detail"

definition choose_node :: "gw_lib \<Rightarrow> string \<Rightarrow> string \<Rightarrow> gateway \<Rightarrow> string res \<times> gateway" where
  "choose_node lib task_id model gw =
     (if gw_engine gw
      then (case run_engine lib [] (completion_task task_id model) gw of
          (Inl (ValueError m), gw') \<Rightarrow>
            (Inl (unavailable_503 (''No suitable compute node available for model '' @ quoted model @ '': '' @ m)), gw')
        | (Inl e, gw') \<Rightarrow> (Inl e, gw')
        | (Inr (_, k), gw') \<Rightarrow> (Inr k, gw'))
      else (case List.find (\<lambda>n. model \<in> set (available_models n)) (registry_list (gw_registry gw)) of
          None \<Rightarrow> (Inl (unavailable_503 (''No node available serving model '' @ quoted model)), gw)
        | Some n \<Rightarrow> (Inr (node_id n), gw)))"

definition split_requested :: "chat_request \<Rightarrow> string \<Rightarrow> gateway \<Rightarrow> bool" where
  "split_requested req split_header gw = (cr_split req \<or> py_lower split_header = ''true'' \<or> gw_enable_split gw)"

definition split_detail :: string where
  "split_detail = ''Split inference is not implemented. It is cut from v1 (see ROADMAP.md); ''
     @ ''the previous implementation returned simulated tokens. Retry without ''
     @ ''`split_inference` / `x-split-inference` for a single-node completion.''"

definition begin_completion :: "gw_lib \<Rightarrow> jobj \<Rightarrow> chat_request \<Rightarrow> string \<Rightarrow> string \<Rightarrow> pyfloat \<Rightarrow> pyfloat \<Rightarrow> gateway
    \<Rightarrow> ticket res \<times> gateway" where
  "begin_completion lib claims req split_header task_id now started gw =
     (case tenant_of claims of
        Inl e \<Rightarrow> (Inl e, gw)
      | Inr tenant \<Rightarrow>
          (case rate_guard tenant now gw of
             (Inl e, gw1) \<Rightarrow> (Inl e, gw1)
           | (Inr _, gw1) \<Rightarrow>
               if split_requested req split_header gw1
               then (Inl (HTTPException 501 split_detail), gw1)
               else (case choose_node lib task_id (cr_model req) gw1 of
                  (Inl e, gw2) \<Rightarrow> (Inl e, gw2)
                | (Inr k, gw2) \<Rightarrow>
                    (case registry_get k (gw_registry gw2) of
                       None \<Rightarrow> (Inl (unavailable_503 (''Target node '' @ quoted k @ '' is no longer registered.'')), gw2)
                     | Some n \<Rightarrow>
                         (Inr \<lparr>tk_id = task_id, tk_tenant = tenant, tk_node = n, tk_model = cr_model req,
                              tk_prompt = messages_to_prompt (cr_messages req), tk_started = started\<rparr>, gw2)))))"

section \<open>Metering\<close>

definition usage_of :: "ticket \<Rightarrow> int \<Rightarrow> bool \<Rightarrow> pyfloat \<Rightarrow> pyfloat \<Rightarrow> usage_record" where
  "usage_of tk completion ok now wall =
     \<lparr>request_id = tk_id tk, tenant_id = tk_tenant tk, us_node_id = node_id (tk_node tk), us_model = tk_model tk,
      prompt_tokens = estimate_tokens (tk_prompt tk), completion_tokens = completion,
      duration_seconds = fmax (Fin 0) (fsub now (tk_started tk)), succeeded = ok, recorded_at = wall\<rparr>"

text \<open>
  Metering never raises: an invalid record ends it before the ledger is touched, a failed ledger write
  is logged. \<open>now\<close> is the monotonic clock, \<open>wall\<close> the time of day.
\<close>

definition credit_host :: "ticket \<Rightarrow> pyfloat \<Rightarrow> pyfloat \<Rightarrow> gateway \<Rightarrow> gateway" where
  "credit_host tk now wall gw =
     (case gw_ledger gw of
        None \<Rightarrow> gw
      | Some l \<Rightarrow>
          gw\<lparr>gw_ledger := Some (snd (record_host_contribution (node_id (tk_node tk)) (vram_total_gb (gpu (tk_node tk)))
               (fmax (Fin 0) (fsub now (tk_started tk))) (ram_total_gb (tk_node tk)) wall l))\<rparr>)"

definition meter_request :: "ticket \<Rightarrow> int \<Rightarrow> bool \<Rightarrow> pyfloat \<Rightarrow> pyfloat \<Rightarrow> gateway \<Rightarrow> gateway" where
  "meter_request tk completion ok now wall gw =
     (let u = usage_of tk completion ok now wall
      in case gw_meter gw of
           None \<Rightarrow> if ok then credit_host tk now wall gw else gw
         | Some m \<Rightarrow>
             if \<not> usage_valid u then gw
             else let gw1 = gw\<lparr>gw_meter := Some (snd (record_usage u m))\<rparr>
               in if ok then credit_host tk now wall gw1 else gw1)"

section \<open>Completions: settlement\<close>

record completion =
  cp_id :: string
  cp_model :: string
  cp_content :: string
  cp_prompt_tokens :: int
  cp_completion_tokens :: int
  cp_total_tokens :: int

text \<open>The result of \<^verbatim>\<open>infer_once\<close> arrives: the model and text, or an exception.\<close>

definition settle_once :: "ticket \<Rightarrow> (string \<times> string) res \<Rightarrow> pyfloat \<Rightarrow> pyfloat \<Rightarrow> gateway \<Rightarrow> completion res \<times> gateway" where
  "settle_once tk result now wall gw =
     (case result of
        Inl (NodeDispatchError detail status) \<Rightarrow>
          (Inl (HTTPException status detail), meter_request tk 0 False now wall gw)
      | Inl e \<Rightarrow> (Inl e, gw)
      | Inr (_, text) \<Rightarrow>
          (Inr \<lparr>cp_id = tk_id tk, cp_model = tk_model tk, cp_content = text,
                cp_prompt_tokens = estimate_tokens (tk_prompt tk), cp_completion_tokens = estimate_tokens text,
                cp_total_tokens = estimate_tokens (tk_prompt tk) + estimate_tokens text\<rparr>,
           meter_request tk (estimate_tokens text) True now wall gw))"

text \<open>The stream was opened, or opening it failed.\<close>

definition settle_open :: "ticket \<Rightarrow> (string list \<times> stream_end) res \<Rightarrow> pyfloat \<Rightarrow> pyfloat \<Rightarrow> gateway
    \<Rightarrow> (string list \<times> stream_end) res \<times> gateway" where
  "settle_open tk result now wall gw =
     (case result of
        Inl (NodeDispatchError detail status) \<Rightarrow>
          (Inl (HTTPException status detail), meter_request tk 0 False now wall gw)
      | Inl e \<Rightarrow> (Inl e, gw)
      | Inr out \<Rightarrow> (Inr out, gw))"

datatype frame = RoleFrame | Content string | ErrorFrame string | StopFrame | DoneFrame

fun exc_text :: "exc \<Rightarrow> string" where
  "exc_text (ValueError m) = m" | "exc_text (TypeError m) = m" | "exc_text (OverflowError m) = m"
| "exc_text (ZeroDivisionError m) = m" | "exc_text (KeyError m) = m" | "exc_text (HTTPException _ m) = m"
| "exc_text (MeshAuthError m) = m" | "exc_text (MeshRequestError m _) = m" | "exc_text (MeshUnavailableError m) = m"
| "exc_text (MeshNodeError m _) = m" | "exc_text (NodeDispatchError m _) = m" | "exc_text (OllamaError m) = m"
| "exc_text (SchedulerError m _) = m" | "exc_text (RuntimeError m) = m" | "exc_text (OtherError m) = m"

definition closing_frames :: "stream_end \<Rightarrow> frame list" where
  "closing_frames e = (case e of
      Completed \<Rightarrow> [StopFrame, DoneFrame]
    | Failed (NodeDispatchError detail status) \<Rightarrow> [ErrorFrame (newline @ ''[Error: '' @ detail @ '']''), DoneFrame]
    | Failed x \<Rightarrow> [ErrorFrame (newline @ ''[Stream Error: '' @ exc_text x @ '']''), DoneFrame]
    | Hanging \<Rightarrow> [])"

definition sse_frames :: "string list \<times> stream_end \<Rightarrow> frame list" where
  "sse_frames out = RoleFrame # map Content (fst out) @ closing_frames (snd out)"

definition generated_chars :: "frame list \<Rightarrow> int" where
  "generated_chars fs = int (sum_list (map (\<lambda>f. case f of Content t \<Rightarrow> length t | _ \<Rightarrow> 0) fs))"

text \<open>
  The end of \<^verbatim>\<open>metered_sse\<close>: the requester took every frame, or left after \<open>n\<close> of them. A generator that
  was never started has no \<^verbatim>\<open>finally\<close> to run; one whose source never ends is still running.
\<close>

definition close_stream :: "ticket \<Rightarrow> string list \<times> stream_end \<Rightarrow> nat option \<Rightarrow> pyfloat \<Rightarrow> pyfloat \<Rightarrow> gateway \<Rightarrow> gateway" where
  "close_stream tk out taken now wall gw =
     (case taken of
        Some n \<Rightarrow>
          if n = 0 then gw
          else meter_request tk (generated_chars (take n (sse_frames out)) div 4) False now wall gw
      | None \<Rightarrow>
          if snd out = Hanging then gw
          else meter_request tk (generated_chars (sse_frames out) div 4) (snd out = Completed) now wall gw)"

section \<open>The catalogue\<close>

fun str_le :: "string \<Rightarrow> string \<Rightarrow> bool" where
  "str_le [] t = True"
| "str_le (c # cs) [] = False"
| "str_le (c # cs) (d # ds) = (code_of c < code_of d \<or> (c = d \<and> str_le cs ds))"

fun insert_model :: "string \<Rightarrow> string list \<Rightarrow> string list" where
  "insert_model m [] = [m]"
| "insert_model m (x # xs) = (if m = x then x # xs else if str_le m x then m # x # xs else x # insert_model m xs)"

text \<open>The set of model names, sorted by code point.\<close>

definition list_models :: "string option \<Rightarrow> string option \<Rightarrow> gateway \<Rightarrow> string list res" where
  "list_models configured header gw =
     rbind (verify_auth_token configured header) (\<lambda>_.
       Inr (fold (\<lambda>n ms. fold insert_model (available_models n) ms) (registry_list (gw_registry gw)) []))"

definition get_model :: "string option \<Rightarrow> string option \<Rightarrow> string \<Rightarrow> gateway \<Rightarrow> string res" where
  "get_model configured header model gw =
     rbind (verify_auth_token configured header) (\<lambda>_.
       if list_ex (\<lambda>n. model \<in> set (available_models n)) (registry_list (gw_registry gw)) then Inr model
       else Inl (HTTPException 404 (''Model '' @ quoted model @ '' not found among active nodes.'')))"

section \<open>Keys\<close>

lemma set_ordered_keys: "set (ordered_keys named candidates) = set candidates"
  by (auto simp: ordered_keys_def split: option.splits)

lemma first_decoded_Some: "first_decoded dec token ks = Some p \<Longrightarrow> \<exists>kid key. (kid, key) \<in> set ks \<and> dec token key = Some p"
  by (induction dec token ks rule: first_decoded.induct) (auto split: option.splits)

lemma first_decoded_None: "first_decoded dec token ks = None \<longleftrightarrow> (\<forall>(kid, key)\<in>set ks. dec token key = None)"
  by (induction dec token ks rule: first_decoded.induct) (auto split: option.splits)

lemma set_verification_keys:
  "key \<in> snd ` set (verification_keys primary secondary) \<longleftrightarrow> key \<noteq> [] \<and> (primary = Some key \<or> secondary = Some key)"
  by (cases primary; cases secondary) (auto simp: verification_keys_def configured_key_def KID_PRIMARY_def KID_SECONDARY_def)

lemma decode_with_any_None:
  "decode_with_any lib token (verification_keys primary secondary) = None \<longleftrightarrow>
   (\<forall>key. key \<noteq> [] \<and> (primary = Some key \<or> secondary = Some key) \<longrightarrow> jwt_decode lib token key = None)"
proof -
  have "decode_with_any lib token (verification_keys primary secondary) = None \<longleftrightarrow>
      (\<forall>key\<in>snd ` set (verification_keys primary secondary). jwt_decode lib token key = None)"
    unfolding decode_with_any_def first_decoded_None set_ordered_keys by (simp add: case_prod_beta)
  then show ?thesis unfolding Ball_def set_verification_keys by blast
qed

lemma decode_with_any_Some:
  assumes "decode_with_any lib token (verification_keys primary secondary) = Some p"
  shows "\<exists>key. key \<noteq> [] \<and> (primary = Some key \<or> secondary = Some key) \<and> jwt_decode lib token key = Some p"
proof -
  obtain kid key where "(kid, key) \<in> set (verification_keys primary secondary)" "jwt_decode lib token key = Some p"
    using first_decoded_Some assms by (fastforce simp: decode_with_any_def set_ordered_keys)
  then show ?thesis using set_verification_keys [of key primary secondary] by force
qed

section \<open>Settlements in sequence\<close>

datatype settlement =
    Once ticket "(string \<times> string) res" pyfloat pyfloat
  | Opened ticket "(string list \<times> stream_end) res" pyfloat pyfloat
  | Closed ticket "string list \<times> stream_end" "nat option" pyfloat pyfloat

fun settle :: "settlement \<Rightarrow> gateway \<Rightarrow> gateway" where
  "settle (Once tk result now wall) gw = snd (settle_once tk result now wall gw)"
| "settle (Opened tk result now wall) gw = snd (settle_open tk result now wall gw)"
| "settle (Closed tk out taken now wall) gw = close_stream tk out taken now wall gw"

definition settle_all :: "settlement list \<Rightarrow> gateway \<Rightarrow> gateway" where
  "settle_all evs gw = fold settle evs gw"

text \<open>The usage record a settlement is owed: none where the request died of an exception of another kind.\<close>

fun owed :: "settlement \<Rightarrow> usage_record option" where
  "owed (Once tk (Inr (_, text)) now wall) = Some (usage_of tk (estimate_tokens text) True now wall)"
| "owed (Once tk (Inl (NodeDispatchError d st)) now wall) = Some (usage_of tk 0 False now wall)"
| "owed (Once tk (Inl _) now wall) = None"
| "owed (Opened tk (Inl (NodeDispatchError d st)) now wall) = Some (usage_of tk 0 False now wall)"
| "owed (Opened tk _ now wall) = None"
| "owed (Closed tk out (Some n) now wall) =
     (if n = 0 then None else Some (usage_of tk (generated_chars (take n (sse_frames out)) div 4) False now wall))"
| "owed (Closed tk out None now wall) =
     (if snd out = Hanging then None
      else Some (usage_of tk (generated_chars (sse_frames out) div 4) (snd out = Completed) now wall))"

definition credited :: "settlement \<Rightarrow> string option" where
  "credited ev = (case owed ev of None \<Rightarrow> None | Some u \<Rightarrow> if succeeded u then Some (us_node_id u) else None)"

lemma estimate_tokens_nonneg: "0 \<le> estimate_tokens t"
  by (simp add: estimate_tokens_def max_def)

lemma generated_chars_nonneg: "0 \<le> generated_chars fs div 4"
  by (simp add: generated_chars_def pos_imp_zdiv_nonneg_iff)

lemma usage_of_valid: "0 \<le> c \<Longrightarrow> usage_valid (usage_of tk c ok now wall)"
  using nonneg_fmax by (simp add: usage_valid_def usage_of_def estimate_tokens_nonneg)

lemma credit_host_fields [simp]:
  "gw_meter (credit_host tk now wall gw) = gw_meter gw" "gw_registry (credit_host tk now wall gw) = gw_registry gw"
  by (simp_all add: credit_host_def split: option.splits)

lemma meter_request_meter:
  "0 \<le> c \<Longrightarrow> gw_meter gw = Some m \<Longrightarrow>
   gw_meter (meter_request tk c ok now wall gw) = Some (snd (record_usage (usage_of tk c ok now wall) m))"
  by (simp add: meter_request_def Let_def usage_of_valid)

definition account_of :: "string \<Rightarrow> gateway \<Rightarrow> credit_account option" where
  "account_of k gw = (case gw_ledger gw of None \<Rightarrow> None | Some l \<Rightarrow> dget (led_accounts l) k)"

lemma contribution_other:
  "j \<noteq> k \<Longrightarrow> dget (led_accounts (snd (record_host_contribution k v d ram now l))) j = dget (led_accounts l) j"
  by (auto simp: record_host_contribution_def get_or_create_account_def put_account_def Let_def dict_simps
      split: sum.splits option.splits prod.splits)

lemma meter_request_account:
  "ok \<longrightarrow> node_id (tk_node tk) \<noteq> k \<Longrightarrow> account_of k (meter_request tk c ok now wall gw) = account_of k gw"
  by (auto simp: meter_request_def Let_def account_of_def credit_host_def contribution_other split: option.splits)

fun ev_ticket :: "settlement \<Rightarrow> ticket" where
  "ev_ticket (Once tk r now wall) = tk" | "ev_ticket (Opened tk r now wall) = tk" | "ev_ticket (Closed tk r n now wall) = tk"

fun ev_times :: "settlement \<Rightarrow> pyfloat \<times> pyfloat" where
  "ev_times (Once tk r now wall) = (now, wall)" | "ev_times (Opened tk r now wall) = (now, wall)"
| "ev_times (Closed tk r n now wall) = (now, wall)"

lemma settle_exact:
  "settle ev gw = (case owed ev of
      None \<Rightarrow> gw
    | Some u \<Rightarrow> meter_request (ev_ticket ev) (completion_tokens u) (succeeded u) (fst (ev_times ev)) (snd (ev_times ev)) gw)"
  by (cases ev rule: owed.cases) (auto simp: settle_once_def settle_open_def close_stream_def usage_of_def)

lemma owed_form:
  "owed ev = Some u \<Longrightarrow>
   usage_of (ev_ticket ev) (completion_tokens u) (succeeded u) (fst (ev_times ev)) (snd (ev_times ev)) = u
   \<and> 0 \<le> completion_tokens u"
  by (cases ev rule: owed.cases)
    (auto simp: usage_of_def estimate_tokens_nonneg generated_chars_nonneg split: if_splits)

lemma settle_meter:
  assumes "gw_meter gw = Some m"
  shows "gw_meter (settle ev gw) = Some (meter_run (case owed ev of None \<Rightarrow> [] | Some u \<Rightarrow> [u]) m)"
  using assms owed_form [of ev]
  by (auto simp: settle_exact meter_run_def meter_request_meter split: option.splits)

lemma settle_account:
  assumes "credited ev \<noteq> Some k"
  shows "account_of k (settle ev gw) = account_of k gw"
proof (cases "owed ev")
  case (Some u)
  have "us_node_id u = node_id (tk_node (ev_ticket ev))"
    using arg_cong [OF conjunct1 [OF owed_form [OF Some]], of us_node_id] by (simp add: usage_of_def)
  then have "succeeded u \<longrightarrow> node_id (tk_node (ev_ticket ev)) \<noteq> k" using assms Some by (auto simp: credited_def)
  then show ?thesis unfolding settle_exact Some option.case by (rule meter_request_account)
qed (simp add: settle_exact)

section \<open>The order of model names\<close>

lemma str_le_refl [simp]: "str_le s s"
  by (induction s) simp_all

lemma str_le_total: "str_le s t \<or> str_le t s"
proof (induction s t rule: str_le.induct)
  case (3 c cs d ds)
  have "code_of c < code_of d \<or> c = d \<or> code_of d < code_of c" by (metis linorder_neqE_nat of_char_eq_iff)
  then show ?case using 3 by auto
qed simp_all

lemma str_le_trans: "str_le s t \<Longrightarrow> str_le t u \<Longrightarrow> str_le s u"
proof (induction s t arbitrary: u rule: str_le.induct)
  case (3 c cs d ds)
  then show ?case by (cases u) auto
qed simp_all

definition strictly_sorted :: "string list \<Rightarrow> bool" where
  "strictly_sorted ms = sorted_wrt (\<lambda>a b. a \<noteq> b \<and> str_le a b) ms"

lemma str_le_antisym: "str_le s t \<Longrightarrow> str_le t s \<Longrightarrow> s = t"
  by (induction s t rule: str_le.induct) (auto elim: str_le.elims)

lemma set_insert_model [simp]: "set (insert_model m ms) = insert m (set ms)"
  by (induction ms) auto

lemma strictly_sorted_insert: "strictly_sorted ms \<Longrightarrow> strictly_sorted (insert_model m ms)"
proof (induction ms)
  case (Cons x xs)
  have "m \<noteq> y \<and> str_le m y" if "m \<noteq> x" "str_le m x" "y \<in> set xs" for y
  proof -
    have "x \<noteq> y" "str_le x y" using Cons.prems that(3) by (auto simp: strictly_sorted_def)
    then show ?thesis using that str_le_trans str_le_antisym by blast
  qed
  moreover have "x \<noteq> m \<and> str_le x m" if "m \<noteq> x" "\<not> str_le m x" using that str_le_total by blast
  ultimately show ?case using Cons by (auto simp: strictly_sorted_def)
qed (simp add: strictly_sorted_def)

lemma fold_insert_models:
  "strictly_sorted ms \<Longrightarrow> strictly_sorted (fold insert_model xs ms) \<and> set (fold insert_model xs ms) = set xs \<union> set ms"
  by (induction xs arbitrary: ms) (auto simp: strictly_sorted_insert)

lemma fold_catalogue:
  "strictly_sorted ms \<Longrightarrow> strictly_sorted (fold (\<lambda>n ms. fold insert_model (available_models n) ms) ns ms)
   \<and> set (fold (\<lambda>n ms. fold insert_model (available_models n) ms) ns ms) = (\<Union>n\<in>set ns. set (available_models n)) \<union> set ms"
proof (induction ns arbitrary: ms)
  case (Cons n ns)
  have "strictly_sorted (fold insert_model (available_models n) ms)" using Cons.prems fold_insert_models by blast
  from Cons.IH [OF this] show ?case using fold_insert_models [OF Cons.prems, of "available_models n"] by auto
qed simp

section \<open>Admission\<close>

lemma run_engine_fields:
  "run_engine lib uuid task gw = (x, gw') \<Longrightarrow> gw' = gw\<lparr>gw_registry := gw_registry gw'\<rparr>"
  by (auto simp: run_engine_def split: prod.splits)

lemma rate_guard_fields: "rate_guard tenant now gw = (x, gw') \<Longrightarrow> gw' = gw\<lparr>gw_limiter := gw_limiter gw'\<rparr>"
  by (auto simp: rate_guard_def split: option.splits prod.splits sum.splits if_splits)

lemma rate_guard_Inr:
  "rate_guard tenant now gw = (Inr u, gw') \<Longrightarrow> gw_limiter gw = Some l \<Longrightarrow> fst (acquire tenant now l) = Inr True"
  by (auto simp: rate_guard_def split: prod.splits sum.splits if_splits)

definition serves :: "string \<Rightarrow> node \<Rightarrow> bool" where
  "serves model n = (model = [] \<or> model \<in> set (available_models n))"

lemma bump_queue_nodes: "reg_nodes (snd (bump_queue k r)) = reg_nodes r"
  by (simp add: bump_queue_def Let_def split: sum.splits)

text \<open>The node the engine picks, in terms of the registry it looked at and the one it leaves.\<close>

lemma run_engine_Inr:
  assumes "run_engine lib uuid (completion_task task_id model) gw = (Inr (tx, k), gw')" "reg_inv (gw_registry gw)"
  shows "\<exists>n. registry_get k (gw_registry gw') = Some n \<and> node_id n = k \<and> serves model n \<and> \<not> skip_quarantined (gw_canary gw) n"
proof -
  let ?r = "gw_registry gw" and ?rep = "py_repr (gl_mesh lib)"
  let ?reqs = "[(''model_name'', JStr model)]"
  have rq: "requirements_of (completion_task task_id model) = Inr ?reqs"
    by (simp add: requirements_of_def completion_task_def dget_or_def)
  obtain es n x rest where e: "filter_nodes ?rep (gw_canary gw) ?r ?reqs (registry_list ?r) = Inr es"
    "score_nodes ?r (completion_task task_id model) es = Inr ((n, x) # rest)" "k = node_id n"
    "bump_queue (node_id n) ?r = (Inr (), gw_registry gw')"
    using assms(1) rq by (auto simp: run_engine_def schedule_task_def rbind_eq_Inr split: sum.splits if_splits list.splits prod.splits)
  have n: "n \<in> set (registry_list ?r)" "admissible_node ?rep (gw_canary gw) ?r ?reqs n"
    using matchmaker.best_is_admissible [OF e(1,2)] by auto
  have "reg_nodes (gw_registry gw') = reg_nodes ?r"
    using bump_queue_nodes [of "node_id n" ?r] e(4) by simp
  then have "registry_get k (gw_registry gw') = Some n"
    using registry_list_get [OF assms(2) n(1)] e(3) by (simp add: registry_get_def)
  moreover have "serves model n" "\<not> skip_quarantined (gw_canary gw) n"
    using n(2) by (cases "model = []"; auto simp: admissible_node_def serves_def model_requirement_def py_or_def jget_def dget_or_def)+
  ultimately show ?thesis using e(3) by blast
qed

lemma choose_node_Inr:
  assumes "choose_node lib task_id model gw = (Inr k, gw')" "reg_inv (gw_registry gw)"
  shows "\<exists>n. registry_get k (gw_registry gw') = Some n \<and> node_id n = k \<and> serves model n
      \<and> (gw_engine gw \<longrightarrow> \<not> skip_quarantined (gw_canary gw) n)"
    and "gw' = gw\<lparr>gw_registry := gw_registry gw'\<rparr>"
proof -
  have "(\<exists>n. registry_get k (gw_registry gw') = Some n \<and> node_id n = k \<and> serves model n
      \<and> (gw_engine gw \<longrightarrow> \<not> skip_quarantined (gw_canary gw) n)) \<and> gw' = gw\<lparr>gw_registry := gw_registry gw'\<rparr>"
  proof (cases "gw_engine gw")
    case True
    then obtain tx where "run_engine lib [] (completion_task task_id model) gw = (Inr (tx, k), gw')"
      using assms(1) by (auto simp: choose_node_def split: prod.splits sum.splits exc.splits)
    then show ?thesis using run_engine_Inr [OF _ assms(2)] run_engine_fields by blast
  next
    case False
    then obtain n where n: "List.find (\<lambda>n. model \<in> set (available_models n)) (registry_list (gw_registry gw)) = Some n"
      "k = node_id n" "gw' = gw"
      using assms(1) by (auto simp: choose_node_def split: option.splits)
    then have "n \<in> set (registry_list (gw_registry gw))" "model \<in> set (available_models n)"
      by (auto simp: find_Some_iff)
    then show ?thesis using n False registry_list_get [OF assms(2)] by (auto simp: serves_def)
  qed
  then show "\<exists>n. registry_get k (gw_registry gw') = Some n \<and> node_id n = k \<and> serves model n
      \<and> (gw_engine gw \<longrightarrow> \<not> skip_quarantined (gw_canary gw) n)" and "gw' = gw\<lparr>gw_registry := gw_registry gw'\<rparr>" by auto
qed

lemma choose_node_accounts:
  assumes "choose_node lib task_id model gw = (x, gw')"
  shows "gw_meter gw' = gw_meter gw \<and> gw_ledger gw' = gw_ledger gw"
proof -
  have "gw_meter gw2 = gw_meter gw \<and> gw_ledger gw2 = gw_ledger gw"
    if "run_engine lib uuid task gw = (y, gw2)" for uuid task y gw2
    by (subst (1 2) run_engine_fields [OF that]) simp
  then show ?thesis
    using assms by (auto simp: choose_node_def split: if_splits prod.splits sum.splits exc.splits option.splits)
qed

text \<open>Admission, stage by stage: a refusal before a node is chosen, or the choice.\<close>

lemma begin_completion_stages:
  obtains (refused) e gw1 where "begin_completion lib claims req split_header task_id now started gw = (Inl e, gw1)"
      "gw_meter gw1 = gw_meter gw" "gw_ledger gw1 = gw_ledger gw"
  | (chosen) tenant u gw1 y gw2 where "tenant_of claims = Inr tenant" "rate_guard tenant now gw = (Inr u, gw1)"
      "\<not> split_requested req split_header gw" "choose_node lib task_id (cr_model req) gw1 = (y, gw2)"
      "gw1 = gw\<lparr>gw_limiter := gw_limiter gw1\<rparr>"
proof (cases "tenant_of claims")
  case (Inl e)
  then show ?thesis using refused by (simp add: begin_completion_def)
next
  case tenant: (Inr tenant)
  obtain x gw1 where g: "rate_guard tenant now gw = (x, gw1)" by fastforce
  have f: "gw1 = gw\<lparr>gw_limiter := gw_limiter gw1\<rparr>" using g by (rule rate_guard_fields)
  have same: "gw_meter gw1 = gw_meter gw" "gw_ledger gw1 = gw_ledger gw"
    "split_requested req split_header gw1 = split_requested req split_header gw"
    by (subst f; simp add: split_requested_def)+
  show ?thesis
  proof (cases x)
    case (Inl e)
    then show ?thesis using refused [of e gw1] tenant g same by (simp add: begin_completion_def)
  next
    case granted: (Inr u)
    show ?thesis
    proof (cases "split_requested req split_header gw")
      case True
      then show ?thesis using refused [of _ gw1] tenant g granted same by (simp add: begin_completion_def)
    next
      case False
      obtain y gw2 where "choose_node lib task_id (cr_model req) gw1 = (y, gw2)" by fastforce
      then show ?thesis using chosen tenant g granted False f by blast
    qed
  qed
qed

lemma begin_completion_accounts:
  assumes "begin_completion lib claims req split_header task_id now started gw = (out, gw')"
  shows "gw_meter gw' = gw_meter gw \<and> gw_ledger gw' = gw_ledger gw"
proof (cases rule: begin_completion_stages [of lib claims req split_header task_id now started gw])
  case (refused e gw1)
  then show ?thesis using assms by simp
next
  case (chosen tenant u gw1 y gw2)
  have "gw_meter gw1 = gw_meter gw" "gw_ledger gw1 = gw_ledger gw" "split_requested req split_header gw1 = split_requested req split_header gw"
    by (subst chosen(5); simp add: split_requested_def)+
  moreover from this have "gw' = gw2" using assms chosen(1-4)
    by (auto simp: begin_completion_def split: sum.splits option.splits)
  ultimately show ?thesis using choose_node_accounts [OF chosen(4)] by simp
qed

lemma begin_completion_ticket:
  assumes "begin_completion lib claims req split_header task_id now started gw = (Inr tk, gw')" "reg_inv (gw_registry gw)"
  shows "tenant_of claims = Inr (tk_tenant tk) \<and> (\<exists>u gw1. rate_guard (tk_tenant tk) now gw = (Inr u, gw1))
    \<and> \<not> split_requested req split_header gw
    \<and> registry_get (node_id (tk_node tk)) (gw_registry gw') = Some (tk_node tk) \<and> serves (cr_model req) (tk_node tk)
    \<and> (gw_engine gw \<longrightarrow> \<not> skip_quarantined (gw_canary gw) (tk_node tk))"
proof (cases rule: begin_completion_stages [of lib claims req split_header task_id now started gw])
  case (refused e gw1)
  then show ?thesis using assms(1) by simp
next
  case (chosen tenant u gw1 y gw2)
  have same: "gw_registry gw1 = gw_registry gw" "gw_engine gw1 = gw_engine gw" "gw_canary gw1 = gw_canary gw"
    "split_requested req split_header gw1 = split_requested req split_header gw"
    by (subst chosen(5); simp add: split_requested_def)+
  obtain k where k: "y = Inr k" "registry_get k (gw_registry gw2) = Some (tk_node tk)" "tk_tenant tk = tenant" "gw' = gw2"
    using assms(1) chosen(1-4) same(4) by (auto simp: begin_completion_def split: sum.splits option.splits)
  obtain n where "registry_get k (gw_registry gw2) = Some n" "node_id n = k" "serves (cr_model req) n"
      "gw_engine gw \<longrightarrow> \<not> skip_quarantined (gw_canary gw) n"
    using choose_node_Inr(1) [of lib task_id "cr_model req" gw1 k gw2] chosen(4) k(1) same assms(2) by auto
  then show ?thesis using k chosen by simp
qed

section \<open>Properties\<close>

text \<open>
  C11. The gateway's authentication. A request passes only with a Bearer token that verifies under a
  configured key and names a tenant; the \<^verbatim>\<open>kid\<close> header has no say in that. Every refusal is a 401, with
  no key configured everything is refused, and a well-formed request is refused only if no configured key
  verifies its token or a verified token lacks the tenant.
\<close>

theorem jwt_gate:
  "case verify_jwt lib primary secondary auth of
     Inr claims \<Rightarrow>
       (\<exists>h key. auth = Some h \<and> startswith h ''Bearer '' \<and> key \<noteq> [] \<and> (primary = Some key \<or> secondary = Some key)
          \<and> jwt_decode lib (py_split (CHR '' '') h ! 1) key = Some claims \<and> dmem ''tenant_id'' claims)
   | Inl e \<Rightarrow>
       (\<exists>m. e = HTTPException 401 m)
       \<and> (\<forall>h. auth = Some h \<and> startswith h ''Bearer '' \<longrightarrow>
            (\<forall>key. key \<noteq> [] \<and> (primary = Some key \<or> secondary = Some key) \<longrightarrow>
               jwt_decode lib (py_split (CHR '' '') h ! 1) key = None)
          \<or> (\<exists>key claims. (primary = Some key \<or> secondary = Some key)
               \<and> jwt_decode lib (py_split (CHR '' '') h ! 1) key = Some claims \<and> \<not> dmem ''tenant_id'' claims))"
proof (cases "\<exists>h. auth = Some h \<and> startswith h ''Bearer ''")
  case False
  then show ?thesis by (auto simp: verify_jwt_def split: option.splits)
next
  case True
  then obtain h where h: "auth = Some h" "startswith h ''Bearer ''" by blast
  let ?token = "py_split (CHR '' '') h ! 1" and ?keys = "verification_keys primary secondary"
  show ?thesis
  proof (cases "?keys = []")
    case True
    then have "\<forall>key. key \<noteq> [] \<and> (primary = Some key \<or> secondary = Some key) \<longrightarrow> False"
      using set_verification_keys [of _ primary secondary] by fastforce
    then show ?thesis using h True by (auto simp: verify_jwt_def Let_def)
  next
    case keys: False
    show ?thesis
    proof (cases "decode_with_any lib ?token ?keys")
      case None
      then show ?thesis using h keys decode_with_any_None [of lib ?token primary secondary]
        by (simp add: verify_jwt_def Let_def)
    next
      case (Some claims)
      then obtain key where "key \<noteq> []" "primary = Some key \<or> secondary = Some key" "jwt_decode lib ?token key = Some claims"
        using decode_with_any_Some by blast
      then show ?thesis using h keys Some by (auto simp: verify_jwt_def Let_def)
    qed
  qed
qed

text \<open>
  Admission of a completion. A request that gets a ticket has a tenant, took a token from that
  tenant's bucket, did not ask for split inference, and is bound to a registered node that advertises the
  model (an empty model name is not checked by the engine) and, when the engine chose it, is not
  quarantined. Whatever the outcome, admission leaves usage records and credits alone.
\<close>

theorem completion_admission:
  assumes "begin_completion lib claims req split_header task_id now started gw = (out, gw')" "reg_inv (gw_registry gw)"
  shows "gw_meter gw' = gw_meter gw \<and> gw_ledger gw' = gw_ledger gw
    \<and> (\<forall>tk. out = Inr tk \<longrightarrow>
         tk_tenant tk \<noteq> [] \<and> jget claims ''tenant_id'' = JStr (tk_tenant tk)
       \<and> (\<forall>l. gw_limiter gw = Some l \<longrightarrow> fst (acquire (tk_tenant tk) now l) = Inr True)
       \<and> \<not> split_requested req split_header gw
       \<and> registry_get (node_id (tk_node tk)) (gw_registry gw') = Some (tk_node tk)
       \<and> serves (cr_model req) (tk_node tk)
       \<and> (gw_engine gw \<longrightarrow> \<not> skip_quarantined (gw_canary gw) (tk_node tk)))"
proof -
  have tenant: "t \<noteq> [] \<and> jget claims ''tenant_id'' = JStr t" if "tenant_of claims = Inr t" for t
    using that by (auto simp: tenant_of_def split: json.splits if_splits)
  show ?thesis
    using begin_completion_accounts [OF assms(1)] begin_completion_ticket [OF _ assms(2)] assms(1) tenant rate_guard_Inr by blast
qed

text \<open>
  C3. Accounting of completions. Over any sequence of settlements, single or streamed, completed, failed or
  abandoned half way, the meter receives exactly the usage records owed, once each and in order; a record
  says \<^verbatim>\<open>succeeded\<close> only for a completion that was delivered to its end; and the account of a node changes
  only through a successful completion it served.
\<close>

theorem settlements_accounted:
  assumes "gw_meter gw = Some m"
  shows "gw_meter (settle_all evs gw) = Some (meter_run (List.map_filter owed evs) m)
    \<and> ((\<forall>ev\<in>set evs. credited ev \<noteq> Some k) \<longrightarrow> account_of k (settle_all evs gw) = account_of k gw)"
  using assms
proof (induction evs arbitrary: gw m)
  case (Cons ev evs)
  have "gw_meter (settle ev gw) = Some (meter_run (case owed ev of None \<Rightarrow> [] | Some u \<Rightarrow> [u]) m)"
    using Cons.prems by (rule settle_meter)
  from Cons.IH [OF this] show ?case
    using settle_account [of ev k gw]
    by (auto simp: settle_all_def List.map_filter_simps meter_run_def split: option.splits)
qed (simp_all add: settle_all_def meter_run_def List.map_filter_simps)

text \<open>
  The catalogue lists every model some node advertises, each once, in order of code points, and a model
  can be retrieved exactly if it is listed.
\<close>

theorem catalogue_exact:
  assumes "list_models configured header gw = Inr ms"
  shows "strictly_sorted ms \<and> set ms = (\<Union>n\<in>set (registry_list (gw_registry gw)). set (available_models n))
    \<and> (\<forall>model. get_model configured header model gw = Inr model \<longleftrightarrow> model \<in> set ms)"
proof -
  have auth: "verify_auth_token configured header = Inr ()"
    and ms: "ms = fold (\<lambda>n ms. fold insert_model (available_models n) ms) (registry_list (gw_registry gw)) []"
    using assms by (auto simp: list_models_def rbind_eq_Inr)
  have sorted: "strictly_sorted ms" and mem: "set ms = (\<Union>n\<in>set (registry_list (gw_registry gw)). set (available_models n))"
    using fold_catalogue [of "[]" "registry_list (gw_registry gw)"] ms by (simp_all add: strictly_sorted_def)
  then show ?thesis by (auto simp: get_model_def auth list_ex_iff)
qed

section \<open>Witnesses\<close>

definition sample_jwt :: jwt_lib where
  "sample_jwt = \<lparr>unverified_kid = (\<lambda>_. Some ''secondary''),
     jwt_decode = (\<lambda>token key. if token = ''tok'' \<and> key = ''new'' then Some [(''tenant_id'', JStr ''acme'')] else None)\<rparr>"

text \<open>During a rotation: a token signed with the secondary key passes, one that verifies under no key does not.\<close>

theorem jwt_gate_witness:
  "verify_jwt sample_jwt (Some ''old'') (Some ''new'') (Some ''Bearer tok'') = Inr [(''tenant_id'', JStr ''acme'')]
   \<and> (\<exists>e. verify_jwt sample_jwt (Some ''old'') None (Some ''Bearer tok'') = Inl e \<and> (\<exists>m. e = HTTPException 401 m))"
proof
  show "verify_jwt sample_jwt (Some ''old'') (Some ''new'') (Some ''Bearer tok'') = Inr [(''tenant_id'', JStr ''acme'')]"
    by (simp add: verify_jwt_def sample_jwt_def startswith_def Let_def verification_keys_def configured_key_def KID_PRIMARY_def
        KID_SECONDARY_def decode_with_any_def ordered_keys_def dmem_def)
  have "\<exists>e. verify_jwt sample_jwt (Some ''old'') None (Some ''Bearer tok'') = Inl e"
    by (simp add: verify_jwt_def sample_jwt_def startswith_def Let_def verification_keys_def configured_key_def KID_PRIMARY_def
        KID_SECONDARY_def decode_with_any_def ordered_keys_def dmem_def)
  then show "\<exists>e. verify_jwt sample_jwt (Some ''old'') None (Some ''Bearer tok'') = Inl e \<and> (\<exists>m. e = HTTPException 401 m)"
    using jwt_gate [where lib = sample_jwt and primary = "Some ''old''" and secondary = None and auth = "Some ''Bearer tok''"] by auto
qed

definition sample_gateway :: gateway where
  "sample_gateway = \<lparr>gw_registry = sample_registry, gw_limiter = None, gw_engine = False, gw_canary = None,
     gw_meter = Some (init_meter None), gw_ledger = Some (init_ledger None),
     gw_settings = \<lparr>ds_network_auth_token = None, ds_node_api_port = 8000, ds_mesh_enabled = True\<rparr>, gw_enable_split = False\<rparr>"

definition sample_chat :: chat_request where
  "sample_chat = \<lparr>cr_model = ''m'', cr_messages = [(''user'', ''hi'')], cr_stream = False, cr_split = False\<rparr>"

definition sample_gw_lib :: gw_lib where
  "sample_gw_lib = \<lparr>gl_mesh = stream_lib, gl_sha256 = id\<rparr>"

definition sample_ticket :: ticket where
  "sample_ticket = \<lparr>tk_id = ''chatcmpl-1'', tk_tenant = ''acme'', tk_node = sample_node ''a'', tk_model = ''m'',
     tk_prompt = messages_to_prompt [(''user'', ''hi'')], tk_started = Fin 0\<rparr>"

lemma sample_begin:
  "begin_completion sample_gw_lib [(''tenant_id'', JStr ''acme'')] sample_chat [] ''chatcmpl-1'' (Fin 0) (Fin 0) sample_gateway
     = (Inr sample_ticket, sample_gateway)"
  by (simp add: begin_completion_def tenant_of_def jget_def dget_or_def rate_guard_def sample_gateway_def split_requested_def
      sample_chat_def py_lower_def choose_node_def sample_registry_def init_registry_def registry_list_def registry_get_def
      sample_node_def sample_ticket_def)

theorem completion_admission_witness:
  "registry_get ''a'' (gw_registry sample_gateway) = Some (tk_node sample_ticket) \<and> serves ''m'' (tk_node sample_ticket)"
proof -
  have "reg_inv (gw_registry sample_gateway)" using sample_registry_inv by (simp add: sample_gateway_def)
  from completion_admission [OF sample_begin this] show ?thesis
    by (simp add: sample_ticket_def sample_node_def sample_chat_def)
qed

text \<open>A stream abandoned after its first chunk: one record, marked failed, and no credit.\<close>

theorem settlements_accounted_witness:
  "gw_meter (settle_all [Closed sample_ticket ([''hello'', ''world''], Completed) (Some 2) (Fin 1) (Fin 5)] sample_gateway)
     = Some (meter_run [usage_of sample_ticket 1 False (Fin 1) (Fin 5)] (init_meter None))
   \<and> account_of ''a'' (settle_all [Closed sample_ticket ([''hello'', ''world''], Completed) (Some 2) (Fin 1) (Fin 5)] sample_gateway) = None"
proof -
  have "gw_meter sample_gateway = Some (init_meter None)" by (simp add: sample_gateway_def)
  from settlements_accounted [OF this, of "[Closed sample_ticket ([''hello'', ''world''], Completed) (Some 2) (Fin 1) (Fin 5)]" "''a''"]
  show ?thesis
    by (simp add: List.map_filter_simps credited_def sse_frames_def closing_frames_def generated_chars_def usage_of_def
        account_of_def sample_gateway_def init_ledger_def)
qed

theorem catalogue_exact_witness:
  "list_models None None sample_gateway = Inr [''m''] \<and> get_model None None ''m'' sample_gateway = Inr ''m''"
proof -
  have l: "list_models None None sample_gateway = Inr [''m'']"
    by (simp add: list_models_def verify_auth_token_def sample_gateway_def sample_registry_def init_registry_def
        registry_list_def sample_node_def)
  from catalogue_exact [OF l] l show ?thesis by simp
qed

end
