(* ===== verification/Mesh_Auth.thy ===== *)
theory Mesh_Auth
  imports Models
begin

text \<open>
  The encrypted envelopes of heartbeats and telemetry (\<^verbatim>\<open>pi_shared/mesh_auth.py\<close>). AES-256-GCM,
  SHA-256, base64 and the JSON codec are the fields of the record \<open>aead_lib\<close>. What the code relies on of
  AES-GCM is the predicate \<open>aead_ok\<close>: decryption inverts encryption, and a ciphertext that decrypts is
  the encryption of its plaintext under that key, nonce and associated data.
\<close>

section \<open>Library functions\<close>

record aead_lib =
  al_json_loads :: "string \<Rightarrow> json option"
  al_json_dumps :: "json \<Rightarrow> string"
  utf8_valid :: "string \<Rightarrow> bool"
  sha256_digest :: "string \<Rightarrow> string"
  b64encode :: "string \<Rightarrow> string"
  b64decode :: "string \<Rightarrow> string option"
  gcm_encrypt :: "string \<Rightarrow> string \<Rightarrow> string \<Rightarrow> string \<Rightarrow> string"
  gcm_decrypt :: "string \<Rightarrow> string \<Rightarrow> string \<Rightarrow> string \<Rightarrow> string option"
  al_repr :: "json \<Rightarrow> string"

section \<open>Keys and context\<close>

definition ENVELOPE_VERSION :: int where
  "ENVELOPE_VERSION = 1"

datatype purpose = PURPOSE_TELEMETRY | PURPOSE_HEARTBEAT

definition purpose_str :: "purpose \<Rightarrow> string" where
  "purpose_str p = (case p of PURPOSE_TELEMETRY \<Rightarrow> ''telemetry'' | PURPOSE_HEARTBEAT \<Rightarrow> ''heartbeat'')"

definition mesh_context :: "purpose \<Rightarrow> string" where
  "mesh_context p = ''public-intelligence|mesh|v'' @ str_of_int ENVELOPE_VERSION @ ''|'' @ purpose_str p"

definition derive_key :: "aead_lib \<Rightarrow> string \<Rightarrow> purpose \<Rightarrow> string" where
  "derive_key lib token p = sha256_digest lib (token @ ''|'' @ mesh_context p)"

definition associated_data :: "string \<Rightarrow> purpose \<Rightarrow> string" where
  "associated_data k p = mesh_context p @ ''|'' @ k"

section \<open>Sealing and opening\<close>

definition envelope_fields :: "aead_lib \<Rightarrow> string \<Rightarrow> string \<Rightarrow> string \<Rightarrow> jobj" where
  "envelope_fields lib k iv ciphertext =
     [(''v'', JInt ENVELOPE_VERSION), (''node_id'', JStr k), (''iv'', JStr (b64encode lib iv)),
      (''ciphertext'', JStr (b64encode lib ciphertext))]"

text \<open>The nonce \<open>iv\<close> is the twelve random bytes of \<^verbatim>\<open>os.urandom(12)\<close>.\<close>

definition payload_ciphertext :: "aead_lib \<Rightarrow> jobj \<Rightarrow> string \<Rightarrow> string \<Rightarrow> purpose \<Rightarrow> string \<Rightarrow> string" where
  "payload_ciphertext lib payload k token p iv =
     gcm_encrypt lib (derive_key lib token p) iv (al_json_dumps lib (JObj payload)) (associated_data k p)"

definition seal :: "aead_lib \<Rightarrow> jobj \<Rightarrow> string \<Rightarrow> string \<Rightarrow> purpose \<Rightarrow> string \<Rightarrow> string" where
  "seal lib payload k token p iv =
     al_json_dumps lib (JObj (envelope_fields lib k iv (payload_ciphertext lib payload k token p iv)))"

fun same_version :: "json \<Rightarrow> bool" where
  "same_version (JInt n) = (n = ENVELOPE_VERSION)"
| "same_version (JBool b) = b"
| "same_version (JFloat f) = (f = Fin 1)"
| "same_version _ = False"

definition decrypt_envelope :: "aead_lib \<Rightarrow> string \<Rightarrow> string \<Rightarrow> string \<Rightarrow> string \<Rightarrow> purpose \<Rightarrow> string option" where
  "decrypt_envelope lib iv_b64 ct_b64 k token p =
     (case (b64decode lib iv_b64, b64decode lib ct_b64) of
        (Some iv, Some ct) \<Rightarrow> gcm_decrypt lib (derive_key lib token p) iv ct (associated_data k p)
      | _ \<Rightarrow> None)"

text \<open>
  \<^verbatim>\<open>json.loads\<close> on the decrypted bytes decodes them as UTF-8 first; that failure is not a
  \<^verbatim>\<open>JSONDecodeError\<close> and is not translated.
\<close>

definition open_envelope :: "aead_lib \<Rightarrow> string \<Rightarrow> string \<Rightarrow> string \<Rightarrow> purpose \<Rightarrow> jobj res" where
  "open_envelope lib raw k token p =
     (case al_json_loads lib raw of
        None \<Rightarrow> Inl (MeshAuthError ''envelope is not JSON'')
      | Some (JObj env) \<Rightarrow>
          if \<not> same_version (jget env ''v'')
          then Inl (MeshAuthError (''unsupported envelope version: '' @ al_repr lib (jget env ''v'')))
          else (case (jget env ''iv'', jget env ''ciphertext'') of
             (JStr iv_b64, JStr ct_b64) \<Rightarrow>
               if jget env ''node_id'' \<noteq> JStr k
               then Inl (MeshAuthError (''envelope claims another node_id on the topic of '' @ k))
               else (case decrypt_envelope lib iv_b64 ct_b64 k token p of
                  None \<Rightarrow> Inl (MeshAuthError ''verification failed'')
                | Some plaintext \<Rightarrow>
                    if \<not> utf8_valid lib plaintext then Inl (ValueError ''UnicodeDecodeError'')
                    else (case al_json_loads lib plaintext of
                       None \<Rightarrow> Inl (MeshAuthError ''decrypted payload is not JSON'')
                     | Some (JObj payload) \<Rightarrow> Inr payload
                     | Some _ \<Rightarrow> Inl (MeshAuthError ''decrypted payload is not an object'')))
           | _ \<Rightarrow> Inl (MeshAuthError ''envelope is missing iv or ciphertext''))
      | Some _ \<Rightarrow> Inl (MeshAuthError ''envelope is not an object''))"

section \<open>What AES-GCM provides\<close>

definition aead_ok :: "aead_lib \<Rightarrow> bool" where
  "aead_ok lib \<longleftrightarrow>
     (\<forall>key iv ct aad pt. gcm_decrypt lib key iv ct aad = Some pt \<longrightarrow> ct = gcm_encrypt lib key iv pt aad)
     \<and> (\<forall>key iv aad pt. length iv = 12 \<longrightarrow> gcm_decrypt lib key iv (gcm_encrypt lib key iv pt aad) aad = Some pt)"

text \<open>The JSON codec reads back what it wrote, and writes ASCII.\<close>

definition json_stable :: "aead_lib \<Rightarrow> jobj \<Rightarrow> bool" where
  "json_stable lib d \<longleftrightarrow> al_json_loads lib (al_json_dumps lib (JObj d)) = Some (JObj d) \<and> utf8_valid lib (al_json_dumps lib (JObj d))"

text \<open>An envelope made for one node and purpose with one credential: what opening demands of the bytes.\<close>

definition sealed_for :: "aead_lib \<Rightarrow> string \<Rightarrow> string \<Rightarrow> string \<Rightarrow> purpose \<Rightarrow> jobj \<Rightarrow> bool" where
  "sealed_for lib raw k token p payload \<longleftrightarrow>
     (\<exists>env iv_b64 ct_b64 iv pt. al_json_loads lib raw = Some (JObj env)
        \<and> jget env ''node_id'' = JStr k \<and> jget env ''iv'' = JStr iv_b64 \<and> jget env ''ciphertext'' = JStr ct_b64
        \<and> b64decode lib iv_b64 = Some iv
        \<and> b64decode lib ct_b64 = Some (gcm_encrypt lib (sha256_digest lib (token @ ''|'' @ mesh_context p)) iv pt (associated_data k p))
        \<and> al_json_loads lib pt = Some (JObj payload))"

lemma open_envelope_sealed:
  assumes "open_envelope lib raw k token p = Inr payload" "aead_ok lib"
  shows "sealed_for lib raw k token p payload"
proof -
  obtain env iv_b64 ct_b64 pt where e: "al_json_loads lib raw = Some (JObj env)" "jget env ''node_id'' = JStr k"
    "jget env ''iv'' = JStr iv_b64" "jget env ''ciphertext'' = JStr ct_b64"
    "decrypt_envelope lib iv_b64 ct_b64 k token p = Some pt" "al_json_loads lib pt = Some (JObj payload)"
    using assms(1) by (auto simp: open_envelope_def split: option.splits json.splits if_splits)
  obtain iv ct where d: "b64decode lib iv_b64 = Some iv" "b64decode lib ct_b64 = Some ct"
    "gcm_decrypt lib (derive_key lib token p) iv ct (associated_data k p) = Some pt"
    using e(5) by (auto simp: decrypt_envelope_def split: option.splits)
  have "ct = gcm_encrypt lib (derive_key lib token p) iv pt (associated_data k p)"
    using d(3) assms(2) unfolding aead_ok_def by blast
  then show ?thesis using e d(1,2) unfolding sealed_for_def derive_key_def by blast
qed

section \<open>Separation of contexts\<close>

lemma length_version: "length (str_of_int ENVELOPE_VERSION) = 1"
  by (simp add: ENVELOPE_VERSION_def str_of_int_def nat_digits.simps)

lemma mesh_context_inject: "mesh_context p = mesh_context q \<longleftrightarrow> p = q"
  by (cases p; cases q) (simp_all add: mesh_context_def purpose_str_def)

lemma mesh_context_length: "length (mesh_context p) = 37"
  by (cases p) (simp_all add: mesh_context_def purpose_str_def length_version)

lemma associated_data_inject: "associated_data k p = associated_data k' p' \<longleftrightarrow> k = k' \<and> p = p'"
  unfolding associated_data_def
  by (auto simp: append_eq_append_conv mesh_context_length mesh_context_inject)

lemma key_material_inject:
  "token @ ''|'' @ mesh_context p = token' @ ''|'' @ mesh_context p' \<longleftrightarrow> token = token' \<and> p = p'"
proof -
  have "token @ ''|'' @ mesh_context p = token' @ ''|'' @ mesh_context p' \<longleftrightarrow>
      token = token' \<and> ''|'' @ mesh_context p = ''|'' @ mesh_context p'"
    by (rule append_eq_append_conv) (simp add: mesh_context_length)
  then show ?thesis by (simp add: mesh_context_inject)
qed

section \<open>Properties\<close>

text \<open>
  Sealing and opening are inverse: what a node seals with its credential the Scheduler opens to
  the same payload under the same node, credential and purpose. The hypotheses are that the library
  functions invert each other on the values at hand.
\<close>

theorem envelope_roundtrip:
  assumes "aead_ok lib" "length iv = 12" "\<forall>x. b64decode lib (b64encode lib x) = Some x" "json_stable lib payload"
    "json_stable lib (envelope_fields lib k iv (payload_ciphertext lib payload k token p iv))"
  shows "open_envelope lib (seal lib payload k token p iv) k token p = Inr payload"
proof -
  have "decrypt_envelope lib (b64encode lib iv) (b64encode lib (payload_ciphertext lib payload k token p iv)) k token p
      = Some (al_json_dumps lib (JObj payload))"
    using assms(1-3) by (simp add: decrypt_envelope_def payload_ciphertext_def aead_ok_def)
  then show ?thesis
    using assms(4,5)
    by (simp add: open_envelope_def seal_def json_stable_def envelope_fields_def jget_def dget_or_def)
qed

text \<open>
  Only the holder of the node's credential gets through: an envelope that opens for a node and
  purpose carries a ciphertext that is the encryption, under the key derived from that node's
  credential for that purpose and bound to that node and purpose, of the payload returned. The
  derivations are injective: another credential or another purpose gives another key input, another
  node or purpose other associated data. Whatever does not open raises \<^verbatim>\<open>MeshAuthError\<close>, except an
  authentic plaintext that is not UTF-8.
\<close>

theorem envelope_authentic:
  assumes "aead_ok lib"
  shows "(\<forall>payload. open_envelope lib raw k token p = Inr payload \<longrightarrow> sealed_for lib raw k token p payload)
    \<and> (\<forall>e. open_envelope lib raw k token p = Inl e \<longrightarrow> (\<exists>m. e = MeshAuthError m) \<or> e = ValueError ''UnicodeDecodeError'')
    \<and> (\<forall>k' p'. associated_data k p = associated_data k' p' \<longrightarrow> k = k' \<and> p = p')
    \<and> (\<forall>token' p'. token @ ''|'' @ mesh_context p = token' @ ''|'' @ mesh_context p' \<longrightarrow> token = token' \<and> p = p')"
proof (intro conjI allI impI)
  fix e assume "open_envelope lib raw k token p = Inl e"
  then show "(\<exists>m. e = MeshAuthError m) \<or> e = ValueError ''UnicodeDecodeError''"
    by (auto simp: open_envelope_def split: option.splits json.splits if_splits)
qed (use open_envelope_sealed [OF _ assms] associated_data_inject key_material_inject in blast)+

text \<open>A model of the library in which encryption writes out its arguments.\<close>

definition pack :: "string \<Rightarrow> string" where
  "pack s = concat (map (\<lambda>c. [CHR ''x'', c]) s) @ ''.''"

fun unpack :: "string \<Rightarrow> (string \<times> string) option" where
  "unpack (a # rest) =
     (if a = CHR ''.'' then Some ([], rest)
      else (case rest of
          [] \<Rightarrow> None
        | c # s \<Rightarrow> if a = CHR ''x'' then (case unpack s of None \<Rightarrow> None | Some (t, r) \<Rightarrow> Some (c # t, r)) else None))"
| "unpack [] = None"

lemma unpack_pack: "unpack (pack s @ r) = Some (s, r)"
  by (induction s) (simp_all add: pack_def)

lemma pack_unpack: "unpack t = Some (s, r) \<Longrightarrow> t = pack s @ r"
  by (induction t arbitrary: s rule: unpack.induct) (auto simp: pack_def split: if_splits option.splits list.splits)

definition blank_aead :: aead_lib where
  "blank_aead = \<lparr>al_json_loads = (\<lambda>_. None), al_json_dumps = (\<lambda>_. ''p''), utf8_valid = (\<lambda>_. True), sha256_digest = id,
     b64encode = id, b64decode = Some,
     gcm_encrypt = (\<lambda>key iv pt aad. pack key @ pack iv @ pack aad @ pt),
     gcm_decrypt = (\<lambda>key iv ct aad. if take (length (pack key @ pack iv @ pack aad)) ct = pack key @ pack iv @ pack aad
        then Some (drop (length (pack key @ pack iv @ pack aad)) ct) else None),
     al_repr = (\<lambda>_. [])\<rparr>"

definition beat_payload :: jobj where
  "beat_payload = [(''node_id'', JStr ''n'')]"

definition beat_envelope :: jobj where
  "beat_envelope = envelope_fields blank_aead ''n'' (replicate 12 CHR ''i'')
     (payload_ciphertext blank_aead beat_payload ''n'' ''t'' PURPOSE_HEARTBEAT (replicate 12 CHR ''i''))"

text \<open>A codec that knows two documents, the payload and its envelope.\<close>

definition sample_aead :: aead_lib where
  "sample_aead = blank_aead\<lparr>
     al_json_loads := (\<lambda>s. if s = ''p'' then Some (JObj beat_payload) else if s = ''e'' then Some (JObj beat_envelope) else None),
     al_json_dumps := (\<lambda>j. if j = JObj beat_payload then ''p'' else ''e'')\<rparr>"

lemma sample_aead_ok: "aead_ok sample_aead"
proof -
  have "(if take (length a) ct = a then Some (drop (length a) ct) else None) = Some pt \<longleftrightarrow> ct = a @ pt" for a ct pt :: string
    by (auto simp: append_eq_conv_conj) (metis append_take_drop_id)
  from this [of "pack _ @ pack _ @ pack _"] show ?thesis by (simp add: aead_ok_def sample_aead_def blank_aead_def)
qed

lemma sample_codec:
  "envelope_fields sample_aead ''n'' (replicate 12 CHR ''i'')
     (payload_ciphertext sample_aead beat_payload ''n'' ''t'' PURPOSE_HEARTBEAT (replicate 12 CHR ''i'')) = beat_envelope"
  "json_stable sample_aead beat_payload" "json_stable sample_aead beat_envelope"
proof -
  have ne: "beat_envelope \<noteq> beat_payload"
    by (simp add: beat_envelope_def beat_payload_def envelope_fields_def)
  show "envelope_fields sample_aead ''n'' (replicate 12 CHR ''i'')
     (payload_ciphertext sample_aead beat_payload ''n'' ''t'' PURPOSE_HEARTBEAT (replicate 12 CHR ''i'')) = beat_envelope"
    by (simp add: beat_envelope_def sample_aead_def blank_aead_def envelope_fields_def payload_ciphertext_def derive_key_def)
  show "json_stable sample_aead beat_payload" "json_stable sample_aead beat_envelope"
    using ne by (simp_all add: json_stable_def sample_aead_def blank_aead_def)
qed

theorem envelope_roundtrip_witness:
  "open_envelope sample_aead (seal sample_aead beat_payload ''n'' ''t'' PURPOSE_HEARTBEAT (replicate 12 CHR ''i''))
     ''n'' ''t'' PURPOSE_HEARTBEAT = Inr [(''node_id'', JStr ''n'')]"
  using envelope_roundtrip [OF sample_aead_ok, of "replicate 12 CHR ''i''" beat_payload "''n''" "''t''" PURPOSE_HEARTBEAT]
    sample_codec by (simp add: sample_aead_def blank_aead_def beat_payload_def)

lemma sample_opens: "open_envelope sample_aead ''e'' ''n'' ''t'' PURPOSE_HEARTBEAT = Inr beat_payload"
  by code_simp

theorem envelope_authentic_witness:
  "open_envelope sample_aead ''e'' ''n'' ''t'' PURPOSE_HEARTBEAT = Inr beat_payload
   \<and> sealed_for sample_aead ''e'' ''n'' ''t'' PURPOSE_HEARTBEAT beat_payload
   \<and> associated_data ''n'' PURPOSE_HEARTBEAT \<noteq> associated_data ''m'' PURPOSE_HEARTBEAT"
  using envelope_authentic [OF sample_aead_ok, of "''e''" "''n''" "''t''" PURPOSE_HEARTBEAT] sample_opens by auto

end
