(* ===== verification/Zenoh_Router.thy ===== *)
theory Zenoh_Router
  imports Registry Mesh_Auth
begin

text \<open>
  \<^verbatim>\<open>ZenohRouter\<close> (\<^verbatim>\<open>scheduler/core/zenoh_router.py\<close>): what the Scheduler does with the messages of the
  mesh. A zenoh callback runs in a foreign thread and only queues a task on the event loop; the task
  runs later. No coroutine it awaits ever suspends (the store is synchronous, so the registry's lock
  is never contended), hence a task and a sweep are each one step, and the HTTP operations on the
  registry happen between them. Two library functions are arguments: pydantic's construction of a
  \<^verbatim>\<open>Heartbeat\<close> and \<^verbatim>\<open>datetime.fromisoformat\<close>, whose value is in microseconds since the epoch.
\<close>

section \<open>State\<close>

record router_lib =
  rl_aead :: aead_lib
  heartbeat_of :: "jobj \<Rightarrow> heartbeat option"
  from_isoformat :: "string \<Rightarrow> int option"

datatype mesh_task =
    ProcessHeartbeat string string
  | ProcessTelemetry string string
  | ProcessAlive string
  | ProcessDeathrattle string

record router =
  rt_registry :: registry
  rt_last_verified :: "(string, pyfloat) dict"
  rt_stale_after :: pyfloat
  rt_loop :: bool
  rt_session :: bool
  rt_tasks :: "mesh_task list"

definition init_router :: "registry \<Rightarrow> pyfloat \<Rightarrow> router" where
  "init_router reg stale_after =
     \<lparr>rt_registry = reg, rt_last_verified = [], rt_stale_after = stale_after, rt_loop = False, rt_session = False,
      rt_tasks = []\<rparr>"

text \<open>\<open>opened\<close> says whether \<^verbatim>\<open>zenoh.open\<close> succeeded.\<close>

definition start_router :: "bool \<Rightarrow> router \<Rightarrow> router" where
  "start_router opened rt = (if rt_session rt then rt else rt\<lparr>rt_loop := True, rt_session := opened\<rparr>)"

definition stop_router :: "router \<Rightarrow> router" where
  "stop_router rt = (if \<not> rt_session rt then rt else rt\<lparr>rt_loop := False, rt_session := False\<rparr>)"

section \<open>Callbacks\<close>

definition queue_task :: "mesh_task \<Rightarrow> router \<Rightarrow> router" where
  "queue_task t rt = (if rt_loop rt then rt\<lparr>rt_tasks := rt_tasks rt @ [t]\<rparr> else rt)"

definition on_heartbeat :: "string \<Rightarrow> string \<Rightarrow> router \<Rightarrow> router" where
  "on_heartbeat payload key_expr rt = queue_task (ProcessHeartbeat payload key_expr) rt"

definition on_telemetry :: "string \<Rightarrow> string \<Rightarrow> router \<Rightarrow> router" where
  "on_telemetry payload key_expr rt = queue_task (ProcessTelemetry payload key_expr) rt"

definition on_liveliness :: "bool \<Rightarrow> string \<Rightarrow> router \<Rightarrow> router" where
  "on_liveliness is_delete key_expr rt =
     (let parts = py_split (CHR ''/'') key_expr
      in if length parts < 4 then rt
         else if is_delete then queue_task (ProcessDeathrattle (parts ! 3)) rt
         else queue_task (ProcessAlive (parts ! 3)) rt)"

section \<open>Authentication\<close>

definition node_id_from_topic :: "string \<Rightarrow> nat \<Rightarrow> string option" where
  "node_id_from_topic key_expr i =
     (let parts = py_split (CHR ''/'') key_expr
      in if length parts \<le> i \<or> parts ! i = [] then None else Some (parts ! i))"

text \<open>The value is \<^verbatim>\<open>None\<close> for every failure the code catches; any other exception escapes.\<close>

definition open_from_node :: "router_lib \<Rightarrow> string \<Rightarrow> string \<Rightarrow> purpose \<Rightarrow> registry \<Rightarrow> jobj option res" where
  "open_from_node lib raw k p reg =
     (if \<not> registry_exists k reg then Inr None
      else (case get_node_token k reg of
          None \<Rightarrow> Inr None
        | Some token \<Rightarrow>
            if token = [] then Inr None
            else (case open_envelope (rl_aead lib) raw k token p of
               Inr d \<Rightarrow> Inr (Some d)
             | Inl (MeshAuthError m) \<Rightarrow> Inr None
             | Inl e \<Rightarrow> Inl e)))"

section \<open>Heartbeats\<close>

definition process_heartbeat :: "router_lib \<Rightarrow> pyfloat \<Rightarrow> string \<Rightarrow> string \<Rightarrow> router \<Rightarrow> unit res \<times> router" where
  "process_heartbeat lib now payload key_expr rt =
     (case node_id_from_topic key_expr 2 of
        None \<Rightarrow> (Inr (), rt)
      | Some k \<Rightarrow>
          (case open_from_node lib payload k PURPOSE_HEARTBEAT (rt_registry rt) of
             Inl e \<Rightarrow> (Inl e, rt)
           | Inr None \<Rightarrow> (Inr (), rt)
           | Inr (Some data) \<Rightarrow>
               (case heartbeat_of lib data of
                  None \<Rightarrow> (Inr (), rt)
                | Some h \<Rightarrow>
                    if hb_node_id h \<noteq> k then (Inr (), rt)
                    else (case update_heartbeat h (rt_registry rt) of
                       (Inl e, reg) \<Rightarrow> (if is_value_error e then Inr () else Inl e, rt\<lparr>rt_registry := reg\<rparr>)
                     | (Inr _, reg) \<Rightarrow>
                         (Inr (), rt\<lparr>rt_registry := mark_mesh_reachable (hb_node_id h) reg,
                                    rt_last_verified := dset (hb_node_id h) now (rt_last_verified rt)\<rparr>)))))"

section \<open>Telemetry\<close>

text \<open>
  \<^verbatim>\<open>datetime.fromtimestamp(t, tz=UTC)\<close> in microseconds: the fraction of a float is scaled as a double
  and rounded half to even; years 1 to 9999 only.
\<close>

definition in_datetime_range :: "int \<Rightarrow> bool" where
  "in_datetime_range us = (- 62135596800000000 \<le> us \<and> us \<le> 253402300799999999)"

fun float_micros :: "pyfloat \<Rightarrow> int res" where
  "float_micros (Fin x) =
     (let whole = (if 0 \<le> x then \<lfloor>x\<rfloor> else \<lceil>x\<rceil>)
      in case fmul (Fin (x - of_int whole)) (Fin 1000000) of
           Fin y \<Rightarrow> Inr (whole * 1000000 + round_even y)
         | _ \<Rightarrow> Inl (ValueError ''unreachable''))"
| "float_micros NaN = Inl (ValueError ''Invalid value NaN (not a number)'')"
| "float_micros _ = Inl (OverflowError ''cannot convert float infinity to integer'')"

definition check_range :: "int \<Rightarrow> int res" where
  "check_range us = (if in_datetime_range us then Inr us else Inl (ValueError ''year is out of range''))"

text \<open>The time stamp of a message: \<^verbatim>\<open>None\<close> when it has no usable format.\<close>

fun telemetry_time :: "router_lib \<Rightarrow> json \<Rightarrow> int option res" where
  "telemetry_time lib (JBool b) = Inr (Some (if b then 1000000 else 0))"
| "telemetry_time lib (JInt n) = rbind (check_range (n * 1000000)) (\<lambda>us. Inr (Some us))"
| "telemetry_time lib (JFloat f) = rbind (rbind (float_micros f) check_range) (\<lambda>us. Inr (Some us))"
| "telemetry_time lib (JStr s) = Inr (from_isoformat lib s)"
| "telemetry_time lib _ = Inr None"

text \<open>\<^verbatim>\<open>timedelta.total_seconds()\<close>.\<close>

definition total_seconds :: "int \<Rightarrow> pyfloat" where
  "total_seconds us = rnd (of_int us / 1000000)"

definition telemetry_stale :: "int \<Rightarrow> int \<Rightarrow> bool" where
  "telemetry_stale utc_now ts =
     (let age = total_seconds (utc_now - ts) in flt (Fin 30) age \<or> flt age (Fin (- 10)))"

definition process_telemetry :: "router_lib \<Rightarrow> int \<Rightarrow> string \<Rightarrow> string \<Rightarrow> router \<Rightarrow> unit res \<times> router" where
  "process_telemetry lib utc_now payload key_expr rt =
     (case node_id_from_topic key_expr 3 of
        None \<Rightarrow> (Inr (), rt)
      | Some k \<Rightarrow>
          (case open_from_node lib payload k PURPOSE_TELEMETRY (rt_registry rt) of
             Inl e \<Rightarrow> (Inl e, rt)
           | Inr None \<Rightarrow> (Inr (), rt)
           | Inr (Some data) \<Rightarrow>
               (case telemetry_time lib (jget data ''timestamp'') of
                  Inl e \<Rightarrow> (Inl e, rt)
                | Inr None \<Rightarrow> (Inr (), rt)
                | Inr (Some ts) \<Rightarrow>
                    if telemetry_stale utc_now ts then (Inr (), rt)
                    else (Inr (), rt\<lparr>rt_registry := mark_mesh_reachable k
                            ((rt_registry rt)\<lparr>reg_telemetry := dset k data (reg_telemetry (rt_registry rt))\<rparr>)\<rparr>))))"

section \<open>Ageing nodes out\<close>

definition verified_recently :: "pyfloat \<Rightarrow> string \<Rightarrow> router \<Rightarrow> bool" where
  "verified_recently now k rt =
     (case dget (rt_last_verified rt) k of
        None \<Rightarrow> False
      | Some last_seen \<Rightarrow> flt (fsub now last_seen) (rt_stale_after rt))"

definition evict_if_stale :: "pyfloat \<Rightarrow> string \<Rightarrow> router \<Rightarrow> bool \<times> router" where
  "evict_if_stale now k rt =
     (if verified_recently now k rt then (False, rt)
      else if \<not> registry_exists k (rt_registry rt) then (False, rt)
      else (case unregister_node k (rt_registry rt) of
          (removed, reg) \<Rightarrow>
            if \<not> removed then (False, rt\<lparr>rt_registry := reg\<rparr>)
            else (True, rt\<lparr>rt_registry := reg, rt_last_verified := ddel k (rt_last_verified rt)\<rparr>)))"

text \<open>\<open>clock k\<close> is the monotonic time read when the sweep reaches node \<open>k\<close>.\<close>

definition sweep_stale_nodes :: "(string \<Rightarrow> pyfloat) \<Rightarrow> router \<Rightarrow> router" where
  "sweep_stale_nodes clock rt =
     fold (\<lambda>n rt. snd (evict_if_stale (clock (node_id n)) (node_id n) rt)) (registry_list (rt_registry rt)) rt"

definition process_liveliness_alive :: "string \<Rightarrow> router \<Rightarrow> router" where
  "process_liveliness_alive k rt = rt"

definition process_deathrattle :: "pyfloat \<Rightarrow> string \<Rightarrow> router \<Rightarrow> router" where
  "process_deathrattle now k rt = snd (evict_if_stale now k rt)"

text \<open>The event loop runs the oldest task; an exception that escapes a task ends that task only.\<close>

fun run_task :: "router_lib \<Rightarrow> pyfloat \<Rightarrow> int \<Rightarrow> mesh_task \<Rightarrow> router \<Rightarrow> router" where
  "run_task lib now utc (ProcessHeartbeat raw key) rt = snd (process_heartbeat lib now raw key rt)"
| "run_task lib now utc (ProcessTelemetry raw key) rt = snd (process_telemetry lib utc raw key rt)"
| "run_task lib now utc (ProcessAlive k) rt = process_liveliness_alive k rt"
| "run_task lib now utc (ProcessDeathrattle k) rt = process_deathrattle now k rt"

section \<open>The router as a state machine\<close>

datatype router_event =
    Start bool
  | Stop
  | HeartbeatSample string string
  | TelemetrySample string string
  | LivelinessSample bool string
  | RunTask pyfloat int
  | Sweep "string \<Rightarrow> pyfloat"
  | Http reg_op

inductive router_step :: "router_lib \<Rightarrow> (node \<Rightarrow> string) \<Rightarrow> router \<Rightarrow> router_event \<Rightarrow> router \<Rightarrow> bool"
  for lib :: router_lib and dump :: "node \<Rightarrow> string" where
  start: "router_step lib dump rt (Start opened) (start_router opened rt)"
| stop: "router_step lib dump rt Stop (stop_router rt)"
| heartbeat: "rt_session rt \<Longrightarrow> router_step lib dump rt (HeartbeatSample raw key) (on_heartbeat raw key rt)"
| telemetry: "rt_session rt \<Longrightarrow> router_step lib dump rt (TelemetrySample raw key) (on_telemetry raw key rt)"
| liveliness: "rt_session rt \<Longrightarrow> router_step lib dump rt (LivelinessSample del key) (on_liveliness del key rt)"
| run: "rt_tasks rt = t # ts \<Longrightarrow> router_step lib dump rt (RunTask now utc) (run_task lib now utc t (rt\<lparr>rt_tasks := ts\<rparr>))"
| sweep: "rt_session rt \<Longrightarrow> router_step lib dump rt (Sweep clock) (sweep_stale_nodes clock rt)"
| http: "router_step lib dump rt (Http op) (rt\<lparr>rt_registry := reg_step dump op (rt_registry rt)\<rparr>)"

inductive_simps router_step_run: "router_step lib dump rt (RunTask now utc) rt'"
inductive_simps router_step_liveliness: "router_step lib dump rt (LivelinessSample del key) rt'"

inductive router_reach :: "router_lib \<Rightarrow> (node \<Rightarrow> string) \<Rightarrow> router \<Rightarrow> router_event list \<Rightarrow> router \<Rightarrow> bool"
  for lib :: router_lib and dump :: "node \<Rightarrow> string" and rt0 :: router where
  here: "router_reach lib dump rt0 [] rt0"
| more: "router_reach lib dump rt0 evs rt \<Longrightarrow> router_step lib dump rt ev rt' \<Longrightarrow> router_reach lib dump rt0 (evs @ [ev]) rt'"

section \<open>What an accepted message went through\<close>

definition authentic_for :: "router_lib \<Rightarrow> string \<Rightarrow> string \<Rightarrow> purpose \<Rightarrow> registry \<Rightarrow> jobj \<Rightarrow> bool" where
  "authentic_for lib raw k p reg data \<longleftrightarrow>
     registry_exists k reg
   \<and> (\<exists>token. get_node_token k reg = Some token \<and> token \<noteq> [] \<and> sealed_for (rl_aead lib) raw k token p data)"

lemma open_from_node_authentic:
  assumes "open_from_node lib raw k p reg = Inr (Some data)" "aead_ok (rl_aead lib)"
  shows "authentic_for lib raw k p reg data"
  using assms
  by (auto simp: open_from_node_def authentic_for_def intro: open_envelope_sealed
      split: if_splits option.splits sum.splits exc.splits)

lemma open_from_node_exists:
  "open_from_node lib raw k p reg = Inr (Some data) \<Longrightarrow> registry_exists k reg \<and> dmem k (reg_node_tokens reg)"
  by (auto simp: open_from_node_def get_node_token_def split: if_splits option.splits dest: dmem_SomeI)

text \<open>The state after an accepted heartbeat and after accepted telemetry.\<close>

definition heartbeat_applied :: "pyfloat \<Rightarrow> heartbeat \<Rightarrow> router \<Rightarrow> router" where
  "heartbeat_applied now h rt =
     rt\<lparr>rt_registry := mark_mesh_reachable (hb_node_id h) (snd (update_heartbeat h (rt_registry rt))),
        rt_last_verified := dset (hb_node_id h) now (rt_last_verified rt)\<rparr>"

definition telemetry_applied :: "string \<Rightarrow> jobj \<Rightarrow> router \<Rightarrow> router" where
  "telemetry_applied k data rt =
     rt\<lparr>rt_registry := mark_mesh_reachable k
          ((rt_registry rt)\<lparr>reg_telemetry := dset k data (reg_telemetry (rt_registry rt))\<rparr>)\<rparr>"

lemma process_heartbeat_cases:
  obtains (ignored) "snd (process_heartbeat lib now raw key rt) = rt"
  | (applied) k data h where "node_id_from_topic key 2 = Some k"
      "open_from_node lib raw k PURPOSE_HEARTBEAT (rt_registry rt) = Inr (Some data)"
      "heartbeat_of lib data = Some h" "hb_node_id h = k"
      "process_heartbeat lib now raw key rt = (Inr (), heartbeat_applied now h rt)"
proof (cases "snd (process_heartbeat lib now raw key rt) = rt")
  case False
  then obtain k data h where h: "node_id_from_topic key 2 = Some k"
      "open_from_node lib raw k PURPOSE_HEARTBEAT (rt_registry rt) = Inr (Some data)"
      "heartbeat_of lib data = Some h" "hb_node_id h = k"
    unfolding process_heartbeat_def by (auto split: option.splits sum.splits if_splits)
  then have "registry_exists k (rt_registry rt)" by (blast dest: open_from_node_exists)
  then have "process_heartbeat lib now raw key rt = (Inr (), heartbeat_applied now h rt)"
    using h by (simp add: process_heartbeat_def heartbeat_applied_def update_heartbeat_def registry_exists_def)
  with h show ?thesis by (rule applied)
qed (rule ignored)

lemma process_telemetry_cases:
  obtains (ignored) "snd (process_telemetry lib utc raw key rt) = rt"
  | (applied) k data ts where "node_id_from_topic key 3 = Some k"
      "open_from_node lib raw k PURPOSE_TELEMETRY (rt_registry rt) = Inr (Some data)"
      "telemetry_time lib (jget data ''timestamp'') = Inr (Some ts)" "\<not> telemetry_stale utc ts"
      "process_telemetry lib utc raw key rt = (Inr (), telemetry_applied k data rt)"
proof (cases "snd (process_telemetry lib utc raw key rt) = rt")
  case False
  then obtain k data ts where h: "node_id_from_topic key 3 = Some k"
      "open_from_node lib raw k PURPOSE_TELEMETRY (rt_registry rt) = Inr (Some data)"
      "telemetry_time lib (jget data ''timestamp'') = Inr (Some ts)" "\<not> telemetry_stale utc ts"
    unfolding process_telemetry_def by (auto split: option.splits sum.splits if_splits)
  then have "process_telemetry lib utc raw key rt = (Inr (), telemetry_applied k data rt)"
    by (simp add: process_telemetry_def telemetry_applied_def)
  with h show ?thesis by (rule applied)
qed (rule ignored)

text \<open>The freshness window, exactly: thirty seconds back, ten seconds ahead.\<close>

lemma telemetry_stale_iff: "telemetry_stale utc ts \<longleftrightarrow> utc - ts < - 10000000 \<or> 30000000 < utc - ts"
proof -
  have up: "flt (Fin 30) (total_seconds us) \<longleftrightarrow> 30000000 < us" for us
  proof (cases "30000000 < us")
    case True
    have "grid (30000001 / 1000000) = of_int 8444249582794657 * 2 powi (- 48)"
      by (rule grid_near) (simp_all add: power_int_def power_divide)
    then have "rnd (30000001 / 1000000) = Fin (8444249582794657 / 2 ^ 48)" by (simp add: rnd_def power_int_def power_divide)
    moreover have "fle (rnd (30000001 / 1000000)) (total_seconds us)"
      unfolding total_seconds_def using True by (intro rnd_mono) (simp add: field_simps)
    ultimately show ?thesis using True by (cases "total_seconds us") auto
  next
    case False
    then have "fle (total_seconds us) (Fin 30)"
      unfolding total_seconds_def by (intro rnd_upper dbl_rat_numeral) (simp_all add: field_simps)
    then show ?thesis using False by (simp add: fle_iff)
  qed
  have low: "flt (total_seconds us) (Fin (- 10)) \<longleftrightarrow> us < - 10000000" for us
  proof (cases "us < - 10000000")
    case True
    have "grid (- 10000001 / 1000000) = of_int (- 5629500097163073) * 2 powi (- 49)"
      by (rule grid_near) (simp_all add: power_int_def power_divide)
    then have "rnd (- 10000001 / 1000000) = Fin (- 5629500097163073 / 2 ^ 49)" by (simp add: rnd_def power_int_def power_divide)
    moreover have "fle (total_seconds us) (rnd (- 10000001 / 1000000))"
      unfolding total_seconds_def using True by (intro rnd_mono) (simp add: field_simps)
    ultimately show ?thesis using True by (cases "total_seconds us") auto
  next
    case False
    have "dbl_rat (- 10)" using dbl_rat_int [of "- 10"] by simp
    then have "fle (Fin (- 10)) (total_seconds us)"
      unfolding total_seconds_def using False by (intro rnd_lower) (simp_all add: field_simps)
    then show ?thesis using False by (simp add: fle_iff)
  qed
  show ?thesis unfolding telemetry_stale_def Let_def up low by auto
qed

section \<open>Eviction\<close>

definition evicted :: "string \<Rightarrow> router \<Rightarrow> router" where
  "evicted k rt = rt\<lparr>rt_registry := drop_node k (rt_registry rt), rt_last_verified := ddel k (rt_last_verified rt)\<rparr>"

lemma evict_if_stale_exact:
  "evict_if_stale now k rt =
     (if registry_exists k (rt_registry rt) \<and> \<not> verified_recently now k rt then (True, evicted k rt) else (False, rt))"
  by (simp add: evict_if_stale_def evicted_def unregister_node_def local_unregister_node_def registry_exists_def)

lemma drop_node_other:
  assumes "j \<noteq> k"
  shows "dget (reg_nodes (drop_node k r)) j = dget (reg_nodes r) j"
    "dget (reg_heartbeats (drop_node k r)) j = dget (reg_heartbeats r) j"
    "dget (reg_dampeners (drop_node k r)) j = dget (reg_dampeners r) j"
    "dget (reg_telemetry (drop_node k r)) j = dget (reg_telemetry r) j"
    "dget (reg_node_tokens (drop_node k r)) j = dget (reg_node_tokens r) j"
    "j \<in> reg_mesh_nodes (drop_node k r) \<longleftrightarrow> j \<in> reg_mesh_nodes r"
  using assms by (simp_all add: drop_node_def dict_simps)

lemma dget_drop_node: "dget (reg_nodes (drop_node k r)) j = (if j = k then None else dget (reg_nodes r) j)"
  by (simp add: drop_node_def dict_simps)

text \<open>Everything the router and its registry hold about one node.\<close>

definition node_view_of :: "string \<Rightarrow> router \<Rightarrow>
    node option \<times> heartbeat option \<times> pyfloat option \<times> jobj option \<times> string option \<times> bool \<times> pyfloat option" where
  "node_view_of k rt =
     (dget (reg_nodes (rt_registry rt)) k, dget (reg_heartbeats (rt_registry rt)) k,
      dget (reg_dampeners (rt_registry rt)) k, dget (reg_telemetry (rt_registry rt)) k,
      dget (reg_node_tokens (rt_registry rt)) k, k \<in> reg_mesh_nodes (rt_registry rt), dget (rt_last_verified rt) k)"

definition no_trace :: "string \<Rightarrow> router \<Rightarrow> bool" where
  "no_trace k rt \<longleftrightarrow> node_view_of k rt = (None, None, None, None, None, False, None)"

lemma node_view_evicted: "j \<noteq> k \<Longrightarrow> node_view_of j (evicted k rt) = node_view_of j rt"
  by (simp add: node_view_of_def evicted_def drop_node_other dict_simps)

lemma no_trace_evicted: "no_trace k (evicted k rt)"
  by (simp add: no_trace_def node_view_of_def evicted_def drop_node_def dict_simps)

lemma rt_stale_after_evict [simp]: "rt_stale_after (snd (evict_if_stale now k rt)) = rt_stale_after rt"
  by (simp add: evict_if_stale_exact evicted_def)

lemma node_view_evict_other: "j \<noteq> k \<Longrightarrow> node_view_of j (snd (evict_if_stale now k rt)) = node_view_of j rt"
  by (simp add: evict_if_stale_exact node_view_evicted)

lemma view_determines:
  assumes "node_view_of k rt = node_view_of k rt'"
  shows "registry_exists k (rt_registry rt) = registry_exists k (rt_registry rt')"
    "rt_stale_after rt = rt_stale_after rt' \<Longrightarrow> verified_recently now k rt = verified_recently now k rt'"
    "no_trace k rt = no_trace k rt'"
  using assms by (simp_all add: node_view_of_def registry_exists_def dmem_def verified_recently_def no_trace_def split: option.splits)

lemma evict_view_cong:
  assumes "node_view_of k rt = node_view_of k rt'" "rt_stale_after rt = rt_stale_after rt'"
  shows "node_view_of k (snd (evict_if_stale now k rt)) = node_view_of k (snd (evict_if_stale now k rt'))"
proof -
  have "node_view_of k (evicted k rt) = node_view_of k (evicted k rt')"
    using no_trace_evicted [of k rt] no_trace_evicted [of k rt'] by (simp add: no_trace_def)
  then show ?thesis
    using assms(1) view_determines(1) [OF assms(1)] view_determines(2) [OF assms, of now]
    by (simp add: evict_if_stale_exact)
qed

definition sweep_ids :: "(string \<Rightarrow> pyfloat) \<Rightarrow> string list \<Rightarrow> router \<Rightarrow> router" where
  "sweep_ids clock ks rt = fold (\<lambda>k rt. snd (evict_if_stale (clock k) k rt)) ks rt"

lemma sweep_ids_simps [simp]:
  "sweep_ids clock [] rt = rt"
  "sweep_ids clock (k # ks) rt = sweep_ids clock ks (snd (evict_if_stale (clock k) k rt))"
  by (simp_all add: sweep_ids_def)

lemma sweep_ids_other: "j \<notin> set ks \<Longrightarrow> node_view_of j (sweep_ids clock ks rt) = node_view_of j rt"
  by (induction ks arbitrary: rt) (auto simp: node_view_evict_other)

lemma rt_stale_after_sweep_ids [simp]: "rt_stale_after (sweep_ids clock ks rt) = rt_stale_after rt"
  by (induction ks arbitrary: rt) simp_all

lemma sweep_ids_listed:
  "distinct ks \<Longrightarrow> j \<in> set ks \<Longrightarrow>
   node_view_of j (sweep_ids clock ks rt) = node_view_of j (snd (evict_if_stale (clock j) j rt))"
proof (induction ks arbitrary: rt)
  case (Cons k ks)
  show ?case
  proof (cases "j = k")
    case True
    then show ?thesis using Cons.prems by (simp add: sweep_ids_other)
  next
    case False
    let ?rt = "snd (evict_if_stale (clock k) k rt)"
    have v: "node_view_of j ?rt = node_view_of j rt" using False by (rule node_view_evict_other)
    have "node_view_of j (snd (evict_if_stale (clock j) j ?rt)) = node_view_of j (snd (evict_if_stale (clock j) j rt))"
      using v by (rule evict_view_cong) simp
    then show ?thesis using Cons False by simp
  qed
qed simp

lemma sweep_as_ids:
  assumes "reg_inv (rt_registry rt)"
  shows "sweep_stale_nodes clock rt = sweep_ids clock (dkeys (reg_nodes (rt_registry rt))) rt"
proof -
  have "node_id (snd e) = fst e" if "e \<in> set (reg_nodes (rt_registry rt))" for e
    using assms that map_of_is_SomeI [of "reg_nodes (rt_registry rt)" "fst e" "snd e"] by (simp add: reg_inv_def)
  then have keys: "map node_id (registry_list (rt_registry rt)) = dkeys (reg_nodes (rt_registry rt))"
    by (auto simp: registry_list_def)
  have "fold (\<lambda>n rt. snd (evict_if_stale (clock (node_id n)) (node_id n) rt)) ns rt
      = sweep_ids clock (map node_id ns) rt" for ns :: "node list" and rt
    by (induction ns arbitrary: rt) simp_all
  then show ?thesis unfolding sweep_stale_nodes_def keys [symmetric] by simp
qed

lemma sweep_view:
  assumes "reg_inv (rt_registry rt)"
  shows "node_view_of k (sweep_stale_nodes clock rt) = node_view_of k (snd (evict_if_stale (clock k) k rt))"
proof (cases "registry_exists k (rt_registry rt)")
  case True
  then show ?thesis using assms sweep_ids_listed
    by (simp add: sweep_as_ids registry_exists_def dmem_iff reg_inv_def)
next
  case False
  then have "k \<notin> set (dkeys (reg_nodes (rt_registry rt)))" by (simp add: registry_exists_def dmem_iff)
  then show ?thesis using False by (simp add: sweep_as_ids [OF assms] sweep_ids_other evict_if_stale_exact)
qed

section \<open>The invariant of the router\<close>

text \<open>
  The registry's own invariant, unique keys in the table of verified heartbeats, and: a node the
  dispatcher reaches over the mesh has a credential to sign requests with.
\<close>

definition router_inv :: "router \<Rightarrow> bool" where
  "router_inv rt \<longleftrightarrow>
     reg_inv (rt_registry rt) \<and> dict_ok (rt_last_verified rt)
   \<and> (\<forall>k\<in>reg_mesh_nodes (rt_registry rt). dmem k (reg_node_tokens (rt_registry rt)))"

lemma router_inv_fields [simp]:
  "router_inv (rt\<lparr>rt_tasks := ts\<rparr>) = router_inv rt" "router_inv (rt\<lparr>rt_loop := b, rt_session := c\<rparr>) = router_inv rt"
  by (simp_all add: router_inv_def)

lemma router_inv_queue: "router_inv rt \<Longrightarrow> router_inv (queue_task t rt)"
  by (simp add: queue_task_def)

lemma router_inv_heartbeat_applied:
  assumes "router_inv rt" "registry_exists (hb_node_id h) (rt_registry rt)" "dmem (hb_node_id h) (reg_node_tokens (rt_registry rt))"
  shows "router_inv (heartbeat_applied now h rt)"
proof -
  let ?reg = "snd (update_heartbeat h (rt_registry rt))"
  have "reg_inv ?reg" using assms(1) by (simp add: router_inv_def reg_inv_heartbeat)
  moreover have "registry_exists (hb_node_id h) ?reg" "reg_mesh_nodes ?reg = reg_mesh_nodes (rt_registry rt)"
    "reg_node_tokens ?reg = reg_node_tokens (rt_registry rt)"
    using assms(2) by (simp_all add: update_heartbeat_def registry_exists_def)
  ultimately show ?thesis using assms
    by (simp add: router_inv_def heartbeat_applied_def reg_inv_mark) (simp add: mark_mesh_reachable_def)
qed

lemma router_inv_telemetry_applied:
  assumes "router_inv rt" "registry_exists k (rt_registry rt)" "dmem k (reg_node_tokens (rt_registry rt))"
  shows "router_inv (telemetry_applied k data rt)"
proof -
  let ?reg = "(rt_registry rt)\<lparr>reg_telemetry := dset k data (reg_telemetry (rt_registry rt))\<rparr>"
  have "reg_inv ?reg" using assms by (simp add: router_inv_def reg_inv_telemetry)
  moreover have "registry_exists k ?reg" using assms(2) by (simp add: registry_exists_def)
  ultimately have "reg_inv (mark_mesh_reachable k ?reg)" by (rule reg_inv_mark)
  then show ?thesis using assms by (simp add: router_inv_def telemetry_applied_def) (simp add: mark_mesh_reachable_def)
qed

lemma router_inv_evicted: "router_inv rt \<Longrightarrow> router_inv (evicted k rt)"
  by (simp add: router_inv_def evicted_def reg_inv_drop) (simp add: drop_node_def dict_simps)

lemma router_inv_evict: "router_inv rt \<Longrightarrow> router_inv (snd (evict_if_stale now k rt))"
  by (simp add: evict_if_stale_exact router_inv_evicted)

lemma router_inv_sweep: "router_inv rt \<Longrightarrow> router_inv (sweep_stale_nodes clock rt)"
proof -
  have "router_inv rt \<Longrightarrow> router_inv (sweep_ids clock ks rt)" for ks
    by (induction ks arbitrary: rt) (simp_all add: router_inv_evict)
  then show "router_inv rt \<Longrightarrow> ?thesis" by (simp add: sweep_as_ids router_inv_def)
qed

lemma router_inv_task: "router_inv rt \<Longrightarrow> router_inv (run_task lib now utc t rt)"
proof (cases t)
  case (ProcessHeartbeat raw key)
  assume inv: "router_inv rt"
  show ?thesis
  proof (cases rule: process_heartbeat_cases [of lib now raw key rt])
    case ignored
    then show ?thesis using inv ProcessHeartbeat by simp
  next
    case (applied k data h)
    then show ?thesis using inv ProcessHeartbeat open_from_node_exists [OF applied(2)]
      by (simp add: router_inv_heartbeat_applied)
  qed
next
  case (ProcessTelemetry raw key)
  assume inv: "router_inv rt"
  show ?thesis
  proof (cases rule: process_telemetry_cases [of lib utc raw key rt])
    case ignored
    then show ?thesis using inv ProcessTelemetry by simp
  next
    case (applied k data ts)
    then show ?thesis using inv ProcessTelemetry open_from_node_exists [OF applied(2)]
      by (simp add: router_inv_telemetry_applied)
  qed
qed (simp_all add: process_liveliness_alive_def process_deathrattle_def router_inv_evict)

lemma router_inv_http: "router_inv rt \<Longrightarrow> router_inv (rt\<lparr>rt_registry := reg_step dump op (rt_registry rt)\<rparr>)"
proof -
  assume inv: "router_inv rt"
  then have "reg_inv (reg_step dump op (rt_registry rt))" by (simp add: router_inv_def reg_inv_step)
  moreover have "\<forall>k\<in>reg_mesh_nodes (reg_step dump op (rt_registry rt)). dmem k (reg_node_tokens (reg_step dump op (rt_registry rt)))"
    using inv
    by (cases op) (auto simp: router_inv_def register_def local_register_def unregister_def local_unregister_def
        unregister_node_def local_unregister_node_def drop_node_def update_node_def set_available_models_def Let_def
        set_node_token_def clear_registry_def update_heartbeat_def increment_dampener_def dict_simps split: option.splits)
  ultimately show ?thesis using inv by (simp add: router_inv_def)
qed

lemma router_inv_step: "router_step lib dump rt ev rt' \<Longrightarrow> router_inv rt \<Longrightarrow> router_inv rt'"
  by (induction rule: router_step.induct)
    (simp_all add: start_router_def stop_router_def on_heartbeat_def on_telemetry_def on_liveliness_def Let_def
      router_inv_queue router_inv_task router_inv_sweep router_inv_http)

lemma router_inv_reach: "router_reach lib dump rt0 evs rt \<Longrightarrow> router_inv rt0 \<Longrightarrow> router_inv rt"
  by (induction rule: router_reach.induct) (auto intro: router_inv_step)

section \<open>Steps that do not touch a node\<close>

text \<open>The time an event reads for a node, where it reads one.\<close>

fun clock_of :: "router_event \<Rightarrow> string \<Rightarrow> pyfloat option" where
  "clock_of (RunTask now utc) k = Some now"
| "clock_of (Sweep clock) k = Some (clock k)"
| "clock_of _ k = None"

definition same_admission :: "string \<Rightarrow> router \<Rightarrow> router \<Rightarrow> bool" where
  "same_admission k rt rt' \<longleftrightarrow>
     dget (reg_nodes (rt_registry rt')) k = dget (reg_nodes (rt_registry rt)) k
   \<and> dget (reg_node_tokens (rt_registry rt')) k = dget (reg_node_tokens (rt_registry rt)) k
   \<and> (k \<in> reg_mesh_nodes (rt_registry rt) \<longrightarrow> k \<in> reg_mesh_nodes (rt_registry rt'))"

lemma same_admission_refl [simp]: "same_admission k rt rt" "same_admission k rt (rt\<lparr>rt_tasks := ts\<rparr>)"
  "same_admission k (rt\<lparr>rt_tasks := ts\<rparr>) rt' = same_admission k rt rt'"
  by (simp_all add: same_admission_def)

lemma same_admission_view: "node_view_of k rt' = node_view_of k rt \<Longrightarrow> same_admission k rt rt'"
  by (simp add: same_admission_def node_view_of_def)

lemma same_admission_evict:
  "verified_recently now k rt \<Longrightarrow> same_admission k rt (snd (evict_if_stale now j rt))"
  by (cases "k = j") (auto simp: evict_if_stale_exact node_view_evicted intro: same_admission_view)

lemma same_admission_applied:
  "same_admission k rt (heartbeat_applied now h rt)" "same_admission k rt (telemetry_applied j data rt)"
  by (auto simp: same_admission_def heartbeat_applied_def telemetry_applied_def update_heartbeat_def mark_mesh_reachable_def)

lemma same_admission_task:
  assumes "verified_recently now k rt"
  shows "same_admission k rt (run_task lib now utc t rt)"
proof (cases t)
  case (ProcessHeartbeat raw key)
  then show ?thesis
    by (cases rule: process_heartbeat_cases [of lib now raw key rt]) (simp_all add: same_admission_applied)
next
  case (ProcessTelemetry raw key)
  then show ?thesis
    by (cases rule: process_telemetry_cases [of lib utc raw key rt]) (simp_all add: same_admission_applied)
qed (use assms in \<open>simp_all add: process_liveliness_alive_def process_deathrattle_def same_admission_evict\<close>)

section \<open>Properties\<close>

text \<open>
  C2. Nothing arrives from the mesh unauthenticated. Processing a heartbeat or a telemetry message
  either leaves the router exactly as it was, or the topic names a registered node with a stored
  credential, the envelope carries an encryption of the payload under that node's key for that
  purpose, and the only change is the one that payload asks for under that node: its heartbeat,
  reachability and time of last contact, or its telemetry and reachability. Telemetry is accepted
  only from thirty seconds before to ten seconds after the Scheduler's clock.
\<close>

theorem mesh_ingress_authentic:
  assumes "aead_ok (rl_aead lib)"
  shows "(snd (process_heartbeat lib now raw key rt) = rt
       \<or> (\<exists>k data h. node_id_from_topic key 2 = Some k \<and> authentic_for lib raw k PURPOSE_HEARTBEAT (rt_registry rt) data
            \<and> heartbeat_of lib data = Some h \<and> hb_node_id h = k
            \<and> process_heartbeat lib now raw key rt = (Inr (), heartbeat_applied now h rt)))
    \<and> (snd (process_telemetry lib utc raw key rt) = rt
       \<or> (\<exists>k data ts. node_id_from_topic key 3 = Some k \<and> authentic_for lib raw k PURPOSE_TELEMETRY (rt_registry rt) data
            \<and> telemetry_time lib (jget data ''timestamp'') = Inr (Some ts) \<and> - 10000000 \<le> utc - ts \<and> utc - ts \<le> 30000000
            \<and> process_telemetry lib utc raw key rt = (Inr (), telemetry_applied k data rt)))"
proof (intro conjI)
  show "snd (process_heartbeat lib now raw key rt) = rt
       \<or> (\<exists>k data h. node_id_from_topic key 2 = Some k \<and> authentic_for lib raw k PURPOSE_HEARTBEAT (rt_registry rt) data
            \<and> heartbeat_of lib data = Some h \<and> hb_node_id h = k
            \<and> process_heartbeat lib now raw key rt = (Inr (), heartbeat_applied now h rt))"
  proof (cases rule: process_heartbeat_cases [of lib now raw key rt])
    case (applied k data h)
    then show ?thesis using open_from_node_authentic [OF applied(2) assms] by blast
  qed simp
  show "snd (process_telemetry lib utc raw key rt) = rt
       \<or> (\<exists>k data ts. node_id_from_topic key 3 = Some k \<and> authentic_for lib raw k PURPOSE_TELEMETRY (rt_registry rt) data
            \<and> telemetry_time lib (jget data ''timestamp'') = Inr (Some ts) \<and> - 10000000 \<le> utc - ts \<and> utc - ts \<le> 30000000
            \<and> process_telemetry lib utc raw key rt = (Inr (), telemetry_applied k data rt))"
  proof (cases rule: process_telemetry_cases [of lib utc raw key rt])
    case (applied k data ts)
    moreover have "- 10000000 \<le> utc - ts" "utc - ts \<le> 30000000" using applied(4) by (simp_all add: telemetry_stale_iff)
    ultimately show ?thesis using open_from_node_authentic [OF applied(2) assms] by blast
  qed simp
qed

text \<open>
  C21. A sweep removes exactly the registered nodes without a verified heartbeat inside the window: of
  such a node no trace is left in any table, and everything held about any other node is unchanged.
\<close>

theorem sweep_evicts_exactly_stale:
  assumes "router_inv rt"
  shows "if registry_exists k (rt_registry rt) \<and> \<not> verified_recently (clock k) k rt
    then no_trace k (sweep_stale_nodes clock rt)
    else node_view_of k (sweep_stale_nodes clock rt) = node_view_of k rt"
proof -
  have "node_view_of k (sweep_stale_nodes clock rt) = node_view_of k (snd (evict_if_stale (clock k) k rt))"
    using assms by (simp add: sweep_view router_inv_def)
  then show ?thesis using no_trace_evicted [of k rt] by (simp add: evict_if_stale_exact no_trace_def)
qed

text \<open>
  Whatever is published on the mesh, a node that keeps heartbeating is not evicted: no step of the
  router other than an operator's request changes the registration, the credential or the mesh
  reachability of a node whose last verified heartbeat is inside the window when the step reads the
  clock.
\<close>

theorem heartbeating_node_survives:
  assumes "router_step lib dump rt ev rt'" "router_inv rt" "\<forall>op. ev \<noteq> Http op"
    "\<forall>now. clock_of ev k = Some now \<longrightarrow> verified_recently now k rt"
  shows "same_admission k rt rt'"
  using assms(1)
proof (cases rule: router_step.cases)
  case (run t ts now utc)
  have "verified_recently now k (rt\<lparr>rt_tasks := ts\<rparr>)"
    using assms(4) run by (simp add: verified_recently_def split: option.splits)
  then have "same_admission k (rt\<lparr>rt_tasks := ts\<rparr>) (run_task lib now utc t (rt\<lparr>rt_tasks := ts\<rparr>))" by (rule same_admission_task)
  then show ?thesis using run by simp
next
  case (sweep clock)
  have "node_view_of k (sweep_stale_nodes clock rt) = node_view_of k (snd (evict_if_stale (clock k) k rt))"
    using assms(2) by (simp add: sweep_view router_inv_def)
  then have "node_view_of k rt' = node_view_of k rt"
    using sweep assms(4) by (simp add: evict_if_stale_exact)
  then show ?thesis by (rule same_admission_view)
qed (use assms(3) in \<open>simp_all add: same_admission_def start_router_def stop_router_def on_heartbeat_def on_telemetry_def
      on_liveliness_def Let_def queue_task_def\<close>)

text \<open>
  C14. In every state the router can reach from a well-formed one, through any interleaving of mesh
  messages, queued tasks, sweeps, restarts of the session and HTTP requests, the registry's invariant
  holds and every node marked reachable over the mesh is registered and has a credential.
\<close>

theorem router_reachable_inv:
  assumes "router_reach lib dump rt0 evs rt" "router_inv rt0"
  shows "reg_inv (rt_registry rt)
    \<and> (is_mesh_reachable k (rt_registry rt) \<longrightarrow>
        registry_exists k (rt_registry rt) \<and> (\<exists>token. get_node_token k (rt_registry rt) = Some token \<and> token \<noteq> []))"
proof -
  have inv: "router_inv rt" using assms by (rule router_inv_reach)
  then show ?thesis
    by (auto simp: router_inv_def reg_inv_def is_mesh_reachable_def registry_exists_def get_node_token_def dmem_def)
qed

text \<open>
  C22. A node that has not sent a verified heartbeat yet (just registered, restored after a restart, or
  heartbeating over HTTP only) is removed by any liveliness DELETE for its name, a message that
  carries no authentication: once the callback's task has run nothing of the node is left.
\<close>

theorem unverified_node_evicted_by_liveliness:
  assumes "rt_session rt" "rt_loop rt" "rt_tasks rt = []" "registry_exists k (rt_registry rt)"
    "dget (rt_last_verified rt) k = None" "CHR ''/'' \<notin> set k"
  shows "\<exists>mid fin. router_step lib dump rt (LivelinessSample True (''public-intelligence/net/liveliness/'' @ k)) mid
    \<and> router_step lib dump mid (RunTask now utc) fin \<and> no_trace k fin"
proof -
  let ?key = "''public-intelligence/net/liveliness/'' @ k"
  let ?mid = "rt\<lparr>rt_tasks := [ProcessDeathrattle k]\<rparr>"
  have "py_split (CHR ''/'') ?key = [''public-intelligence'', ''net'', ''liveliness'', k]"
    using py_split_append [of "CHR ''/''" "''public-intelligence''" "''net/liveliness/'' @ k"]
      py_split_append [of "CHR ''/''" "''net''" "''liveliness/'' @ k"]
      py_split_append [of "CHR ''/''" "''liveliness''" k] py_split_plain [OF assms(6)] by simp
  then have mid: "router_step lib dump rt (LivelinessSample True ?key) ?mid"
    using assms(1-3) by (simp add: router_step_liveliness on_liveliness_def queue_task_def)
  have "run_task lib now utc (ProcessDeathrattle k) (?mid\<lparr>rt_tasks := []\<rparr>) = evicted k (?mid\<lparr>rt_tasks := []\<rparr>)"
    using assms(4,5) by (simp add: process_deathrattle_def evict_if_stale_exact verified_recently_def)
  then have "router_step lib dump ?mid (RunTask now utc) (evicted k (?mid\<lparr>rt_tasks := []\<rparr>))"
    by (simp add: router_step_run)
  with mid show ?thesis using no_trace_evicted by blast
qed

section \<open>Witnesses\<close>

definition mesh_heartbeat :: heartbeat where
  "mesh_heartbeat = \<lparr>hb_node_id = ''n'', hb_timestamp = 0, hb_status = ONLINE, queue_length = 0,
     cpu_utilization = Fin 5, ram_available_gb = Fin 8, gpu_utilization = Fin 0, hb_vram_available_gb = Fin 4\<rparr>"

definition sample_router_lib :: router_lib where
  "sample_router_lib = \<lparr>rl_aead = sample_aead, heartbeat_of = (\<lambda>d. if d = beat_payload then Some mesh_heartbeat else None),
     from_isoformat = (\<lambda>_. None)\<rparr>"

definition sample_router :: router where
  "sample_router = \<lparr>rt_registry = (init_registry None)\<lparr>reg_nodes := [(''n'', sample_node ''n'')],
       reg_dampeners := [(''n'', Fin 0)], reg_node_tokens := [(''n'', ''t'')]\<rparr>,
     rt_last_verified = [], rt_stale_after = Fin 90, rt_loop = True, rt_session = True, rt_tasks = []\<rparr>"

definition beating_router :: router where
  "beating_router = sample_router\<lparr>rt_last_verified := [(''n'', Fin 100)]\<rparr>"

lemma sample_router_inv: "router_inv sample_router" "router_inv beating_router"
  by (simp_all add: router_inv_def reg_inv_def sample_router_def beating_router_def init_registry_def sample_node_def dmem_def)

theorem mesh_ingress_authentic_witness:
  "snd (process_heartbeat sample_router_lib (Fin 1) ''forged'' ''public-intelligence/net/n/heartbeat'' sample_router) = sample_router"
proof -
  have "\<not> authentic_for sample_router_lib ''forged'' k PURPOSE_HEARTBEAT reg data" for k reg data
    by (simp add: authentic_for_def sealed_for_def sample_router_lib_def sample_aead_def blank_aead_def)
  then show ?thesis
    using mesh_ingress_authentic [of sample_router_lib "Fin 1" "''forged''" "''public-intelligence/net/n/heartbeat''" sample_router]
      sample_aead_ok by (auto simp: sample_router_lib_def)
qed

theorem sweep_evicts_exactly_stale_witness:
  "no_trace ''n'' (sweep_stale_nodes (\<lambda>_. Fin 200) beating_router)"
proof -
  have "fsub (Fin 200) (Fin 100) = Fin 100" using lit_numeral [of "num.Bit0 (num.Bit0 (num.Bit1 (num.Bit0 (num.Bit0 (num.Bit1 num.One)))))"]
    by (simp add: fsub_def)
  then have "registry_exists ''n'' (rt_registry beating_router) \<and> \<not> verified_recently (Fin 200) ''n'' beating_router"
    by (simp add: beating_router_def sample_router_def verified_recently_def registry_exists_def dmem_def)
  then show ?thesis using sweep_evicts_exactly_stale [OF sample_router_inv(2), of "''n''" "\<lambda>_. Fin 200"] by simp
qed

theorem heartbeating_node_survives_witness:
  "same_admission ''n'' beating_router (sweep_stale_nodes (\<lambda>_. Fin 100) beating_router)"
proof (rule heartbeating_node_survives [of sample_router_lib unary_dump _ "Sweep (\<lambda>_. Fin 100)"])
  show "router_step sample_router_lib unary_dump beating_router (Sweep (\<lambda>_. Fin 100)) (sweep_stale_nodes (\<lambda>_. Fin 100) beating_router)"
    by (rule router_step.sweep) (simp add: beating_router_def sample_router_def)
  show "\<forall>now. clock_of (Sweep (\<lambda>_. Fin 100)) ''n'' = Some now \<longrightarrow> verified_recently now ''n'' beating_router"
    by (simp add: verified_recently_def beating_router_def sample_router_def fsub_def)
qed (simp_all add: sample_router_inv)

theorem router_reachable_inv_witness:
  "reg_inv (rt_registry (sweep_stale_nodes (\<lambda>_. Fin 1) sample_router))"
proof -
  have "router_step sample_router_lib unary_dump sample_router (Sweep (\<lambda>_. Fin 1)) (sweep_stale_nodes (\<lambda>_. Fin 1) sample_router)"
    by (rule router_step.sweep) (simp add: sample_router_def)
  then have "router_reach sample_router_lib unary_dump sample_router ([] @ [Sweep (\<lambda>_. Fin 1)]) (sweep_stale_nodes (\<lambda>_. Fin 1) sample_router)"
    by (rule router_reach.more [OF router_reach.here])
  from router_reachable_inv [OF this sample_router_inv(1)] show ?thesis by simp
qed

theorem unverified_node_evicted_by_liveliness_witness:
  "\<exists>mid fin. router_step sample_router_lib unary_dump sample_router
       (LivelinessSample True (''public-intelligence/net/liveliness/'' @ ''n'')) mid
    \<and> router_step sample_router_lib unary_dump mid (RunTask (Fin 1) 0) fin \<and> no_trace ''n'' fin"
  by (rule unverified_node_evicted_by_liveliness) (simp_all add: sample_router_def registry_exists_def dmem_def)

end
