(* ===== verification/Configuration.thy ===== *)
theory Configuration
  imports Py_Json
begin

text \<open>
  The settings of the two services: \<^verbatim>\<open>scheduler/core/config.py\<close> and \<^verbatim>\<open>node/core/configuration.py\<close>. A
  settings class is a record with the defaults its fields declare; its validators are functions that
  return the stored value or raise. What pydantic-settings finds in the environment for a scalar field,
  converted to the field's type, is an argument; for the list fields the text itself is, because the
  classes replace the library's decoding. \<^verbatim>\<open>json.loads\<close> and \<^verbatim>\<open>repr\<close> are the arguments \<open>loads\<close> and \<open>rep\<close>.
  A class is built with all its validators; pydantic reports every failure at once, the model the first.
\<close>

section \<open>Lists of strings\<close>

definition endswith :: "string \<Rightarrow> string \<Rightarrow> bool" where
  "endswith s p = startswith (rev s) (rev p)"

definition py_upper :: "string \<Rightarrow> string" where
  "py_upper s = map upper_char s"

text \<open>
  \<^verbatim>\<open>custom_env_decode\<close> (the same closure for the environment and the \<^verbatim>\<open>.env\<close> file): the text as JSON if it
  is JSON, itself otherwise.
\<close>

definition custom_env_decode :: "(string \<Rightarrow> json option) \<Rightarrow> string \<Rightarrow> json" where
  "custom_env_decode loads value = (case loads value of None \<Rightarrow> JStr value | Some v \<Rightarrow> v)"

definition raw_items :: "(string \<Rightarrow> json option) \<Rightarrow> json \<Rightarrow> json list" where
  "raw_items loads v =
     (case v of
        JList xs \<Rightarrow> xs
      | JStr s \<Rightarrow>
          let val = py_strip s
          in if val = [] then []
             else if startswith val ''['' \<and> endswith val '']''
             then (case loads val of Some (JList xs) \<Rightarrow> xs | _ \<Rightarrow> [JStr val])
             else map JStr (py_split (CHR '','') val)
      | _ \<Rightarrow> [])"

fun stripped_items :: "(json \<Rightarrow> string) \<Rightarrow> string \<Rightarrow> json list \<Rightarrow> string list res" where
  "stripped_items rep msg [] = Inr []"
| "stripped_items rep msg (item # items) =
     (let item_str = py_strip (py_str rep item)
      in if item_str = [] then Inl (ValueError msg)
         else rbind (stripped_items rep msg items) (\<lambda>parsed. Inr (item_str # parsed)))"

definition parse_string_list :: "(string \<Rightarrow> json option) \<Rightarrow> (json \<Rightarrow> string) \<Rightarrow> json \<Rightarrow> string list res" where
  "parse_string_list loads rep v =
     stripped_items rep ''List element cannot be empty or whitespace-only.'' (raw_items loads v)"

definition parse_zenoh_peer_endpoints :: "(string \<Rightarrow> json option) \<Rightarrow> (json \<Rightarrow> string) \<Rightarrow> json \<Rightarrow> string list res" where
  "parse_zenoh_peer_endpoints loads rep v =
     stripped_items rep ''Peer endpoint cannot be empty or whitespace-only.'' (raw_items loads v)"

definition wildcard_msg :: string where
  "wildcard_msg = ''cors_allow_origins must not contain '*': with credentials enabled ''
     @ ''Starlette does not send a wildcard, it reflects the caller's Origin ''
     @ ''back, allowing every origin individually. List the origins instead.''"

definition reject_wildcard_origin :: "string list \<Rightarrow> string list res" where
  "reject_wildcard_origin v = (if list_ex (\<lambda>origin. py_strip origin = ''*'') v then Inl (ValueError wildcard_msg) else Inr v)"

section \<open>Settings of the Scheduler\<close>

datatype environment = DEVELOPMENT | STAGING | PRODUCTION

record scheduler_settings =
  ss_environment :: environment
  ss_debug :: bool
  ss_log_level :: string
  ss_host :: string
  ss_port :: int
  ss_network_auth_token :: "string option"
  ss_node_api_port :: int
  ss_database_path :: "string option"
  ss_jwt_public_key :: "string option"
  ss_jwt_public_key_secondary :: "string option"
  ss_jwt_private_key_path :: "string option"
  ss_jwt_private_key_path_secondary :: "string option"
  ss_credential_max_ttl_hours :: int
  ss_rate_limit_capacity :: int
  ss_rate_limit_refill_per_second :: pyfloat
  ss_node_stale_after_seconds :: pyfloat
  ss_stale_sweep_interval_seconds :: pyfloat
  ss_cors_allow_origins :: "string list"
  ss_zenoh_listen_endpoints :: "string list"
  ss_zenoh_peer_endpoints :: "string list"
  ss_bootstrap_routers :: "string list"
  ss_zenoh_gossip_scouting :: bool
  ss_zenoh_multicast_scouting :: bool
  ss_mesh_inference_enabled :: bool
  ss_mesh_inference_timeout_seconds :: pyfloat
  ss_mesh_inference_first_reply_timeout_seconds :: pyfloat
  ss_split_inference_timeout_seconds :: pyfloat

definition scheduler_defaults :: scheduler_settings where
  "scheduler_defaults =
     \<lparr>ss_environment = DEVELOPMENT, ss_debug = False, ss_log_level = ''info'', ss_host = ''0.0.0.0'', ss_port = 8000,
      ss_network_auth_token = None, ss_node_api_port = 8080, ss_database_path = Some ''scheduler-state.db'',
      ss_jwt_public_key = None, ss_jwt_public_key_secondary = None, ss_jwt_private_key_path = None,
      ss_jwt_private_key_path_secondary = None, ss_credential_max_ttl_hours = 720, ss_rate_limit_capacity = 5,
      ss_rate_limit_refill_per_second = lit (1 / 2), ss_node_stale_after_seconds = Fin 90,
      ss_stale_sweep_interval_seconds = Fin 30, ss_cors_allow_origins = [],
      ss_zenoh_listen_endpoints = [''tcp/0.0.0.0:7447''], ss_zenoh_peer_endpoints = [],
      ss_bootstrap_routers = [''tcp/bootstrap.public-intelligence.net:7447''], ss_zenoh_gossip_scouting = True,
      ss_zenoh_multicast_scouting = True, ss_mesh_inference_enabled = True, ss_mesh_inference_timeout_seconds = Fin 120,
      ss_mesh_inference_first_reply_timeout_seconds = Fin 5, ss_split_inference_timeout_seconds = Fin 5\<rparr>"

text \<open>A list field: the text of the environment, if any, decoded and parsed; the default otherwise.\<close>

definition list_field :: "(json \<Rightarrow> string list res) \<Rightarrow> (string \<Rightarrow> json option) \<Rightarrow> string list \<Rightarrow> string option \<Rightarrow> string list res" where
  "list_field parse loads fallback text =
     (case text of None \<Rightarrow> Inr fallback | Some t \<Rightarrow> parse (custom_env_decode loads t))"

record list_texts =
  lt_listen :: "string option"
  lt_peers :: "string option"
  lt_bootstrap :: "string option"
  lt_origins :: "string option"

definition load_scheduler_settings :: "(string \<Rightarrow> json option) \<Rightarrow> (json \<Rightarrow> string) \<Rightarrow> scheduler_settings \<Rightarrow> list_texts
    \<Rightarrow> scheduler_settings res" where
  "load_scheduler_settings loads rep scalars texts =
     (let field = list_field (parse_string_list loads rep) loads
      in rbind (rbind (field (ss_cors_allow_origins scheduler_defaults) (lt_origins texts)) reject_wildcard_origin) (\<lambda>origins.
         rbind (field (ss_zenoh_listen_endpoints scheduler_defaults) (lt_listen texts)) (\<lambda>listen.
         rbind (field (ss_zenoh_peer_endpoints scheduler_defaults) (lt_peers texts)) (\<lambda>peers.
         rbind (field (ss_bootstrap_routers scheduler_defaults) (lt_bootstrap texts)) (\<lambda>bootstrap.
         Inr (scalars\<lparr>ss_cors_allow_origins := origins, ss_zenoh_listen_endpoints := listen,
                ss_zenoh_peer_endpoints := peers, ss_bootstrap_routers := bootstrap\<rparr>))))))"

section \<open>Settings of the Node\<close>

record node_config =
  nc_node_id :: string
  nc_hostname :: string
  nc_region :: string
  nc_scheduler_url :: string
  nc_ollama_host :: string
  nc_host :: string
  nc_port :: int
  nc_heartbeat_interval_seconds :: int
  nc_registration_retry_max_seconds :: pyfloat
  nc_model_refresh_interval_seconds :: int
  nc_log_level :: string
  nc_debug :: bool
  nc_network_auth_token :: "string option"
  nc_fleet_token :: "string option"
  nc_zenoh_router_url :: "string option"
  nc_zenoh_peer_endpoints :: "string list"
  nc_invite_code :: "string option"
  nc_bootstrap_routers :: "string list"
  nc_zenoh_gossip_scouting :: bool
  nc_zenoh_connect_timeout_seconds :: pyfloat
  nc_zenoh_max_retry_interval_seconds :: pyfloat
  nc_zenoh_multicast_scouting :: bool
  nc_cors_allow_origins :: "string list"

definition node_defaults :: node_config where
  "node_defaults =
     \<lparr>nc_node_id = ''node-local'', nc_hostname = ''localhost'', nc_region = ''local'',
      nc_scheduler_url = ''http://localhost:8000'', nc_ollama_host = ''http://localhost:11434'', nc_host = ''0.0.0.0'',
      nc_port = 8080, nc_heartbeat_interval_seconds = 30, nc_registration_retry_max_seconds = Fin 60,
      nc_model_refresh_interval_seconds = 60, nc_log_level = ''INFO'', nc_debug = False, nc_network_auth_token = None,
      nc_fleet_token = None, nc_zenoh_router_url = None, nc_zenoh_peer_endpoints = [], nc_invite_code = None,
      nc_bootstrap_routers = [], nc_zenoh_gossip_scouting = True, nc_zenoh_connect_timeout_seconds = Fin 5,
      nc_zenoh_max_retry_interval_seconds = Fin 30, nc_zenoh_multicast_scouting = True, nc_cors_allow_origins = []\<rparr>"

definition validate_non_empty :: "string \<Rightarrow> string res" where
  "validate_non_empty v =
     (if py_strip v = [] then Inl (ValueError ''Value cannot be empty or whitespace.'') else Inr (py_strip v))"

definition validate_urls :: "string \<Rightarrow> string res" where
  "validate_urls v =
     (let stripped = py_strip v
      in if \<not> (startswith stripped ''http://'' \<or> startswith stripped ''https://'')
         then Inl (ValueError ''URL must start with http:// or https://'') else Inr stripped)"

definition validate_port :: "int \<Rightarrow> int res" where
  "validate_port v =
     (if \<not> (1 \<le> v \<and> v \<le> 65535) then Inl (ValueError ''Port must be between 1 and 65535 inclusive.'') else Inr v)"

definition validate_heartbeat_interval :: "int \<Rightarrow> int res" where
  "validate_heartbeat_interval v =
     (if \<not> (1 \<le> v \<and> v \<le> 300)
      then Inl (ValueError ''Heartbeat interval must be between 1 and 300 seconds inclusive.'') else Inr v)"

definition LOG_LEVELS :: "string list" where
  "LOG_LEVELS = [''DEBUG'', ''INFO'', ''WARNING'', ''ERROR'', ''CRITICAL'']"

definition validate_log_level :: "string \<Rightarrow> string res" where
  "validate_log_level v =
     (let upper_val = py_upper (py_strip v)
      in if upper_val \<notin> set LOG_LEVELS then Inl (ValueError ''Log level must be one of'') else Inr upper_val)"

definition validate_registration_retry_max :: "pyfloat \<Rightarrow> pyfloat res" where
  "validate_registration_retry_max v =
     (if \<not> (flt (Fin 0) v \<and> fle v (Fin 3600))
      then Inl (ValueError ''Registration retry ceiling must be >0 and <=3600 seconds.'') else Inr v)"

definition validate_model_refresh_interval :: "int \<Rightarrow> int res" where
  "validate_model_refresh_interval v =
     (if \<not> (1 \<le> v \<and> v \<le> 3600)
      then Inl (ValueError ''Model refresh interval must be between 1 and 3600 seconds inclusive.'') else Inr v)"

text \<open>The scalar fields of a configuration, and then its three lists.\<close>

definition validate_scalars :: "node_config \<Rightarrow> node_config res" where
  "validate_scalars c =
     rbind (validate_non_empty (nc_node_id c)) (\<lambda>node_id.
     rbind (validate_non_empty (nc_hostname c)) (\<lambda>hostname.
     rbind (validate_non_empty (nc_region c)) (\<lambda>region.
     rbind (validate_urls (nc_scheduler_url c)) (\<lambda>scheduler_url.
     rbind (validate_urls (nc_ollama_host c)) (\<lambda>ollama_host.
     rbind (validate_port (nc_port c)) (\<lambda>port.
     rbind (validate_heartbeat_interval (nc_heartbeat_interval_seconds c)) (\<lambda>heartbeat.
     rbind (validate_registration_retry_max (nc_registration_retry_max_seconds c)) (\<lambda>retry.
     rbind (validate_model_refresh_interval (nc_model_refresh_interval_seconds c)) (\<lambda>refresh.
     rbind (validate_log_level (nc_log_level c)) (\<lambda>level.
       Inr (c\<lparr>nc_node_id := node_id, nc_hostname := hostname, nc_region := region, nc_scheduler_url := scheduler_url,
              nc_ollama_host := ollama_host, nc_port := port, nc_heartbeat_interval_seconds := heartbeat,
              nc_registration_retry_max_seconds := retry, nc_model_refresh_interval_seconds := refresh,
              nc_log_level := level\<rparr>)))))))))))"

definition load_node_settings :: "(string \<Rightarrow> json option) \<Rightarrow> (json \<Rightarrow> string) \<Rightarrow> node_config \<Rightarrow> list_texts \<Rightarrow> node_config res" where
  "load_node_settings loads rep scalars texts =
     (let field = list_field (parse_zenoh_peer_endpoints loads rep) loads
      in rbind (validate_scalars scalars) (\<lambda>c.
         rbind (field (nc_zenoh_peer_endpoints node_defaults) (lt_peers texts)) (\<lambda>peers.
         rbind (field (nc_bootstrap_routers node_defaults) (lt_bootstrap texts)) (\<lambda>bootstrap.
         rbind (rbind (field (nc_cors_allow_origins node_defaults) (lt_origins texts)) reject_wildcard_origin) (\<lambda>origins.
         Inr (c\<lparr>nc_zenoh_peer_endpoints := peers, nc_bootstrap_routers := bootstrap, nc_cors_allow_origins := origins\<rparr>))))))"

section \<open>White space\<close>

lemma dropWhile_idem: "dropWhile p (dropWhile p xs) = dropWhile p xs"
  by (induction xs) auto

text \<open>A string that neither starts nor ends with white space.\<close>

definition trimmed :: "string \<Rightarrow> bool" where
  "trimmed s = (s = [] \<or> \<not> is_space (hd s) \<and> \<not> is_space (last s))"

lemma dropWhile_same: "dropWhile p xs = xs \<longleftrightarrow> xs = [] \<or> \<not> p (hd xs)"
proof (cases xs)
  case (Cons x ys)
  have "length (dropWhile p ys) \<le> length ys" by (rule length_dropWhile_le)
  then have "dropWhile p ys \<noteq> x # ys" by (metis Suc_n_not_le_n length_Cons)
  then show ?thesis using Cons by auto
qed simp

lemma trimmed_strip: "trimmed s \<Longrightarrow> py_strip s = s"
proof -
  assume t: "trimmed s"
  then have "dropWhile is_space s = s" by (auto simp: trimmed_def dropWhile_same)
  moreover have "dropWhile is_space (rev s) = rev s" using t by (auto simp: trimmed_def dropWhile_same hd_rev)
  ultimately show ?thesis by (simp add: py_strip_def)
qed

lemma hd_dropWhile_rev:
  assumes "dropWhile p (rev xs) \<noteq> []"
  shows "last (rev (dropWhile p (rev xs))) = hd (dropWhile p (rev xs))" "hd (rev (dropWhile p (rev xs))) = hd xs"
proof -
  show "last (rev (dropWhile p (rev xs))) = hd (dropWhile p (rev xs))" using assms by (simp add: last_rev)
  have "rev xs = takeWhile p (rev xs) @ dropWhile p (rev xs)" by simp
  then have "xs = rev (dropWhile p (rev xs)) @ rev (takeWhile p (rev xs))" by (metis rev_append rev_rev_ident)
  then show "hd (rev (dropWhile p (rev xs))) = hd xs" using assms by (metis hd_append2 rev_is_Nil_conv)
qed

lemma strip_trimmed: "trimmed (py_strip s)"
proof (cases "py_strip s = []")
  case False
  let ?t = "dropWhile is_space s"
  have ne: "dropWhile is_space (rev ?t) \<noteq> []" using False by (simp add: py_strip_def)
  then have "?t \<noteq> []" by (metis dropWhile.simps(1) rev.simps(1))
  then have "\<not> is_space (hd ?t)" by (rule hd_dropWhile)
  moreover have "\<not> is_space (hd (dropWhile is_space (rev ?t)))" using ne by (rule hd_dropWhile)
  ultimately show ?thesis using hd_dropWhile_rev [OF ne] by (simp add: trimmed_def py_strip_def)
qed (simp add: trimmed_def)

lemma py_strip_idem [simp]: "py_strip (py_strip s) = py_strip s"
  by (simp add: trimmed_strip strip_trimmed)

lemma upper_char_idem [simp]: "upper_char (upper_char c) = upper_char c"
proof (cases "97 \<le> code_of c \<and> code_of c \<le> 122")
  case True
  then have "code_of (char_of (code_of c - 32) :: char) = code_of c - 32" by (auto simp: of_char_of intro!: mod_less)
  with True show ?thesis by (auto simp: upper_char_def)
qed (auto simp: upper_char_def)

lemma LOG_LEVELS_fixed: "l \<in> set LOG_LEVELS \<Longrightarrow> py_upper (py_strip l) = l"
  by (auto simp: LOG_LEVELS_def py_upper_def py_strip_def is_space_def upper_char_def)

section \<open>What the validators accept\<close>

definition list_ok :: "string list \<Rightarrow> bool" where
  "list_ok xs = list_all (\<lambda>x. trimmed x \<and> x \<noteq> []) xs"

lemma stripped_items_ok: "stripped_items rep msg items = Inr xs \<Longrightarrow> list_ok xs"
  by (induction items arbitrary: xs) (auto simp: Let_def rbind_eq_Inr list_ok_def strip_trimmed split: if_splits)

lemma stripped_items_strings: "list_ok xs \<Longrightarrow> stripped_items rep msg (map JStr xs) = Inr xs"
  by (induction xs) (auto simp: list_ok_def trimmed_strip)

lemma stripped_items_error:
  "(\<exists>e. stripped_items rep msg items = Inl e) \<longleftrightarrow> list_ex (\<lambda>item. py_strip (py_str rep item) = []) items"
  by (induction items) (auto simp: Let_def rbind_def split: sum.splits)

lemma reject_wildcard_Inr: "reject_wildcard_origin v = Inr w \<longleftrightarrow> w = v \<and> list_all (\<lambda>x. py_strip x \<noteq> ''*'') v"
  by (auto simp: reject_wildcard_origin_def list_all_iff list_ex_iff)

text \<open>The text of a list with at least two characters at its ends, split at its commas.\<close>

lemma py_split_join:
  "xs \<noteq> [] \<Longrightarrow> \<forall>x\<in>set xs. sep \<notin> set x \<Longrightarrow> py_split sep (py_join [sep] xs) = xs"
proof (induction "[sep]" xs rule: py_join.induct)
  case (3 p q ps)
  then show ?case using py_split_append [of sep p "py_join [sep] (q # ps)"] by simp
qed (simp_all add: py_split_plain)

lemma py_join_hd: "list_ok (x # xs) \<Longrightarrow> py_join sep (x # xs) \<noteq> [] \<and> hd (py_join sep (x # xs)) = hd x"
  by (cases xs) (auto simp: list_ok_def)

lemma py_join_last: "list_ok xs \<Longrightarrow> xs \<noteq> [] \<Longrightarrow> py_join sep xs \<noteq> [] \<and> last (py_join sep xs) = last (last xs)"
proof (induction sep xs rule: py_join.induct)
  case (3 sep p q ps)
  then have "py_join sep (q # ps) \<noteq> []" "last (py_join sep (q # ps)) = last (last (q # ps))" by (auto simp: list_ok_def)
  then show ?case by (simp add: last_append)
qed (auto simp: list_ok_def)

lemma trimmed_join: "list_ok xs \<Longrightarrow> xs \<noteq> [] \<Longrightarrow> trimmed (py_join sep xs)"
proof -
  assume ok: "list_ok xs" and ne: "xs \<noteq> []"
  obtain x ys where xs: "xs = x # ys" using ne by (cases xs) auto
  have "\<not> is_space (hd x)" using ok by (auto simp: xs list_ok_def trimmed_def)
  moreover have "\<not> is_space (last (last xs))"
    using ok last_in_set [OF ne] by (auto simp: list_ok_def trimmed_def list_all_iff)
  moreover have "hd (py_join sep xs) = hd x" using py_join_hd [of x ys sep] ok by (simp only: xs)
  moreover have "last (py_join sep xs) = last (last xs)" using py_join_last [OF ok ne] by blast
  ultimately show ?thesis by (simp only: trimmed_def) simp
qed

text \<open>What an accepted node configuration is.\<close>

definition url_ok :: "string \<Rightarrow> bool" where
  "url_ok u = (trimmed u \<and> (startswith u ''http://'' \<or> startswith u ''https://''))"

definition config_ok :: "node_config \<Rightarrow> bool" where
  "config_ok c \<longleftrightarrow>
     list_ok [nc_node_id c, nc_hostname c, nc_region c] \<and> url_ok (nc_scheduler_url c) \<and> url_ok (nc_ollama_host c)
   \<and> 1 \<le> nc_port c \<and> nc_port c \<le> 65535
   \<and> 1 \<le> nc_heartbeat_interval_seconds c \<and> nc_heartbeat_interval_seconds c \<le> 300
   \<and> flt (Fin 0) (nc_registration_retry_max_seconds c) \<and> fle (nc_registration_retry_max_seconds c) (Fin 3600)
   \<and> 1 \<le> nc_model_refresh_interval_seconds c \<and> nc_model_refresh_interval_seconds c \<le> 3600
   \<and> nc_log_level c \<in> set LOG_LEVELS"

lemmas scalar_defs = validate_non_empty_def validate_urls_def validate_port_def validate_heartbeat_interval_def
  validate_registration_retry_max_def validate_model_refresh_interval_def validate_log_level_def

lemma validate_scalars_ok:
  assumes "validate_scalars c = Inr d"
  shows "config_ok d"
  using assms
  by (auto simp: validate_scalars_def scalar_defs Let_def rbind_eq_Inr config_ok_def list_ok_def url_ok_def strip_trimmed
      split: if_splits)

lemma validate_scalars_fixed:
  assumes "config_ok c"
  shows "validate_scalars c = Inr c"
  using assms LOG_LEVELS_fixed [of "nc_log_level c"]
  by (auto simp: validate_scalars_def scalar_defs Let_def config_ok_def list_ok_def url_ok_def trimmed_strip)

lemma config_ok_lists [simp]:
  "config_ok (c\<lparr>nc_zenoh_peer_endpoints := p, nc_bootstrap_routers := b, nc_cors_allow_origins := w\<rparr>) = config_ok c"
  by (simp add: config_ok_def)

lemma list_field_ok:
  assumes "list_field (parse_zenoh_peer_endpoints loads rep) loads [] t = Inr xs"
  shows "list_ok xs"
  using assms by (cases t) (auto simp: list_field_def parse_zenoh_peer_endpoints_def list_ok_def [of "[]"] stripped_items_ok)

section \<open>Properties\<close>

text \<open>
  Settings that were accepted are usable and stable: if the Node's settings load, identity, addresses, port,
  intervals and log level are within the bounds the validators declare, no list element is blank and no
  origin is a wildcard; validating the accepted values again changes nothing; and a configuration
  without any environment variable, the defaults, is accepted as it is.
\<close>

theorem node_settings_accepted:
  assumes "load_node_settings loads rep scalars texts = Inr c"
  shows "config_ok c \<and> list_ok (nc_zenoh_peer_endpoints c) \<and> list_ok (nc_bootstrap_routers c) \<and> list_ok (nc_cors_allow_origins c)
    \<and> ''*'' \<notin> set (nc_cors_allow_origins c) \<and> validate_scalars c = Inr c
    \<and> load_node_settings loads rep node_defaults \<lparr>lt_listen = None, lt_peers = None, lt_bootstrap = None, lt_origins = None\<rparr>
      = Inr node_defaults"
proof -
  from assms obtain d p b w where d: "validate_scalars scalars = Inr d"
    and p: "list_field (parse_zenoh_peer_endpoints loads rep) loads [] (lt_peers texts) = Inr p"
    and b: "list_field (parse_zenoh_peer_endpoints loads rep) loads [] (lt_bootstrap texts) = Inr b"
    and w: "list_field (parse_zenoh_peer_endpoints loads rep) loads [] (lt_origins texts) = Inr w"
      "list_all (\<lambda>x. py_strip x \<noteq> ''*'') w"
    and c: "c = d\<lparr>nc_zenoh_peer_endpoints := p, nc_bootstrap_routers := b, nc_cors_allow_origins := w\<rparr>"
    by (auto simp: load_node_settings_def Let_def rbind_eq_Inr reject_wildcard_Inr node_defaults_def)
  have "config_ok c" using validate_scalars_ok [OF d] c by simp
  moreover have "list_ok p" "list_ok b" "list_ok w" using p b w(1) by (auto dest: list_field_ok)
  moreover have "''*'' \<notin> set w"
  proof
    assume "''*'' \<in> set w"
    then have "py_strip ''*'' \<noteq> ''*''" using w(2) by (auto simp: list_all_iff)
    then show False by (simp add: trimmed_strip trimmed_def is_space_def)
  qed
  moreover have "validate_scalars node_defaults = Inr node_defaults"
    by (rule validate_scalars_fixed)
      (simp add: config_ok_def node_defaults_def list_ok_def url_ok_def trimmed_def is_space_def startswith_def LOG_LEVELS_def)
  then have "load_node_settings loads rep node_defaults
      \<lparr>lt_listen = None, lt_peers = None, lt_bootstrap = None, lt_origins = None\<rparr> = Inr node_defaults"
    by (simp add: load_node_settings_def list_field_def reject_wildcard_origin_def, simp add: node_defaults_def)
  ultimately show ?thesis using c by (simp add: validate_scalars_fixed)
qed

theorem node_settings_accepted_witness:
  "config_ok node_defaults"
  using node_settings_accepted [of "\<lambda>_. None" "\<lambda>_. []" node_defaults
      "\<lparr>lt_listen = None, lt_peers = None, lt_bootstrap = None, lt_origins = None\<rparr>" node_defaults]
  by (simp add: load_node_settings_def list_field_def reject_wildcard_origin_def validate_scalars_fixed
      config_ok_def node_defaults_def list_ok_def url_ok_def trimmed_def is_space_def startswith_def LOG_LEVELS_def)

text \<open>
  A list written with commas is read back: a text that joins non-blank trimmed items without commas, and is
  neither JSON nor bracketed, loads as exactly these items, on the Scheduler and on the Node; with a
  wildcard among the origins the Scheduler refuses to start.
\<close>

theorem comma_list_roundtrip:
  assumes "list_ok xs" "xs \<noteq> []" "\<forall>x\<in>set xs. CHR '','' \<notin> set x" "loads (py_join '','' xs) = None"
    "\<not> startswith (py_join '','' xs) ''[''"
  shows "list_field (parse_string_list loads rep) loads d (Some (py_join '','' xs)) = Inr xs
    \<and> list_field (parse_zenoh_peer_endpoints loads rep) loads d (Some (py_join '','' xs)) = Inr xs
    \<and> (''*'' \<in> set xs \<longrightarrow>
        load_scheduler_settings loads rep s \<lparr>lt_listen = None, lt_peers = None, lt_bootstrap = None, lt_origins = Some (py_join '','' xs)\<rparr>
        = Inl (ValueError wildcard_msg))"
proof -
  let ?t = "py_join '','' xs"
  have "raw_items loads (JStr ?t) = map JStr xs"
    using assms trimmed_join [OF assms(1,2), of "'',''"] py_join_last [OF assms(1,2), of "'',''"]
    by (simp add: raw_items_def trimmed_strip py_split_join)
  then have f: "list_field (parse_string_list loads rep) loads e (Some ?t) = Inr xs"
    "list_field (parse_zenoh_peer_endpoints loads rep) loads e (Some ?t) = Inr xs" for e
    using assms(1,4) by (auto simp: list_field_def custom_env_decode_def parse_string_list_def
        parse_zenoh_peer_endpoints_def stripped_items_strings)
  have "reject_wildcard_origin xs = Inl (ValueError wildcard_msg)" if "''*'' \<in> set xs"
    using that trimmed_strip [of "''*''"] by (auto simp: reject_wildcard_origin_def list_ex_iff trimmed_def is_space_def)
  then show ?thesis using f by (simp add: load_scheduler_settings_def)
qed

theorem comma_list_roundtrip_witness:
  "list_field (parse_string_list (\<lambda>_. None) (\<lambda>_. [])) (\<lambda>_. None) [] (Some ''tcp/a:1,tcp/b:2'') = Inr [''tcp/a:1'', ''tcp/b:2'']"
  using comma_list_roundtrip [of "[''tcp/a:1'', ''tcp/b:2'']" "\<lambda>_. None" "\<lambda>_. []" "[]"]
  by (simp add: list_ok_def trimmed_def is_space_def startswith_def)

end
