(* ===== verification/Scheduler_App.thy ===== *)
theory Scheduler_App
  imports Gateway Zenoh_Router Configuration
begin

text \<open>
  The Scheduler as one application (\<^verbatim>\<open>scheduler/main.py\<close>): what \<^verbatim>\<open>create_app\<close> puts together, what the
  lifespan loads and starts, the order of the routes, and the endpoints no other theory covers
  (\<^verbatim>\<open>api/credentials.py\<close>, \<^verbatim>\<open>usage.py\<close>, \<^verbatim>\<open>batch.py\<close>, \<^verbatim>\<open>health.py\<close>, \<^verbatim>\<open>telemetry.py\<close> and the proxy of \<^verbatim>\<open>schedule.py\<close>).
  Registry, ledger, meter and invites share one store here; the locale \<open>store_tenant\<close> states what each
  relies on and guarantees about the others' tables.
\<close>

section \<open>Application state\<close>

record batch_item_result =
  bi_custom_id :: string
  bi_status_code :: int
  bi_response_text :: string

record batch_response =
  br_batch_id :: string
  br_status :: string
  br_total_items :: int
  br_completed_items :: int
  br_results :: "batch_item_result list"

record batch_job =
  bj_tenant_id :: string
  bj_response :: batch_response

text \<open>
  \<open>ap_session\<close> is \<open>None\<close> before the lifespan has set \<^verbatim>\<open>app.state.zenoh_router\<close>, and then says whether the
  router holds a session. The copies of the store inside the components are not used: an operation runs on
  the component with \<open>ap_store\<close> put in.
\<close>

record app_state =
  ap_store :: "sqlite_store option"
  ap_registry :: registry
  ap_ledger :: ledger
  ap_meter :: usage_meter
  ap_invites :: invites
  ap_canary :: verifier
  ap_limiter :: limiter
  ap_jwt_public_key :: "string option"
  ap_jwt_public_key_secondary :: "string option"
  ap_cors_origins :: "string list"
  ap_batch_jobs :: "(string, batch_job) dict option"
  ap_session :: "bool option"
  ap_mesh_client :: "mesh_client option"

definition build_rate_limiter :: "scheduler_settings \<Rightarrow> limiter" where
  "build_rate_limiter st =
     init_limiter (ss_rate_limit_capacity st) (ss_rate_limit_refill_per_second st) DEFAULT_IDLE_EVICTION_SECONDS"

text \<open>The store of a path; \<open>file\<close> is what the path holds, \<open>None\<close> when there is no file yet.\<close>

definition build_store :: "scheduler_settings \<Rightarrow> (string \<Rightarrow> sqlite_store option) \<Rightarrow> sqlite_store option" where
  "build_store st file =
     (case ss_database_path st of
        None \<Rightarrow> None
      | Some path \<Rightarrow> if path = [] then None else Some (open_conn (file path)))"

definition create_app :: "sqlite_store option \<Rightarrow> string list \<Rightarrow> limiter option \<Rightarrow> string option \<Rightarrow> string option \<Rightarrow> app_state" where
  "create_app store cors limiter key key2 =
     \<lparr>ap_store = store, ap_registry = init_registry store, ap_ledger = init_ledger store, ap_meter = init_meter store,
      ap_invites = init_invites store, ap_canary = init_verifier None,
      ap_limiter = (case limiter of None \<Rightarrow> init_limiter 5 (lit (1 / 2)) DEFAULT_IDLE_EVICTION_SECONDS | Some l \<Rightarrow> l),
      ap_jwt_public_key = key, ap_jwt_public_key_secondary = key2, ap_cors_origins = cors,
      ap_batch_jobs = None, ap_session = None, ap_mesh_client = None\<rparr>"

definition deployed_app :: "scheduler_settings \<Rightarrow> (string \<Rightarrow> sqlite_store option) \<Rightarrow> app_state" where
  "deployed_app st file =
     create_app (build_store st file) (ss_cors_allow_origins st) (Some (build_rate_limiter st))
       (ss_jwt_public_key st) (ss_jwt_public_key_secondary st)"

section \<open>Components on the shared store\<close>

definition registry_of :: "app_state \<Rightarrow> registry" where
  "registry_of ap = (ap_registry ap)\<lparr>reg_store := ap_store ap\<rparr>"

definition ledger_of :: "app_state \<Rightarrow> ledger" where
  "ledger_of ap = (ap_ledger ap)\<lparr>led_store := ap_store ap\<rparr>"

definition meter_of :: "app_state \<Rightarrow> usage_meter" where
  "meter_of ap = (ap_meter ap)\<lparr>mtr_store := ap_store ap\<rparr>"

definition invites_of :: "app_state \<Rightarrow> invites" where
  "invites_of ap = (ap_invites ap)\<lparr>inv_store := ap_store ap\<rparr>"

definition put_registry :: "registry \<Rightarrow> app_state \<Rightarrow> app_state" where
  "put_registry r ap = ap\<lparr>ap_registry := r, ap_store := reg_store r\<rparr>"

definition put_ledger :: "ledger \<Rightarrow> app_state \<Rightarrow> app_state" where
  "put_ledger l ap = ap\<lparr>ap_ledger := l, ap_store := led_store l\<rparr>"

definition put_meter :: "usage_meter \<Rightarrow> app_state \<Rightarrow> app_state" where
  "put_meter m ap = ap\<lparr>ap_meter := m, ap_store := mtr_store m\<rparr>"

definition put_invites :: "invites \<Rightarrow> app_state \<Rightarrow> app_state" where
  "put_invites v ap = ap\<lparr>ap_invites := v, ap_store := inv_store v\<rparr>"

datatype app_op =
    RegistryOp reg_op
  | LedgerOp ledger_op
  | UsageOp usage_record
  | InviteOp invite_op

fun app_step :: "(node \<Rightarrow> string) \<Rightarrow> (string \<Rightarrow> string) \<Rightarrow> app_op \<Rightarrow> app_state \<Rightarrow> app_state" where
  "app_step dump sha256 (RegistryOp op) ap = put_registry (reg_step dump op (registry_of ap)) ap"
| "app_step dump sha256 (LedgerOp op) ap = put_ledger (ledger_step op (ledger_of ap)) ap"
| "app_step dump sha256 (UsageOp u) ap = put_meter (snd (record_usage u (meter_of ap))) ap"
| "app_step dump sha256 (InviteOp op) ap = put_invites (invite_step sha256 op (invites_of ap)) ap"

definition app_run :: "(node \<Rightarrow> string) \<Rightarrow> (string \<Rightarrow> string) \<Rightarrow> app_op list \<Rightarrow> app_state \<Rightarrow> app_state" where
  "app_run dump sha256 ops ap = fold (app_step dump sha256) ops ap"

section \<open>Lifespan\<close>

text \<open>
  Startup loads the four components in this order, then opens the mesh session (\<open>opened\<close> says whether that
  succeeded). An account row that does not validate ends the startup with its exception.
\<close>

definition startup :: "(string \<Rightarrow> node option) \<Rightarrow> bool \<Rightarrow> app_state \<Rightarrow> unit res \<times> app_state" where
  "startup validate opened ap =
     (let ap1 = put_registry (load_registry validate (registry_of ap)) ap
      in case load_ledger (ledger_of ap1) of
           (Inl e, l) \<Rightarrow> (Inl e, put_ledger l ap1)
         | (Inr _, l) \<Rightarrow>
             (let ap2 = put_ledger l ap1;
                  ap3 = put_meter (load_meter (meter_of ap2)) ap2;
                  ap4 = put_invites (load_invite_registry (invites_of ap3)) ap3
              in (Inr (), ap4\<lparr>ap_session := Some opened\<rparr>)))"

text \<open>Shutdown stops the router, if one was started, and closes the store; the file stays.\<close>

definition shutdown :: "app_state \<Rightarrow> app_state" where
  "shutdown ap = ap\<lparr>ap_session := map_option (\<lambda>_. False) (ap_session ap)\<rparr>"

section \<open>Routes\<close>

datatype http_method = GET | POST | PUT | DELETE

datatype segment = Lit string | Param

datatype endpoint =
    Health | Readiness | OperationalStatus
  | ListAllTelemetry | GetNodeTelemetry
  | RegisterNode | ListNodes | GetNode | UpdateNodeModels | DeleteNode
  | ReceiveHeartbeat
  | ScheduleRequest | ProxyInference
  | SubmitTask
  | ChatCompletion | ListModels | GetModel
  | SubmitBatch | BatchStatus
  | IssueCredential
  | RecentUsage | NodeUsage | CanaryStatus | Metrics

type_synonym route = "http_method \<times> segment list \<times> endpoint"

definition health_routes :: "route list" where
  "health_routes = [(GET, [Lit ''health''], Health), (GET, [Lit ''health'', Lit ''ready''], Readiness),
     (GET, [Lit ''status''], OperationalStatus)]"

definition telemetry_routes :: "route list" where
  "telemetry_routes = [(GET, [Lit ''nodes'', Lit ''telemetry''], ListAllTelemetry),
     (GET, [Lit ''nodes'', Param, Lit ''telemetry''], GetNodeTelemetry)]"

definition nodes_routes :: "route list" where
  "nodes_routes = [(POST, [Lit ''nodes'', Lit ''register''], RegisterNode), (GET, [Lit ''nodes''], ListNodes),
     (GET, [Lit ''nodes'', Param], GetNode), (PUT, [Lit ''nodes'', Param, Lit ''models''], UpdateNodeModels),
     (DELETE, [Lit ''nodes'', Param], DeleteNode)]"

definition heartbeat_routes :: "route list" where
  "heartbeat_routes = [(POST, [Lit ''heartbeat''], ReceiveHeartbeat)]"

definition schedule_routes :: "route list" where
  "schedule_routes = [(POST, [Lit ''schedule''], ScheduleRequest), (POST, [Lit ''infer''], ProxyInference)]"

definition ingress_routes :: "route list" where
  "ingress_routes = [(POST, [Lit ''api'', Lit ''v1'', Lit ''tasks'', Lit ''submit''], SubmitTask)]"

definition openai_routes :: "route list" where
  "openai_routes = [(POST, [Lit ''v1'', Lit ''chat'', Lit ''completions''], ChatCompletion),
     (GET, [Lit ''v1'', Lit ''models''], ListModels), (GET, [Lit ''v1'', Lit ''models'', Param], GetModel)]"

definition batch_routes :: "route list" where
  "batch_routes = [(POST, [Lit ''v1'', Lit ''batch''], SubmitBatch), (GET, [Lit ''v1'', Lit ''batch'', Param], BatchStatus)]"

definition credentials_routes :: "route list" where
  "credentials_routes = [(POST, [Lit ''v1'', Lit ''credentials''], IssueCredential)]"

definition usage_routes :: "route list" where
  "usage_routes = [(GET, [Lit ''usage''], RecentUsage), (GET, [Lit ''nodes'', Param, Lit ''usage''], NodeUsage),
     (GET, [Lit ''nodes'', Lit ''canary''], CanaryStatus), (GET, [Lit ''metrics''], Metrics)]"

text \<open>The order of the \<^verbatim>\<open>include_router\<close> calls.\<close>

definition app_routes :: "route list" where
  "app_routes = health_routes @ telemetry_routes @ nodes_routes @ heartbeat_routes @ schedule_routes @ ingress_routes
     @ openai_routes @ batch_routes @ credentials_routes @ usage_routes"

fun segment_matches :: "segment \<Rightarrow> string \<Rightarrow> bool" where
  "segment_matches (Lit l) s = (s = l)"
| "segment_matches Param s = (s \<noteq> [])"

definition route_matches :: "http_method \<Rightarrow> string list \<Rightarrow> route \<Rightarrow> bool" where
  "route_matches m path r = (case r of (m', segs, _) \<Rightarrow> m' = m \<and> list_all2 segment_matches segs path)"

text \<open>
  FastAPI's router is an argument: from the routes, in the order they were added, a method and the segments
  of a path it picks an endpoint. Its documentation promises that path operations are tried in order.
\<close>

type_synonym dispatcher = "route list \<Rightarrow> http_method \<Rightarrow> string list \<Rightarrow> endpoint option"

definition in_order :: "dispatcher \<Rightarrow> bool" where
  "in_order dispatch \<longleftrightarrow>
     (\<forall>rs m path. dispatch rs m path = map_option (snd \<circ> snd) (List.find (route_matches m path) rs))"

section \<open>Credentials\<close>

record credential_request =
  cq_tenant_id :: string
  cq_subject :: string
  cq_ttl_hours :: int
  cq_kid :: string

definition credential_request_valid :: "credential_request \<Rightarrow> bool" where
  "credential_request_valid q \<longleftrightarrow>
     1 \<le> length (cq_tenant_id q) \<and> length (cq_tenant_id q) \<le> 128
   \<and> 1 \<le> length (cq_subject q) \<and> length (cq_subject q) \<le> 128 \<and> 1 \<le> cq_ttl_hours q"

record credential_response =
  cd_token :: string
  cd_tenant_id :: string
  cd_subject :: string
  cd_expires_at :: int
  cd_kid :: string

text \<open>
  The claims of a credential: \<^verbatim>\<open>iat\<close> and \<^verbatim>\<open>exp\<close> as PyJWT writes them, in seconds since the epoch.
\<close>

definition credential_claims :: "credential_request \<Rightarrow> int \<Rightarrow> int \<Rightarrow> jobj" where
  "credential_claims q now expires =
     [(''sub'', JStr (cq_subject q)), (''tenant_id'', JStr (cq_tenant_id q)), (''iat'', JInt now), (''exp'', JInt expires)]"

text \<open>
  Reading and parsing a private key file (\<open>None\<close>: an \<^verbatim>\<open>OSError\<close> or \<^verbatim>\<open>ValueError\<close>), and \<^verbatim>\<open>jwt.encode\<close> of claims
  under a key with a \<^verbatim>\<open>kid\<close> header.
\<close>

record sign_lib =
  sg_load_key :: "string \<Rightarrow> string option"
  sg_encode :: "jobj \<Rightarrow> string \<Rightarrow> string \<Rightarrow> string"

definition signing_key :: "sign_lib \<Rightarrow> scheduler_settings \<Rightarrow> string \<Rightarrow> string res" where
  "signing_key sg st kid =
     (case (if kid = KID_PRIMARY then ss_jwt_private_key_path st else ss_jwt_private_key_path_secondary st) of
        None \<Rightarrow> Inl (HTTPException 503 (''No signing key configured for kid '' @ quoted kid))
      | Some path \<Rightarrow>
          if path = [] then Inl (HTTPException 503 (''No signing key configured for kid '' @ quoted kid))
          else (case sg_load_key sg path of
             None \<Rightarrow> Inl (HTTPException 503 (''Signing key for kid '' @ quoted kid @ '' could not be loaded.''))
           | Some key \<Rightarrow> Inr key))"

text \<open>The seconds a \<^verbatim>\<open>datetime\<close> can hold, from the start of the year 1 to the end of the year 9999.\<close>

definition datetime_ok :: "int \<Rightarrow> bool" where
  "datetime_ok t = (- 62135596800 \<le> t \<and> t \<le> 253402300799)"

definition issue_credential :: "sign_lib \<Rightarrow> scheduler_settings \<Rightarrow> string option \<Rightarrow> credential_request \<Rightarrow> int
    \<Rightarrow> credential_response res" where
  "issue_credential sg st header q now =
     rbind (verify_auth_token (ss_network_auth_token st) header) (\<lambda>_.
       if cq_kid q \<notin> {KID_PRIMARY, KID_SECONDARY} then Inl (HTTPException 422 (''Unknown kid '' @ quoted (cq_kid q) @ ''.''))
       else let ttl = min (cq_ttl_hours q) (ss_credential_max_ttl_hours st); expires = now + 3600 * ttl
         in if \<not> datetime_ok expires then Inl (OverflowError ''date value out of range'')
            else rbind (signing_key sg st (cq_kid q)) (\<lambda>key.
              Inr \<lparr>cd_token = sg_encode sg (credential_claims q now expires) key (cq_kid q), cd_tenant_id = cq_tenant_id q,
                   cd_subject = cq_subject q, cd_expires_at = expires, cd_kid = cq_kid q\<rparr>))"

section \<open>Usage\<close>

record usage_page =
  up_window_size :: int
  up_count :: int
  up_records :: "usage_record list"

definition recent_usage_page :: "int \<Rightarrow> app_state \<Rightarrow> usage_page" where
  "recent_usage_page limit ap =
     (let records = recent None (max 1 (min limit MAX_RECENT)) (meter_of ap)
      in \<lparr>up_window_size = MAX_RECENT, up_count = int (length records), up_records = records\<rparr>)"

record node_usage_view =
  nu_node_id :: string
  nu_credits_contributed :: pyfloat
  nu_credits_are_redeemable :: bool
  nu_totals_window_size :: int
  nu_totals :: "(string, pyfloat) dict"
  nu_recent :: "usage_record list"

definition node_usage_answer :: "string \<Rightarrow> pyfloat \<Rightarrow> app_state \<Rightarrow> node_usage_view res \<times> app_state" where
  "node_usage_answer k now ap =
     (case totals_for_node k (meter_of ap) of
        Inl e \<Rightarrow> (Inl e, ap)
      | Inr totals \<Rightarrow>
          (case get_or_create_account k now (ledger_of ap) of
             (account, l) \<Rightarrow>
               (Inr \<lparr>nu_node_id = k, nu_credits_contributed = earned_credits account, nu_credits_are_redeemable = False,
                     nu_totals_window_size = MAX_RECENT, nu_totals = totals, nu_recent = recent (Some k) 25 (meter_of ap)\<rparr>,
                put_ledger l ap)))"

record canary_view =
  cv_enabled :: bool
  cv_quarantined :: "string list"
  cv_nodes :: "(string, canary_summary) dict"

definition canary_answer :: "verifier option \<Rightarrow> canary_view" where
  "canary_answer v =
     (case v of
        None \<Rightarrow> \<lparr>cv_enabled = False, cv_quarantined = [], cv_nodes = []\<rparr>
      | Some vf \<Rightarrow>
          let summary = canary_summaries vf
          in \<lparr>cv_enabled = True,
              cv_quarantined = fold (\<lambda>(k, s) ks. if cs_quarantined s then insert_model k ks else ks) summary [],
              cv_nodes = summary\<rparr>)"

record metrics_view =
  mv_window_size :: int
  mv_nodes_registered :: int
  mv_requests :: int
  mv_failed :: int
  mv_failure_ratio :: pyfloat
  mv_prompt_tokens :: int
  mv_completion_tokens :: int
  mv_by_node :: "(string, int) dict"

definition count_by_node :: "usage_record list \<Rightarrow> (string, int) dict" where
  "count_by_node records = fold (\<lambda>r d. dset (us_node_id r) (dget_or d (us_node_id r) 0 + 1) d) records []"

text \<open>The quotient of two integers is the correctly rounded one.\<close>

definition metrics_answer :: "app_state \<Rightarrow> metrics_view" where
  "metrics_answer ap =
     (let records = recent None MAX_RECENT (meter_of ap);
          failed = int (length (filter (\<lambda>r. \<not> succeeded r) records))
      in \<lparr>mv_window_size = MAX_RECENT, mv_nodes_registered = int (length (registry_list (registry_of ap))),
          mv_requests = int (length records), mv_failed = failed,
          mv_failure_ratio = (if records = [] then Fin 0 else rnd (of_int failed / of_int (int (length records)))),
          mv_prompt_tokens = sum_list (map prompt_tokens records),
          mv_completion_tokens = sum_list (map completion_tokens records), mv_by_node = count_by_node records\<rparr>)"

text \<open>The routes: the dependency of their router comes first.\<close>

definition list_recent_usage :: "scheduler_settings \<Rightarrow> string option \<Rightarrow> int \<Rightarrow> app_state \<Rightarrow> usage_page res" where
  "list_recent_usage st header limit ap =
     rbind (verify_auth_token (ss_network_auth_token st) header) (\<lambda>_. Inr (recent_usage_page limit ap))"

definition node_usage :: "scheduler_settings \<Rightarrow> string option \<Rightarrow> string \<Rightarrow> pyfloat \<Rightarrow> app_state \<Rightarrow> node_usage_view res \<times> app_state" where
  "node_usage st header k now ap =
     (case verify_auth_token (ss_network_auth_token st) header of Inl e \<Rightarrow> (Inl e, ap) | Inr _ \<Rightarrow> node_usage_answer k now ap)"

definition canary_status :: "scheduler_settings \<Rightarrow> string option \<Rightarrow> app_state \<Rightarrow> canary_view res" where
  "canary_status st header ap =
     rbind (verify_auth_token (ss_network_auth_token st) header) (\<lambda>_. Inr (canary_answer (Some (ap_canary ap))))"

definition metrics :: "scheduler_settings \<Rightarrow> string option \<Rightarrow> app_state \<Rightarrow> metrics_view res" where
  "metrics st header ap = rbind (verify_auth_token (ss_network_auth_token st) header) (\<lambda>_. Inr (metrics_answer ap))"

section \<open>Batches\<close>

record batch_item_request =
  bq_custom_id :: string
  bq_model :: string
  bq_prompt :: string
  bq_max_tokens :: int

definition batch_request_valid :: "batch_item_request list \<Rightarrow> bool" where
  "batch_request_valid rqs \<longleftrightarrow> rqs \<noteq> [] \<and> list_all (\<lambda>q. 1 \<le> bq_max_tokens q) rqs"

definition get_batch_jobs :: "app_state \<Rightarrow> (string, batch_job) dict \<times> app_state" where
  "get_batch_jobs ap =
     (case ap_batch_jobs ap of None \<Rightarrow> ([], ap\<lparr>ap_batch_jobs := Some []\<rparr>) | Some jobs \<Rightarrow> (jobs, ap))"

definition require_tenant :: "(json \<Rightarrow> string) \<Rightarrow> jobj \<Rightarrow> string res" where
  "require_tenant rep claims =
     (let t = jget claims ''tenant_id''
      in if \<not> truthy t then Inl (HTTPException 401 ''Invalid claims: Missing 'tenant_id' in token payload.'')
         else Inr (py_str rep t))"

definition batch_refused :: string where
  "batch_refused = ''Batch processing is not implemented. This endpoint previously returned ''
     @ ''fabricated results; it now refuses rather than inventing an answer. Use POST /v1/chat/completions.''"

definition submit_batch_job :: "(json \<Rightarrow> string) \<Rightarrow> jwt_lib \<Rightarrow> string option \<Rightarrow> batch_item_request list \<Rightarrow> app_state \<Rightarrow> unit res" where
  "submit_batch_job rep lib auth rqs ap =
     rbind (verify_jwt lib (ap_jwt_public_key ap) (ap_jwt_public_key_secondary ap) auth) (\<lambda>claims.
     if \<not> batch_request_valid rqs then Inl (HTTPException 422 ''request validation error'')
     else rbind (require_tenant rep claims) (\<lambda>_. Inl (HTTPException 501 batch_refused)))"

definition get_batch_job_status :: "(json \<Rightarrow> string) \<Rightarrow> jwt_lib \<Rightarrow> string option \<Rightarrow> string \<Rightarrow> app_state
    \<Rightarrow> batch_response res \<times> app_state" where
  "get_batch_job_status rep lib auth batch_id ap =
     (case rbind (verify_jwt lib (ap_jwt_public_key ap) (ap_jwt_public_key_secondary ap) auth) (require_tenant rep) of
        Inl e \<Rightarrow> (Inl e, ap)
      | Inr tenant \<Rightarrow>
          (case get_batch_jobs ap of
             (jobs, ap') \<Rightarrow>
               (case dget jobs batch_id of
                  None \<Rightarrow> (Inl (HTTPException 404 (''Batch job '' @ batch_id @ '' not found'')), ap')
                | Some job \<Rightarrow>
                    if bj_tenant_id job \<noteq> tenant
                    then (Inl (HTTPException 404 (''Batch job '' @ batch_id @ '' not found'')), ap')
                    else (Inr (bj_response job), ap'))))"

section \<open>Status and telemetry\<close>

record node_status_snapshot =
  sn_node_id :: string
  sn_hostname :: string
  sn_region :: string
  sn_status :: node_status
  sn_heartbeat_at :: "int option"
  sn_queue_length :: "int option"
  sn_cpu_utilization :: "pyfloat option"
  sn_gpu_utilization :: "pyfloat option"
  sn_vram_available_gb :: "pyfloat option"

definition status_snapshot :: "node \<times> heartbeat option \<Rightarrow> node_status_snapshot" where
  "status_snapshot = (\<lambda>(n, h).
     \<lparr>sn_node_id = node_id n, sn_hostname = hostname n, sn_region = region n,
      sn_status = (case h of None \<Rightarrow> UNKNOWN | Some b \<Rightarrow> hb_status b), sn_heartbeat_at = map_option hb_timestamp h,
      sn_queue_length = map_option queue_length h, sn_cpu_utilization = map_option cpu_utilization h,
      sn_gpu_utilization = map_option gpu_utilization h, sn_vram_available_gb = map_option hb_vram_available_gb h\<rparr>)"

record scheduler_status =
  sv_environment :: environment
  sv_connected :: bool
  sv_mode :: string
  sv_nodes :: "node_status_snapshot list"

definition operational_status :: "scheduler_settings \<Rightarrow> string option \<Rightarrow> app_state \<Rightarrow> scheduler_status res" where
  "operational_status st header ap =
     rbind (verify_auth_token (ss_network_auth_token st) header) (\<lambda>_.
       Inr \<lparr>sv_environment = ss_environment st, sv_connected = (ap_session ap = Some True),
            sv_mode = (if ss_zenoh_listen_endpoints st \<noteq> [] then ''router'' else ''peer''),
            sv_nodes = map status_snapshot (snapshot (registry_of ap))\<rparr>)"

definition list_all_telemetry :: "scheduler_settings \<Rightarrow> string option \<Rightarrow> app_state \<Rightarrow> (string, jobj) dict res" where
  "list_all_telemetry st header ap =
     rbind (verify_auth_token (ss_network_auth_token st) header) (\<lambda>_. Inr (reg_telemetry (ap_registry ap)))"

definition get_node_telemetry :: "scheduler_settings \<Rightarrow> string option \<Rightarrow> string \<Rightarrow> app_state \<Rightarrow> jobj res" where
  "get_node_telemetry st header k ap =
     rbind (verify_auth_token (ss_network_auth_token st) header) (\<lambda>_.
       case dget (reg_telemetry (ap_registry ap)) k of
         None \<Rightarrow> Inl (HTTPException 404 (''Telemetry not found for node: '' @ k))
       | Some t \<Rightarrow> Inr t)"

section \<open>The inference proxy\<close>

text \<open>\<open>net\<close> is the mesh the session of the router reaches.\<close>

definition get_mesh_client :: "mesh_net \<Rightarrow> app_state \<Rightarrow> mesh_client option" where
  "get_mesh_client net ap =
     (case ap_mesh_client ap of
        Some c \<Rightarrow> Some c
      | None \<Rightarrow> if ap_session ap = Some True then Some \<lparr>mc_session = True, mc_net = net\<rparr> else None)"

definition dispatch_settings_of :: "scheduler_settings \<Rightarrow> dispatch_settings" where
  "dispatch_settings_of st = \<lparr>ds_network_auth_token = ss_network_auth_token st, ds_node_api_port = ss_node_api_port st,
     ds_mesh_enabled = ss_mesh_inference_enabled st\<rparr>"

definition proxy_inference :: "mesh_lib \<Rightarrow> scheduler_settings \<Rightarrow> mesh_net \<Rightarrow> http_net \<Rightarrow> string option \<Rightarrow> string \<Rightarrow> string
    \<Rightarrow> pyfloat \<Rightarrow> string \<Rightarrow> app_state \<Rightarrow> (string \<times> string \<times> string) res \<times> app_state" where
  "proxy_inference lib st mesh http header model prompt ts nonce ap =
     (case verify_auth_token (ss_network_auth_token st) header of
        Inl e \<Rightarrow> (Inl e, ap)
      | Inr _ \<Rightarrow>
          (case select_node model (registry_of ap) of
             (Inl (ValueError m), r) \<Rightarrow> (Inl (HTTPException 404 m), put_registry r ap)
           | (Inl e, r) \<Rightarrow> (Inl e, put_registry r ap)
           | (Inr n, r) \<Rightarrow>
               (case snd (infer_once lib r (dispatch_settings_of st) (get_mesh_client mesh ap) http (node_id n) (ip_address n)
                            model prompt ts nonce) of
                  Inl (NodeDispatchError detail status) \<Rightarrow> (Inl (HTTPException status detail), put_registry r ap)
                | Inl e \<Rightarrow> (Inl e, put_registry r ap)
                | Inr (m, txt) \<Rightarrow> (Inr (node_id n, m, txt), put_registry r ap))))"

section \<open>Sharing one store\<close>

text \<open>
  A component that keeps its state in memory and in some tables of a shared store. It guarantees to leave
  the other tables alone and to keep memory and its own tables in agreement (\<open>ok\<close>) when its operation is
  admissible; it relies on nobody else writing its tables.
\<close>

locale store_tenant =
  fixes run :: "'op \<Rightarrow> sqlite_store \<Rightarrow> 'm \<Rightarrow> 'm \<times> sqlite_store"
    and mine :: "sqlite_store \<Rightarrow> 't"
    and others :: "sqlite_store \<Rightarrow> 'u"
    and ok :: "sqlite_store \<Rightarrow> 'm \<Rightarrow> bool"
    and good :: "'op \<Rightarrow> sqlite_store \<Rightarrow> 'm \<Rightarrow> bool"
  assumes keeps_others: "others (snd (run op s m)) = others s"
    and keeps_ok: "ok s m \<Longrightarrow> good op s m \<Longrightarrow> ok (snd (run op s m)) (fst (run op s m))"
    and local: "ok s m \<Longrightarrow> mine s' = mine s \<Longrightarrow> ok s' m"
begin

text \<open>Own operations, and moments at which the rest of the application has left another store.\<close>

fun interleaved :: "('op + sqlite_store) list \<Rightarrow> sqlite_store \<Rightarrow> 'm \<Rightarrow> 'm \<times> sqlite_store" where
  "interleaved [] s m = (m, s)"
| "interleaved (Inl op # evs) s m = interleaved evs (snd (run op s m)) (fst (run op s m))"
| "interleaved (Inr s' # evs) s m = interleaved evs s' m"

fun admissible :: "('op + sqlite_store) list \<Rightarrow> sqlite_store \<Rightarrow> 'm \<Rightarrow> bool" where
  "admissible [] s m = True"
| "admissible (Inl op # evs) s m = (good op s m \<and> admissible evs (snd (run op s m)) (fst (run op s m)))"
| "admissible (Inr s' # evs) s m = (mine s' = mine s \<and> admissible evs s' m)"

lemma interleaved_ok:
  "ok s m \<Longrightarrow> admissible evs s m \<Longrightarrow> ok (snd (interleaved evs s m)) (fst (interleaved evs s m))"
proof (induction evs s m rule: interleaved.induct)
  case (2 op evs s m)
  then show ?case by (simp add: keeps_ok)
next
  case (3 s' evs s m)
  then show ?case using local [of s m s'] by simp
qed simp

end

text \<open>A text codec that reads back every node with finite measurements.\<close>

definition codec_faithful :: "(node \<Rightarrow> string) \<Rightarrow> (string \<Rightarrow> node option) \<Rightarrow> bool" where
  "codec_faithful dump validate \<longleftrightarrow> (\<forall>n. node_finite n \<longrightarrow> codec_ok dump validate n)"

definition registry_on :: "(node \<Rightarrow> string) \<Rightarrow> reg_op \<Rightarrow> sqlite_store \<Rightarrow> registry \<Rightarrow> registry \<times> sqlite_store" where
  "registry_on dump op s r = (let r' = reg_step dump op (r\<lparr>reg_store := Some s\<rparr>) in (r', the (reg_store r')))"

definition ledger_on :: "ledger_op \<Rightarrow> sqlite_store \<Rightarrow> ledger \<Rightarrow> ledger \<times> sqlite_store" where
  "ledger_on op s l = (let l' = ledger_step op (l\<lparr>led_store := Some s\<rparr>) in (l', the (led_store l')))"

definition meter_on :: "usage_record \<Rightarrow> sqlite_store \<Rightarrow> usage_meter \<Rightarrow> usage_meter \<times> sqlite_store" where
  "meter_on u s m = (let m' = snd (record_usage u (m\<lparr>mtr_store := Some s\<rparr>)) in (m', the (mtr_store m')))"

definition invites_on :: "(string \<Rightarrow> string) \<Rightarrow> invite_op \<Rightarrow> sqlite_store \<Rightarrow> invites \<Rightarrow> invites \<times> sqlite_store" where
  "invites_on sha256 op s v = (let v' = invite_step sha256 op (v\<lparr>inv_store := Some s\<rparr>) in (v', the (inv_store v')))"

text \<open>The meter agrees with its table: all rows are valid records, and the tail is the last of them.\<close>

definition meter_durable :: "usage_meter \<Rightarrow> bool" where
  "meter_durable m \<longleftrightarrow>
     (\<exists>s us. mtr_store m = Some s \<and> tbl_usage_records s = map row_of_usage us \<and> (\<forall>u\<in>set us. usage_valid u)
        \<and> mtr_recent m = slice_from_neg MAX_RECENT us)"

lemma meter_durable_step:
  assumes "meter_durable m" "usage_valid u"
  shows "meter_durable (snd (record_usage u m))"
proof -
  obtain s us where s: "mtr_store m = Some s" "tbl_usage_records s = map row_of_usage us" "\<forall>u\<in>set us. usage_valid u"
    "mtr_recent m = slice_from_neg MAX_RECENT us" using assms(1) by (auto simp: meter_durable_def)
  have "mtr_recent (snd (record_usage u m)) = slice_from_neg MAX_RECENT (us @ [u])"
    using s(4) slice_from_neg_snoc [of MAX_RECENT us u] by (simp add: record_usage_recent MAX_RECENT_def)
  moreover have "mtr_store (snd (record_usage u m)) = Some (save_usage u s)" by (simp add: record_usage_store s(1))
  moreover have "tbl_usage_records (save_usage u s) = map row_of_usage (us @ [u])" by (simp add: save_usage_def s(2))
  ultimately show ?thesis using s(3) assms(2) by (auto simp: meter_durable_def intro!: exI [of _ "us @ [u]"])
qed

lemma restart_meter:
  assumes "meter_durable m"
  shows "mtr_recent (load_meter (init_meter (mtr_store m))) = mtr_recent m"
proof -
  obtain s us where s: "mtr_store m = Some s" "tbl_usage_records s = map row_of_usage us" "\<forall>u\<in>set us. usage_valid u"
    "mtr_recent m = slice_from_neg MAX_RECENT us" using assms by (auto simp: meter_durable_def)
  have "load_usage MAX_RECENT s = slice_from_neg MAX_RECENT us"
    using s(2,3) by (intro load_usage_tail) (auto simp: MAX_RECENT_def)
  then show ?thesis using s
    by (simp add: load_meter_def init_meter_def, simp add: slice_from_neg_def MAX_RECENT_def)
qed

subsection \<open>What each component leaves alone\<close>

definition outside_nodes :: "sqlite_store \<Rightarrow> (string, account_row) dict \<times> usage_row list \<times> (string, invite_row) dict" where
  "outside_nodes s = (tbl_credit_accounts s, tbl_usage_records s, tbl_invites s)"

definition outside_accounts :: "sqlite_store \<Rightarrow> ((string, string) dict \<times> (string, string) dict) \<times> usage_row list \<times> (string, invite_row) dict" where
  "outside_accounts s = ((tbl_nodes s, tbl_node_tokens s), tbl_usage_records s, tbl_invites s)"

definition outside_usage :: "sqlite_store \<Rightarrow> ((string, string) dict \<times> (string, string) dict) \<times> (string, account_row) dict \<times> (string, invite_row) dict" where
  "outside_usage s = ((tbl_nodes s, tbl_node_tokens s), tbl_credit_accounts s, tbl_invites s)"

definition outside_invites :: "sqlite_store \<Rightarrow> ((string, string) dict \<times> (string, string) dict) \<times> (string, account_row) dict \<times> usage_row list" where
  "outside_invites s = ((tbl_nodes s, tbl_node_tokens s), tbl_credit_accounts s, tbl_usage_records s)"

lemmas outside_defs = outside_nodes_def outside_accounts_def outside_usage_def outside_invites_def

lemma store_write_outside: "outside_nodes (sqlite.store_write dump w s) = outside_nodes s"
  by (cases w) (auto simp: outside_nodes_def save_node_def delete_node_def clear_nodes_def save_node_token_def split: option.splits)

lemma store_writes_outside: "outside_nodes (fold (sqlite.store_write dump) ws s) = outside_nodes s"
  by (induction ws arbitrary: s) (simp_all add: store_write_outside)

lemma reg_step_outside:
  "reg_store r = Some s \<Longrightarrow> \<exists>s'. reg_store (reg_step dump op r) = Some s' \<and> outside_nodes s' = outside_nodes s"
  by (simp add: step_store store_writes_outside)

lemma put_account_outside:
  "led_store l = Some s \<Longrightarrow> \<exists>s'. led_store (snd (put_account k a l)) = Some s' \<and> outside_accounts s' = outside_accounts s"
  by (auto simp: put_account_def save_account_def outside_accounts_def Let_def)

lemma get_or_create_store: "led_store (snd (get_or_create_account k now l)) = led_store l"
  by (simp add: get_or_create_account_def split: option.splits)

lemma ledger_step_outside:
  assumes "led_store l = Some s"
  shows "\<exists>s'. led_store (ledger_step op l) = Some s' \<and> outside_accounts s' = outside_accounts s"
proof (cases op)
  case (Contribute k vram d ram now)
  then show ?thesis
    using assms put_account_outside [of "snd (get_or_create_account k now l)" s] get_or_create_store [of k now l]
    by (auto simp: record_host_contribution_def split: sum.splits prod.splits)
next
  case (Deduct k amount now)
  then show ?thesis
    using assms put_account_outside [of "snd (get_or_create_account k now l)" s] get_or_create_store [of k now l]
    by (auto simp: deduct_usage_def split: prod.splits)
qed (use assms get_or_create_store in auto)

lemma record_usage_outside:
  "mtr_store m = Some s \<Longrightarrow>
   \<exists>s'. mtr_store (snd (record_usage u m)) = Some s' \<and> outside_usage s' = outside_usage s"
  by (simp add: record_usage_store save_usage_def outside_usage_def)

lemma put_invite_outside:
  "inv_store v = Some s \<Longrightarrow> \<exists>s'. inv_store (put_invite i v) = Some s' \<and> outside_invites s' = outside_invites s"
  by (simp add: put_invite_def save_invite_def outside_invites_def Let_def)

lemma invite_step_outside:
  assumes "inv_store v = Some s"
  shows "\<exists>s'. inv_store (invite_step sha256 op v) = Some s' \<and> outside_invites s' = outside_invites s"
  using assms put_invite_outside [OF assms]
  by (cases op) (auto simp: issue_def redeem_def revoke_def Let_def split: option.splits)

subsection \<open>The four tenants\<close>

lemma coherent_local:
  assumes "coherent dump validate (r\<lparr>reg_store := Some s\<rparr>)"
    "(tbl_nodes s', tbl_node_tokens s') = (tbl_nodes s, tbl_node_tokens s)"
  shows "coherent dump validate (r\<lparr>reg_store := Some s'\<rparr>)"
  using assms by (simp add: coherent_def reg_inv_def store_ok_def sqlite.view_def load_nodes_def load_node_tokens_def)

lemma durable_local:
  assumes "durable (l\<lparr>led_store := Some s\<rparr>)" "tbl_credit_accounts s' = tbl_credit_accounts s"
  shows "durable (l\<lparr>led_store := Some s'\<rparr>)"
  using assms by (simp add: durable_def ledger_inv_def accounts_view_def)

lemma store_restored:
  "reg_store r = Some s \<Longrightarrow> r\<lparr>reg_store := Some s\<rparr> = r" "led_store l = Some s \<Longrightarrow> l\<lparr>led_store := Some s\<rparr> = l"
  "mtr_store m = Some s \<Longrightarrow> m\<lparr>mtr_store := Some s\<rparr> = m" "inv_store v = Some s \<Longrightarrow> v\<lparr>inv_store := Some s\<rparr> = v"
  by simp_all

interpretation registry_tenant: store_tenant "registry_on dump" "\<lambda>s. (tbl_nodes s, tbl_node_tokens s)" outside_nodes
  "\<lambda>s r. coherent dump validate (r\<lparr>reg_store := Some s\<rparr>)" "\<lambda>op s r. codec_faithful dump validate \<and> op_finite op"
  for dump :: "node \<Rightarrow> string" and validate :: "string \<Rightarrow> node option"
proof (unfold_locales, goal_cases)
  case (1 op s m)
  show ?case using reg_step_outside [of "m\<lparr>reg_store := Some s\<rparr>" s dump op] by (auto simp: registry_on_def Let_def)
next
  case (2 s m op)
  obtain s' where s': "reg_store (reg_step dump op (m\<lparr>reg_store := Some s\<rparr>)) = Some s'"
    using reg_step_outside [of "m\<lparr>reg_store := Some s\<rparr>" s dump op] by auto
  have "coherent dump validate (reg_step dump op (m\<lparr>reg_store := Some s\<rparr>))"
    using 2 by (intro coherent_step) (auto simp: codec_faithful_def)
  then show ?case using s' by (simp add: registry_on_def Let_def store_restored)
next
  case (3 s m s')
  then show ?case by (rule coherent_local)
qed

interpretation ledger_tenant: store_tenant ledger_on tbl_credit_accounts outside_accounts
  "\<lambda>s l. durable (l\<lparr>led_store := Some s\<rparr>)" "\<lambda>op s l. op_measured op"
proof (unfold_locales, goal_cases)
  case (1 op s m)
  show ?case using ledger_step_outside [of "m\<lparr>led_store := Some s\<rparr>" s op] by (auto simp: ledger_on_def Let_def)
next
  case (2 s m op)
  obtain s' where s': "led_store (ledger_step op (m\<lparr>led_store := Some s\<rparr>)) = Some s'"
    using ledger_step_outside [of "m\<lparr>led_store := Some s\<rparr>" s op] by auto
  have "durable (ledger_step op (m\<lparr>led_store := Some s\<rparr>))" using 2 by (rule durable_step)
  then show ?case using s' by (simp add: ledger_on_def Let_def store_restored)
next
  case (3 s m s')
  then show ?case by (rule durable_local)
qed

interpretation meter_tenant: store_tenant meter_on tbl_usage_records outside_usage
  "\<lambda>s m. meter_durable (m\<lparr>mtr_store := Some s\<rparr>)" "\<lambda>u s m. usage_valid u"
proof (unfold_locales, goal_cases)
  case (1 op s m)
  show ?case using record_usage_outside [of "m\<lparr>mtr_store := Some s\<rparr>" s op] by (auto simp: meter_on_def Let_def)
next
  case (2 s m op)
  obtain s' where s': "mtr_store (snd (record_usage op (m\<lparr>mtr_store := Some s\<rparr>))) = Some s'"
    using record_usage_outside [of "m\<lparr>mtr_store := Some s\<rparr>" s op] by auto
  have "meter_durable (snd (record_usage op (m\<lparr>mtr_store := Some s\<rparr>)))" using 2 by (rule meter_durable_step)
  then show ?case using s' by (simp add: meter_on_def Let_def store_restored)
next
  case (3 s m s')
  then show ?case by (auto simp: meter_durable_def)
qed

interpretation invites_tenant: store_tenant "invites_on sha256" tbl_invites outside_invites
  "\<lambda>s v. invites_durable (v\<lparr>inv_store := Some s\<rparr>)" "\<lambda>op s v. fresh_op sha256 op v"
  for sha256 :: "string \<Rightarrow> string"
proof (unfold_locales, goal_cases)
  case (1 op s m)
  show ?case using invite_step_outside [of "m\<lparr>inv_store := Some s\<rparr>" s sha256 op] by (auto simp: invites_on_def Let_def)
next
  case (2 s m op)
  obtain s' where s': "inv_store (invite_step sha256 op (m\<lparr>inv_store := Some s\<rparr>)) = Some s'"
    using invite_step_outside [of "m\<lparr>inv_store := Some s\<rparr>" s sha256 op] by auto
  have "fresh_op sha256 op (m\<lparr>inv_store := Some s\<rparr>)" using 2(2) by (cases op) auto
  then have "invites_durable (invite_step sha256 op (m\<lparr>inv_store := Some s\<rparr>))" using 2(1) by (intro invite_step_durable)
  then show ?case using s' by (simp add: invites_on_def Let_def store_restored)
next
  case (3 s m s')
  then show ?case by (auto simp: invites_durable_def invites_inv_def)
qed

section \<open>What survives\<close>

text \<open>
  The part of the state a restart keeps, and the effect of an operation on it: nodes and credentials, the two
  totals of every account, the tail of the usage records, and the invites. No store occurs in it.
\<close>

record durable_view =
  dv_nodes :: "(string, node) dict"
  dv_tokens :: "(string, string) dict"
  dv_credits :: "string \<Rightarrow> pyfloat \<times> pyfloat"
  dv_recent :: "usage_record list"
  dv_invites :: "(string, invite_code) dict"

definition view_of :: "app_state \<Rightarrow> durable_view" where
  "view_of ap = \<lparr>dv_nodes = reg_nodes (ap_registry ap), dv_tokens = reg_node_tokens (ap_registry ap),
     dv_credits = credits_of (ap_ledger ap), dv_recent = mtr_recent (ap_meter ap), dv_invites = inv_invites (ap_invites ap)\<rparr>"

fun spec_credits :: "ledger_op \<Rightarrow> (string \<Rightarrow> pyfloat \<times> pyfloat) \<Rightarrow> string \<Rightarrow> pyfloat \<times> pyfloat" where
  "spec_credits (Enquire k now) c = c"
| "spec_credits (Contribute k vram d ram now) c =
     (case host_earnings vram d ram of Inl e \<Rightarrow> c | Inr earned \<Rightarrow> c(k := (fadd (fst (c k)) earned, snd (c k))))"
| "spec_credits (Deduct k amount now) c = c(k := (fst (c k), fadd (snd (c k)) (fmax (Fin 0) amount)))"

fun spec_nodes :: "reg_op \<Rightarrow> (string, node) dict \<times> (string, string) dict \<Rightarrow> (string, node) dict \<times> (string, string) dict" where
  "spec_nodes (Register n) (ns, ts) = (if dmem (node_id n) ns then ns else dset (node_id n) n ns, ts)"
| "spec_nodes (Unregister k) (ns, ts) = (if dmem k ns then (ddel k ns, ddel k ts) else (ns, ts))"
| "spec_nodes (Update n) (ns, ts) = (if dmem (node_id n) ns then dset (node_id n) n ns else ns, ts)"
| "spec_nodes (SetModels k ms) (ns, ts) =
     (case dget ns k of None \<Rightarrow> ns | Some n \<Rightarrow> dset k (n\<lparr>available_models := ms\<rparr>) ns, ts)"
| "spec_nodes (SetToken k t) (ns, ts) =
     (ns, case t of None \<Rightarrow> ddel k ts | Some v \<Rightarrow> if v = [] then ddel k ts else dset k v ts)"
| "spec_nodes Clear (ns, ts) = ([], [])"
| "spec_nodes (UpdateHeartbeat h) (ns, ts) = (ns, ts)"
| "spec_nodes (IncrementDampener k) (ns, ts) = (ns, ts)"
| "spec_nodes (UnregisterNode k) (ns, ts) = (ddel k ns, ddel k ts)"

fun spec_step :: "(string \<Rightarrow> string) \<Rightarrow> app_op \<Rightarrow> durable_view \<Rightarrow> durable_view" where
  "spec_step sha256 (RegistryOp op) v =
     (case spec_nodes op (dv_nodes v, dv_tokens v) of (ns, ts) \<Rightarrow> v\<lparr>dv_nodes := ns, dv_tokens := ts\<rparr>)"
| "spec_step sha256 (LedgerOp op) v = v\<lparr>dv_credits := spec_credits op (dv_credits v)\<rparr>"
| "spec_step sha256 (UsageOp u) v = v\<lparr>dv_recent := slice_from_neg MAX_RECENT (dv_recent v @ [u])\<rparr>"
| "spec_step sha256 (InviteOp op) v =
     v\<lparr>dv_invites := inv_invites (invite_step sha256 op \<lparr>inv_invites = dv_invites v, inv_store = None\<rparr>)\<rparr>"

lemma spec_nodes_step:
  "(reg_nodes (reg_step dump op r), reg_node_tokens (reg_step dump op r)) = spec_nodes op (reg_nodes r, reg_node_tokens r)"
  by (cases op) (auto simp: register_def unregister_def unregister_node_def local_register_def
      local_unregister_def local_unregister_node_def drop_node_def update_node_def set_available_models_def
      set_node_token_def clear_registry_def update_heartbeat_def increment_dampener_def Let_def split: option.splits)

lemma spec_credits_step: "credits_of (ledger_step op l) = spec_credits op (credits_of l)"
proof (cases op)
  case (Enquire k now)
  then show ?thesis using get_or_create_credits [of k now l] by (cases "get_or_create_account k now l") simp
next
  case (Contribute k vram d ram now)
  obtain a l' where g: "get_or_create_account k now l = (a, l')" by force
  then show ?thesis using Contribute get_or_create_credits [OF g]
    by (auto simp: record_host_contribution_def credits_of_put split: sum.splits dest: sym)
next
  case (Deduct k amount now)
  obtain a l' where g: "get_or_create_account k now l = (a, l')" by force
  then show ?thesis using Deduct get_or_create_credits [OF g] by (auto simp: deduct_usage_def credits_of_put dest: sym)
qed

lemma invite_step_memory:
  "inv_invites v = inv_invites v' \<Longrightarrow> inv_invites (invite_step sha256 op v) = inv_invites (invite_step sha256 op v')"
  by (cases op) (auto simp: issue_def redeem_def revoke_def verify_def Let_def split: option.splits)

lemma view_step: "view_of (app_step dump sha256 op ap) = spec_step sha256 op (view_of ap)"
proof (cases op)
  case (RegistryOp rop)
  then show ?thesis using spec_nodes_step [of dump rop "registry_of ap"]
    by (simp add: view_of_def put_registry_def registry_of_def) (auto split: prod.splits)
next
  case (LedgerOp lop)
  then show ?thesis by (simp add: view_of_def put_ledger_def spec_credits_step ledger_of_def)
next
  case (UsageOp u)
  then show ?thesis by (simp add: view_of_def put_meter_def record_usage_recent meter_of_def)
next
  case (InviteOp iop)
  then show ?thesis
    using invite_step_memory [of "invites_of ap" "\<lparr>inv_invites = inv_invites (ap_invites ap), inv_store = None\<rparr>" sha256 iop]
    by (simp add: view_of_def put_invites_def invites_of_def)
qed

subsection \<open>Durability of the whole\<close>

definition app_durable :: "(node \<Rightarrow> string) \<Rightarrow> (string \<Rightarrow> node option) \<Rightarrow> app_state \<Rightarrow> bool" where
  "app_durable dump validate ap \<longleftrightarrow>
     (\<exists>s. ap_store ap = Some s \<and> coherent dump validate ((ap_registry ap)\<lparr>reg_store := Some s\<rparr>)
        \<and> durable ((ap_ledger ap)\<lparr>led_store := Some s\<rparr>) \<and> meter_durable ((ap_meter ap)\<lparr>mtr_store := Some s\<rparr>)
        \<and> invites_durable ((ap_invites ap)\<lparr>inv_store := Some s\<rparr>))"

text \<open>Operations whose values a store can hold: finite sizes, measured amounts, valid records, fresh codes.\<close>

fun op_ok :: "(string \<Rightarrow> string) \<Rightarrow> app_op \<Rightarrow> app_state \<Rightarrow> bool" where
  "op_ok sha256 (RegistryOp op) ap = op_finite op"
| "op_ok sha256 (LedgerOp op) ap = op_measured op"
| "op_ok sha256 (UsageOp u) ap = usage_valid u"
| "op_ok sha256 (InviteOp op) ap = fresh_op sha256 op (ap_invites ap)"

lemma app_step_on:
  assumes "ap_store ap = Some s"
  shows "app_step dump sha256 (RegistryOp rop) ap =
      ap\<lparr>ap_registry := fst (registry_on dump rop s (ap_registry ap)), ap_store := Some (snd (registry_on dump rop s (ap_registry ap)))\<rparr>"
    and "app_step dump sha256 (LedgerOp lop) ap =
      ap\<lparr>ap_ledger := fst (ledger_on lop s (ap_ledger ap)), ap_store := Some (snd (ledger_on lop s (ap_ledger ap)))\<rparr>"
    and "app_step dump sha256 (UsageOp u) ap =
      ap\<lparr>ap_meter := fst (meter_on u s (ap_meter ap)), ap_store := Some (snd (meter_on u s (ap_meter ap)))\<rparr>"
    and "app_step dump sha256 (InviteOp iop) ap =
      ap\<lparr>ap_invites := fst (invites_on sha256 iop s (ap_invites ap)), ap_store := Some (snd (invites_on sha256 iop s (ap_invites ap)))\<rparr>"
  using assms reg_step_outside [of "(ap_registry ap)\<lparr>reg_store := Some s\<rparr>" s dump rop]
    ledger_step_outside [of "(ap_ledger ap)\<lparr>led_store := Some s\<rparr>" s lop]
    record_usage_outside [of "(ap_meter ap)\<lparr>mtr_store := Some s\<rparr>" s u]
    invite_step_outside [of "(ap_invites ap)\<lparr>inv_store := Some s\<rparr>" s sha256 iop]
  by (auto simp: put_registry_def registry_of_def registry_on_def put_ledger_def ledger_of_def ledger_on_def
      put_meter_def meter_of_def meter_on_def put_invites_def invites_of_def invites_on_def Let_def)

lemma app_step_durable:
  assumes "codec_faithful dump validate" "app_durable dump validate ap" "op_ok sha256 op ap"
  shows "app_durable dump validate (app_step dump sha256 op ap)"
proof -
  obtain s where s: "ap_store ap = Some s" "coherent dump validate ((ap_registry ap)\<lparr>reg_store := Some s\<rparr>)"
    "durable ((ap_ledger ap)\<lparr>led_store := Some s\<rparr>)" "meter_durable ((ap_meter ap)\<lparr>mtr_store := Some s\<rparr>)"
    "invites_durable ((ap_invites ap)\<lparr>inv_store := Some s\<rparr>)" using assms(2) by (auto simp: app_durable_def)
  note on = app_step_on [OF s(1), of dump sha256]
  note locals = registry_tenant.local [OF s(2)] ledger_tenant.local [OF s(3)] meter_tenant.local [OF s(4)] invites_tenant.local [OF s(5)]
  show ?thesis
  proof (cases op)
    case (RegistryOp rop)
    show ?thesis
      using RegistryOp assms(1,3) s(2) registry_tenant.keeps_others [of dump rop s "ap_registry ap"] locals
        registry_tenant.keeps_ok [OF s(2), of rop]
      by (simp add: app_durable_def on outside_defs del: app_step.simps)
  next
    case (LedgerOp lop)
    show ?thesis
      using LedgerOp assms(3) ledger_tenant.keeps_others [of lop s "ap_ledger ap"] locals ledger_tenant.keeps_ok [OF s(3), of lop]
      by (simp add: app_durable_def on outside_defs del: app_step.simps)
  next
    case (UsageOp u)
    show ?thesis
      using UsageOp assms(3) meter_tenant.keeps_others [of u s "ap_meter ap"] locals meter_tenant.keeps_ok [OF s(4), of u]
      by (simp add: app_durable_def on outside_defs del: app_step.simps)
  next
    case (InviteOp iop)
    show ?thesis
      using InviteOp assms(3) invites_tenant.keeps_others [of sha256 iop s "ap_invites ap"] locals
        invites_tenant.keeps_ok [OF s(5), of sha256 iop]
      by (simp add: app_durable_def on outside_defs del: app_step.simps)
  qed
qed

subsection \<open>Restarts\<close>

text \<open>A restart: the process ends, and the deployed application is built again on the file it left behind.\<close>

definition restart :: "(string \<Rightarrow> node option) \<Rightarrow> bool \<Rightarrow> app_state \<Rightarrow> unit res \<times> app_state" where
  "restart validate opened ap =
     startup validate opened
       (create_app (ap_store (shutdown ap)) (ap_cors_origins ap)
          (Some (init_limiter (lm_capacity (ap_limiter ap)) (lm_refill_rate (ap_limiter ap)) DEFAULT_IDLE_EVICTION_SECONDS))
          (ap_jwt_public_key ap) (ap_jwt_public_key_secondary ap))"

lemma load_ledger_durable:
  assumes "durable (l\<lparr>led_store := Some s\<rparr>)"
  obtains l' where "load_ledger (init_ledger (Some s)) = (Inr (), l')" "durable l'" "credits_of l' = credits_of l" "led_store l' = Some s"
proof -
  obtain l' where l': "load_ledger (init_ledger (Some s)) = (Inr (), l')" "durable l'" "credits_of l' = credits_of l"
    using restart_durable [OF assms] by auto
  moreover from this have "led_store l' = Some s" by (auto simp: load_ledger_def init_ledger_def split: sum.splits)
  ultimately show ?thesis by (rule that)
qed

lemma coherent_loaded:
  assumes "coherent dump validate r"
  shows "coherent dump validate (load_registry validate (init_registry (reg_store r)))"
proof -
  have "dget (map (\<lambda>(k, n). (k, Fin 0 :: pyfloat)) d) k = map_option (\<lambda>_. Fin 0) (dget d k)" for d :: "(string, node) dict" and k
    using map_of_keyed [of "\<lambda>k n. Fin 0" d k] by simp
  moreover have "fst \<circ> (\<lambda>(k, n). (k, Fin 0 :: pyfloat)) = (fst :: string \<times> node \<Rightarrow> string)" by (simp add: fun_eq_iff)
  ultimately show ?thesis
    using assms unfolding load_coherent [OF assms] coherent_def reg_inv_def by (simp add: dmem_def)
qed

text \<open>What the startup of a fresh application on a durable store leaves in each component.\<close>

lemma restart_result:
  assumes "ap_store ap = Some s" "load_ledger (init_ledger (Some s)) = (Inr (), l)" "led_store l = Some s"
  obtains ap' where "restart validate opened ap = (Inr (), ap')" "ap_store ap' = Some s"
    "ap_registry ap' = load_registry validate (init_registry (Some s))" "ap_ledger ap' = l"
    "ap_meter ap' = load_meter (init_meter (Some s))" "ap_invites ap' = load_invite_registry (init_invites (Some s))"
    "vf_state (ap_canary ap') = []" "lm_buckets (ap_limiter ap') = []"
proof -
  have "reg_store (load_registry validate (init_registry (Some s))) = Some s" by (simp add: load_registry_def init_registry_def)
  moreover have "mtr_store (load_meter (init_meter (Some s))) = Some s" by (simp add: load_meter_def init_meter_def)
  moreover have "inv_store (load_invite_registry (init_invites (Some s))) = Some s"
    by (simp add: load_invite_registry_def init_invites_def)
  ultimately show ?thesis using assms
    by (intro that [of "snd (restart validate opened ap)"])
      (simp_all add: restart_def shutdown_def startup_def create_app_def registry_of_def put_registry_def ledger_of_def
        put_ledger_def meter_of_def put_meter_def invites_of_def put_invites_def init_registry_def init_ledger_def
        init_meter_def init_invites_def init_limiter_def init_verifier_def)
qed

lemma restart_keeps:
  assumes "app_durable dump validate ap"
  obtains ap' where "restart validate opened ap = (Inr (), ap')" "view_of ap' = view_of ap" "app_durable dump validate ap'"
    "reg_heartbeats (ap_registry ap') = []" "reg_telemetry (ap_registry ap') = []" "reg_mesh_nodes (ap_registry ap') = {}"
    "vf_state (ap_canary ap') = []" "lm_buckets (ap_limiter ap') = []"
proof -
  obtain s where s: "ap_store ap = Some s" "coherent dump validate ((ap_registry ap)\<lparr>reg_store := Some s\<rparr>)"
    "durable ((ap_ledger ap)\<lparr>led_store := Some s\<rparr>)" "meter_durable ((ap_meter ap)\<lparr>mtr_store := Some s\<rparr>)"
    "invites_durable ((ap_invites ap)\<lparr>inv_store := Some s\<rparr>)" using assms by (auto simp: app_durable_def)
  obtain l where l: "load_ledger (init_ledger (Some s)) = (Inr (), l)" "durable l" "credits_of l = credits_of (ap_ledger ap)"
    "led_store l = Some s" using load_ledger_durable [OF s(3)] by metis
  obtain ap' where a: "restart validate opened ap = (Inr (), ap')" "ap_store ap' = Some s"
    "ap_registry ap' = load_registry validate (init_registry (Some s))" "ap_ledger ap' = l"
    "ap_meter ap' = load_meter (init_meter (Some s))" "ap_invites ap' = load_invite_registry (init_invites (Some s))"
    "vf_state (ap_canary ap') = []" "lm_buckets (ap_limiter ap') = []" using restart_result [OF s(1) l(1,4)] by metis
  have m: "mtr_recent (ap_meter ap') = mtr_recent (ap_meter ap)" "mtr_store (ap_meter ap') = Some s"
    using restart_meter [OF s(4)] a(5) by (simp_all add: load_meter_def init_meter_def)
  have v: "ap_invites ap' = (ap_invites ap)\<lparr>inv_store := Some s\<rparr>" using restart_invites [OF s(5)] a(6) by simp
  have "view_of ap' = view_of ap" using a(3,4) l(3) m(1) v load_coherent [OF s(2)] by (simp add: view_of_def)
  moreover have "coherent dump validate (ap_registry ap')" "reg_store (ap_registry ap') = Some s"
    using coherent_loaded [OF s(2)] a(3) by (simp_all add: load_registry_def init_registry_def)
  moreover have "meter_durable (ap_meter ap')" using s(4) m by (auto simp: meter_durable_def)
  ultimately show ?thesis
    using that [OF a(1)] a(2,4,7,8) l(2,4) s(5) v m(2) a(3) load_coherent [OF s(2)] by (simp add: app_durable_def store_restored)
qed

datatype app_event = Op app_op | Restart bool

fun app_turn :: "(node \<Rightarrow> string) \<Rightarrow> (string \<Rightarrow> node option) \<Rightarrow> (string \<Rightarrow> string) \<Rightarrow> app_event \<Rightarrow> app_state \<Rightarrow> app_state" where
  "app_turn dump validate sha256 (Op op) ap = app_step dump sha256 op ap"
| "app_turn dump validate sha256 (Restart opened) ap = snd (restart validate opened ap)"

fun app_events :: "(node \<Rightarrow> string) \<Rightarrow> (string \<Rightarrow> node option) \<Rightarrow> (string \<Rightarrow> string) \<Rightarrow> app_event list \<Rightarrow> app_state \<Rightarrow> app_state" where
  "app_events dump validate sha256 [] ap = ap"
| "app_events dump validate sha256 (ev # evs) ap = app_events dump validate sha256 evs (app_turn dump validate sha256 ev ap)"

fun events_ok :: "(node \<Rightarrow> string) \<Rightarrow> (string \<Rightarrow> node option) \<Rightarrow> (string \<Rightarrow> string) \<Rightarrow> app_event list \<Rightarrow> app_state \<Rightarrow> bool" where
  "events_ok dump validate sha256 [] ap = True"
| "events_ok dump validate sha256 (ev # evs) ap =
     ((case ev of Op op \<Rightarrow> op_ok sha256 op ap | Restart opened \<Rightarrow> True)
      \<and> events_ok dump validate sha256 evs (app_turn dump validate sha256 ev ap))"

definition ops_of :: "app_event list \<Rightarrow> app_op list" where
  "ops_of evs = List.map_filter (\<lambda>ev. case ev of Op op \<Rightarrow> Some op | Restart opened \<Rightarrow> None) evs"

lemma ops_of_simps [simp]:
  "ops_of [] = []" "ops_of (Op op # evs) = op # ops_of evs" "ops_of (Restart b # evs) = ops_of evs"
  by (simp_all add: ops_of_def List.map_filter_simps)

lemma events_refine:
  assumes "codec_faithful dump validate"
  shows "app_durable dump validate ap \<Longrightarrow> events_ok dump validate sha256 evs ap \<Longrightarrow>
     app_durable dump validate (app_events dump validate sha256 evs ap)
     \<and> view_of (app_events dump validate sha256 evs ap) = fold (spec_step sha256) (ops_of evs) (view_of ap)"
proof (induction evs arbitrary: ap)
  case (Cons ev evs)
  show ?case
  proof (cases ev)
    case (Op op)
    then have "app_durable dump validate (app_step dump sha256 op ap)"
      using Cons.prems by (intro app_step_durable [OF assms]) auto
    then show ?thesis using Cons Op by (simp add: view_step)
  next
    case (Restart opened)
    obtain ap' where "restart validate opened ap = (Inr (), ap')" "view_of ap' = view_of ap" "app_durable dump validate ap'"
      using restart_keeps [OF Cons.prems(1)] by metis
    then show ?thesis using Cons Restart by simp
  qed
qed simp

lemma app_durable_create:
  "app_durable dump validate (create_app (Some (open_conn None)) cors limiter key key2)"
proof -
  let ?s = "open_conn None"
  have t: "tbl_nodes ?s = tbl_nodes empty_store" "tbl_node_tokens ?s = tbl_node_tokens empty_store"
    "tbl_credit_accounts ?s = tbl_credit_accounts empty_store" "tbl_usage_records ?s = []" "tbl_invites ?s = tbl_invites empty_store"
    by (simp_all add: open_conn_def check_schema_version_def empty_store_def)
  have "coherent dump validate (init_registry (Some ?s))"
    using coherent_local [of dump validate empty_store "init_registry (Some empty_store)" ?s] coherent_init t
    by (simp add: init_registry_def)
  moreover have "durable (init_ledger (Some ?s))"
    using durable_local [of empty_store "init_ledger (Some empty_store)" ?s] durable_init t by (simp add: init_ledger_def)
  moreover have "invites_durable (init_invites (Some ?s))"
    using invites_tenant.local [where s = empty_store and m = "init_invites (Some empty_store)" and s' = ?s] invites_durable_init t
    by (simp add: init_invites_def)
  moreover have "meter_durable (init_meter (Some ?s))"
    using t(4) by (simp add: meter_durable_def init_meter_def slice_from_neg_def)
  ultimately show ?thesis
    by (simp add: app_durable_def create_app_def init_registry_def init_ledger_def init_invites_def init_meter_def)
qed

section \<open>Properties\<close>

text \<open>
  C6. Restarts cannot be observed on what the Scheduler keeps: start on a new database file, and let any
  sequence of registry, ledger, metering and invite operations run on the one shared store, with the process
  restarted at any points. Then nodes, credentials, credit totals, the usage tail and the invites are what the
  abstract, store-free effects of the operations alone give; the next startup succeeds and brings exactly
  them back, while heartbeats, telemetry, mesh reachability, quarantine verdicts and rate limits start empty.
\<close>

theorem scheduler_restart:
  assumes "codec_faithful dump validate"
    "events_ok dump validate sha256 evs (create_app (Some (open_conn None)) cors limiter key key2)"
    "ap = app_events dump validate sha256 evs (create_app (Some (open_conn None)) cors limiter key key2)"
  shows "view_of ap = fold (spec_step sha256) (ops_of evs)
            \<lparr>dv_nodes = [], dv_tokens = [], dv_credits = (\<lambda>_. (Fin 0, Fin 0)), dv_recent = [], dv_invites = []\<rparr>
    \<and> (\<exists>ap'. restart validate opened ap = (Inr (), ap') \<and> view_of ap' = view_of ap
         \<and> reg_heartbeats (ap_registry ap') = [] \<and> reg_telemetry (ap_registry ap') = []
         \<and> reg_mesh_nodes (ap_registry ap') = {} \<and> vf_state (ap_canary ap') = [] \<and> lm_buckets (ap_limiter ap') = [])"
proof -
  note r = events_refine [OF assms(1) app_durable_create assms(2), folded assms(3)]
  have "view_of (create_app (Some (open_conn None)) cors limiter key key2) =
      \<lparr>dv_nodes = [], dv_tokens = [], dv_credits = (\<lambda>_. (Fin 0, Fin 0)), dv_recent = [], dv_invites = []\<rparr>"
    by (simp add: view_of_def create_app_def init_registry_def init_ledger_def init_meter_def init_invites_def credits_in_def fun_eq_iff)
  moreover obtain ap' where "restart validate opened ap = (Inr (), ap')" "view_of ap' = view_of ap"
    "reg_heartbeats (ap_registry ap') = []" "reg_telemetry (ap_registry ap') = []" "reg_mesh_nodes (ap_registry ap') = {}"
    "vf_state (ap_canary ap') = []" "lm_buckets (ap_limiter ap') = []" using restart_keeps r by metis
  ultimately show ?thesis using r by auto
qed

definition sample_events :: "app_event list" where
  "sample_events = [Op (InviteOp (Issue ''c'' ''l'' 1 (Fin 0))), Op (RegistryOp (Register (sample_node ''a''))),
     Op (RegistryOp (SetToken ''a'' (Some ''t''))), Restart True, Op (UsageOp sample_usage), Restart False,
     Op (LedgerOp (Deduct ''t'' (Fin 2) (Fin 1)))]"

theorem scheduler_restart_witness:
  "dv_nodes (view_of (app_events unary_dump unary_validate id sample_events (create_app (Some (open_conn None)) [] None None None)))
     = [(''a'', sample_node ''a'')]"
proof -
  let ?ap = "create_app (Some (open_conn None)) [] None None None"
  have codec: "codec_faithful unary_dump unary_validate" by (simp add: codec_faithful_def unary_codec)
  have "events_ok unary_dump unary_validate id sample_events ?ap"
    by (simp add: sample_events_def create_app_def init_invites_def node_finite_def sample_node_def sample_usage_def usage_valid_def
        dbl_rat_numeral del: app_turn.simps)
  then show ?thesis
    using scheduler_restart [OF codec _ refl, of id sample_events "[]" None None None True]
    by (simp add: sample_events_def sample_node_def)
qed

lemmas route_defs = app_routes_def health_routes_def telemetry_routes_def nodes_routes_def heartbeat_routes_def
  schedule_routes_def ingress_routes_def openai_routes_def batch_routes_def credentials_routes_def usage_routes_def

text \<open>A path that reaches an endpoint.\<close>

fun sample_request :: "endpoint \<Rightarrow> http_method \<times> string list" where
  "sample_request Health = (GET, [''health''])"
| "sample_request Readiness = (GET, [''health'', ''ready''])"
| "sample_request OperationalStatus = (GET, [''status''])"
| "sample_request ListAllTelemetry = (GET, [''nodes'', ''telemetry''])"
| "sample_request GetNodeTelemetry = (GET, [''nodes'', ''n'', ''telemetry''])"
| "sample_request RegisterNode = (POST, [''nodes'', ''register''])"
| "sample_request ListNodes = (GET, [''nodes''])"
| "sample_request GetNode = (GET, [''nodes'', ''n''])"
| "sample_request UpdateNodeModels = (PUT, [''nodes'', ''n'', ''models''])"
| "sample_request DeleteNode = (DELETE, [''nodes'', ''n''])"
| "sample_request ReceiveHeartbeat = (POST, [''heartbeat''])"
| "sample_request ScheduleRequest = (POST, [''schedule''])"
| "sample_request ProxyInference = (POST, [''infer''])"
| "sample_request SubmitTask = (POST, [''api'', ''v1'', ''tasks'', ''submit''])"
| "sample_request ChatCompletion = (POST, [''v1'', ''chat'', ''completions''])"
| "sample_request ListModels = (GET, [''v1'', ''models''])"
| "sample_request GetModel = (GET, [''v1'', ''models'', ''m''])"
| "sample_request SubmitBatch = (POST, [''v1'', ''batch''])"
| "sample_request BatchStatus = (GET, [''v1'', ''batch'', ''b''])"
| "sample_request IssueCredential = (POST, [''v1'', ''credentials''])"
| "sample_request RecentUsage = (GET, [''usage''])"
| "sample_request NodeUsage = (GET, [''nodes'', ''n'', ''usage''])"
| "sample_request CanaryStatus = (GET, [''nodes'', ''canary''])"
| "sample_request Metrics = (GET, [''metrics''])"

lemma reachable_endpoints:
  assumes "in_order dispatch" "e \<noteq> CanaryStatus"
  shows "dispatch app_routes (fst (sample_request e)) (snd (sample_request e)) = Some e"
  using assms by (cases e) (simp_all add: in_order_def route_defs route_matches_def)

text \<open>
  The operator's view of quarantined nodes is unreachable: with a router that tries path operations in the
  order they were added, no request is ever answered by \<^verbatim>\<open>canary_status\<close>; the documented \<^verbatim>\<open>GET /nodes/canary\<close>
  goes to \<^verbatim>\<open>get_node\<close>, which answers 404 unless a node has that identifier. Every other endpoint is reached by
  its documented path.
\<close>

theorem canary_status_unreachable:
  assumes "in_order dispatch" "\<not> registry_exists ''canary'' (na_registry app)"
  shows "(\<forall>m path. dispatch app_routes m path \<noteq> Some CanaryStatus)
    \<and> dispatch app_routes GET [''nodes'', ''canary''] = Some GetNode
    \<and> fst (get_node header ''canary'' app) \<in> {Inl (HTTPException 401 ''Unauthorized''), Inl (http_not_found ''canary'')}
    \<and> (\<forall>e. e \<noteq> CanaryStatus \<longrightarrow> (\<exists>m path. dispatch app_routes m path = Some e))"
proof -
  have "dispatch app_routes m path \<noteq> Some CanaryStatus" for m path
  proof
    assume "dispatch app_routes m path = Some CanaryStatus"
    then obtain r where r: "List.find (route_matches m path) app_routes = Some r" "snd (snd r) = CanaryStatus"
      using assms(1) by (auto simp: in_order_def)
    have "r \<in> set app_routes" "route_matches m path r" using r(1) by (auto simp: find_Some_iff)
    then have "m = GET" "path = [''nodes'', ''canary'']" using r(2)
      by (auto simp: route_defs route_matches_def list_all2_Cons1)
    then show False using r by (auto simp: route_defs route_matches_def)
  qed
  moreover have "dispatch app_routes GET [''nodes'', ''canary''] = Some GetNode"
    using assms(1) by (simp add: in_order_def route_defs route_matches_def)
  moreover have "fst (get_node header ''canary'' app) \<in> {Inl (HTTPException 401 ''Unauthorized''), Inl (http_not_found ''canary'')}"
    using assms(2) by (simp add: get_node_def guarded_def registry_get_def registry_exists_def dmem_def verify_auth_token_def)
  ultimately show ?thesis using reachable_endpoints [OF assms(1)] by blast
qed

theorem canary_status_unreachable_witness:
  "map_option (snd \<circ> snd) (List.find (route_matches GET [''nodes'', ''canary'']) app_routes) = Some GetNode"
proof -
  let ?d = "\<lambda>rs m path. map_option (snd \<circ> snd) (List.find (route_matches m path) rs)"
  let ?app = "\<lparr>na_registry = init_registry None, na_invites = None, na_auth_token = None\<rparr>"
  have "in_order ?d" by (simp add: in_order_def)
  moreover have "\<not> registry_exists ''canary'' (na_registry ?app)" by (simp add: registry_exists_def init_registry_def)
  ultimately show ?thesis using canary_status_unreachable by blast
qed

text \<open>A token that one configured key decodes, and no other key decodes differently, passes \<^verbatim>\<open>verify_jwt\<close>.\<close>

lemma encoded_token_accepted:
  assumes "pub \<noteq> []" "primary = Some pub \<or> secondary = Some pub" "CHR '' '' \<notin> set token"
    "jwt_decode lib token pub = Some claims" "\<And>other. jwt_decode lib token other \<in> {None, Some claims}"
    "dmem ''tenant_id'' claims"
  shows "verify_jwt lib primary secondary (Some (''Bearer '' @ token)) = Inr claims"
proof -
  have keys: "verification_keys primary secondary \<noteq> []"
    using set_verification_keys [of pub primary secondary] assms(1,2) by auto
  have "decode_with_any lib token (verification_keys primary secondary) = Some claims"
  proof (cases "decode_with_any lib token (verification_keys primary secondary)")
    case None
    then show ?thesis using assms(1,2,4) by (auto simp: decode_with_any_None)
  next
    case (Some p)
    then obtain k where k: "jwt_decode lib token k = Some p" using decode_with_any_Some [OF Some] by auto
    show ?thesis using Some k assms(5) [of k] by simp
  qed
  moreover have "py_split (CHR '' '') (''Bearer '' @ token) ! 1 = token"
    using py_split_plain [OF assms(3)] by simp
  ultimately show ?thesis using keys assms(6) by (simp add: verify_jwt_def startswith_def Let_def)
qed

text \<open>
  C39. A credential the operator issues is accepted by the gateway for the tenant it was issued for and for no longer
  than configured: only a caller with the fleet token gets one; it expires at most the configured number of
  hours from now, whatever was asked for; and if the public half of the signing key is one of the configured
  verification keys, a request that carries the token passes \<^verbatim>\<open>verify_jwt\<close> with the requested tenant, under
  either key identifier. Hypotheses on PyJWT: a token has no space, its own public key decodes it to
  the encoded claims, and another key decodes it to these or not at all.
\<close>

theorem issued_credential_accepted:
  assumes "issue_credential sg st header q now = Inr cd" "credential_request_valid q"
    "signing_key sg st (cq_kid q) = Inr key" "pub \<noteq> []" "primary = Some pub \<or> secondary = Some pub"
    "CHR '' '' \<notin> set (cd_token cd)"
    "jwt_decode lib (cd_token cd) pub = Some (credential_claims q now (cd_expires_at cd))"
    "\<And>other. jwt_decode lib (cd_token cd) other \<in> {None, Some (credential_claims q now (cd_expires_at cd))}"
  shows "verify_auth_token (ss_network_auth_token st) header = Inr ()
    \<and> cd_token cd = sg_encode sg (credential_claims q now (cd_expires_at cd)) key (cq_kid q)
    \<and> cd_expires_at cd \<le> now + 3600 * ss_credential_max_ttl_hours st \<and> cd_expires_at cd \<le> now + 3600 * cq_ttl_hours q
    \<and> (\<exists>claims. verify_jwt lib primary secondary (Some (''Bearer '' @ cd_token cd)) = Inr claims
         \<and> tenant_of claims = Inr (cq_tenant_id q))"
proof -
  let ?claims = "credential_claims q now (cd_expires_at cd)"
  have issued: "verify_auth_token (ss_network_auth_token st) header = Inr ()"
    "cd_token cd = sg_encode sg (credential_claims q now (cd_expires_at cd)) key (cq_kid q)"
    "cd_expires_at cd = now + 3600 * min (cq_ttl_hours q) (ss_credential_max_ttl_hours st)"
    using assms(1,3) by (auto simp: issue_credential_def Let_def rbind_eq_Inr split: if_splits)
  have "verify_jwt lib primary secondary (Some (''Bearer '' @ cd_token cd)) = Inr ?claims"
    using assms(4-8) by (intro encoded_token_accepted) (auto simp: credential_claims_def dmem_def)
  moreover have "tenant_of ?claims = Inr (cq_tenant_id q)"
    using assms(2) by (auto simp: tenant_of_def jget_def dget_or_def credential_claims_def credential_request_valid_def)
  ultimately show ?thesis using issued by auto
qed

definition sample_credential :: credential_request where
  "sample_credential = \<lparr>cq_tenant_id = ''acme'', cq_subject = ''dev'', cq_ttl_hours = 9999, cq_kid = ''secondary''\<rparr>"

definition sample_signer :: sign_lib where
  "sample_signer = \<lparr>sg_load_key = (\<lambda>path. Some ''k''), sg_encode = (\<lambda>claims key kid. ''tok'')\<rparr>"

theorem issued_credential_accepted_witness:
  "\<exists>claims. verify_jwt \<lparr>unverified_kid = (\<lambda>_. Some ''secondary''), jwt_decode = (\<lambda>t key. if key = ''pub''
          then Some (credential_claims sample_credential 0 2592000) else None)\<rparr> (Some ''old'') (Some ''pub'') (Some ''Bearer tok'') = Inr claims
     \<and> tenant_of claims = Inr ''acme''"
  using issued_credential_accepted [of sample_signer "scheduler_defaults\<lparr>ss_jwt_private_key_path_secondary := Some ''p''\<rparr>" None
      sample_credential 0 "\<lparr>cd_token = ''tok'', cd_tenant_id = ''acme'', cd_subject = ''dev'', cd_expires_at = 2592000, cd_kid = ''secondary''\<rparr>"
      "''k''" "''pub''" "Some ''old''" "Some ''pub''"
      "\<lparr>unverified_kid = (\<lambda>_. Some ''secondary''), jwt_decode = (\<lambda>t key. if key = ''pub''
          then Some (credential_claims sample_credential 0 2592000) else None)\<rparr>"]
  by (simp add: issue_credential_def verify_auth_token_def scheduler_defaults_def sample_credential_def sample_signer_def
      KID_PRIMARY_def KID_SECONDARY_def signing_key_def datetime_ok_def credential_request_valid_def)

text \<open>
  Batches are neither faked nor leaked: a submission never succeeds, whatever it contains; and asking for a batch of
  another tenant gives the same answer as asking for one that does not exist, so the answer of an
  application with the batch and of one without it cannot be told apart.
\<close>

theorem batches_private:
  assumes "bj_tenant_id job \<noteq> tenant" "ap_batch_jobs ap = Some jobs"
    "rbind (verify_jwt lib (ap_jwt_public_key ap) (ap_jwt_public_key_secondary ap) auth) (require_tenant rep) = Inr tenant"
  shows "fst (get_batch_job_status rep lib auth b (ap\<lparr>ap_batch_jobs := Some (dset b job jobs)\<rparr>))
       = fst (get_batch_job_status rep lib auth b (ap\<lparr>ap_batch_jobs := Some (ddel b jobs)\<rparr>))
    \<and> fst (get_batch_job_status rep lib auth b (ap\<lparr>ap_batch_jobs := Some (dset b job jobs)\<rparr>))
       = Inl (HTTPException 404 (''Batch job '' @ b @ '' not found''))
    \<and> (\<exists>e. submit_batch_job rep lib auth rqs ap = Inl e)"
  using assms
  by (auto simp: get_batch_job_status_def get_batch_jobs_def dict_simps submit_batch_job_def rbind_def split: sum.splits)

theorem batches_private_witness:
  "fst (get_batch_job_status (\<lambda>_. []) \<lparr>unverified_kid = (\<lambda>_. None), jwt_decode = (\<lambda>t k. Some [(''tenant_id'', JStr ''a'')])\<rparr>
      (Some ''Bearer t'') ''b1''
      ((create_app None [] None (Some ''key'') None)\<lparr>ap_batch_jobs := Some [(''b1'', \<lparr>bj_tenant_id = ''b'',
         bj_response = \<lparr>br_batch_id = ''b1'', br_status = ''done'', br_total_items = 0, br_completed_items = 0, br_results = []\<rparr>\<rparr>)]\<rparr>))
   = Inl (HTTPException 404 ''Batch job b1 not found'')"
  using batches_private [of "\<lparr>bj_tenant_id = ''b'',
         bj_response = \<lparr>br_batch_id = ''b1'', br_status = ''done'', br_total_items = 0, br_completed_items = 0, br_results = []\<rparr>\<rparr>"
      "''a''" "(create_app None [] None (Some ''key'') None)\<lparr>ap_batch_jobs := Some []\<rparr>" "[]"
      "\<lparr>unverified_kid = (\<lambda>_. None), jwt_decode = (\<lambda>t k. Some [(''tenant_id'', JStr ''a'')])\<rparr>" "Some ''Bearer t''" "\<lambda>_. []" "''b1''" "[]"]
  by (auto simp: create_app_def verify_jwt_def startswith_def Let_def verification_keys_def configured_key_def decode_with_any_def
      ordered_keys_def require_tenant_def jget_def dget_or_def dmem_def)

lemma count_by_node_get:
  "dget_or (fold (\<lambda>r d. dset (us_node_id r) (dget_or d (us_node_id r) 0 + 1) d) rs d) k 0
     = dget_or d k 0 + int (length (filter (\<lambda>r. us_node_id r = k) rs))"
  by (induction rs arbitrary: d) (auto simp: dget_or_def dict_simps split: option.splits)

text \<open>
  The usage endpoints show what was served: after any valid requests have been recorded, a page of \<^verbatim>\<open>/usage\<close>
  holds the newest of them first, at least one and at most 500, whatever limit was asked for; the
  counters of \<^verbatim>\<open>/metrics\<close> per node add up to the number of requests in the window and never exceed it in failures;
  and asking for a node's usage changes nothing a restart would keep.
\<close>

theorem usage_reported:
  "length (up_records (recent_usage_page limit ap)) = min (nat (max 1 (min limit 500))) (length (mtr_recent (ap_meter ap)))
   \<and> up_records (recent_usage_page limit ap) = take (nat (max 1 (min limit 500))) (rev (mtr_recent (ap_meter ap)))
   \<and> mv_failed (metrics_answer ap) \<le> mv_requests (metrics_answer ap)
   \<and> (\<forall>k. dget_or (mv_by_node (metrics_answer ap)) k 0
          = int (length (filter (\<lambda>r. us_node_id r = k) (recent None MAX_RECENT (meter_of ap)))))
   \<and> view_of (snd (node_usage_answer k now ap)) = view_of ap \<and> ap_store (snd (node_usage_answer k now ap)) = ap_store ap"
proof -
  have "take (length xs - (length xs - n)) (rev xs) = take n (rev xs)" for n and xs :: "usage_record list"
    by (cases "n \<le> length xs") auto
  then have "recent None n (meter_of ap) = take (nat n) (rev (mtr_recent (ap_meter ap)))" if "0 < n" for n
    using that by (simp add: recent_def meter_of_def slice_from_neg_def rev_drop Let_def)
  then have page: "up_records (recent_usage_page limit ap) = take (nat (max 1 (min limit 500))) (rev (mtr_recent (ap_meter ap)))"
    by (simp add: recent_usage_page_def Let_def MAX_RECENT_def)
  have "view_of (snd (node_usage_answer k now ap)) = view_of ap \<and> ap_store (snd (node_usage_answer k now ap)) = ap_store ap"
  proof (cases "totals_for_node k (meter_of ap)")
    case (Inr totals)
    obtain a l where g: "get_or_create_account k now (ledger_of ap) = (a, l)" by force
    have "credits_of l = credits_of (ap_ledger ap)" using get_or_create_credits [OF g] by (simp add: ledger_of_def)
    moreover have "led_store l = ap_store ap" using get_or_create_store [of k now "ledger_of ap"] g by (simp add: ledger_of_def)
    ultimately show ?thesis using Inr g by (simp add: node_usage_answer_def view_of_def put_ledger_def)
  qed (simp add: node_usage_answer_def)
  then show ?thesis using page
    by (auto simp: metrics_answer_def Let_def count_by_node_def count_by_node_get dget_or_def [of "[]"] min.commute)
qed

end
