(* ===== verification/Radix_Cache.thy ===== *)
theory Radix_Cache
  imports Py_Json
begin

text \<open>
  The Node's prompt prefix cache (\<^verbatim>\<open>node/core/radix_cache.py\<close>): a compressed trie over the characters
  of the cached prompts, and the recency order that bounds their number. A trie node is mutated in
  place by the code and owned by its parent alone, so the model rebuilds it. The theorems relate the
  trie to the set of cached prompts: the searched tree is determined by that set, whatever the order of
  insertions, evictions and rebuilds was.
\<close>

section \<open>The trie\<close>

text \<open>\<^verbatim>\<open>RadixTrieNode\<close>: path, children, leaf flag.\<close>

datatype radix_trie_node = RadixTrieNode (path: string) (children: "radix_trie_node list") (is_leaf: bool)

fun get_common_prefix_length :: "string \<Rightarrow> string \<Rightarrow> nat" where
  "get_common_prefix_length (a # p) (b # q) = (if a = b then Suc (get_common_prefix_length p q) else 0)"
| "get_common_prefix_length _ _ = 0"

text \<open>The inner loop of \<^verbatim>\<open>_search_trie\<close>: the first child whose whole path starts the remaining tokens.\<close>

fun matched_child :: "string \<Rightarrow> radix_trie_node list \<Rightarrow> radix_trie_node option" where
  "matched_child remaining [] = None"
| "matched_child remaining (c # cs) =
     (if get_common_prefix_length (path c) remaining = length (path c) then Some c else matched_child remaining cs)"

lemma matched_child_in: "matched_child remaining cs = Some c \<Longrightarrow> c \<in> set cs"
  by (induction cs) (auto split: if_splits)

text \<open>
  The loop of \<^verbatim>\<open>_search_trie\<close> from the node \<open>cur\<close> on: matched tokens and remaining tokens. It ends
  because it descends one level of a finite tree per turn.
\<close>

function search_from :: "radix_trie_node \<Rightarrow> string \<Rightarrow> string \<times> string" where
  "search_from cur remaining =
     (if remaining = [] then ([], [])
      else (case matched_child remaining (children cur) of
          None \<Rightarrow> ([], remaining)
        | Some c \<Rightarrow>
            (case search_from c (drop (length (path c)) remaining) of (prefix, rest) \<Rightarrow> (path c @ prefix, rest))))"
  by auto

termination
proof (relation "measure (\<lambda>(n, _). size n)")
  fix cur c :: radix_trie_node and remaining
  assume "matched_child remaining (children cur) = Some c"
  then have "c \<in> set (children cur)" by (rule matched_child_in)
  then show "((c, drop (length (path c)) remaining), cur, remaining) \<in> measure (\<lambda>(n, _). size n)"
    by (cases cur) (auto dest: size_list_estimation'[where f = size and y = "size c"])
qed simp

declare search_from.simps [simp del]

text \<open>The split of a compressed node in \<^verbatim>\<open>_insert_node\<close>.\<close>

definition split_node :: "nat \<Rightarrow> radix_trie_node \<Rightarrow> radix_trie_node" where
  "split_node common c =
     (if common < length (path c)
      then RadixTrieNode (take common (path c)) [RadixTrieNode (drop common (path c)) (children c) (is_leaf c)] False
      else c)"

lemma common_prefix_le:
  "get_common_prefix_length p q \<le> length p" "get_common_prefix_length p q \<le> length q"
  by (induction p q rule: get_common_prefix_length.induct) auto

lemma common_prefix_Nil [simp]: "get_common_prefix_length p [] = 0"
  by (cases p) auto

text \<open>\<^verbatim>\<open>_insert_node\<close> and its loop over the children of the parent.\<close>

function insert_node :: "radix_trie_node \<Rightarrow> string \<Rightarrow> radix_trie_node"
  and insert_children :: "radix_trie_node list \<Rightarrow> string \<Rightarrow> radix_trie_node list" where
  "insert_node parent tokens =
     (if tokens = [] then RadixTrieNode (path parent) (children parent) True
      else RadixTrieNode (path parent) (insert_children (children parent) tokens) (is_leaf parent))"
| "insert_children [] tokens = [RadixTrieNode tokens [] True]"
| "insert_children (c # cs) tokens =
     (let common = get_common_prefix_length (path c) tokens
      in if 0 < common then insert_node (split_node common c) (drop common tokens) # cs
         else c # insert_children cs tokens)"
  by pat_completeness auto

termination
proof (relation "inv_image (less_than <*lex*> less_than)
    (case_sum (\<lambda>(n, ts). (length ts, Suc (length (children n)))) (\<lambda>(cs, ts). (length ts, length cs)))")
  fix c :: radix_trie_node and cs tokens common
  assume "common = get_common_prefix_length (path c) tokens" "0 < common"
  then have "length (drop common tokens) < length tokens"
    using common_prefix_le(2) [of "path c" tokens] by simp
  then show "(Inl (split_node common c, drop common tokens), Inr (c # cs, tokens))
      \<in> inv_image (less_than <*lex*> less_than)
          (case_sum (\<lambda>(n, ts). (length ts, Suc (length (children n)))) (\<lambda>(cs, ts). (length ts, length cs)))"
    by simp
qed auto

declare insert_node.simps [simp del] insert_children.simps [simp del]

section \<open>The cache\<close>

text \<open>
  \<^verbatim>\<open>RadixTrieCache\<close>. \<^verbatim>\<open>prompts\<close> is an \<^verbatim>\<open>OrderedDict\<close> whose values are all \<^verbatim>\<open>None\<close>: the list of its keys, the
  least recently used first.
\<close>

record radix_cache =
  rc_capacity :: int
  rc_root :: radix_trie_node
  rc_prompts :: "string list"

definition init_radix_cache :: "int \<Rightarrow> radix_cache" where
  "init_radix_cache capacity = \<lparr>rc_capacity = capacity, rc_root = RadixTrieNode [] [] False, rc_prompts = []\<rparr>"

text \<open>\<^verbatim>\<open>OrderedDict.move_to_end\<close> of a key that is present, and the insertion of a key followed by it.\<close>

definition move_to_end :: "string \<Rightarrow> string list \<Rightarrow> string list" where
  "move_to_end p ps = filter (\<lambda>q. q \<noteq> p) ps @ [p]"

definition search_trie :: "string \<Rightarrow> radix_cache \<Rightarrow> string \<times> string" where
  "search_trie prompt c = search_from (rc_root c) prompt"

definition insert_into_trie :: "string \<Rightarrow> radix_trie_node \<Rightarrow> radix_trie_node" where
  "insert_into_trie prompt n = insert_node n prompt"

definition rebuild_trie :: "string list \<Rightarrow> radix_trie_node" where
  "rebuild_trie prompts = fold insert_into_trie prompts (RadixTrieNode [] [] False)"

definition lookup_prefix :: "string \<Rightarrow> radix_cache \<Rightarrow> (string \<times> string) \<times> radix_cache" where
  "lookup_prefix prompt c =
     (case search_trie prompt c of
        (prefix, suffix) \<Rightarrow>
          ((prefix, suffix),
           if prefix \<noteq> []
           then c\<lparr>rc_prompts := fold (\<lambda>p ps. if startswith p prefix then move_to_end p ps else ps) (rc_prompts c) (rc_prompts c)\<rparr>
           else c))"

definition insert_prefix :: "string \<Rightarrow> radix_cache \<Rightarrow> radix_cache" where
  "insert_prefix prompt c =
     (let prompts = move_to_end prompt (rc_prompts c)
      in if rc_capacity c < int (length prompts)
         then c\<lparr>rc_prompts := tl prompts, rc_root := rebuild_trie (tl prompts)\<rparr>
         else c\<lparr>rc_prompts := prompts, rc_root := insert_into_trie prompt (rc_root c)\<rparr>)"

section \<open>What a trie stands for\<close>

text \<open>
  The prompts below a node, the positions at which a search can stop, and the shape every reachable trie
  has: no empty edge, edges of one node start with different characters, and an inner node that is no
  prompt branches.
\<close>

fun suffixes_of :: "radix_trie_node \<Rightarrow> string set" where
  "suffixes_of (RadixTrieNode p cs l) = (if l then {[]} else {}) \<union> (\<Union>c\<in>set cs. (\<lambda>w. path c @ w) ` suffixes_of c)"

fun stops_of :: "radix_trie_node \<Rightarrow> string set" where
  "stops_of (RadixTrieNode p cs l) = {[]} \<union> (\<Union>c\<in>set cs. (\<lambda>w. path c @ w) ` stops_of c)"

fun trie_ok :: "radix_trie_node \<Rightarrow> bool" where
  "trie_ok (RadixTrieNode p cs l) \<longleftrightarrow>
     distinct (map (\<lambda>c. hd (path c)) cs) \<and>
     (\<forall>c\<in>set cs. path c \<noteq> [] \<and> (is_leaf c \<or> 2 \<le> length (children c)) \<and> trie_ok c)"

abbreviation edge_ok :: "radix_trie_node \<Rightarrow> bool" where
  "edge_ok c \<equiv> path c \<noteq> [] \<and> (is_leaf c \<or> 2 \<le> length (children c)) \<and> trie_ok c"

text \<open>
  The specification: the points a set of prompts determines are the prompts themselves and the places
  where two of them part.
\<close>

definition junctions :: "string set \<Rightarrow> string set" where
  "junctions W = {q. q \<in> W \<or> (\<exists>a b x y. a \<noteq> b \<and> q @ a # x \<in> W \<and> q @ b # y \<in> W)}"

lemma suffixes_of_eq:
  "suffixes_of n = (if is_leaf n then {[]} else {}) \<union> (\<Union>c\<in>set (children n). (\<lambda>w. path c @ w) ` suffixes_of c)"
  by (cases n) simp

lemma stops_of_eq: "stops_of n = {[]} \<union> (\<Union>c\<in>set (children n). (\<lambda>w. path c @ w) ` stops_of c)"
  by (cases n) simp

lemma trie_ok_eq: "trie_ok n \<longleftrightarrow> distinct (map (\<lambda>c. hd (path c)) (children n)) \<and> (\<forall>c\<in>set (children n). edge_ok c)"
  by (cases n) simp

lemma common_prefix_take:
  "take (get_common_prefix_length p q) p = take (get_common_prefix_length p q) q"
  by (induction p q rule: get_common_prefix_length.induct) auto

lemma common_prefix_maximal:
  "drop (get_common_prefix_length p q) p \<noteq> [] \<Longrightarrow> drop (get_common_prefix_length p q) q \<noteq> [] \<Longrightarrow>
   hd (drop (get_common_prefix_length p q) p) \<noteq> hd (drop (get_common_prefix_length p q) q)"
  by (induction p q rule: get_common_prefix_length.induct) auto

lemma common_prefix_0: "get_common_prefix_length p q = 0 \<longleftrightarrow> p = [] \<or> q = [] \<or> hd p \<noteq> hd q"
  by (cases p; cases q) auto

lemma common_prefix_full: "get_common_prefix_length p q = length p \<longleftrightarrow> (\<exists>r. q = p @ r)"
  by (induction p q rule: get_common_prefix_length.induct) auto

section \<open>Insertion\<close>

lemma split_node_keeps:
  assumes "trie_ok c" "common \<le> length (path c)"
  shows "path (split_node common c) = take common (path c)"
    "(\<lambda>w. path (split_node common c) @ w) ` suffixes_of (split_node common c) = (\<lambda>w. path c @ w) ` suffixes_of c"
  using assms by (cases c; force simp: split_node_def image_image image_UN image_Un)+

lemma split_node_ok:
  assumes "edge_ok c" "common < length (path c)"
  shows "trie_ok (split_node common c)"
  using assms by (cases c) (auto simp: split_node_def)

text \<open>Inserting below a split node makes it a prompt or a branching point.\<close>

lemma insert_split_branches:
  assumes "common = get_common_prefix_length (path c) ts" "common < length (path c)"
  shows "is_leaf (insert_node (split_node common c) (drop common ts))
    \<or> 2 \<le> length (children (insert_node (split_node common c) (drop common ts)))"
proof (cases "drop common ts = []")
  case False
  have "hd (drop common (path c)) \<noteq> hd (drop common ts)"
    using common_prefix_maximal [of "path c" ts] assms False by simp
  then have "get_common_prefix_length (drop common (path c)) (drop common ts) = 0"
    by (simp add: common_prefix_0)
  then show ?thesis
    using False assms(2) by (simp add: split_node_def insert_node.simps insert_children.simps)
qed (simp add: insert_node.simps)

lemma insert_children_length: "length cs \<le> length (insert_children cs ts)"
  by (induction cs) (auto simp: insert_children.simps Let_def)

lemma insert_node_branches: "is_leaf n \<or> 2 \<le> length (children n) \<Longrightarrow>
  is_leaf (insert_node n ts) \<or> 2 \<le> length (children (insert_node n ts))"
  using insert_children_length [of "children n" ts] by (auto simp: insert_node.simps)

lemma path_insert_node [simp]: "path (insert_node n ts) = path n"
  by (simp add: insert_node.simps)

lemma insert_correct:
  "trie_ok n \<Longrightarrow> trie_ok (insert_node n ts) \<and> suffixes_of (insert_node n ts) = insert ts (suffixes_of n)"
  "ts \<noteq> [] \<Longrightarrow> distinct (map (\<lambda>c. hd (path c)) cs) \<Longrightarrow> \<forall>c\<in>set cs. edge_ok c \<Longrightarrow>
     distinct (map (\<lambda>c. hd (path c)) (insert_children cs ts)) \<and> (\<forall>c\<in>set (insert_children cs ts). edge_ok c)
     \<and> (\<lambda>c. hd (path c)) ` set (insert_children cs ts) = insert (hd ts) ((\<lambda>c. hd (path c)) ` set cs)
     \<and> (\<Union>c\<in>set (insert_children cs ts). (\<lambda>w. path c @ w) ` suffixes_of c)
         = insert ts (\<Union>c\<in>set cs. (\<lambda>w. path c @ w) ` suffixes_of c)"
proof (induction n ts and cs ts rule: insert_node_insert_children.induct)
  case (1 n ts)
  then show ?case
    by (cases "ts = []") (auto simp: insert_node.simps trie_ok_eq [of n] suffixes_of_eq [of n])
next
  case (2 ts)
  then show ?case by (simp add: insert_children.simps)
next
  case (3 c cs ts)
  define common where "common = get_common_prefix_length (path c) ts"
  show ?case
  proof (cases "0 < common")
    case False
    then have "hd (path c) \<noteq> hd ts" using 3 by (auto simp: common_def common_prefix_0)
    then show ?thesis using 3 False by (auto simp: insert_children.simps Let_def common_def)
  next
    case True
    let ?n = "split_node common c" let ?n' = "insert_node ?n (drop common ts)"
    have le: "common \<le> length (path c)" "common \<le> length ts" by (simp_all add: common_def common_prefix_le)
    have c: "edge_ok c" using 3 by simp
    have ok: "trie_ok ?n" using c split_node_ok [OF c] by (cases "common < length (path c)") (simp_all add: split_node_def)
    have IH: "trie_ok ?n'" "suffixes_of ?n' = insert (drop common ts) (suffixes_of ?n)"
      using 3(1) [OF common_def True] ok by blast+
    have path: "path ?n = take common ts" and keep: "(\<lambda>w. path ?n @ w) ` suffixes_of ?n = (\<lambda>w. path c @ w) ` suffixes_of c"
      using split_node_keeps [OF _ le(1)] c common_prefix_take [of "path c" ts] by (simp_all add: common_def)
    have hds: "hd (take common ts) = hd (path c)" "hd ts = hd (path c)"
      using True common_prefix_take [of "path c" ts] le by (metis common_def hd_take)+
    have branch: "is_leaf ?n' \<or> 2 \<le> length (children ?n')"
    proof (cases "common < length (path c)")
      case True
      then show ?thesis using insert_split_branches [OF common_def] by blast
    next
      case False
      then have "?n = c" by (simp add: split_node_def)
      then show ?thesis using insert_node_branches c by metis
    qed
    have step: "insert_children (c # cs) ts = ?n' # cs"
      using True by (simp add: insert_children.simps Let_def common_def)
    have words: "(\<lambda>w. path ?n' @ w) ` suffixes_of ?n' = insert ts ((\<lambda>w. path c @ w) ` suffixes_of c)"
      using keep path by (simp add: IH(2))
    have "edge_ok ?n'" using IH(1) branch path True le by auto
    then show ?thesis using 3 words hds path by (auto simp: step)
  qed
qed

text \<open>A trie built from any prompts, in any order, is well formed and holds exactly them.\<close>

lemma fold_insert_ok:
  "trie_ok n \<Longrightarrow> trie_ok (fold insert_into_trie ps n) \<and> suffixes_of (fold insert_into_trie ps n) = set ps \<union> suffixes_of n"
  by (induction ps arbitrary: n) (auto simp: insert_into_trie_def insert_correct(1))

lemma rebuild_trie_ok: "trie_ok (rebuild_trie ps)" "suffixes_of (rebuild_trie ps) = set ps"
  by (simp_all add: rebuild_trie_def fold_insert_ok)

section \<open>Search\<close>

lemma matched_child_Some: "matched_child ts cs = Some c \<Longrightarrow> c \<in> set cs \<and> (\<exists>r. ts = path c @ r)"
  by (induction cs) (auto simp: common_prefix_full split: if_splits)

lemma matched_child_None: "matched_child ts cs = None \<Longrightarrow> c \<in> set cs \<Longrightarrow> \<nexists>r. ts = path c @ r"
  by (induction cs) (auto simp: common_prefix_full split: if_splits)

text \<open>Children that match the same text are the same child.\<close>

lemma same_child:
  assumes "trie_ok n" "c \<in> set (children n)" "d \<in> set (children n)" "path c @ x = path d @ y"
  shows "c = d"
proof -
  have "path c \<noteq> []" "path d \<noteq> []" and dist: "distinct (map (\<lambda>c. hd (path c)) (children n))"
    using assms by (auto simp: trie_ok_eq [of n])
  then have "hd (path c) = hd (path d)" using assms(4) by (metis hd_append2)
  then show ?thesis using dist assms(2,3) by (auto simp: distinct_map inj_on_def)
qed

lemma trie_ok_child: "trie_ok n \<Longrightarrow> c \<in> set (children n) \<Longrightarrow> edge_ok c"
  by (simp add: trie_ok_eq [of n])

text \<open>The search stops at the last stop on its way.\<close>

lemma search_longest:
  "trie_ok n \<Longrightarrow> search_from n ts = (q, r) \<Longrightarrow>
     ts = q @ r \<and> q \<in> stops_of n \<and> (\<forall>q'\<in>stops_of n. (\<exists>r'. ts = q' @ r') \<longrightarrow> length q' \<le> length q)"
proof (induction n ts arbitrary: q r rule: search_from.induct)
  case (1 n ts)
  show ?case
  proof (cases "ts = []")
    case True
    then show ?thesis using 1(3) by (auto simp: search_from.simps stops_of_eq [of n])
  next
    case False
    show ?thesis
    proof (cases "matched_child ts (children n)")
      case None
      then have "search_from n ts = ([], ts)" using False by (simp add: search_from.simps)
      moreover have "q' = []" if "q' \<in> stops_of n" "ts = q' @ r'" for q' r'
        using that matched_child_None [OF None] by (fastforce simp: stops_of_eq [of n])
      moreover have "[] \<in> stops_of n" by (simp add: stops_of_eq [of n])
      ultimately show ?thesis using 1(3) by auto
    next
      case (Some c)
      obtain rest where c: "c \<in> set (children n)" and ts: "ts = path c @ rest" using matched_child_Some [OF Some] by blast
      obtain p where p: "search_from c rest = (p, r)" and q: "q = path c @ p"
        using 1(3) False Some ts by (auto simp: search_from.simps [of n] split: prod.splits)
      have IH: "rest = p @ r \<and> p \<in> stops_of c \<and> (\<forall>q'\<in>stops_of c. (\<exists>r'. rest = q' @ r') \<longrightarrow> length q' \<le> length p)"
        using 1(1) [OF False Some] p trie_ok_child [OF 1(2) c] ts by simp
      have "length q' \<le> length q" if stop: "q' \<in> stops_of n" and pre: "ts = q' @ r'" for q' r'
      proof (cases "q' = []")
        case False
        then obtain d w where d: "d \<in> set (children n)" "q' = path d @ w" "w \<in> stops_of d"
          using stop by (auto simp: stops_of_eq [of n])
        then have "d = c" using same_child [OF 1(2) d(1) c] pre ts by (metis append_assoc)
        then show ?thesis using IH d pre ts q by auto
      qed simp
      moreover have "q \<in> stops_of n" using IH c q by (auto simp: stops_of_eq [of n])
      ultimately show ?thesis using IH ts q by auto
    qed
  qed
qed

lemma suffixes_nonempty: "edge_ok c \<Longrightarrow> suffixes_of c \<noteq> {}"
proof (induction c)
  case (RadixTrieNode p cs l)
  show ?case
  proof (cases l)
    case False
    then obtain d where "d \<in> set cs" using RadixTrieNode(2) by (cases cs) auto
    then show ?thesis using RadixTrieNode by fastforce
  qed simp
qed

text \<open>Two prompts below a node whose paths part after \<open>q\<close> both go through the same child, or part at the node.\<close>

lemma parting_child:
  assumes "p @ u = q @ a # x" "p @ v = q @ b # y" "a \<noteq> b"
  shows "\<exists>q'. q = p @ q' \<and> u = q' @ a # x \<and> v = q' @ b # y"
  using assms
proof (induction p arbitrary: q)
  case (Cons c p)
  then show ?case by (cases q) auto
qed simp

lemma root_junction:
  assumes "edge_ok c"
  shows "[] \<in> junctions (suffixes_of c)"
proof (cases "is_leaf c")
  case True
  then show ?thesis by (simp add: junctions_def suffixes_of_eq [of c])
next
  case False
  then have two: "2 \<le> length (children c)" and ok: "trie_ok c" using assms by auto
  define d e where "d = children c ! 0" and "e = children c ! 1"
  have mem: "d \<in> set (children c)" "e \<in> set (children c)" using two by (auto simp: d_def e_def intro!: nth_mem)
  have "distinct (map (\<lambda>c. hd (path c)) (children c))" using ok trie_ok_eq [of c] by blast
  note nth_eq_iff_index_eq [OF this, of 0 1]
  moreover have len: "0 < length (children c)" "1 < length (children c)" using two by auto
  ultimately have hds: "hd (path d) \<noteq> hd (path e)"
    unfolding d_def e_def length_map nth_map [OF len(1)] nth_map [OF len(2)] by simp
  have edges: "edge_ok d" "edge_ok e" using trie_ok_child [OF ok] mem by simp_all
  obtain u v where uv: "u \<in> suffixes_of d" "v \<in> suffixes_of e"
    using suffixes_nonempty [OF edges(1)] suffixes_nonempty [OF edges(2)] by auto
  obtain a x b y where paths: "path d = a # x" "path e = b # y" using edges by (cases "path d"; cases "path e") auto
  have "path d @ u \<in> suffixes_of c" "path e @ v \<in> suffixes_of c" using mem uv by (auto simp: suffixes_of_eq [of c])
  then have "[] @ a # (x @ u) \<in> suffixes_of c" "[] @ b # (y @ v) \<in> suffixes_of c" "a \<noteq> b" using paths hds by simp_all
  then show ?thesis unfolding junctions_def by blast
qed

lemma junctions_below:
  assumes "c \<in> set (children n)" "w \<in> junctions (suffixes_of c)"
  shows "path c @ w \<in> junctions (suffixes_of n)"
proof -
  have sub: "z \<in> suffixes_of c \<Longrightarrow> path c @ z \<in> suffixes_of n" for z
    using assms(1) by (auto simp: suffixes_of_eq [of n])
  from assms(2) consider "w \<in> suffixes_of c"
    | a b x y where "a \<noteq> b" "w @ a # x \<in> suffixes_of c" "w @ b # y \<in> suffixes_of c"
    by (auto simp: junctions_def)
  then show ?thesis
  proof cases
    case 2
    then show ?thesis using sub [OF 2(2)] sub [OF 2(3)] by (auto simp: junctions_def)
  qed (simp add: sub junctions_def)
qed

lemma junction_child:
  assumes "trie_ok n" "q \<in> junctions (suffixes_of n)" "q \<noteq> []"
  shows "\<exists>c\<in>set (children n). \<exists>w\<in>junctions (suffixes_of c). q = path c @ w"
proof (cases "q \<in> suffixes_of n")
  case True
  then show ?thesis using assms(3) by (auto simp: suffixes_of_eq [of n] junctions_def split: if_splits)
next
  case False
  then obtain a b x y where part: "a \<noteq> b" "q @ a # x \<in> suffixes_of n" "q @ b # y \<in> suffixes_of n"
    using assms(2) by (auto simp: junctions_def)
  then obtain c u d v where c: "c \<in> set (children n)" "u \<in> suffixes_of c" "path c @ u = q @ a # x"
    and d: "d \<in> set (children n)" "v \<in> suffixes_of d" "path d @ v = q @ b # y"
    by (auto simp: suffixes_of_eq [of n] split: if_splits)
  have "path c \<noteq> []" "path d \<noteq> []" using trie_ok_child [OF assms(1)] c d by auto
  then have "hd (path c) = hd q" "hd (path d) = hd q" using c(3) d(3) assms(3) by (metis hd_append2)+
  then have "c = d" using assms(1) c(1) d(1) by (auto simp: trie_ok_eq [of n] distinct_map inj_on_def)
  then obtain q' where "q = path c @ q'" "u = q' @ a # x" "v = q' @ b # y"
    using parting_child [OF c(3) _ part(1), of v y] d(3) by blast
  moreover from this have "q' \<in> junctions (suffixes_of c)" using c(2) d(2) part(1) \<open>c = d\<close> by (auto simp: junctions_def)
  ultimately show ?thesis using c(1) by blast
qed

lemma stops_junctions: "trie_ok n \<Longrightarrow> stops_of n = insert [] (junctions (suffixes_of n))"
proof (induction n)
  case (RadixTrieNode p cs l)
  let ?n = "RadixTrieNode p cs l"
  have sub: "stops_of c = junctions (suffixes_of c)" if "c \<in> set cs" for c
    using RadixTrieNode that root_junction [of c] by (auto simp: insert_absorb)
  show ?case
  proof (intro equalityI subsetI)
    fix q assume "q \<in> stops_of ?n"
    then show "q \<in> insert [] (junctions (suffixes_of ?n))"
      using sub junctions_below [of _ ?n] by (auto simp del: suffixes_of.simps)
  next
    fix q assume "q \<in> insert [] (junctions (suffixes_of ?n))"
    then show "q \<in> stops_of ?n"
      using sub junction_child [OF RadixTrieNode(2), of q] by (auto simp del: suffixes_of.simps)
  qed
qed

section \<open>The recency order\<close>

lemma set_move_to_end [simp]: "set (move_to_end p ps) = insert p (set ps)"
  by (auto simp: move_to_end_def)

lemma distinct_move_to_end [simp]: "distinct ps \<Longrightarrow> distinct (move_to_end p ps)"
  by (simp add: move_to_end_def)

lemma length_move_to_end: "length (move_to_end p ps) \<le> Suc (length ps)"
  by (simp add: move_to_end_def)

text \<open>Moving the matching prompts one by one keeps their order, behind the others.\<close>

lemma fold_move_to_end:
  "distinct (zs @ ys) \<Longrightarrow>
   fold (\<lambda>p ps. if P p then move_to_end p ps else ps) ys (filter (\<lambda>x. \<not> (P x \<and> x \<in> set zs)) (zs @ ys) @ filter P zs)
     = filter (\<lambda>x. \<not> P x) (zs @ ys) @ filter P (zs @ ys)"
proof (induction ys arbitrary: zs)
  case Nil
  then show ?case by (auto intro: filter_cong)
next
  case (Cons y ys)
  let ?st = "\<lambda>zs ys. filter (\<lambda>x. \<not> (P x \<and> x \<in> set zs)) (zs @ ys) @ filter P zs"
  have "fold (\<lambda>p ps. if P p then move_to_end p ps else ps) (y # ys) (?st zs (y # ys))
      = fold (\<lambda>p ps. if P p then move_to_end p ps else ps) ys (if P y then move_to_end y (?st zs (y # ys)) else ?st zs (y # ys))"
    by simp
  also have "(if P y then move_to_end y (?st zs (y # ys)) else ?st zs (y # ys)) = ?st (zs @ [y]) ys"
    using Cons.prems by (auto simp: move_to_end_def intro!: arg_cong2 [where f = append] arg_cong2 [where f = Cons] filter_cong)
  also have "fold (\<lambda>p ps. if P p then move_to_end p ps else ps) ys (?st (zs @ [y]) ys)
      = filter (\<lambda>x. \<not> P x) ((zs @ [y]) @ ys) @ filter P ((zs @ [y]) @ ys)"
    using Cons.prems by (intro Cons.IH) simp
  finally show ?case by simp
qed

lemma lookup_prompts:
  assumes "distinct (rc_prompts c)" "lookup_prefix prompt c = ((q, r), c')"
  shows "rc_prompts c' = (if q = [] then rc_prompts c
      else filter (\<lambda>p. \<not> startswith p q) (rc_prompts c) @ filter (\<lambda>p. startswith p q) (rc_prompts c))"
    "rc_root c' = rc_root c" "rc_capacity c' = rc_capacity c" "search_from (rc_root c) prompt = (q, r)"
  using assms fold_move_to_end [of "[]" "rc_prompts c" "\<lambda>p. startswith p q"]
  by (auto simp: lookup_prefix_def search_trie_def split: prod.splits if_splits)

text \<open>The invariant of the cache.\<close>

definition cache_ok :: "radix_cache \<Rightarrow> bool" where
  "cache_ok c \<longleftrightarrow> trie_ok (rc_root c) \<and> suffixes_of (rc_root c) = set (rc_prompts c) \<and> distinct (rc_prompts c)"

lemma cache_ok_init: "cache_ok (init_radix_cache capacity)"
  by (simp add: cache_ok_def init_radix_cache_def)

lemma cache_ok_insert: "cache_ok c \<Longrightarrow> cache_ok (insert_prefix p c)"
  by (simp add: cache_ok_def insert_prefix_def Let_def rebuild_trie_ok distinct_tl insert_into_trie_def insert_correct(1))

lemma cache_ok_lookup: "cache_ok c \<Longrightarrow> cache_ok (snd (lookup_prefix p c))"
proof -
  assume ok: "cache_ok c"
  obtain q r c' where l: "lookup_prefix p c = ((q, r), c')" by (metis surj_pair)
  have "distinct (rc_prompts c)" using ok by (simp add: cache_ok_def)
  from lookup_prompts(1-3) [OF this l] show ?thesis using ok l by (auto simp: cache_ok_def)
qed

text \<open>
  The history of a cache with the time of the last use of every prompt: an insertion uses its prompt, a
  lookup that matched something uses every cached prompt that starts with the match.
\<close>

datatype cache_op = Lookup string | Insert string

fun cache_step :: "cache_op \<Rightarrow> radix_cache \<Rightarrow> radix_cache" where
  "cache_step (Lookup s) c = snd (lookup_prefix s c)"
| "cache_step (Insert s) c = insert_prefix s c"

fun uses_prompt :: "cache_op \<Rightarrow> radix_cache \<Rightarrow> string \<Rightarrow> bool" where
  "uses_prompt (Lookup s) c p \<longleftrightarrow> fst (search_trie s c) \<noteq> [] \<and> startswith p (fst (search_trie s c))"
| "uses_prompt (Insert s) c p \<longleftrightarrow> p = s"

fun cache_run :: "cache_op list \<Rightarrow> nat \<Rightarrow> (string \<Rightarrow> nat) \<times> radix_cache \<Rightarrow> (string \<Rightarrow> nat) \<times> radix_cache" where
  "cache_run [] t st = st"
| "cache_run (op # ops) t (u, c) = cache_run ops (Suc t) (\<lambda>p. if uses_prompt op c p then t else u p, cache_step op c)"

definition by_last_use :: "(string \<Rightarrow> nat) \<Rightarrow> string list \<Rightarrow> bool" where
  "by_last_use u ps \<longleftrightarrow> sorted (map u ps)"

lemma by_last_use_append:
  "by_last_use u (xs @ ys) \<longleftrightarrow> by_last_use u xs \<and> by_last_use u ys \<and> (\<forall>x\<in>set xs. \<forall>y\<in>set ys. u x \<le> u y)"
  by (auto simp: by_last_use_def sorted_append)

lemma by_last_use_const: "\<forall>p\<in>set ps. u p = t \<Longrightarrow> by_last_use u ps"
  by (induction ps) (auto simp: by_last_use_def)

lemma by_last_use_filter: "by_last_use u ps \<Longrightarrow> \<forall>p\<in>set (filter P ps). v p = u p \<Longrightarrow> by_last_use v (filter P ps)"
  by (induction ps) (auto simp: by_last_use_def)

lemma by_last_use_tl: "by_last_use u ps \<Longrightarrow> by_last_use u (tl ps)"
  by (cases ps) (auto simp: by_last_use_def)

lemma step_keeps_order:
  assumes "cache_ok c" "by_last_use u (rc_prompts c)" "\<forall>p\<in>set (rc_prompts c). u p \<le> t"
  shows "by_last_use (\<lambda>p. if uses_prompt op c p then t else u p) (rc_prompts (cache_step op c))"
proof (cases op)
  case (Insert s)
  have "by_last_use (\<lambda>p. if p = s then t else u p) (move_to_end s (rc_prompts c))"
    using assms(3) by (auto simp: move_to_end_def by_last_use_append by_last_use_def [of _ "[s]"] intro: by_last_use_filter [OF assms(2)])
  then show ?thesis using Insert by (simp add: insert_prefix_def Let_def by_last_use_tl)
next
  case (Lookup s)
  obtain q r c' where l: "lookup_prefix s c = ((q, r), c')" by (metis surj_pair)
  have d: "distinct (rc_prompts c)" using assms(1) by (simp add: cache_ok_def)
  have q: "fst (search_trie s c) = q" using lookup_prompts(4) [OF d l] by (simp add: search_trie_def)
  show ?thesis
    using lookup_prompts(1) [OF d l] assms Lookup l q
    by (auto simp: by_last_use_append intro: by_last_use_filter [OF assms(2)] by_last_use_const [where t = t])
qed

text \<open>Every reachable cache is well formed, within its capacity and in order of last use.\<close>

lemma set_tl_subset: "set (tl xs) \<subseteq> set xs"
  by (cases xs) auto

lemma insert_prompts:
  assumes "cache_ok c"
  shows "set (rc_prompts (insert_prefix s c)) \<subseteq> insert s (set (rc_prompts c))" "rc_capacity (insert_prefix s c) = rc_capacity c"
  using set_tl_subset [of "move_to_end s (rc_prompts c)"] by (auto simp: insert_prefix_def Let_def)

lemma insert_bounded:
  "int (length (rc_prompts c)) \<le> rc_capacity c \<Longrightarrow> int (length (rc_prompts (insert_prefix s c))) \<le> rc_capacity c"
  using length_move_to_end [of s "rc_prompts c"] by (auto simp: insert_prefix_def Let_def)

lemma cache_step_ok:
  assumes "cache_ok c" "int (length (rc_prompts c)) \<le> rc_capacity c"
  shows "cache_ok (cache_step op c) \<and> rc_capacity (cache_step op c) = rc_capacity c
     \<and> int (length (rc_prompts (cache_step op c))) \<le> rc_capacity (cache_step op c)
     \<and> (\<forall>p\<in>set (rc_prompts (cache_step op c)). p \<in> set (rc_prompts c) \<or> uses_prompt op c p)"
proof (cases op)
  case (Insert s)
  then show ?thesis
    using insert_prompts [OF assms(1), of s] insert_bounded [OF assms(2), of s] cache_ok_insert [OF assms(1)] by auto
next
  case (Lookup s)
  obtain q r c' where l: "lookup_prefix s c = ((q, r), c')" by (metis surj_pair)
  have "distinct (rc_prompts c)" using assms by (simp add: cache_ok_def)
  note facts = lookup_prompts [OF this l]
  have "length (rc_prompts c') = length (rc_prompts c)"
    using facts(1) sum_length_filter_compl [of "\<lambda>p. startswith p q" "rc_prompts c"] by simp
  then show ?thesis
    using facts l Lookup assms cache_ok_lookup [OF assms(1), of s] by (auto split: if_splits)
qed

lemma cache_run_ok:
  assumes "cache_ok c" "int (length (rc_prompts c)) \<le> rc_capacity c" "by_last_use u (rc_prompts c)"
    "\<forall>p\<in>set (rc_prompts c). u p \<le> t" "cache_run ops t (u, c) = (u', c')"
  shows "cache_ok c' \<and> int (length (rc_prompts c')) \<le> rc_capacity c' \<and> rc_capacity c' = rc_capacity c \<and> by_last_use u' (rc_prompts c')"
  using assms
proof (induction ops arbitrary: t u c)
  case (Cons op ops)
  note step = cache_step_ok [OF Cons.prems(1,2), of op]
  have "cache_ok c' \<and> int (length (rc_prompts c')) \<le> rc_capacity c' \<and> rc_capacity c' = rc_capacity (cache_step op c)
      \<and> by_last_use u' (rc_prompts c')"
  proof (rule Cons.IH)
    show "\<forall>p\<in>set (rc_prompts (cache_step op c)). (if uses_prompt op c p then t else u p) \<le> Suc t"
    proof
      fix p assume "p \<in> set (rc_prompts (cache_step op c))"
      then have "uses_prompt op c p \<or> u p \<le> t" using step Cons.prems(4) by blast
      then show "(if uses_prompt op c p then t else u p) \<le> Suc t" by auto
    qed
    show "by_last_use (\<lambda>p. if uses_prompt op c p then t else u p) (rc_prompts (cache_step op c))"
      using step_keeps_order [OF Cons.prems(1,3,4)] .
    show "cache_run ops (Suc t) (\<lambda>p. if uses_prompt op c p then t else u p, cache_step op c) = (u', c')"
      using Cons.prems(5) by simp
  qed (use step in simp_all)
  then show ?case using step by simp
qed simp

section \<open>Properties\<close>

text \<open>
  C9. The compressed trie is an exact index of the cached prompts: after any history of insertions,
  lookups and evictions, a lookup splits the prompt in two, and the prefix it reports is the longest
  prefix of the prompt that is a cached prompt or a place where two cached prompts part (or nothing).
  The answer depends on the set of cached prompts alone. A prefix that ends in the middle of an edge is
  not reported, although a cached prompt starts with it.
\<close>

theorem lookup_longest_junction:
  assumes "0 \<le> capacity" "cache_run ops 0 (\<lambda>_. 0, init_radix_cache capacity) = (u, c)" "lookup_prefix prompt c = ((q, r), c')"
  shows "prompt = q @ r \<and> q \<in> insert [] (junctions (set (rc_prompts c)))
    \<and> (\<forall>q' r'. prompt = q' @ r' \<longrightarrow> q' \<in> junctions (set (rc_prompts c)) \<longrightarrow> length q' \<le> length q)"
proof -
  have ok: "cache_ok c"
    using cache_run_ok [OF cache_ok_init _ _ _ assms(2)] assms(1) by (simp add: init_radix_cache_def by_last_use_def)
  then have trie: "trie_ok (rc_root c)" "stops_of (rc_root c) = insert [] (junctions (set (rc_prompts c)))"
    by (auto simp: cache_ok_def stops_junctions)
  have "search_from (rc_root c) prompt = (q, r)" using lookup_prompts(4) [OF _ assms(3)] ok by (simp add: cache_ok_def)
  from search_longest [OF trie(1) this] show ?thesis by (auto simp: trie(2))
qed

text \<open>
  Eviction is least recently used: after any history the cache holds distinct prompts, at most
  \<open>capacity\<close> of them; a new prompt is cached; and if the cache is full, the one prompt that goes is one
  whose last use is not later than that of any other, while all the others stay.
\<close>

theorem lru_eviction:
  assumes "0 < capacity" "cache_run ops 0 (\<lambda>_. 0, init_radix_cache capacity) = (u, c)" "s \<notin> set (rc_prompts c)"
  shows "distinct (rc_prompts c) \<and> int (length (rc_prompts c)) \<le> capacity \<and> s \<in> set (rc_prompts (insert_prefix s c))
    \<and> (if int (length (rc_prompts c)) < capacity
       then set (rc_prompts (insert_prefix s c)) = insert s (set (rc_prompts c))
       else \<exists>v\<in>set (rc_prompts c). (\<forall>p\<in>set (rc_prompts c). u v \<le> u p)
              \<and> set (rc_prompts (insert_prefix s c)) = insert s (set (rc_prompts c) - {v}))"
proof -
  have ok: "cache_ok c" "int (length (rc_prompts c)) \<le> rc_capacity c" "rc_capacity c = capacity" "by_last_use u (rc_prompts c)"
    using cache_run_ok [OF cache_ok_init _ _ _ assms(2)] assms(1) by (simp_all add: init_radix_cache_def by_last_use_def)
  have d: "distinct (rc_prompts c)" using ok(1) by (simp add: cache_ok_def)
  have new: "move_to_end s (rc_prompts c) = rc_prompts c @ [s]"
    using assms(3) by (auto simp: move_to_end_def intro: filter_True)
  show ?thesis
  proof (cases "rc_prompts c")
    case Nil
    then show ?thesis using assms(1) ok new d by (simp add: insert_prefix_def)
  next
    case (Cons v vs)
    have "\<forall>p\<in>set (rc_prompts c). u v \<le> u p" using ok(4) Cons by (simp add: by_last_use_def)
    moreover have "set (rc_prompts c) - {v} = set vs" using d Cons by auto
    ultimately show ?thesis using ok new d Cons by (simp add: insert_prefix_def Let_def insert_commute)
  qed
qed

definition sample_cache_ops :: "cache_op list" where
  "sample_cache_ops = [Insert ''hello'', Insert ''help'', Lookup ''hello there'']"

lemma sample_cache_run:
  "snd (cache_run sample_cache_ops 0 (\<lambda>_. 0, init_radix_cache 2)) =
     \<lparr>rc_capacity = 2,
      rc_root = RadixTrieNode [] [RadixTrieNode ''hel'' [RadixTrieNode ''lo'' [] True, RadixTrieNode ''p'' [] True] False] False,
      rc_prompts = [''help'', ''hello'']\<rparr>"
  by code_simp

theorem lookup_longest_junction_witness:
  "fst (lookup_prefix ''helmet'' (snd (cache_run sample_cache_ops 0 (\<lambda>_. 0, init_radix_cache 2)))) = (''hel'', ''met'')
   \<and> ''hel'' \<in> insert [] (junctions {''hello'', ''help''})"
proof -
  obtain u c where run: "cache_run sample_cache_ops 0 (\<lambda>_. 0, init_radix_cache 2) = (u, c)" by fastforce
  have c: "rc_prompts c = [''help'', ''hello'']" using sample_cache_run run by simp
  have "fst (lookup_prefix ''helmet'' (snd (cache_run sample_cache_ops 0 (\<lambda>_. 0, init_radix_cache 2)))) = (''hel'', ''met'')"
    by code_simp
  then have l: "fst (lookup_prefix ''helmet'' c) = (''hel'', ''met'')" using run by simp
  obtain c' where "lookup_prefix ''helmet'' c = ((''hel'', ''met''), c')" using l by (cases "lookup_prefix ''helmet'' c") simp
  from lookup_longest_junction [OF _ run this] show ?thesis using c l run by (auto simp: insert_commute)
qed

theorem lru_eviction_witness:
  "set (rc_prompts (insert_prefix ''new'' (snd (cache_run sample_cache_ops 0 (\<lambda>_. 0, init_radix_cache 2))))) = {''new'', ''hello''}
   \<and> int (length (rc_prompts (snd (cache_run sample_cache_ops 0 (\<lambda>_. 0, init_radix_cache 2))))) \<le> 2"
proof -
  obtain u c where run: "cache_run sample_cache_ops 0 (\<lambda>_. 0, init_radix_cache 2) = (u, c)" by fastforce
  have c: "rc_prompts c = [''help'', ''hello'']" "rc_capacity c = 2" using sample_cache_run run by simp_all
  then show ?thesis using lru_eviction [OF _ run, of "''new''"] run
    by (simp add: insert_prefix_def move_to_end_def insert_commute)
qed

end
