(* ===== verification/Node_Inference.thy ===== *)
theory Node_Inference
  imports Radix_Cache Mesh_Protocol
begin

text \<open>
  Inference on a Node: the request models (\<^verbatim>\<open>node/models/inference.py\<close>, \<^verbatim>\<open>model_info.py\<close>), the client of
  the local Ollama server (\<^verbatim>\<open>node/clients/ollama.py\<close>), the credential check of the Node's own API
  (\<^verbatim>\<open>node/api/auth.py\<close>) and its inference routes (\<^verbatim>\<open>node/api/inference.py\<close>). Ollama itself is an argument:
  what it answers to a listing, to a query about a model, and to a generation.
\<close>

section \<open>Requests and models\<close>

text \<open>\<^verbatim>\<open>InferenceRequest\<close>: the validators strip and refuse blank fields when the object is built, not on assignment.\<close>

record inference_request =
  ir_model :: string
  ir_prompt :: string
  ir_stream :: bool
  ir_branch :: "string option"

definition stripped :: "string \<Rightarrow> string res" where
  "stripped v = (if py_strip v = [] then Inl (ValueError ''Value cannot be empty or whitespace-only.'') else Inr (py_strip v))"

definition mk_inference_request :: "string \<Rightarrow> string \<Rightarrow> bool \<Rightarrow> string option \<Rightarrow> inference_request res" where
  "mk_inference_request model prompt stream branch =
     rbind (stripped model) (\<lambda>m. rbind (stripped prompt) (\<lambda>p.
     rbind (case branch of None \<Rightarrow> Inr None | Some b \<Rightarrow> rbind (stripped b) (\<lambda>b'. Inr (Some b'))) (\<lambda>b.
       Inr \<lparr>ir_model = m, ir_prompt = p, ir_stream = stream, ir_branch = b\<rparr>)))"

definition mk_inference_response :: "string \<Rightarrow> string \<Rightarrow> (string \<times> string) res" where
  "mk_inference_response model response = rbind (stripped model) (\<lambda>m. Inr (m, response))"

record model_info =
  mi_name :: string
  mi_size_gb :: pyfloat
  mi_family :: string
  mi_context_length :: int

definition mk_model_info :: "string \<Rightarrow> pyfloat \<Rightarrow> string \<Rightarrow> int \<Rightarrow> model_info res" where
  "mk_model_info name size_gb family context_length =
     rbind (stripped name) (\<lambda>n.
       if flt size_gb (Fin 0) then Inl (ValueError ''Model size must be non-negative.'')
       else rbind (stripped family) (\<lambda>f.
         if context_length \<le> 0 then Inl (ValueError ''Context length must be greater than 0.'')
         else Inr \<lparr>mi_name = n, mi_size_gb = size_gb, mi_family = f, mi_context_length = context_length\<rparr>))"

section \<open>The Ollama client\<close>

text \<open>
  How a call of the Ollama library fails: with a status and a message, or in some other way. A streamed
  chunk comes as a dictionary, as an object with \<^verbatim>\<open>model_dump_json\<close>, as one that converts to a
  dictionary, or as one that only has attributes.
\<close>

datatype ollama_failure = ResponseError int string | OtherFailure string

datatype stream_chunk = ChunkDict jobj | ChunkModel string | ChunkPairs jobj
  | ChunkAttrs "json option" "json option" "json option"

record model_data =
  md_model :: string
  md_digest :: string
  md_details :: "string option"
  md_size :: int

record ollama_lib =
  ol_generate :: "string \<Rightarrow> string \<Rightarrow> ollama_failure + (string \<times> string)"
  ol_stream :: "string \<Rightarrow> string \<Rightarrow> ollama_failure + (stream_chunk list \<times> string option)"
  ol_list :: "ollama_failure + model_data list"
  ol_show :: "string \<Rightarrow> ollama_failure + (string, json) dict"

definition ollama_error :: "string \<Rightarrow> ollama_failure \<Rightarrow> exc" where
  "ollama_error model f = (case f of
      ResponseError status m \<Rightarrow>
        if status = 404 then OllamaError (''Model '' @ quoted model @ '' was not found on the Ollama server.'')
        else OllamaError (''Ollama generation failed with status code '' @ str_of_int status @ '': '' @ m)
    | OtherFailure m \<Rightarrow> OllamaError (''Ollama generation failed: '' @ m))"

definition ollama_generate :: "ollama_lib \<Rightarrow> inference_request \<Rightarrow> (string \<times> string) res" where
  "ollama_generate ol req =
     (case ol_generate ol (ir_model req) (ir_prompt req) of
        Inl f \<Rightarrow> Inl (ollama_error (ir_model req) f)
      | Inr (model, text) \<Rightarrow>
          (case mk_inference_response (if model = [] then ir_model req else model) text of
             Inl e \<Rightarrow> Inl (OllamaError ''Ollama generation failed: validation error'')
           | Inr r \<Rightarrow> Inr r))"

definition chunk_data :: "mesh_lib \<Rightarrow> string \<Rightarrow> stream_chunk \<Rightarrow> string" where
  "chunk_data lib model c = (case c of
      ChunkDict d \<Rightarrow> json_dumps lib (JObj d)
    | ChunkModel s \<Rightarrow> s
    | ChunkPairs d \<Rightarrow> json_dumps lib (JObj d)
    | ChunkAttrs m r f \<Rightarrow> json_dumps lib (JObj
        [(''model'', case m of None \<Rightarrow> JStr model | Some v \<Rightarrow> v),
         (''response'', case r of None \<Rightarrow> JStr [] | Some v \<Rightarrow> v),
         (''done'', case f of None \<Rightarrow> JBool False | Some v \<Rightarrow> v)]))"

definition sse_frame :: "string \<Rightarrow> string" where
  "sse_frame s = ''data: '' @ s @ [CHR 0x0A, CHR 0x0A]"

text \<open>The frames the generator yields and the exception it ends with, if any.\<close>

definition generate_stream :: "mesh_lib \<Rightarrow> ollama_lib \<Rightarrow> inference_request \<Rightarrow> string list \<times> exc option" where
  "generate_stream lib ol req =
     (case ol_stream ol (ir_model req) (ir_prompt req) of
        Inl f \<Rightarrow> ([], Some (ollama_error (ir_model req) f))
      | Inr (chunks, failure) \<Rightarrow>
          (map (\<lambda>c. sse_frame (chunk_data lib (ir_model req) c)) chunks,
           map_option (\<lambda>m. OllamaError (''Ollama streaming generation failed: '' @ m)) failure))"

text \<open>\<^verbatim>\<open>sub in s\<close> for strings.\<close>

fun py_in :: "string \<Rightarrow> string \<Rightarrow> bool" where
  "py_in p [] = (p = [])"
| "py_in p (c # s) = (startswith (c # s) p \<or> py_in p s)"

text \<open>The first usable entry of \<^verbatim>\<open>show().modelinfo\<close> that names a context length.\<close>

fun context_entry :: "(string, json) dict \<Rightarrow> int option res" where
  "context_entry [] = Inr None"
| "context_entry ((key, v) # rest) =
     (if py_in ''context_length'' key
      then (case py_int v of
          Inr n \<Rightarrow> Inr (Some n)
        | Inl (ValueError _) \<Rightarrow> context_entry rest
        | Inl (TypeError _) \<Rightarrow> context_entry rest
        | Inl e \<Rightarrow> Inl e)
      else context_entry rest)"

type_synonym digest_cache = "(string, int) dict"

definition resolve_context_length :: "ollama_lib \<Rightarrow> string \<Rightarrow> string \<Rightarrow> digest_cache \<Rightarrow> int \<times> digest_cache" where
  "resolve_context_length ol name digest cache =
     (case (if digest = [] then None else dget cache digest) of
        Some n \<Rightarrow> (n, cache)
      | None \<Rightarrow>
          (case ol_show ol name of
             Inl _ \<Rightarrow> (2048, cache)
           | Inr modelinfo \<Rightarrow>
               (case context_entry modelinfo of
                  Inr (Some n) \<Rightarrow> (n, if digest = [] then cache else dset digest n cache)
                | _ \<Rightarrow> (2048, cache))))"

text \<open>\<^verbatim>\<open>round(x, 2)\<close>: the double nearest to the decimal with two places nearest to the exact value.\<close>

fun fround2 :: "pyfloat \<Rightarrow> pyfloat" where
  "fround2 (Fin x) = rnd (of_int (round_even (x * 100)) / 100)"
| "fround2 x = x"

definition model_size :: "int \<Rightarrow> pyfloat res" where
  "model_size bytes = rbind (float_of_int bytes) (\<lambda>b. rbind (fdiv b (Fin 1073741824)) (\<lambda>g. Inr (fround2 g)))"

definition or_unknown :: "string \<Rightarrow> string" where
  "or_unknown s = (if s = [] then ''unknown'' else s)"

fun collect_models :: "ollama_lib \<Rightarrow> model_data list \<Rightarrow> digest_cache \<Rightarrow> model_info list res \<times> digest_cache" where
  "collect_models ol [] cache = (Inr [], cache)"
| "collect_models ol (d # ds) cache =
     (case model_size (md_size d) of
        Inl e \<Rightarrow> (Inl e, cache)
      | Inr size_gb \<Rightarrow>
          (case resolve_context_length ol (or_unknown (md_model d)) (md_digest d) cache of
             (n, cache1) \<Rightarrow>
               (case mk_model_info (or_unknown (md_model d)) size_gb
                       (case md_details d of None \<Rightarrow> ''unknown'' | Some f \<Rightarrow> or_unknown f) n of
                  Inl e \<Rightarrow> (Inl e, cache1)
                | Inr m \<Rightarrow>
                    (case collect_models ol ds cache1 of
                       (Inl e, cache2) \<Rightarrow> (Inl e, cache2)
                     | (Inr ms, cache2) \<Rightarrow> (Inr (m # ms), cache2)))))"

definition list_models_node :: "ollama_lib \<Rightarrow> digest_cache \<Rightarrow> model_info list res \<times> digest_cache" where
  "list_models_node ol cache =
     (case ol_list ol of
        Inl _ \<Rightarrow> (Inl (OllamaError ''Failed to list models''), cache)
      | Inr ds \<Rightarrow>
          (case collect_models ol ds cache of
             (Inl e, cache1) \<Rightarrow> (Inl (OllamaError ''Failed to list models''), cache1)
           | (Inr ms, cache1) \<Rightarrow> (Inr ms, cache1)))"

definition ollama_health :: "ollama_lib \<Rightarrow> bool" where
  "ollama_health ol = (case ol_list ol of Inl _ \<Rightarrow> False | Inr _ \<Rightarrow> True)"

section \<open>The Node's routes\<close>

definition verify_node_auth :: "string option \<Rightarrow> string option \<Rightarrow> unit res" where
  "verify_node_auth network_auth_token header =
     (case network_auth_token of
        None \<Rightarrow> Inl (HTTPException 401 ''Node control API is not configured.'')
      | Some expected \<Rightarrow>
          if expected = [] then Inl (HTTPException 401 ''Node control API is not configured.'')
          else (case header of
             None \<Rightarrow> Inl (HTTPException 401 ''Unauthorized. Supply the node X-Network-Auth-Token header.'')
           | Some h \<Rightarrow>
               if h = expected then Inr ()
               else Inl (HTTPException 401 ''Unauthorized. Supply the node X-Network-Auth-Token header.'')))"

fun message_of :: "exc \<Rightarrow> string" where
  "message_of (OllamaError m) = m"
| "message_of (ValueError m) = m"
| "message_of _ = []"

definition inference_status :: "exc \<Rightarrow> int" where
  "inference_status e = (if py_in ''not found'' (py_lower (message_of e)) then 404 else 500)"

datatype infer_reply = Once string string | Frames "string list" "exc option"

text \<open>
  The handler of \<^verbatim>\<open>POST /infer\<close> for a request that was built from the body. The answer of a streamed request
  is the frames sent until the generator ended or raised; the prompt is added to the trie either way.
\<close>

definition infer_handler :: "mesh_lib \<Rightarrow> ollama_lib \<Rightarrow> inference_request \<Rightarrow> radix_cache \<Rightarrow> infer_reply res \<times> radix_cache" where
  "infer_handler lib ol req cache =
     (case lookup_prefix (ir_prompt req) cache of
        ((prefix, suffix), cache1) \<Rightarrow>
          let req1 = req\<lparr>ir_prompt := suffix\<rparr>
          in if ir_stream req
             then (case generate_stream lib ol req1 of
                (frames, failure) \<Rightarrow> (Inr (Frames frames failure), insert_prefix (ir_prompt req) cache1))
             else (case ollama_generate ol req1 of
                Inr (model, text) \<Rightarrow> (Inr (Once model text), insert_prefix (ir_prompt req) cache1)
              | Inl e \<Rightarrow> (Inl (HTTPException (inference_status e) (message_of e)), cache1)))"

definition infer :: "mesh_lib \<Rightarrow> ollama_lib \<Rightarrow> string option \<Rightarrow> string option \<Rightarrow> string \<Rightarrow> string \<Rightarrow> bool
    \<Rightarrow> string option \<Rightarrow> radix_cache \<Rightarrow> infer_reply res \<times> radix_cache" where
  "infer lib ol token header model prompt stream branch cache =
     (case verify_node_auth token header of
        Inl e \<Rightarrow> (Inl e, cache)
      | Inr _ \<Rightarrow>
          (case mk_inference_request model prompt stream branch of
             Inl e \<Rightarrow> (Inl (HTTPException 422 ''validation error''), cache)
           | Inr req \<Rightarrow> infer_handler lib ol req cache))"

definition models_route :: "ollama_lib \<Rightarrow> string option \<Rightarrow> string option \<Rightarrow> digest_cache \<Rightarrow> model_info list res \<times> digest_cache" where
  "models_route ol token header cache =
     (case verify_node_auth token header of
        Inl e \<Rightarrow> (Inl e, cache)
      | Inr _ \<Rightarrow>
          (case list_models_node ol cache of
             (Inl e, cache1) \<Rightarrow> (Inl (HTTPException 500 (message_of e)), cache1)
           | (Inr ms, cache1) \<Rightarrow> (Inr ms, cache1)))"

definition health_route :: "ollama_lib \<Rightarrow> jobj" where
  "health_route ol =
     (if ollama_health ol then [(''status'', JStr ''healthy''), (''ollama'', JBool True)]
      else [(''status'', JStr ''degraded''), (''ollama'', JBool False)])"

section \<open>The catalogue\<close>

text \<open>A listing that succeeds has one entry per model Ollama reports, in that order.\<close>

lemma mk_model_info_name: "mk_model_info n g f c = Inr m \<Longrightarrow> mi_name m = py_strip n \<and> py_strip n \<noteq> [] \<and> 0 < mi_context_length m"
  by (auto simp: mk_model_info_def stripped_def rbind_eq_Inr split: if_splits)

lemma collect_models_names:
  "collect_models ol ds cache = (Inr ms, cache') \<Longrightarrow> map mi_name ms = map (\<lambda>d. py_strip (or_unknown (md_model d))) ds"
proof (induction ds arbitrary: ms cache)
  case (Cons d ds)
  then show ?case by (auto dest!: mk_model_info_name split: sum.splits prod.splits)
qed simp

text \<open>A context length once resolved for a digest is not asked for again, and is never forgotten.\<close>

lemma resolve_keeps: "dget cache d = Some n \<Longrightarrow> dget (snd (resolve_context_length ol name digest cache)) d = Some n"
  by (auto simp: resolve_context_length_def dict_simps split: option.splits sum.splits)

lemma resolve_cached: "dget cache d = Some n \<Longrightarrow> d \<noteq> [] \<Longrightarrow> resolve_context_length ol name d cache = (n, cache)"
  by (simp add: resolve_context_length_def)

lemma collect_keeps: "dget cache d = Some n \<Longrightarrow> dget (snd (collect_models ol ds cache)) d = Some n"
proof (induction ds arbitrary: cache)
  case (Cons e ds)
  show ?case
    using Cons.IH [OF resolve_keeps [OF Cons.prems, of ol "or_unknown (md_model e)" "md_digest e"]] Cons.prems
      resolve_keeps [OF Cons.prems, of ol "or_unknown (md_model e)" "md_digest e"]
    by (auto split: sum.splits prod.splits)
qed simp

section \<open>Properties\<close>

text \<open>What the handler answers when the backend is asked with the prompt of the request.\<close>

definition backend_answer :: "mesh_lib \<Rightarrow> ollama_lib \<Rightarrow> inference_request \<Rightarrow> infer_reply res" where
  "backend_answer lib ol req =
     (if ir_stream req then (case generate_stream lib ol req of (frames, failure) \<Rightarrow> Inr (Frames frames failure))
      else (case ollama_generate ol req of
          Inr (model, text) \<Rightarrow> Inr (Once model text)
        | Inl e \<Rightarrow> Inl (HTTPException (inference_status e) (message_of e))))"

lemma infer_handler_answer:
  "infer_handler lib ol req cache =
     (case lookup_prefix (ir_prompt req) cache of
        ((q, r), cache1) \<Rightarrow>
          let ans = backend_answer lib ol (req\<lparr>ir_prompt := r\<rparr>)
          in (ans, case ans of Inl _ \<Rightarrow> cache1 | Inr _ \<Rightarrow> insert_prefix (ir_prompt req) cache1))"
  by (auto simp: infer_handler_def backend_answer_def Let_def split: prod.splits sum.splits)

text \<open>In a well-formed cache the lookup of a cached prompt matches all of it.\<close>

lemma lookup_cached:
  assumes "cache_ok c" "p \<in> set (rc_prompts c)"
  shows "fst (lookup_prefix p c) = (p, [])"
proof -
  obtain q r c' where l: "lookup_prefix p c = ((q, r), c')" by (metis surj_pair)
  have ok: "trie_ok (rc_root c)" "suffixes_of (rc_root c) = set (rc_prompts c)" "distinct (rc_prompts c)"
    using assms(1) by (auto simp: cache_ok_def)
  have "p \<in> stops_of (rc_root c)" using ok assms(2) by (auto simp: stops_junctions junctions_def)
  with search_longest [OF ok(1) lookup_prompts(4) [OF ok(3) l]] have "p = q @ r" "length p \<le> length q" by auto
  then show ?thesis using l by simp
qed

lemma inserted_cached:
  assumes "cache_ok c" "0 < rc_capacity c"
  shows "p \<in> set (rc_prompts (insert_prefix p c))"
  using assms by (cases "filter (\<lambda>q. q \<noteq> p) (rc_prompts c)") (auto simp: insert_prefix_def Let_def move_to_end_def)

text \<open>
  The inference route of a Node. Without the configured credential, or with none configured, it answers
  401 whatever the backend is and changes nothing; a blank model or prompt is a 422. Otherwise the prompt
  is split at the longest point the cache knows, the backend is asked with the rest of it alone, its answer
  is relayed unchanged, its failure is a 404 or a 500, and the whole prompt is remembered unless it failed.
\<close>

theorem infer_route:
  assumes "cache_ok cache"
  shows "if token = None \<or> token = Some [] \<or> header \<noteq> token
      then (\<exists>m. infer lib ol token header model prompt stream branch cache = (Inl (HTTPException 401 m), cache))
    else (case mk_inference_request model prompt stream branch of
        Inl e \<Rightarrow> infer lib ol token header model prompt stream branch cache = (Inl (HTTPException 422 ''validation error''), cache)
      | Inr req \<Rightarrow> \<exists>q r cache1. ir_prompt req = py_strip prompt \<and> py_strip prompt = q @ r
          \<and> q \<in> insert [] (junctions (set (rc_prompts cache)))
          \<and> set (rc_prompts cache1) = set (rc_prompts cache)
          \<and> infer lib ol token header model prompt stream branch cache
              = (let ans = backend_answer lib ol (req\<lparr>ir_prompt := r\<rparr>)
                 in (ans, case ans of Inl _ \<Rightarrow> cache1 | Inr _ \<Rightarrow> insert_prefix (py_strip prompt) cache1))
          \<and> (\<forall>e. backend_answer lib ol (req\<lparr>ir_prompt := r\<rparr>) = Inl e \<longrightarrow> (\<exists>m. e = HTTPException 404 m \<or> e = HTTPException 500 m)))"
proof (cases "token = None \<or> token = Some [] \<or> header \<noteq> token")
  case True
  then show ?thesis by (auto simp: infer_def verify_node_auth_def split: option.splits)
next
  case False
  then have auth: "verify_node_auth token header = Inr ()" by (auto simp: verify_node_auth_def split: if_splits)
  show ?thesis
  proof (cases "mk_inference_request model prompt stream branch")
    case (Inl e)
    moreover have "infer lib ol token header model prompt stream branch cache = (Inl (HTTPException 422 ''validation error''), cache)"
      using auth Inl by (simp add: infer_def)
    ultimately show ?thesis using False by auto
  next
    case (Inr req)
    have p: "ir_prompt req = py_strip prompt"
      using Inr by (auto simp: mk_inference_request_def stripped_def rbind_eq_Inr split: if_splits)
    obtain q r cache1 where l: "lookup_prefix (py_strip prompt) cache = ((q, r), cache1)" by (metis surj_pair)
    have ok: "trie_ok (rc_root cache)" "stops_of (rc_root cache) = insert [] (junctions (set (rc_prompts cache)))"
      "distinct (rc_prompts cache)"
      using assms by (auto simp: cache_ok_def stops_junctions)
    note split = search_longest [OF ok(1) lookup_prompts(4) [OF ok(3) l]]
    have same: "set (rc_prompts cache1) = set (rc_prompts cache)" using lookup_prompts(1) [OF ok(3) l] by (auto split: if_splits)
    have err: "\<exists>m. e = HTTPException 404 m \<or> e = HTTPException 500 m" if "backend_answer lib ol rq = Inl e" for rq e
      using that by (auto simp: backend_answer_def inference_status_def split: if_splits prod.splits sum.splits)
    have "infer lib ol token header model prompt stream branch cache
        = (let ans = backend_answer lib ol (req\<lparr>ir_prompt := r\<rparr>)
           in (ans, case ans of Inl _ \<Rightarrow> cache1 | Inr _ \<Rightarrow> insert_prefix (py_strip prompt) cache1))"
      using Inr auth p l by (simp add: infer_def infer_handler_answer Let_def split: sum.split)
    then show ?thesis using False Inr p split same err ok(2) by (simp del: Let_def) blast
  qed
qed

text \<open>
  C40. A prompt that was answered is not answered again: after a request that succeeded, the next request
  with the same prompt asks the backend with the empty prompt, since only what the cache does not know
  is sent on and nothing restores the rest.
\<close>

theorem repeated_prompt_forwarded_empty:
  assumes "cache_ok cache" "0 < rc_capacity cache" "infer_handler lib ol req cache = (Inr ans, cache')"
    "ir_prompt req' = ir_prompt req"
  shows "fst (infer_handler lib ol' req' cache') = backend_answer lib ol' (req'\<lparr>ir_prompt := []\<rparr>)"
proof -
  obtain q r cache1 where l: "lookup_prefix (ir_prompt req) cache = ((q, r), cache1)" by (metis surj_pair)
  have c': "cache' = insert_prefix (ir_prompt req) cache1"
    using assms(3) by (auto simp: infer_handler_answer l Let_def split: sum.splits)
  have "cache_ok cache1" "rc_capacity cache1 = rc_capacity cache"
    using cache_ok_lookup [OF assms(1), of "ir_prompt req"] l lookup_prompts(3) [OF _ l] assms(1) by (simp_all add: cache_ok_def)
  then have "cache_ok cache'" "ir_prompt req' \<in> set (rc_prompts cache')"
    using assms(2,4) c' cache_ok_insert inserted_cached by simp_all
  from lookup_cached [OF this] obtain c2 where "lookup_prefix (ir_prompt req') cache' = ((ir_prompt req', []), c2)"
    by (cases "lookup_prefix (ir_prompt req') cache'") simp
  then show ?thesis by (simp add: infer_handler_answer Let_def)
qed

text \<open>A backend that echoes, and one that has no model.\<close>

definition echo_ollama :: ollama_lib where
  "echo_ollama = \<lparr>ol_generate = (\<lambda>m p. Inr (m, ''re:'' @ p)), ol_stream = (\<lambda>m p. Inr ([ChunkModel p], None)),
     ol_list = Inr [], ol_show = (\<lambda>_. Inr [])\<rparr>"

definition empty_ollama :: ollama_lib where
  "empty_ollama = echo_ollama\<lparr>ol_generate := (\<lambda>m p. Inl (ResponseError 404 ''no''))\<rparr>"

lemma lookup_empty: "lookup_prefix p (init_radix_cache n) = (([], p), init_radix_cache n)"
  by (simp add: lookup_prefix_def search_trie_def init_radix_cache_def search_from.simps)

lemmas sample_eval = infer_def verify_node_auth_def mk_inference_request_def mk_inference_response_def stripped_def py_strip_def
  is_space_def infer_handler_answer lookup_empty backend_answer_def ollama_generate_def ollama_error_def echo_ollama_def
  empty_ollama_def inference_status_def quoted_def py_lower_def lower_char_def startswith_def

theorem infer_route_witness:
  "fst (infer replay_lib echo_ollama (Some ''t'') (Some ''t'') ''m'' '' hi '' False None (init_radix_cache 5)) = Inr (Once ''m'' ''re:hi'')
   \<and> (\<exists>msg. infer replay_lib echo_ollama (Some ''t'') None ''m'' '' hi '' False None (init_radix_cache 5)
        = (Inl (HTTPException 401 msg), init_radix_cache 5))
   \<and> (\<exists>m. fst (infer replay_lib empty_ollama (Some ''t'') (Some ''t'') ''m'' ''hi'' False None (init_radix_cache 5))
        = Inl (HTTPException 404 m))"
proof -
  have "fst (infer replay_lib echo_ollama (Some ''t'') (Some ''t'') ''m'' '' hi '' False None (init_radix_cache 5)) = Inr (Once ''m'' ''re:hi'')"
    by (simp add: sample_eval)
  moreover have "\<exists>msg. infer replay_lib echo_ollama (Some ''t'') None ''m'' '' hi '' False None (init_radix_cache 5)
        = (Inl (HTTPException 401 msg), init_radix_cache 5)"
    using infer_route [OF cache_ok_init, where token = "Some ''t''" and header = None and lib = replay_lib and ol = echo_ollama
        and model = "''m''" and prompt = "'' hi ''" and stream = False and branch = None] by simp
  moreover have "fst (infer replay_lib empty_ollama (Some ''t'') (Some ''t'') ''m'' ''hi'' False None (init_radix_cache 5))
        = Inl (HTTPException 404 (''Model '' @ quoted ''m'' @ '' was not found on the Ollama server.''))"
    by (simp add: sample_eval)
  ultimately show ?thesis by blast
qed

theorem repeated_prompt_forwarded_empty_witness:
  "\<exists>cache'. infer_handler replay_lib echo_ollama \<lparr>ir_model = ''m'', ir_prompt = ''hi'', ir_stream = False, ir_branch = None\<rparr>
       (init_radix_cache 5) = (Inr (Once ''m'' ''re:hi''), cache')
     \<and> fst (infer_handler replay_lib echo_ollama \<lparr>ir_model = ''m'', ir_prompt = ''hi'', ir_stream = False, ir_branch = None\<rparr> cache')
       = Inr (Once ''m'' ''re:'')"
proof -
  let ?req = "\<lparr>ir_model = ''m'', ir_prompt = ''hi'', ir_stream = False, ir_branch = None\<rparr>"
  have first: "fst (infer_handler replay_lib echo_ollama ?req (init_radix_cache 5)) = Inr (Once ''m'' ''re:hi'')" by (simp add: sample_eval)
  define cache' where "cache' = snd (infer_handler replay_lib echo_ollama ?req (init_radix_cache 5))"
  have one: "infer_handler replay_lib echo_ollama ?req (init_radix_cache 5) = (Inr (Once ''m'' ''re:hi''), cache')"
    using first by (simp add: cache'_def prod_eq_iff)
  have "backend_answer replay_lib echo_ollama (?req\<lparr>ir_prompt := []\<rparr>) = Inr (Once ''m'' ''re:'')" by (simp add: sample_eval)
  then show ?thesis
    using repeated_prompt_forwarded_empty [OF cache_ok_init _ one, where req' = ?req and ol' = echo_ollama] one
    by (auto simp: init_radix_cache_def)
qed

end
