(* ===== verification/Mesh_Server.thy ===== *)
theory Mesh_Server
  imports Node_Inference Dispatch
begin

text \<open>
  Inference over the Node's outbound mesh session (\<^verbatim>\<open>node/clients/mesh_inference_server.py\<close>): a queryable
  that verifies a query, runs it on the local backend and replies. Together with the Scheduler's client it
  closes the loop from a request to its result. A reply that cannot be sent because the querier has gone is
  logged and dropped by the code; the model lists the replies the node sends.
\<close>

section \<open>The server\<close>

record mesh_server =
  ms_node_id :: string
  ms_token :: "string option"
  ms_session :: bool
  ms_queryable :: bool
  ms_loop :: bool
  ms_nonces :: nonce_cache
  ms_inflight :: "string option list"

definition init_server :: "string \<Rightarrow> string option \<Rightarrow> bool \<Rightarrow> mesh_server" where
  "init_server k token session =
     \<lparr>ms_node_id = k, ms_token = token, ms_session = session, ms_queryable = False, ms_loop = False,
      ms_nonces = init_nonce_cache NONCE_CACHE_SIZE, ms_inflight = []\<rparr>"

text \<open>\<^verbatim>\<open>start\<close>, where \<open>declares\<close> says whether \<^verbatim>\<open>declare_queryable\<close> succeeded, and \<^verbatim>\<open>stop\<close>.\<close>

definition start_server :: "bool \<Rightarrow> mesh_server \<Rightarrow> mesh_server" where
  "start_server declares srv =
     (if \<not> ms_session srv \<or> ms_queryable srv then srv else srv\<lparr>ms_loop := True, ms_queryable := declares\<rparr>)"

definition stop_server :: "mesh_server \<Rightarrow> mesh_server" where
  "stop_server srv = (if \<not> ms_queryable srv then srv else srv\<lparr>ms_queryable := False, ms_loop := False\<rparr>)"

definition is_serving :: "mesh_server \<Rightarrow> bool" where
  "is_serving srv = ms_queryable srv"

text \<open>The callback: a query is handed to the event loop, or answered with 503 when there is none.\<close>

definition on_query :: "mesh_lib \<Rightarrow> string option \<Rightarrow> mesh_server \<Rightarrow> string list \<times> mesh_server" where
  "on_query lib query srv =
     (if \<not> ms_loop srv then ([encode_error lib ''Node is not accepting inference.'' 503], srv)
      else ([], srv\<lparr>ms_inflight := ms_inflight srv @ [query]\<rparr>))"

definition verify_query :: "mesh_lib \<Rightarrow> pyfloat \<Rightarrow> string option \<Rightarrow> mesh_server \<Rightarrow> mesh_request res \<times> mesh_server" where
  "verify_query lib now query srv =
     (case query of
        None \<Rightarrow> (Inl (MeshRequestError ''Mesh inference query carried no payload.'' 400), srv)
      | Some raw \<Rightarrow>
          (case verify_request lib raw (ms_node_id srv) (ms_token srv) now (Some (ms_nonces srv)) of
             (r, c) \<Rightarrow> (r, case c of None \<Rightarrow> srv | Some c' \<Rightarrow> srv\<lparr>ms_nonces := c'\<rparr>)))"

definition failure_reply :: "mesh_lib \<Rightarrow> exc \<Rightarrow> string" where
  "failure_reply lib e =
     (case e of
        OllamaError m \<Rightarrow> encode_error lib m (inference_status e)
      | _ \<Rightarrow> encode_error lib (''Node inference failed: '' @ message_of e) 500)"

fun chunk_replies :: "mesh_lib \<Rightarrow> int \<Rightarrow> string list \<Rightarrow> string list" where
  "chunk_replies lib i [] = []"
| "chunk_replies lib i (f # fs) = encode_chunk lib i f # chunk_replies lib (i + 1) fs"

definition serve_once :: "mesh_lib \<Rightarrow> ollama_lib \<Rightarrow> inference_request \<Rightarrow> string list" where
  "serve_once lib ol req =
     (case ollama_generate ol req of
        Inl e \<Rightarrow> [failure_reply lib e]
      | Inr (model, text) \<Rightarrow> [encode_result lib model text])"

definition serve_stream :: "mesh_lib \<Rightarrow> ollama_lib \<Rightarrow> inference_request \<Rightarrow> string list" where
  "serve_stream lib ol req =
     (case generate_stream lib ol req of
        (frames, failure) \<Rightarrow>
          chunk_replies lib 0 frames @ [case failure of None \<Rightarrow> encode_done lib | Some e \<Rightarrow> failure_reply lib e])"

definition answer_query :: "mesh_lib \<Rightarrow> ollama_lib \<Rightarrow> mesh_request \<Rightarrow> string list" where
  "answer_query lib ol rq =
     (case mk_inference_request (mr_model rq) (mr_prompt rq) (mr_stream rq) None of
        Inl e \<Rightarrow> [failure_reply lib e]
      | Inr req \<Rightarrow> if mr_stream rq then serve_stream lib ol req else serve_once lib ol req)"

text \<open>
  \<^verbatim>\<open>_serve\<close>: the replies sent and the exception, if any, that leaves the coroutine unanswered (only a
  \<^verbatim>\<open>MeshRequestError\<close> of the verification is caught there).
\<close>

definition serve :: "mesh_lib \<Rightarrow> ollama_lib \<Rightarrow> pyfloat \<Rightarrow> string option \<Rightarrow> mesh_server \<Rightarrow> string list \<times> exc option \<times> mesh_server" where
  "serve lib ol now query srv =
     (case verify_query lib now query srv of
        (Inl (MeshRequestError m status), srv1) \<Rightarrow> ([encode_error lib m status], None, srv1)
      | (Inl e, srv1) \<Rightarrow> ([], Some e, srv1)
      | (Inr rq, srv1) \<Rightarrow> (answer_query lib ol rq, None, srv1))"

text \<open>The event loop runs the oldest query in flight; its done-callback removes it.\<close>

definition run_inflight :: "mesh_lib \<Rightarrow> ollama_lib \<Rightarrow> pyfloat \<Rightarrow> mesh_server \<Rightarrow> string list \<times> mesh_server" where
  "run_inflight lib ol now srv =
     (case ms_inflight srv of
        [] \<Rightarrow> ([], srv)
      | query # rest \<Rightarrow>
          (case serve lib ol now query srv of
             (replies, _, srv1) \<Rightarrow> (replies, srv1\<lparr>ms_inflight := rest\<rparr>)))"

section \<open>What a reply decodes to\<close>

definition json_inverse :: "mesh_lib \<Rightarrow> bool" where
  "json_inverse lib \<longleftrightarrow> (\<forall>d. dict_ok d \<longrightarrow> json_loads lib (json_dumps lib (JObj d)) = Some (JObj d))"

definition result_dict :: "string \<Rightarrow> string \<Rightarrow> jobj" where
  "result_dict model response = [(''ok'', JBool True), (''model'', JStr model), (''response'', JStr response)]"

definition chunk_dict :: "int \<Rightarrow> string \<Rightarrow> jobj" where
  "chunk_dict i chunk = [(''ok'', JBool True), (''i'', JInt i), (''chunk'', JStr chunk)]"

definition done_dict :: jobj where
  "done_dict = [(''ok'', JBool True), (''done'', JBool True)]"

definition error_dict :: "string \<Rightarrow> int \<Rightarrow> jobj" where
  "error_dict message status = [(''ok'', JBool False), (''status'', JInt status), (''error'', JStr message)]"

lemma drain_decodes:
  assumes "json_inverse lib"
  shows "drain_one lib (ReplyOk (encode_result lib m t)) = [Reply (result_dict m t)]"
    "drain_one lib (ReplyOk (encode_chunk lib i f)) = [Reply (chunk_dict i f)]"
    "drain_one lib (ReplyOk (encode_done lib)) = [Reply done_dict]"
    "drain_one lib (ReplyOk (encode_error lib m s)) = [Reply (error_dict m s)]"
  using assms
  by (simp_all add: drain_one_def decode_reply_def json_inverse_def encode_result_def encode_chunk_def encode_done_def
      encode_error_def result_dict_def chunk_dict_def done_dict_def error_dict_def)

lemma reply_dicts:
  "reply_ok (result_dict m t)" "reply_ok (chunk_dict i f)" "reply_ok done_dict" "\<not> reply_ok (error_dict m s)"
  "truthy (jget done_dict ''done'')" "\<not> truthy (jget (chunk_dict i f) ''done'')" "jget (chunk_dict i f) ''chunk'' = JStr f"
  "node_failure rep (error_dict m s) = MeshNodeError m s"
  by (simp_all add: reply_ok_def result_dict_def chunk_dict_def done_dict_def error_dict_def dget_or_def jget_def node_failure_def)

lemma relay_chunks:
  assumes "json_inverse lib"
  shows "relay rep (concat (map (drain_one lib) (map ReplyOk (chunk_replies lib i fs))) @ q)
    = (case relay rep q of (cs, e) \<Rightarrow> (fs @ cs, e))"
  by (induction fs arbitrary: i) (simp_all add: drain_decodes [OF assms] reply_dicts split: prod.splits)

section \<open>Properties\<close>

text \<open>The network of a Scheduler whose node listens: a query on the node's key is served, any other finds no queryable.\<close>

definition served_net :: "mesh_lib \<Rightarrow> ollama_lib \<Rightarrow> pyfloat \<Rightarrow> mesh_server \<Rightarrow> mesh_net" where
  "served_net lib ol now srv key payload =
     (if key = infer_key_expr (ms_node_id srv) then Answered True (map ReplyOk (fst (serve lib ol now (Some payload) srv))) None
      else Answered True [] None)"

definition node_end :: "exc option \<Rightarrow> stream_end" where
  "node_end failure = (case failure of
      None \<Rightarrow> Completed
    | Some e \<Rightarrow> Failed (case e of OllamaError m \<Rightarrow> MeshNodeError m (inference_status e)
                         | _ \<Rightarrow> MeshNodeError (''Node inference failed: '' @ message_of e) 500))"

text \<open>The premises under which the two ends agree: shared credential, clocks, a fresh nonce and room for it.\<close>

definition trusted_query :: "mesh_lib \<Rightarrow> string \<Rightarrow> pyfloat \<Rightarrow> pyfloat \<Rightarrow> string \<Rightarrow> mesh_server \<Rightarrow> bool" where
  "trusted_query lib token ts now nonce srv \<longleftrightarrow>
     json_inverse lib \<and> (\<forall>key msg. list_all (\<lambda>ch. code_of ch < 128) (hmac_hex lib key msg))
     \<and> token \<noteq> [] \<and> ms_token srv = Some token \<and> fle (fabs (fsub now ts)) (Fin 30)
     \<and> \<not> dmem nonce (nc_seen (ms_nonces srv)) \<and> int (length (nc_seen (ms_nonces srv))) < nc_capacity (ms_nonces srv)"

lemma served_query:
  assumes "trusted_query lib token ts now nonce srv" "mc_session cl" "mc_net cl = served_net lib ol now srv"
  shows "start_query lib cl (ms_node_id srv) token model prompt stream ts nonce
    = Inr (True, drain lib (map ReplyOk (answer_query lib ol
          \<lparr>mr_node_id = ms_node_id srv, mr_model = model, mr_prompt = prompt, mr_stream = stream\<rparr>)) None)"
proof -
  have t: "json_inverse lib" "\<forall>key msg. list_all (\<lambda>ch. code_of ch < 128) (hmac_hex lib key msg)" "token \<noteq> []" "ms_token srv = Some token"
    "fle (fabs (fsub now ts)) (Fin 30)" "\<not> dmem nonce (nc_seen (ms_nonces srv))"
    "int (length (nc_seen (ms_nonces srv))) < nc_capacity (ms_nonces srv)"
    using assms(1) by (simp_all add: trusted_query_def)
  have "json_loads lib (json_dumps lib (JObj (build_request lib (ms_node_id srv) model prompt stream token ts nonce)))
      = Some (JObj (build_request lib (ms_node_id srv) model prompt stream token ts nonce))"
    using t(1) by (simp add: json_inverse_def build_request_def)
  from built_request_accepted [OF t(3) refl this t(2,5,6,7)]
  show ?thesis using assms(2,3) t(4) by (simp add: start_query_def served_net_def serve_def verify_query_def)
qed

text \<open>
  C7. From the Scheduler to the backend and back: with a shared credential, clocks at most thirty seconds
  apart and a fresh nonce, a mesh query for a request that is not blank runs the Node's backend on exactly
  that model and prompt (stripped), and the caller gets exactly what the backend answered, or its failure
  with the status 404 or 500 the Node gave it.
\<close>

theorem mesh_inference_end_to_end:
  assumes "trusted_query lib token ts now nonce srv" "mc_session cl" "mc_net cl = served_net lib ol now srv"
    "mk_inference_request model prompt False None = Inr req"
  shows "mesh_infer lib cl (ms_node_id srv) token model prompt ts nonce =
    (case ollama_generate ol req of
       Inr (m, text) \<Rightarrow> Inr (m, text)
     | Inl (OllamaError m) \<Rightarrow> Inl (MeshNodeError m (inference_status (OllamaError m)))
     | Inl e \<Rightarrow> Inl (MeshNodeError (''Node inference failed: '' @ message_of e) 500))"
proof -
  have j: "json_inverse lib" using assms(1) by (simp add: trusted_query_def)
  have ans: "answer_query lib ol \<lparr>mr_node_id = ms_node_id srv, mr_model = model, mr_prompt = prompt, mr_stream = False\<rparr> = serve_once lib ol req"
    using assms(4) by (simp add: answer_query_def)
  show ?thesis
  proof (cases "ollama_generate ol req")
    case (Inr r)
    then show ?thesis
      using served_query [OF assms(1-3), of model prompt False] j
      by (cases r) (simp add: mesh_infer_def ans serve_once_def drain_def drain_decodes first_reply_def reply_dicts,
          simp add: result_dict_def dget_or_def)
  next
    case (Inl e)
    then show ?thesis
      using served_query [OF assms(1-3), of model prompt False] j
      by (cases e) (simp_all add: mesh_infer_def ans serve_once_def failure_reply_def drain_def drain_decodes first_reply_def reply_dicts)
  qed
qed


section \<open>A concrete pair of ends\<close>

text \<open>A JSON codec that inverts itself: values are numbered and written in unary.\<close>

instance json :: countable
  by countable_datatype

definition numbered_lib :: mesh_lib where
  "numbered_lib = \<lparr>json_loads = (\<lambda>s. Some (from_nat (length s))), json_dumps = (\<lambda>j. replicate (to_nat j) (CHR ''1'')),
     sha256_hex = id, hmac_hex = (\<lambda>_ _. ''ab''), py_repr = (\<lambda>_. [])\<rparr>"

definition sample_server :: mesh_server where
  "sample_server = start_server True (init_server ''n'' (Some ''tok'') True)"

definition sample_client :: mesh_client where
  "sample_client = \<lparr>mc_session = True, mc_net = served_net numbered_lib echo_ollama (Fin 110) sample_server\<rparr>"

lemma sample_trusted: "trusted_query numbered_lib ''tok'' (Fin 100) (Fin 110) ''x'' sample_server"
  by (simp add: trusted_query_def json_inverse_def numbered_lib_def sample_server_def start_server_def init_server_def
      init_nonce_cache_def NONCE_CACHE_SIZE_def fsub_def lit_numeral)

theorem mesh_inference_end_to_end_witness:
  "mesh_infer numbered_lib sample_client ''n'' ''tok'' ''m'' '' hi '' (Fin 100) ''x'' = Inr (''m'', ''re:hi'')"
proof -
  have req: "mk_inference_request ''m'' '' hi '' False None = Inr \<lparr>ir_model = ''m'', ir_prompt = ''hi'', ir_stream = False, ir_branch = None\<rparr>"
    by (simp add: sample_eval)
  have "ms_node_id sample_server = ''n''" by (simp add: sample_server_def start_server_def init_server_def)
  then show ?thesis
    using mesh_inference_end_to_end [OF sample_trusted _ _ req, of sample_client echo_ollama]
    by (simp add: sample_client_def sample_eval)
qed


end
