(* ===== verification/Scheduler_Client.thy ===== *)
theory Scheduler_Client
  imports Node_Inference Nodes_Api
begin

text \<open>
  The Node's side of the HTTP interface: what a Node says about itself (\<^verbatim>\<open>node/models/node_info.py\<close>,
  \<^verbatim>\<open>heartbeat.py\<close>, \<^verbatim>\<open>gpu_info.py\<close>), the payloads built from it and the client that sends them
  (\<^verbatim>\<open>node/clients/scheduler.py\<close>). The Scheduler at the other end is an argument: a function from a request and
  the state of the world to an outcome and the state after it. Below it is the Scheduler of
  \<open>Nodes_Api\<close>, reached over a network that loses requests and responses.
\<close>

section \<open>What a Node says about itself\<close>

definition cpu_only_gpu :: gpu_info where
  "cpu_only_gpu = \<lparr>gpu_name = ''cpu-only'', vram_total_gb = Fin 0, vram_available_gb = Fin 0\<rparr>"

record node_info =
  ni_node_id :: string
  ni_hostname :: string
  ni_region :: string
  ni_ip_address :: string
  ni_cpu_cores :: int
  ni_ram_total_gb :: pyfloat
  ni_gpu :: gpu_info
  ni_available_models :: "model_info list"

text \<open>\<^verbatim>\<open>NodeInfo(...)\<close> with its validators; \<open>is_ip\<close> is \<^verbatim>\<open>ipaddress.ip_address\<close> not raising.\<close>

definition mk_node_info :: "(string \<Rightarrow> bool) \<Rightarrow> string \<Rightarrow> string \<Rightarrow> string \<Rightarrow> string \<Rightarrow> int \<Rightarrow> pyfloat \<Rightarrow> gpu_info \<Rightarrow> model_info list
    \<Rightarrow> node_info res" where
  "mk_node_info is_ip k host region_name ip cores ram g models =
     rbind (stripped k) (\<lambda>k'. rbind (stripped host) (\<lambda>host'. rbind (stripped region_name) (\<lambda>region'.
       if \<not> is_ip (py_strip ip) then Inl (ValueError ''Must be a valid IPv4 or IPv6 address.'')
       else if cores \<le> 0 then Inl (ValueError ''CPU cores must be greater than 0.'')
       else if fle ram (Fin 0) then Inl (ValueError ''Total RAM must be greater than 0.0.'')
       else Inr \<lparr>ni_node_id = k', ni_hostname = host', ni_region = region', ni_ip_address = py_strip ip,
                 ni_cpu_cores = cores, ni_ram_total_gb = ram, ni_gpu = g, ni_available_models = models\<rparr>)))"

record node_heartbeat =
  nh_node_id :: string
  nh_timestamp :: int
  nh_queue_length :: int
  nh_cpu_utilization :: pyfloat
  nh_ram_available_gb :: pyfloat
  nh_gpu_utilization :: pyfloat
  nh_vram_available_gb :: pyfloat

definition utilization_ok :: "pyfloat \<Rightarrow> bool" where
  "utilization_ok v = (fle (Fin 0) v \<and> fle v (Fin 100))"

definition mk_node_heartbeat :: "string \<Rightarrow> int \<Rightarrow> int \<Rightarrow> pyfloat \<Rightarrow> pyfloat \<Rightarrow> pyfloat \<Rightarrow> pyfloat \<Rightarrow> node_heartbeat res" where
  "mk_node_heartbeat k t queue cpu ram gpu_use vram =
     rbind (stripped k) (\<lambda>k'.
       if queue < 0 then Inl (ValueError ''Queue length cannot be negative.'')
       else if \<not> utilization_ok cpu \<or> \<not> utilization_ok gpu_use
         then Inl (ValueError ''Utilization percentage must be between 0.0 and 100.0 inclusive.'')
       else if flt ram (Fin 0) \<or> flt vram (Fin 0) then Inl (ValueError ''Available memory must be non-negative.'')
       else Inr \<lparr>nh_node_id = k', nh_timestamp = t, nh_queue_length = queue, nh_cpu_utilization = cpu,
                 nh_ram_available_gb = ram, nh_gpu_utilization = gpu_use, nh_vram_available_gb = vram\<rparr>)"

section \<open>Payloads\<close>

text \<open>
  A payload is what the Scheduler's model reads from it: the JSON object of a \<^verbatim>\<open>NodeInfo\<close> has the fields of
  the Scheduler's \<^verbatim>\<open>Node\<close>, with the names of the models in place of the models; a heartbeat gains its status.
\<close>

definition build_registration_payload :: "node_info \<Rightarrow> node" where
  "build_registration_payload ni =
     \<lparr>node_id = ni_node_id ni, hostname = ni_hostname ni, ip_address = ni_ip_address ni, region = ni_region ni,
      gpu = ni_gpu ni, cpu_cores = ni_cpu_cores ni, ram_total_gb = ni_ram_total_gb ni,
      available_models = map mi_name (ni_available_models ni)\<rparr>"

definition build_model_catalogue_payload :: "model_info list \<Rightarrow> string list" where
  "build_model_catalogue_payload models = map mi_name models"

definition build_heartbeat_payload :: "node_heartbeat \<Rightarrow> heartbeat" where
  "build_heartbeat_payload h =
     \<lparr>hb_node_id = nh_node_id h, hb_timestamp = nh_timestamp h, hb_status = ONLINE, queue_length = nh_queue_length h,
      cpu_utilization = nh_cpu_utilization h, ram_available_gb = nh_ram_available_gb h,
      gpu_utilization = nh_gpu_utilization h, hb_vram_available_gb = nh_vram_available_gb h\<rparr>"

section \<open>Requests\<close>

datatype sched_body = RegisterBody node | ModelsBody "string list" | HeartbeatBody heartbeat | NoBody

record sched_request =
  rq_method :: string
  rq_path :: string
  rq_body :: sched_body
  rq_fleet_token :: "string option"
  rq_credential :: "string option"
  rq_invite :: "string option"

text \<open>What \<^verbatim>\<open>httpx\<close> makes of a request: a response, a \<^verbatim>\<open>RequestError\<close>, or some other exception.\<close>

datatype sched_outcome = Status int string | RequestFailure string | Raised exc

type_synonym 'w send = "sched_request \<Rightarrow> 'w \<Rightarrow> sched_outcome \<times> 'w"

record scheduler_client =
  sc_network_auth_token :: "string option"
  sc_fleet_token :: "string option"
  sc_invite_code :: "string option"

text \<open>\<^verbatim>\<open>a or b\<close>, and a header that is sent only when it is not empty.\<close>

definition non_empty :: "string option \<Rightarrow> string option" where
  "non_empty a = (case a of None \<Rightarrow> None | Some s \<Rightarrow> if s = [] then None else Some s)"

definition init_scheduler_client :: "string option \<Rightarrow> string option \<Rightarrow> string option \<Rightarrow> scheduler_client" where
  "init_scheduler_client network_auth_token fleet_token invite_code =
     \<lparr>sc_network_auth_token = network_auth_token,
      sc_fleet_token = (case non_empty fleet_token of None \<Rightarrow> network_auth_token | Some f \<Rightarrow> Some f),
      sc_invite_code = invite_code\<rparr>"

definition send_request :: "'w send \<Rightarrow> scheduler_client \<Rightarrow> string \<Rightarrow> string \<Rightarrow> sched_body \<Rightarrow> 'w \<Rightarrow> unit res \<times> 'w" where
  "send_request send cl meth p body w =
     (case send \<lparr>rq_method = meth, rq_path = p, rq_body = body, rq_fleet_token = non_empty (sc_fleet_token cl),
                 rq_credential = non_empty (sc_network_auth_token cl), rq_invite = non_empty (sc_invite_code cl)\<rparr> w of
        (Status code text, w') \<Rightarrow>
          (if 200 \<le> code \<and> code < 300 then Inr ()
           else Inl (SchedulerError (''Scheduler request '' @ meth @ '' '' @ p @ '' failed with status '' @ str_of_int code
                  @ '': '' @ text) (Some code)), w')
      | (RequestFailure m, w') \<Rightarrow> (Inl (SchedulerError (''Scheduler request '' @ meth @ '' '' @ p @ '' failed: '' @ m) None), w')
      | (Raised e, w') \<Rightarrow> (Inl e, w'))"

definition client_register :: "'w send \<Rightarrow> scheduler_client \<Rightarrow> node_info \<Rightarrow> 'w \<Rightarrow> bool res \<times> 'w" where
  "client_register send cl ni w =
     (case send_request send cl ''POST'' ''/nodes/register'' (RegisterBody (build_registration_payload ni)) w of
        (Inl (SchedulerError m s), w') \<Rightarrow> (if s = Some 409 then Inr False else Inl (SchedulerError m s), w')
      | (Inl e, w') \<Rightarrow> (Inl e, w')
      | (Inr _, w') \<Rightarrow> (Inr True, w'))"

definition client_update_models :: "'w send \<Rightarrow> scheduler_client \<Rightarrow> string \<Rightarrow> model_info list \<Rightarrow> 'w \<Rightarrow> unit res \<times> 'w" where
  "client_update_models send cl k models =
     send_request send cl ''PUT'' (''/nodes/'' @ k @ ''/models'') (ModelsBody (build_model_catalogue_payload models))"

definition client_heartbeat :: "'w send \<Rightarrow> scheduler_client \<Rightarrow> node_heartbeat \<Rightarrow> 'w \<Rightarrow> unit res \<times> 'w" where
  "client_heartbeat send cl h = send_request send cl ''POST'' ''/heartbeat'' (HeartbeatBody (build_heartbeat_payload h))"

definition client_unregister :: "'w send \<Rightarrow> scheduler_client \<Rightarrow> string \<Rightarrow> 'w \<Rightarrow> unit res \<times> 'w" where
  "client_unregister send cl k = send_request send cl ''DELETE'' (''/nodes/'' @ k) NoBody"

section \<open>The Scheduler at the other end\<close>

text \<open>
  A request arrives at the route of its method and path; a body the route's model refuses is a 422. The
  path parameter of \<^verbatim>\<open>/nodes/{id}/models\<close> and \<^verbatim>\<open>/nodes/{id}\<close> is one segment.
\<close>

fun status_of :: "exc \<Rightarrow> sched_outcome" where
  "status_of (HTTPException code m) = Status code m"
| "status_of e = Status 500 ''Internal Server Error''"

definition respond :: "int \<Rightarrow> 'a res \<times> 'w \<Rightarrow> sched_outcome \<times> 'w" where
  "respond ok r = (case r of (Inr _, w) \<Rightarrow> (Status ok [], w) | (Inl e, w) \<Rightarrow> (status_of e, w))"

definition not_routed :: "sched_outcome" where
  "not_routed = Status 404 ''Not Found''"

definition scheduler_routes :: "(node \<Rightarrow> string) \<Rightarrow> (string \<Rightarrow> string) \<Rightarrow> node_app send" where
  "scheduler_routes dump sha rq app =
     (let meth = rq_method rq; parts = py_split (CHR ''/'') (rq_path rq)
      in case rq_body rq of
           RegisterBody n \<Rightarrow>
             if meth \<noteq> ''POST'' \<or> parts \<noteq> [[], ''nodes'', ''register''] then (not_routed, app)
             else if \<not> node_valid n then (Status 422 [], app)
             else respond 201 (register_node dump sha (rq_fleet_token rq) (rq_credential rq) (rq_invite rq) n app)
         | ModelsBody ms \<Rightarrow>
             if meth \<noteq> ''PUT'' \<or> length parts \<noteq> 4 \<or> take 2 parts \<noteq> [[], ''nodes''] \<or> last parts \<noteq> ''models'' then (not_routed, app)
             else respond 200 (update_node_models dump (rq_fleet_token rq) (parts ! 2) ms app)
         | HeartbeatBody h \<Rightarrow>
             if meth \<noteq> ''POST'' \<or> parts \<noteq> [[], ''heartbeat''] then (not_routed, app)
             else if \<not> heartbeat_valid h then (Status 422 [], app)
             else respond 200 (receive_heartbeat (rq_fleet_token rq) h app)
         | NoBody \<Rightarrow>
             if meth \<noteq> ''DELETE'' \<or> length parts \<noteq> 3 \<or> take 2 parts \<noteq> [[], ''nodes''] then (not_routed, app)
             else respond 204 (unregister_endpoint (rq_fleet_token rq) (parts ! 2) app))"

text \<open>A network that delivers, loses the request, or loses the response, as its schedule says.\<close>

datatype delivery = Delivered | RequestLost | ResponseLost

record world =
  w_app :: node_app
  w_schedule :: "delivery list"

definition lossy_send :: "(node \<Rightarrow> string) \<Rightarrow> (string \<Rightarrow> string) \<Rightarrow> world send" where
  "lossy_send dump sha rq w =
     (let rest = tl (w_schedule w) in
      case (case w_schedule w of [] \<Rightarrow> Delivered | d # _ \<Rightarrow> d) of
        RequestLost \<Rightarrow> (RequestFailure ''connection failed'', w\<lparr>w_schedule := rest\<rparr>)
      | d \<Rightarrow>
          (case scheduler_routes dump sha rq (w_app w) of
             (out, app) \<Rightarrow> (if d = ResponseLost then RequestFailure ''timed out'' else out,
                            w\<lparr>w_app := app, w_schedule := rest\<rparr>)))"

section \<open>What each route does to a node's record\<close>

abbreviation node_record :: "string \<Rightarrow> node_app \<Rightarrow> node option" where
  "node_record k app \<equiv> dget (reg_nodes (na_registry app)) k"

lemma status_of_exc: "\<exists>code m. status_of e = Status code m"
  by (cases e) auto

lemma route_paths:
  "py_split (CHR ''/'') ''/nodes/register'' = [[], ''nodes'', ''register'']" "py_split (CHR ''/'') ''/heartbeat'' = [[], ''heartbeat'']"
  "CHR ''/'' \<notin> set k \<Longrightarrow> py_split (CHR ''/'') (''/nodes/'' @ k @ ''/models'') = [[], ''nodes'', k, ''models'']"
  "CHR ''/'' \<notin> set k \<Longrightarrow> py_split (CHR ''/'') (''/nodes/'' @ k) = [[], ''nodes'', k]"
  using py_split_append [of "CHR ''/''" k "''models''"] by (simp_all add: py_split_plain)

text \<open>A registration that is not answered 2xx leaves every record alone; one that is sets the Node's.\<close>

lemma register_status:
  "(case respond 201 (register_node dump sha header cred code n app) of
      (Status c m, app') \<Rightarrow> (200 \<le> c \<and> c < 300 \<longrightarrow> node_record (node_id n) app' = Some n)
          \<and> (\<not> (200 \<le> c \<and> c < 300) \<longrightarrow> reg_nodes (na_registry app') = reg_nodes (na_registry app))
    | _ \<Rightarrow> False)"
proof (cases rule: register_node_cases [of dump sha header cred code n app])
  case (admitted r)
  then show ?thesis by (auto simp: respond_def redeem_invite_def split: option.splits)
qed (auto simp: respond_def with_credential_def)

lemma models_status:
  "(case respond 200 (update_node_models dump header k ms app) of
      (Status c m, app') \<Rightarrow> (200 \<le> c \<and> c < 300 \<longrightarrow> map_option available_models (node_record k app') = Some ms)
          \<and> (\<not> (200 \<le> c \<and> c < 300) \<longrightarrow> reg_nodes (na_registry app') = reg_nodes (na_registry app))
    | _ \<Rightarrow> False)"
  by (cases rule: guarded_cases [of header _ app])
    (auto simp: update_node_models_def guarded_def respond_def set_available_models_def verify_auth_token_def registry_get_def
      http_not_found_def not_found_def Let_def dict_simps reg_simps split: option.splits)

lemma heartbeat_status:
  "(case respond 200 (receive_heartbeat header h app) of
      (Status c m, app') \<Rightarrow> reg_nodes (na_registry app') = reg_nodes (na_registry app) | _ \<Rightarrow> False)"
  by (auto simp: receive_heartbeat_def guarded_def respond_def update_heartbeat_def verify_auth_token_def http_not_found_def not_found_def)

lemma delete_status:
  "(case respond 204 (unregister_endpoint header k app) of
      (Status c m, app') \<Rightarrow> node_record k app' \<in> {node_record k app, None} | _ \<Rightarrow> False)"
  by (auto simp: unregister_endpoint_def guarded_def respond_def unregister_def local_unregister_def verify_auth_token_def
      http_not_found_def not_found_def drop_node_def dict_simps reg_simps)

lemma lossy_cases:
  assumes "lossy_send dump sha rq w = (out, w')" "ResponseLost \<notin> set (w_schedule w)"
  shows "ResponseLost \<notin> set (w_schedule w')"
    "(\<exists>m. out = RequestFailure m) \<and> w_app w' = w_app w \<or> scheduler_routes dump sha rq (w_app w) = (out, w_app w')"
  using assms by (cases "w_schedule w"; auto simp: lossy_send_def Let_def split: delivery.splits prod.splits if_splits)+

section \<open>Properties\<close>

text \<open>
  C28. The wire contract. Whatever a Node can put into its registration and its heartbeat passes the
  validation of the Scheduler's models, as long as the probes measured numbers: an object the Node's models
  accept is never answered with a 422.
\<close>

theorem wire_contract:
  assumes "mk_node_info is_ip k host region_name ip cores ram g models = Inr ni" "gpu_valid g" "ram \<noteq> NaN"
    "mk_node_heartbeat k t queue cpu mem gpu_use vram = Inr hb" "mem \<noteq> NaN" "vram \<noteq> NaN"
  shows "node_valid (build_registration_payload ni) \<and> heartbeat_valid (build_heartbeat_payload hb)
    \<and> hb_node_id (build_heartbeat_payload hb) = node_id (build_registration_payload ni)"
proof -
  have num: "\<not> fle x (Fin 0) \<Longrightarrow> x \<noteq> NaN \<Longrightarrow> flt (Fin 0) x" "\<not> flt x (Fin 0) \<Longrightarrow> x \<noteq> NaN \<Longrightarrow> fle (Fin 0) x" for x
    by (cases x; simp)+
  show ?thesis
    using assms num [of ram] num [of mem] num [of vram]
    by (auto simp: mk_node_info_def mk_node_heartbeat_def stripped_def rbind_eq_Inr node_valid_def heartbeat_valid_def
        build_registration_payload_def build_heartbeat_payload_def utilization_ok_def split: if_splits)
qed

theorem wire_contract_witness:
  "\<exists>ni hb. mk_node_info (\<lambda>_. True) '' n '' ''h'' ''eu'' ''127.0.0.1'' 4 (Fin 16) cpu_only_gpu [] = Inr ni
     \<and> mk_node_heartbeat '' n '' 0 0 (Fin 5) (Fin 8) (Fin 0) (Fin 0) = Inr hb
     \<and> node_valid (build_registration_payload ni) \<and> heartbeat_valid (build_heartbeat_payload hb)"
proof -
  obtain ni where ni: "mk_node_info (\<lambda>_. True) '' n '' ''h'' ''eu'' ''127.0.0.1'' 4 (Fin 16) cpu_only_gpu [] = Inr ni"
    by (simp add: mk_node_info_def stripped_def py_strip_def is_space_def)
  obtain hb where hb: "mk_node_heartbeat '' n '' 0 0 (Fin 5) (Fin 8) (Fin 0) (Fin 0) = Inr hb"
    by (simp add: mk_node_heartbeat_def stripped_def py_strip_def is_space_def utilization_ok_def)
  show ?thesis using wire_contract [OF ni _ _ hb] ni hb by (auto simp: cpu_only_gpu_def gpu_valid_def)
qed

end
