(* ===== verification/Node_Runtime.thy ===== *)
theory Node_Runtime
  imports Scheduler_Client
begin

text \<open>
  The lifecycle of a Node process (\<^verbatim>\<open>node/runtime.py\<close>): start and stop, registration with its retry loop,
  heartbeats, and the model catalogue a Node keeps in step with the Scheduler. The background loops are
  steps: one pass of a loop body per step, in any interleaving. What the Scheduler answers is the argument
  \<open>send\<close>; what Ollama lists and what the hardware probes measure are arguments of the steps that use them.
\<close>

section \<open>State\<close>

datatype registration_status = NotStarted | Starting | Registered | PendingRetry | FailedStart | Stopping | Unregistered

text \<open>A live retry task is its current back-off interval.\<close>

record node_runtime =
  rn_running :: bool
  rn_status :: registration_status
  rn_node_info :: "node_info option"
  rn_advertised :: "model_info list"
  rn_synced :: bool
  rn_retry :: "pyfloat option"
  rn_heartbeat_task :: bool
  rn_refresh_task :: bool
  rn_worker_task :: bool
  rn_session :: bool
  rn_mesh_server :: bool
  rn_telemetry :: bool
  rn_last_heartbeat_at :: "int option"
  rn_last_heartbeat_ok :: bool
  rn_last_heartbeat_error :: "string option"

definition init_runtime :: node_runtime where
  "init_runtime =
     \<lparr>rn_running = False, rn_status = NotStarted, rn_node_info = None, rn_advertised = [], rn_synced = False, rn_retry = None,
      rn_heartbeat_task = False, rn_refresh_task = False, rn_worker_task = False, rn_session = False, rn_mesh_server = False,
      rn_telemetry = False, rn_last_heartbeat_at = None, rn_last_heartbeat_ok = False, rn_last_heartbeat_error = None\<rparr>"

record node_settings =
  st_node_id :: string
  st_retry_max :: pyfloat
  st_client :: scheduler_client

section \<open>Catalogue and registration\<close>

definition publish_model_catalogue :: "'w send \<Rightarrow> node_settings \<Rightarrow> model_info list \<Rightarrow> node_runtime \<times> 'w \<Rightarrow> bool \<times> node_runtime \<times> 'w" where
  "publish_model_catalogue send st models = (\<lambda>(rt, w).
     case client_update_models send (st_client st) (st_node_id st) models w of
       (Inl e, w') \<Rightarrow> (False, rt, w')
     | (Inr _, w') \<Rightarrow> (True, rt\<lparr>rn_advertised := models, rn_synced := True\<rparr>, w'))"

definition attempt_registration :: "'w send \<Rightarrow> node_settings \<Rightarrow> node_info \<Rightarrow> node_runtime \<times> 'w \<Rightarrow> unit res \<times> node_runtime \<times> 'w" where
  "attempt_registration send st ni = (\<lambda>(rt, w).
     case client_register send (st_client st) ni w of
       (Inl e, w') \<Rightarrow> (Inl e, rt, w')
     | (Inr created, w') \<Rightarrow>
         let rt1 = rt\<lparr>rn_status := Registered\<rparr>
         in if created then (Inr (), rt1\<lparr>rn_advertised := ni_available_models ni, rn_synced := True\<rparr>, w')
            else (case publish_model_catalogue send st (ni_available_models ni) (rt1, w') of (_, s) \<Rightarrow> (Inr (), s)))"

definition arm_registration_retry :: "node_runtime \<Rightarrow> node_runtime" where
  "arm_registration_retry rt = (if rn_retry rt = None then rt\<lparr>rn_retry := Some (Fin 1)\<rparr> else rt)"

text \<open>
  One turn of the retry loop after its sleep, and the upper bound of the sleep before it. The loop ends
  when it is not needed, when it succeeded, or with an exception that is no \<^verbatim>\<open>SchedulerError\<close>.
\<close>

definition retry_delay_bound :: "node_settings \<Rightarrow> pyfloat \<Rightarrow> pyfloat" where
  "retry_delay_bound st interval = fmin interval (st_retry_max st)"

definition registration_retry_turn :: "'w send \<Rightarrow> node_settings \<Rightarrow> node_runtime \<times> 'w \<Rightarrow> node_runtime \<times> 'w" where
  "registration_retry_turn send st = (\<lambda>(rt, w).
     case rn_retry rt of
       None \<Rightarrow> (rt, w)
     | Some interval \<Rightarrow>
         (case rn_node_info rt of
            None \<Rightarrow> (rt\<lparr>rn_retry := None\<rparr>, w)
          | Some ni \<Rightarrow>
              if \<not> rn_running rt \<or> rn_status rt = Registered then (rt\<lparr>rn_retry := None\<rparr>, w)
              else (case attempt_registration send st ni (rt, w) of
                 (Inl (SchedulerError m s), rt1, w') \<Rightarrow>
                   (rt1\<lparr>rn_retry := Some (fmin (fmul interval (Fin 2)) (st_retry_max st))\<rparr>, w')
               | (Inl e, rt1, w') \<Rightarrow> (rt1\<lparr>rn_retry := None\<rparr>, w')
               | (Inr _, rt1, w') \<Rightarrow> (rt1\<lparr>rn_retry := None\<rparr>, w'))))"

text \<open>Python's ordering of strings by code points, and \<^verbatim>\<open>sorted\<close> on names.\<close>

fun name_le :: "string \<Rightarrow> string \<Rightarrow> bool" where
  "name_le [] t = True"
| "name_le (a # s) [] = False"
| "name_le (a # s) (b # t) = (code_of a < code_of b \<or> a = b \<and> name_le s t)"

fun insert_name :: "string \<Rightarrow> string list \<Rightarrow> string list" where
  "insert_name x [] = [x]"
| "insert_name x (y # ys) = (if name_le x y then x # y # ys else y # insert_name x ys)"

definition model_names :: "model_info list \<Rightarrow> string list" where
  "model_names models = foldr insert_name (map mi_name models) []"

definition refresh_model_catalogue :: "'w send \<Rightarrow> node_settings \<Rightarrow> model_info list res \<Rightarrow> node_runtime \<times> 'w \<Rightarrow> node_runtime \<times> 'w" where
  "refresh_model_catalogue send st listing = (\<lambda>(rt, w).
     case listing of
       Inl e \<Rightarrow> (rt, w)
     | Inr models \<Rightarrow>
         if rn_synced rt \<and> model_names models = model_names (rn_advertised rt) then (rt, w)
         else snd (publish_model_catalogue send st models (rt, w)))"

definition model_refresh_turn :: "'w send \<Rightarrow> node_settings \<Rightarrow> model_info list res \<Rightarrow> node_runtime \<times> 'w \<Rightarrow> node_runtime \<times> 'w" where
  "model_refresh_turn send st listing = (\<lambda>(rt, w).
     if \<not> rn_running rt \<or> rn_status rt \<noteq> Registered then (rt, w) else refresh_model_catalogue send st listing (rt, w))"

section \<open>Heartbeats\<close>

text \<open>One turn of the heartbeat loop; \<open>metrics\<close> is the \<^verbatim>\<open>Heartbeat\<close> built from what was measured, if it validates.\<close>

definition heartbeat_turn :: "'w send \<Rightarrow> node_settings \<Rightarrow> node_heartbeat res \<Rightarrow> node_runtime \<times> 'w \<Rightarrow> node_runtime \<times> 'w" where
  "heartbeat_turn send st metrics = (\<lambda>(rt, w).
     if \<not> rn_running rt \<or> rn_status rt \<noteq> Registered then (rt, w)
     else (case metrics of
        Inl e \<Rightarrow> (rt\<lparr>rn_last_heartbeat_ok := False, rn_last_heartbeat_error := Some (message_of e)\<rparr>, w)
      | Inr hb \<Rightarrow>
          (case client_heartbeat send (st_client st) hb w of
             (Inr _, w') \<Rightarrow>
               (rt\<lparr>rn_last_heartbeat_at := Some (nh_timestamp hb), rn_last_heartbeat_ok := True, rn_last_heartbeat_error := None\<rparr>, w')
           | (Inl (SchedulerError m s), w') \<Rightarrow>
               (let rt1 = rt\<lparr>rn_last_heartbeat_ok := False, rn_last_heartbeat_error := Some m\<rparr>
                in if s = Some 404 then arm_registration_retry (rt1\<lparr>rn_status := PendingRetry\<rparr>) else rt1, w')
           | (Inl e, w') \<Rightarrow> (rt\<lparr>rn_last_heartbeat_ok := False, rn_last_heartbeat_error := Some (message_of e)\<rparr>, w'))))"

section \<open>Start and stop\<close>

text \<open>
  \<^verbatim>\<open>start\<close>. \<open>info\<close> is the \<^verbatim>\<open>NodeInfo\<close> built from the probes (the models Ollama lists or none, the GPU found or
  \<^const>\<open>cpu_only_gpu\<close>), or the exception of its validators; \<open>session\<close> says whether Zenoh connected.
\<close>

definition start_runtime :: "'w send \<Rightarrow> node_settings \<Rightarrow> (model_info list \<Rightarrow> gpu_info \<Rightarrow> node_info res) \<Rightarrow> model_info list res
    \<Rightarrow> gpu_info res \<Rightarrow> bool \<Rightarrow> node_runtime \<times> 'w \<Rightarrow> unit res \<times> node_runtime \<times> 'w" where
  "start_runtime send st build listing gpu_probe session = (\<lambda>(rt, w).
     if rn_running rt then (Inr (), rt, w)
     else
       let models = (case listing of Inl _ \<Rightarrow> [] | Inr ms \<Rightarrow> ms);
           g = (case gpu_probe of Inl _ \<Rightarrow> cpu_only_gpu | Inr g \<Rightarrow> g);
           rt0 = rt\<lparr>rn_running := True, rn_status := Starting\<rparr>
       in case build models g of
            Inl e \<Rightarrow> (Inl e, rt0\<lparr>rn_running := False, rn_status := FailedStart\<rparr>, w)
          | Inr ni \<Rightarrow>
              (case attempt_registration send st ni (rt0\<lparr>rn_node_info := Some ni\<rparr>, w) of
                 (Inl (SchedulerError m s), rt1, w') \<Rightarrow>
                   (Inr (), (arm_registration_retry (rt1\<lparr>rn_status := PendingRetry\<rparr>))
                      \<lparr>rn_session := session, rn_telemetry := session, rn_mesh_server := session,
                       rn_heartbeat_task := True, rn_refresh_task := True, rn_worker_task := True\<rparr>, w')
               | (Inl e, rt1, w') \<Rightarrow> (Inl e, rt1\<lparr>rn_running := False, rn_status := FailedStart\<rparr>, w')
               | (Inr _, rt1, w') \<Rightarrow>
                   (Inr (), rt1\<lparr>rn_session := session, rn_telemetry := session, rn_mesh_server := session,
                       rn_heartbeat_task := True, rn_refresh_task := True, rn_worker_task := True\<rparr>, w')))"

definition stop_runtime :: "'w send \<Rightarrow> node_settings \<Rightarrow> node_runtime \<times> 'w \<Rightarrow> node_runtime \<times> 'w" where
  "stop_runtime send st = (\<lambda>(rt, w).
     if \<not> rn_running rt then (rt, w)
     else
       let rt1 = rt\<lparr>rn_running := False, rn_mesh_server := False, rn_heartbeat_task := False, rn_retry := None,
                    rn_refresh_task := False, rn_worker_task := False, rn_telemetry := False, rn_session := False\<rparr>
       in (rt1\<lparr>rn_status := Unregistered\<rparr>, snd (client_unregister send (st_client st) (st_node_id st) w)))"

text \<open>What a Node process can do, in any order, and what the world can do in between.\<close>

inductive node_step :: "'w send \<Rightarrow> node_settings \<Rightarrow> ('w \<Rightarrow> 'w \<Rightarrow> bool) \<Rightarrow> node_runtime \<times> 'w \<Rightarrow> node_runtime \<times> 'w \<Rightarrow> bool"
  for send :: "'w send" and st and env where
  Start: "start_runtime send st build listing g session s = (r, s') \<Longrightarrow>
     (\<And>ms gi ni. build ms gi = Inr ni \<Longrightarrow> ni_node_id ni = st_node_id st) \<Longrightarrow> node_step send st env s s'"
| Stop: "node_step send st env s (stop_runtime send st s)"
| Heartbeat: "(\<And>hb. metrics = Inr hb \<Longrightarrow> nh_node_id hb = st_node_id st) \<Longrightarrow> node_step send st env s (heartbeat_turn send st metrics s)"
| Retry: "node_step send st env s (registration_retry_turn send st s)"
| Refresh: "node_step send st env s (model_refresh_turn send st listing s)"
| World: "env w w' \<Longrightarrow> node_step send st env (rt, w) (rt, w')"

inductive_cases node_stepE: "node_step send st env s s'"

inductive node_reach :: "'w send \<Rightarrow> node_settings \<Rightarrow> ('w \<Rightarrow> 'w \<Rightarrow> bool) \<Rightarrow> node_runtime \<times> 'w \<Rightarrow> node_runtime \<times> 'w \<Rightarrow> bool"
  for send :: "'w send" and st and env and s0 where
  Refl: "node_reach send st env s0 s0"
| Step: "node_reach send st env s0 s \<Longrightarrow> node_step send st env s s' \<Longrightarrow> node_reach send st env s0 s'"

section \<open>The catalogue contract\<close>

text \<open>
  What a Node relies on: an accepted registration or update sets the Scheduler's record of this Node, a
  refused or failed request leaves it alone, and what happens in between only ever removes it. \<open>ok\<close> is an
  invariant of the world under which the service keeps these promises, \<open>record_of\<close> the names the Scheduler
  holds for the Node.
\<close>

locale catalogue_service =
  fixes send :: "'w send" and st :: node_settings and env :: "'w \<Rightarrow> 'w \<Rightarrow> bool"
    and ok :: "'w \<Rightarrow> bool" and record_of :: "'w \<Rightarrow> string list option"
  assumes register_keeps: "ok w \<Longrightarrow> ni_node_id ni = st_node_id st \<Longrightarrow> client_register send (st_client st) ni w = (r, w') \<Longrightarrow> ok w'"
    and register_created: "ok w \<Longrightarrow> ni_node_id ni = st_node_id st \<Longrightarrow> client_register send (st_client st) ni w = (Inr True, w') \<Longrightarrow>
      record_of w' = Some (map mi_name (ni_available_models ni))"
    and register_refused: "ok w \<Longrightarrow> ni_node_id ni = st_node_id st \<Longrightarrow> client_register send (st_client st) ni w = (r, w') \<Longrightarrow>
      r \<noteq> Inr True \<Longrightarrow> record_of w' = record_of w"
    and update_keeps: "ok w \<Longrightarrow> client_update_models send (st_client st) (st_node_id st) ms w = (v, w') \<Longrightarrow> ok w'"
    and update_done: "ok w \<Longrightarrow> client_update_models send (st_client st) (st_node_id st) ms w = (Inr u, w') \<Longrightarrow>
      record_of w' = Some (map mi_name ms)"
    and update_failed: "ok w \<Longrightarrow> client_update_models send (st_client st) (st_node_id st) ms w = (Inl e, w') \<Longrightarrow>
      record_of w' = record_of w"
    and heartbeat_keeps: "ok w \<Longrightarrow> nh_node_id hb = st_node_id st \<Longrightarrow> client_heartbeat send (st_client st) hb w = (v, w') \<Longrightarrow>
      ok w' \<and> record_of w' = record_of w"
    and unregister_removes: "ok w \<Longrightarrow> client_unregister send (st_client st) (st_node_id st) w = (v, w') \<Longrightarrow>
      ok w' \<and> record_of w' \<in> {record_of w, None}"
    and env_removes: "ok w \<Longrightarrow> env w w' \<Longrightarrow> ok w' \<and> record_of w' \<in> {record_of w, None}"
begin

text \<open>The invariant the source documents: \<^verbatim>\<open>catalogue_synced\<close> means the Scheduler holds nothing but what was advertised.\<close>

definition in_step :: "node_runtime \<times> 'w \<Rightarrow> bool" where
  "in_step s = (case s of (rt, w) \<Rightarrow> ok w
     \<and> (rn_synced rt \<longrightarrow> record_of w \<in> {None, Some (map mi_name (rn_advertised rt))})
     \<and> (\<forall>ni. rn_node_info rt = Some ni \<longrightarrow> ni_node_id ni = st_node_id st))"

lemma in_step_publish:
  assumes "in_step (rt, w)" "publish_model_catalogue send st ms (rt, w) = (b, s')"
  shows "in_step s'" "b \<Longrightarrow> record_of (snd s') = Some (map mi_name ms)"
  using assms update_keeps [of w ms] update_done [of w ms] update_failed [of w ms]
  by (auto simp: publish_model_catalogue_def in_step_def split: prod.splits sum.splits)

lemma in_step_attempt:
  assumes "in_step (rt, w)" "ni_node_id ni = st_node_id st" "attempt_registration send st ni (rt, w) = (r, s')"
  shows "in_step s'"
proof -
  obtain c w' where c: "client_register send (st_client st) ni w = (c, w')" by fastforce
  have ok: "ok w" and ok': "ok w'" using assms register_keeps [OF _ assms(2) c] by (auto simp: in_step_def)
  show ?thesis
  proof (cases "c = Inr True")
    case True
    then show ?thesis
      using assms c ok' register_created [OF ok assms(2), of w'] by (auto simp: attempt_registration_def in_step_def Let_def)
  next
    case False
    then have same: "record_of w' = record_of w" using register_refused [OF ok assms(2) c] by blast
    have step: "in_step (rt\<lparr>rn_status := Registered\<rparr>, w')" using assms(1) same ok' by (simp add: in_step_def)
    show ?thesis
    proof (cases c)
      case (Inl e)
      then show ?thesis using assms c same ok' by (auto simp: attempt_registration_def in_step_def)
    next
      case (Inr b)
      obtain b' s where p: "publish_model_catalogue send st (ni_available_models ni) (rt\<lparr>rn_status := Registered\<rparr>, w') = (b', s)"
        by (metis surj_pair)
      then have "s' = s" using assms(3) c Inr False by (auto simp: attempt_registration_def Let_def)
      then show ?thesis using in_step_publish(1) [OF step p] by simp
    qed
  qed
qed

lemma in_step_arm: "in_step (arm_registration_retry rt, w) \<longleftrightarrow> in_step (rt, w)"
  by (simp add: arm_registration_retry_def in_step_def)

lemma in_step_fields:
  "in_step (rt, w) \<Longrightarrow> rn_synced rt' = rn_synced rt \<Longrightarrow> rn_advertised rt' = rn_advertised rt \<Longrightarrow> rn_node_info rt' = rn_node_info rt \<Longrightarrow>
   in_step (rt', w)"
  by (simp add: in_step_def)

lemma in_step_start:
  assumes "in_step s" "start_runtime send st build listing g session s = (r, s')"
    "\<And>ms gi ni. build ms gi = Inr ni \<Longrightarrow> ni_node_id ni = st_node_id st"
  shows "in_step s'"
proof -
  obtain rt w where s: "s = (rt, w)" by fastforce
  define models gi where "models = (case listing of Inl _ \<Rightarrow> [] | Inr ms \<Rightarrow> ms)" and "gi = (case g of Inl _ \<Rightarrow> cpu_only_gpu | Inr g \<Rightarrow> g)"
  show ?thesis
  proof (cases "rn_running rt")
    case True
    then show ?thesis using assms s by (simp add: start_runtime_def)
  next
    case False
    show ?thesis
    proof (cases "build models gi")
      case (Inl e)
      then show ?thesis
        using assms(1,2) s False by (auto simp: start_runtime_def Let_def models_def gi_def intro: in_step_fields)
    next
      case (Inr ni)
      let ?rt = "rt\<lparr>rn_running := True, rn_status := Starting, rn_node_info := Some ni\<rparr>"
      have k: "ni_node_id ni = st_node_id st" using assms(3) Inr by blast
      obtain a rt1 w1 where a: "attempt_registration send st ni (?rt, w) = (a, rt1, w1)" by (metis surj_pair)
      have "in_step (?rt, w)" using assms(1) s k by (simp add: in_step_def)
      from in_step_attempt [OF this k a] have one: "in_step (rt1, w1)" .
      have "\<exists>rt2. s' = (rt2, w1) \<and> rn_synced rt2 = rn_synced rt1 \<and> rn_advertised rt2 = rn_advertised rt1 \<and> rn_node_info rt2 = rn_node_info rt1"
        using assms(2) s False Inr a
        by (cases a) (auto simp: start_runtime_def Let_def models_def gi_def arm_registration_retry_def split: exc.splits)
      then show ?thesis using one in_step_fields by blast
    qed
  qed
qed

lemma in_step_turns:
  assumes "in_step (rt, w)"
  shows "in_step (stop_runtime send st (rt, w))" "in_step (registration_retry_turn send st (rt, w))"
    "in_step (model_refresh_turn send st listing (rt, w))"
    "(\<And>hb. metrics = Inr hb \<Longrightarrow> nh_node_id hb = st_node_id st) \<Longrightarrow> in_step (heartbeat_turn send st metrics (rt, w))"
proof -
  have ok: "ok w" using assms by (simp add: in_step_def)
  show "in_step (stop_runtime send st (rt, w))"
    using assms unregister_removes [OF ok surjective_pairing] by (auto simp: stop_runtime_def in_step_def Let_def)
  show "in_step (model_refresh_turn send st listing (rt, w))"
    using assms in_step_publish(1) [OF assms surjective_pairing]
    by (auto simp: model_refresh_turn_def refresh_model_catalogue_def split: sum.splits)
  show "in_step (registration_retry_turn send st (rt, w))"
  proof (cases "rn_node_info rt")
    case None
    then show ?thesis using assms by (auto simp: registration_retry_turn_def in_step_def split: option.splits)
  next
    case (Some ni)
    have k: "ni_node_id ni = st_node_id st" using assms Some by (simp add: in_step_def)
    obtain a rt1 w1 where a: "attempt_registration send st ni (rt, w) = (a, rt1, w1)" by (metis surj_pair)
    from in_step_attempt [OF assms k this] have one: "in_step (rt1, w1)" .
    show ?thesis
      using assms one a Some
      by (cases a) (auto simp: registration_retry_turn_def intro: in_step_fields split: option.splits exc.splits)
  qed
  assume k: "\<And>hb. metrics = Inr hb \<Longrightarrow> nh_node_id hb = st_node_id st"
  show "in_step (heartbeat_turn send st metrics (rt, w))"
  proof (cases metrics)
    case (Inl e)
    then show ?thesis using assms by (auto simp: heartbeat_turn_def in_step_def)
  next
    case (Inr hb)
    obtain v w1 where h: "client_heartbeat send (st_client st) hb w = (v, w1)" by fastforce
    have "in_step (rt, w1)" using assms heartbeat_keeps [OF ok k [OF Inr] h] by (simp add: in_step_def)
    moreover have "\<exists>rt2 w2. heartbeat_turn send st metrics (rt, w) = (rt2, w2) \<and> w2 \<in> {w, w1} \<and> rn_synced rt2 = rn_synced rt
        \<and> rn_advertised rt2 = rn_advertised rt \<and> rn_node_info rt2 = rn_node_info rt"
      using h Inr by (cases v) (auto simp: heartbeat_turn_def arm_registration_retry_def Let_def split: exc.splits)
    ultimately show ?thesis using assms by (auto intro: in_step_fields)
  qed
qed

lemma in_step_step: "node_step send st env s s' \<Longrightarrow> in_step s \<Longrightarrow> in_step s'"
proof (induction rule: node_step.induct)
  case (World w w' rt)
  then show ?case using env_removes [of w w'] by (auto simp: in_step_def)
qed (metis in_step_start in_step_turns surj_pair)+

lemma in_step_reach: "node_reach send st env s0 s \<Longrightarrow> in_step s0 \<Longrightarrow> in_step s"
  by (induction rule: node_reach.induct) (auto intro: in_step_step)

end

section \<open>The contract on the model of the Scheduler\<close>

text \<open>
  The world of a Node: the Scheduler's application behind a network. In between the Scheduler may evict
  the Node, restart, or serve others, as long as the Node's own record survives unchanged or is gone.
\<close>

definition record_at :: "string \<Rightarrow> world \<Rightarrow> string list option" where
  "record_at k w = map_option available_models (node_record k (w_app w))"

definition others_act :: "string \<Rightarrow> world \<Rightarrow> world \<Rightarrow> bool" where
  "others_act k w w' \<longleftrightarrow> w_schedule w' = w_schedule w \<and> record_at k w' \<in> {record_at k w, None}"

definition honest :: "string \<Rightarrow> world \<Rightarrow> bool" where
  "honest k w \<longleftrightarrow> CHR ''/'' \<notin> set k \<and> ResponseLost \<notin> set (w_schedule w)"

lemma lossy_request:
  assumes "send_request (lossy_send dump sha) cl meth p body w = (r, w')" "ResponseLost \<notin> set (w_schedule w)"
  obtains rq out where "rq_method rq = meth" "rq_path rq = p" "rq_body rq = body"
    "scheduler_routes dump sha rq (w_app w) = (out, w_app w')" "r = Inr () \<longrightarrow> (\<exists>c m. out = Status c m \<and> 200 \<le> c \<and> c < 300)"
    "r \<noteq> Inr () \<longrightarrow> \<not> (\<exists>c m. out = Status c m \<and> 200 \<le> c \<and> c < 300)" "ResponseLost \<notin> set (w_schedule w')"
  | "w_app w' = w_app w" "r \<noteq> Inr ()" "ResponseLost \<notin> set (w_schedule w')"
proof -
  let ?rq = "\<lparr>rq_method = meth, rq_path = p, rq_body = body, rq_fleet_token = non_empty (sc_fleet_token cl),
      rq_credential = non_empty (sc_network_auth_token cl), rq_invite = non_empty (sc_invite_code cl)\<rparr>"
  obtain out w1 where o: "lossy_send dump sha ?rq w = (out, w1)" by fastforce
  have w1: "w1 = w'" using assms(1) o by (auto simp: send_request_def split: sched_outcome.splits)
  note l = lossy_cases [OF o [unfolded w1] assms(2)]
  show thesis
  proof (cases "scheduler_routes dump sha ?rq (w_app w) = (out, w_app w')")
    case True
    then show thesis
      using assms(1) o l(1) that(1) [of ?rq out] by (auto simp: send_request_def split: sched_outcome.splits if_splits)
  next
    case False
    then show thesis using assms(1) o l that(2) by (auto simp: send_request_def split: sched_outcome.splits if_splits)
  qed
qed

lemma routed_register:
  assumes "scheduler_routes dump sha rq app = (out, app')" "rq_method rq = ''POST''" "rq_path rq = ''/nodes/register''" "rq_body rq = RegisterBody n"
  shows "if \<exists>c m. out = Status c m \<and> 200 \<le> c \<and> c < 300 then node_record (node_id n) app' = Some n
    else reg_nodes (na_registry app') = reg_nodes (na_registry app)"
  using assms register_status [where dump = dump and sha = sha and header = "rq_fleet_token rq" and cred = "rq_credential rq" and code = "rq_invite rq"
    and n = n and app = app]
  by (auto simp: scheduler_routes_def route_paths not_routed_def Let_def split: if_splits prod.splits sched_outcome.splits)

lemma routed_models:
  assumes "scheduler_routes dump sha rq app = (out, app')" "rq_method rq = ''PUT''" "rq_path rq = ''/nodes/'' @ k @ ''/models''"
    "rq_body rq = ModelsBody ms" "CHR ''/'' \<notin> set k"
  shows "if \<exists>c m. out = Status c m \<and> 200 \<le> c \<and> c < 300 then map_option available_models (node_record k app') = Some ms
    else reg_nodes (na_registry app') = reg_nodes (na_registry app)"
  using assms models_status [where dump = dump and header = "rq_fleet_token rq" and k = k and ms = ms and app = app]
  by (auto simp: scheduler_routes_def route_paths(3) [OF assms(5), simplified] not_routed_def Let_def
      split: if_splits prod.splits sched_outcome.splits)

lemma routed_heartbeat:
  assumes "scheduler_routes dump sha rq app = (out, app')" "rq_body rq = HeartbeatBody h"
  shows "reg_nodes (na_registry app') = reg_nodes (na_registry app)"
  using assms heartbeat_status [where header = "rq_fleet_token rq" and h = h and app = app]
  by (auto simp: scheduler_routes_def Let_def split: if_splits prod.splits sched_outcome.splits)

lemma routed_delete:
  assumes "scheduler_routes dump sha rq app = (out, app')" "rq_method rq = ''DELETE''" "rq_path rq = ''/nodes/'' @ k" "rq_body rq = NoBody"
    "CHR ''/'' \<notin> set k"
  shows "node_record k app' \<in> {node_record k app, None}"
  using assms delete_status [where header = "rq_fleet_token rq" and k = k and app = app]
  by (auto simp: scheduler_routes_def route_paths(4) [OF assms(5), simplified] Let_def split: if_splits prod.splits sched_outcome.splits)

lemma register_client:
  assumes "client_register (lossy_send dump sha) cl ni w = (r, w')" "honest k w" "ni_node_id ni = k"
  shows "honest k w' \<and> (if r = Inr True then record_at k w' = Some (map mi_name (ni_available_models ni)) else record_at k w' = record_at k w)"
proof -
  obtain q where s: "send_request (lossy_send dump sha) cl ''POST'' ''/nodes/register'' (RegisterBody (build_registration_payload ni)) w = (q, w')"
    and q: "r = Inr True \<longleftrightarrow> q = Inr ()"
    using assms(1) by (auto simp: client_register_def split: prod.splits sum.splits exc.splits if_splits)
  have h: "ResponseLost \<notin> set (w_schedule w)" "CHR ''/'' \<notin> set k" using assms(2) by (simp_all add: honest_def)
  show ?thesis
  proof (cases rule: lossy_request [OF s h(1)])
    case (1 rq out)
    then show ?thesis
      using routed_register [OF 1(4,1,2,3)] q h assms(3)
      by (cases "q = Inr ()") (auto simp: honest_def record_at_def build_registration_payload_def)
  next
    case 2
    then show ?thesis using q h by (simp add: honest_def record_at_def)
  qed
qed

lemma update_client:
  assumes "client_update_models (lossy_send dump sha) cl k ms w = (r, w')" "honest k w"
  shows "honest k w' \<and> (if r = Inr () then record_at k w' = Some (map mi_name ms) else record_at k w' = record_at k w)"
proof -
  have h: "ResponseLost \<notin> set (w_schedule w)" "CHR ''/'' \<notin> set k" using assms(2) by (simp_all add: honest_def)
  show ?thesis
  proof (cases rule: lossy_request [OF assms(1) [unfolded client_update_models_def] h(1)])
    case (1 rq out)
    then show ?thesis
      using routed_models [OF 1(4,1,2,3) h(2)] h
      by (cases "r = Inr ()") (auto simp: honest_def record_at_def build_model_catalogue_payload_def)
  next
    case 2
    then show ?thesis using h by (simp add: honest_def record_at_def)
  qed
qed

lemma heartbeat_client:
  assumes "client_heartbeat (lossy_send dump sha) cl hb w = (r, w')" "honest k w"
  shows "honest k w' \<and> record_at k w' = record_at k w"
proof -
  have h: "ResponseLost \<notin> set (w_schedule w)" "CHR ''/'' \<notin> set k" using assms(2) by (simp_all add: honest_def)
  show ?thesis
  proof (cases rule: lossy_request [OF assms(1) [unfolded client_heartbeat_def] h(1)])
    case (1 rq out)
    then show ?thesis using routed_heartbeat [OF 1(4,3)] h by (simp add: honest_def record_at_def)
  next
    case 2
    then show ?thesis using h by (simp add: honest_def record_at_def)
  qed
qed

lemma unregister_client:
  assumes "client_unregister (lossy_send dump sha) cl k w = (r, w')" "honest k w"
  shows "honest k w' \<and> record_at k w' \<in> {record_at k w, None}"
proof -
  have h: "ResponseLost \<notin> set (w_schedule w)" "CHR ''/'' \<notin> set k" using assms(2) by (simp_all add: honest_def)
  show ?thesis
  proof (cases rule: lossy_request [OF assms(1) [unfolded client_unregister_def] h(1)])
    case (1 rq out)
    then show ?thesis using routed_delete [OF 1(4,1,2,3) h(2)] h by (auto simp: honest_def record_at_def)
  next
    case 2
    then show ?thesis using h by (simp add: honest_def record_at_def)
  qed
qed

interpretation node_catalogue: catalogue_service "lossy_send dump sha" st "others_act (st_node_id st)" "honest (st_node_id st)"
  "record_at (st_node_id st)" for dump sha st
proof unfold_locales
  fix w w' assume "honest (st_node_id st) w" "others_act (st_node_id st) w w'"
  then show "honest (st_node_id st) w' \<and> record_at (st_node_id st) w' \<in> {record_at (st_node_id st) w, None}"
    by (auto simp: honest_def others_act_def)
qed (auto dest: register_client update_client heartbeat_client unregister_client split: if_splits)

section \<open>The lifecycle\<close>

text \<open>Names that compare equal after sorting are the same names.\<close>

lemma set_insert_name: "set (insert_name x xs) = insert x (set xs)"
  by (induction xs) auto

lemma set_model_names: "set (model_names ms) = mi_name ` set ms"
proof -
  have "set (foldr insert_name xs []) = set xs" for xs
    by (induction xs) (simp_all add: set_insert_name)
  then show ?thesis by (simp add: model_names_def)
qed

text \<open>A running Node is registered or has a live retry task; a stopped one has nothing left running.\<close>

definition lifecycle_ok :: "node_runtime \<Rightarrow> bool" where
  "lifecycle_ok rt =
     (if rn_running rt
      then rn_heartbeat_task rt \<and> rn_refresh_task rt \<and> rn_worker_task rt \<and> rn_node_info rt \<noteq> None
        \<and> (rn_status rt = Registered \<or> rn_status rt = PendingRetry \<and> rn_retry rt \<noteq> None)
        \<and> rn_mesh_server rt = rn_session rt \<and> rn_telemetry rt = rn_session rt
      else \<not> rn_heartbeat_task rt \<and> \<not> rn_refresh_task rt \<and> \<not> rn_worker_task rt \<and> rn_retry rt = None
        \<and> \<not> rn_mesh_server rt \<and> \<not> rn_telemetry rt)"

definition never_raises :: "'w send \<Rightarrow> bool" where
  "never_raises send \<longleftrightarrow> (\<forall>rq w e w'. send rq w \<noteq> (Raised e, w'))"

lemma status_not_raised: "status_of x \<noteq> Raised e"
  by (cases x) auto

lemma respond_not_raised: "respond ok r \<noteq> (Raised e, w')"
  by (cases r) (auto simp: respond_def status_not_raised split: sum.splits)

lemma lossy_never_raises: "never_raises (lossy_send dump sha)"
  by (auto simp: never_raises_def lossy_send_def scheduler_routes_def not_routed_def respond_not_raised Let_def
      split: delivery.splits prod.splits if_splits sched_body.splits list.splits)

lemma request_errors:
  "never_raises send \<Longrightarrow> send_request send cl meth p body w = (Inl e, w') \<Longrightarrow> \<exists>m s. e = SchedulerError m s"
  by (auto simp: send_request_def never_raises_def split: prod.splits sched_outcome.splits if_splits)

lemma register_errors: "never_raises send \<Longrightarrow> client_register send cl ni w = (Inl e, w') \<Longrightarrow> \<exists>m s. e = SchedulerError m s"
  by (auto simp: client_register_def dest: request_errors split: prod.splits sum.splits exc.splits if_splits)

text \<open>What an attempt does to the state: on success the status, the catalogue fields at most, on failure nothing.\<close>

lemma attempt_fields:
  assumes "attempt_registration send st ni (rt, w) = (r, rt', w')" "never_raises send"
  shows "(case r of Inl e \<Rightarrow> rt' = rt \<and> (\<exists>m s. e = SchedulerError m s)
     | Inr _ \<Rightarrow> \<exists>adv sy. rt' = rt\<lparr>rn_status := Registered, rn_advertised := adv, rn_synced := sy\<rparr>)"
proof -
  have "(case r of Inl e \<Rightarrow> rt' = rt \<and> (\<exists>m s. e = SchedulerError m s)
     | Inr _ \<Rightarrow> rt' = rt\<lparr>rn_status := Registered, rn_advertised := rn_advertised rt', rn_synced := rn_synced rt'\<rparr>)"
    using assms
    by (auto simp: attempt_registration_def publish_model_catalogue_def Let_def dest: register_errors
        split: prod.splits sum.splits if_splits)
  then show ?thesis by (cases r) (simp, simp only: sum.case, blast)
qed

lemma lifecycle_start:
  assumes "lifecycle_ok (fst s)" "never_raises send" "start_runtime send st build listing g session s = (r, s')"
  shows "lifecycle_ok (fst s')"
proof -
  obtain rt w where s: "s = (rt, w)" by fastforce
  define models gi where "models = (case listing of Inl _ \<Rightarrow> [] | Inr ms \<Rightarrow> ms)" and "gi = (case g of Inl _ \<Rightarrow> cpu_only_gpu | Inr g \<Rightarrow> g)"
  show ?thesis
  proof (cases "rn_running rt")
    case True
    then show ?thesis using assms s by (auto simp: start_runtime_def)
  next
    case False
    show ?thesis
    proof (cases "build models gi")
      case (Inl e)
      then show ?thesis using assms s False by (auto simp: start_runtime_def Let_def models_def gi_def lifecycle_ok_def)
    next
      case (Inr ni)
      let ?rt = "rt\<lparr>rn_running := True, rn_status := Starting, rn_node_info := Some ni\<rparr>"
      obtain a rt1 w1 where a: "attempt_registration send st ni (?rt, w) = (a, rt1, w1)" by (metis surj_pair)
      show ?thesis
        using attempt_fields [OF a assms(2)] assms(1,3) s False Inr a
        by (cases a) (auto simp: start_runtime_def Let_def models_def gi_def lifecycle_ok_def arm_registration_retry_def)
    qed
  qed
qed

lemma lifecycle_turns:
  assumes "lifecycle_ok rt" "never_raises send"
  shows "lifecycle_ok (fst (stop_runtime send st (rt, w)))" "lifecycle_ok (fst (registration_retry_turn send st (rt, w)))"
    "lifecycle_ok (fst (model_refresh_turn send st listing (rt, w)))" "lifecycle_ok (fst (heartbeat_turn send st metrics (rt, w)))"
proof -
  show "lifecycle_ok (fst (stop_runtime send st (rt, w)))"
    using assms(1) by (auto simp: stop_runtime_def Let_def lifecycle_ok_def)
  show "lifecycle_ok (fst (model_refresh_turn send st listing (rt, w)))"
    using assms(1)
    by (auto simp: model_refresh_turn_def refresh_model_catalogue_def publish_model_catalogue_def lifecycle_ok_def split: sum.splits prod.splits)
  show "lifecycle_ok (fst (heartbeat_turn send st metrics (rt, w)))"
    using assms request_errors [OF assms(2)]
    by (cases metrics) (auto simp: heartbeat_turn_def client_heartbeat_def lifecycle_ok_def arm_registration_retry_def Let_def
        split: prod.splits sum.splits exc.splits)
  show "lifecycle_ok (fst (registration_retry_turn send st (rt, w)))"
  proof (cases "rn_node_info rt")
    case None
    then show ?thesis using assms(1) by (auto simp: registration_retry_turn_def lifecycle_ok_def split: option.splits)
  next
    case (Some ni)
    obtain a rt1 w1 where a: "attempt_registration send st ni (rt, w) = (a, rt1, w1)" by (metis surj_pair)
    show ?thesis
    proof (cases a)
      case (Inl e)
      then show ?thesis
        using attempt_fields [OF a assms(2)] assms(1) a Some
        by (auto simp: registration_retry_turn_def lifecycle_ok_def split: option.splits)
    next
      case (Inr u)
      then show ?thesis
        using attempt_fields [OF a assms(2)] assms(1) a Some
        by (auto simp: registration_retry_turn_def lifecycle_ok_def split: option.splits)
    qed
  qed
qed

lemma lifecycle_step: "node_step send st env s s' \<Longrightarrow> never_raises send \<Longrightarrow> lifecycle_ok (fst s) \<Longrightarrow> lifecycle_ok (fst s')"
proof (induction rule: node_step.induct)
  case (World w w' rt)
  then show ?case by simp
qed (metis lifecycle_start lifecycle_turns fst_conv surj_pair)+

lemma lifecycle_reach: "node_reach send st env s0 s \<Longrightarrow> never_raises send \<Longrightarrow> lifecycle_ok (fst s0) \<Longrightarrow> lifecycle_ok (fst s)"
  by (induction rule: node_reach.induct) (auto intro: lifecycle_step)

section \<open>Properties\<close>



section \<open>A response that is lost\<close>

definition sample_model :: "string \<Rightarrow> model_info" where
  "sample_model m = \<lparr>mi_name = m, mi_size_gb = Fin 1, mi_family = ''f'', mi_context_length = 2048\<rparr>"

definition sample_info :: "model_info list \<Rightarrow> node_info" where
  "sample_info ms = \<lparr>ni_node_id = ''n'', ni_hostname = ''h'', ni_region = ''eu'', ni_ip_address = ''127.0.0.1'', ni_cpu_cores = 4,
     ni_ram_total_gb = Fin 16, ni_gpu = cpu_only_gpu, ni_available_models = ms\<rparr>"

definition sample_beat :: node_heartbeat where
  "sample_beat = \<lparr>nh_node_id = ''n'', nh_timestamp = 0, nh_queue_length = 0, nh_cpu_utilization = Fin 0,
     nh_ram_available_gb = Fin 8, nh_gpu_utilization = Fin 0, nh_vram_available_gb = Fin 0\<rparr>"

definition sample_settings :: node_settings where
  "sample_settings = \<lparr>st_node_id = ''n'', st_retry_max = Fin 60, st_client = init_scheduler_client (Some ''tok'') None None\<rparr>"

definition sample_world :: "delivery list \<Rightarrow> world" where
  "sample_world ds = \<lparr>w_app = \<lparr>na_registry = init_registry None, na_invites = None, na_auth_token = None\<rparr>, w_schedule = ds\<rparr>"

definition evicted :: "world \<Rightarrow> world" where
  "evicted w = w\<lparr>w_app := (w_app w)\<lparr>na_registry := snd (unregister_node ''n'' (na_registry (w_app w)))\<rparr>\<rparr>"

definition sample_send :: "world send" where
  "sample_send = lossy_send (\<lambda>_. []) id"

definition losses :: "delivery list" where
  "losses = [Delivered, Delivered, Delivered, ResponseLost, Delivered, RequestLost]"

definition sample_started :: "delivery list \<Rightarrow> node_runtime \<times> world" where
  "sample_started ds = snd (start_runtime sample_send sample_settings (\<lambda>ms g. Inr (sample_info ms)) (Inr [sample_model ''x'']) (Inr cpu_only_gpu)
     True (init_runtime, sample_world ds))"

definition sample_refreshed :: "node_runtime \<times> world" where
  "sample_refreshed = model_refresh_turn sample_send sample_settings (Inr [sample_model ''x'', sample_model ''y'']) (sample_started losses)"

definition sample_forgotten :: "node_runtime \<times> world" where
  "sample_forgotten = heartbeat_turn sample_send sample_settings (Inr sample_beat) (fst sample_refreshed, evicted (snd sample_refreshed))"

definition sample_stale :: "node_runtime \<times> world" where
  "sample_stale = registration_retry_turn sample_send sample_settings (registration_retry_turn sample_send sample_settings sample_forgotten)"

lemmas sample_defs = losses_def sample_send_def sample_settings_def sample_world_def sample_info_def sample_beat_def sample_model_def
  init_scheduler_client_def non_empty_def init_runtime_def cpu_only_gpu_def init_registry_def evicted_def
  start_runtime_def attempt_registration_def publish_model_catalogue_def client_register_def client_update_models_def client_heartbeat_def
  send_request_def lossy_send_def scheduler_routes_def respond_def not_routed_def build_registration_payload_def
  build_model_catalogue_payload_def build_heartbeat_payload_def node_valid_def heartbeat_valid_def gpu_valid_def
  register_node_def guarded_def verify_auth_token_def register_handler_def invite_refuses_def redeem_invite_def credential_of_def
  set_node_token_def register_def local_register_def update_node_models_def set_available_models_def registry_get_def
  receive_heartbeat_def update_heartbeat_def http_not_found_def not_found_def write_store_def unregister_node_def
  local_unregister_node_def drop_node_def is_mesh_reachable_def from_node_def model_refresh_turn_def refresh_model_catalogue_def
  heartbeat_turn_def registration_retry_turn_def arm_registration_retry_def model_names_def dmem_def Let_def

lemma sample_stale_eval:
  "rn_status (fst sample_stale) = Registered" "rn_synced (fst sample_stale)" "rn_running (fst sample_stale)"
  "rn_advertised (fst sample_stale) = [sample_model ''x'', sample_model ''y'']" "record_at ''n'' (snd sample_stale) = Some [''x'']"
  by (simp_all add: sample_stale_def sample_forgotten_def sample_refreshed_def sample_started_def record_at_def sample_defs)

lemma sample_started_reached: "node_reach sample_send sample_settings env (init_runtime, sample_world ds) (sample_started ds)"
  unfolding sample_started_def
  by (rule node_reach.Step [OF node_reach.Refl], rule node_step.Start [OF prod.collapse [symmetric]])
    (auto simp: sample_info_def sample_settings_def)

lemma sample_stale_reached:
  "node_reach sample_send sample_settings (others_act ''n'')
     (init_runtime, sample_world losses) sample_stale"
proof -
  let ?reach = "node_reach sample_send sample_settings (others_act ''n'')
     (init_runtime, sample_world losses)"
  have "?reach (sample_started losses)" by (rule sample_started_reached)
  then have "?reach sample_refreshed" unfolding sample_refreshed_def by (rule node_reach.Step) (rule node_step.Refresh)
  then have "?reach (fst sample_refreshed, snd sample_refreshed)" by simp
  moreover have "others_act ''n'' (snd sample_refreshed) (evicted (snd sample_refreshed))"
    by (simp add: others_act_def record_at_def evicted_def unregister_node_def local_unregister_node_def drop_node_def dict_simps reg_simps)
  ultimately have "?reach (fst sample_refreshed, evicted (snd sample_refreshed))" by (metis node_reach.Step node_step.World)
  then have "?reach sample_forgotten"
    unfolding sample_forgotten_def
    by (rule node_reach.Step) (rule node_step.Heartbeat, simp add: sample_beat_def sample_settings_def)
  then show ?thesis unfolding sample_stale_def by (intro node_reach.Step [OF _ node_step.Retry])
qed

text \<open>
  One lost response defeats the reconciliation. After an eviction, let the answer to the new
  registration be lost and the catalogue push after the 409 fail: the Node is then registered and believes
  the catalogue synchronised, the Scheduler holds the catalogue of the start, and every further refresh
  that finds the models the Node has advertised changes nothing, so the Scheduler stays wrong.
\<close>

theorem stale_catalogue_persists:
  "\<exists>rt w ms. node_reach sample_send sample_settings (others_act ''n'')
       (init_runtime, sample_world losses) (rt, w)
     \<and> rn_running rt \<and> rn_status rt = Registered \<and> rn_synced rt
     \<and> record_at ''n'' w = Some [''x''] \<and> map mi_name ms = [''x'', ''y'']
     \<and> model_refresh_turn sample_send sample_settings (Inr ms) (rt, w) = (rt, w)"
proof -
  obtain rt w where s: "sample_stale = (rt, w)" by fastforce
  let ?ms = "[sample_model ''x'', sample_model ''y'']"
  have "model_refresh_turn sample_send sample_settings (Inr ?ms) (rt, w) = (rt, w)"
    using sample_stale_eval [unfolded s fst_conv snd_conv] by (simp add: model_refresh_turn_def refresh_model_catalogue_def)
  moreover have "map mi_name ?ms = [''x'', ''y'']" by (simp add: sample_model_def)
  ultimately show ?thesis
    using sample_stale_reached [unfolded s] sample_stale_eval [unfolded s fst_conv snd_conv]
    by (intro exI [of _ rt] exI [of _ w] exI [of _ ?ms]) simp
qed



end
