(* ===== verification/Host_Probes.thy ===== *)
theory Host_Probes
  imports Scheduler_Client Configuration
begin

text \<open>
  What a Node measures of its host: the collector of \<^verbatim>\<open>node/telemetry/collector.py\<close>, hardware discovery
  (\<^verbatim>\<open>node/core/hardware.py\<close>, \<^verbatim>\<open>apple_silicon.py\<close>) and the readings of \<^verbatim>\<open>node/core/telemetry.py\<close>. What
  \<^verbatim>\<open>psutil\<close>, the subprocesses and \<^verbatim>\<open>/proc\<close> return is the record \<open>host\<close>, with \<open>None\<close> for a call that raises;
  the parsing of their output is the code's.
\<close>

section \<open>Text\<close>

text \<open>\<^verbatim>\<open>s.split()\<close>: the maximal runs without white space.\<close>

fun words_acc :: "string \<Rightarrow> string \<Rightarrow> string list" where
  "words_acc cur [] = (if cur = [] then [] else [rev cur])"
| "words_acc cur (c # cs) =
     (if is_space c then (if cur = [] then words_acc [] cs else rev cur # words_acc [] cs) else words_acc (c # cur) cs)"

definition py_words :: "string \<Rightarrow> string list" where
  "py_words s = words_acc [] s"

text \<open>
  Lines ended by the characters \<open>p\<close>, with a carriage return and a line feed as one end: those of
  \<^verbatim>\<open>str.splitlines\<close>, and those of a file in text mode (without their ends, which the readers here strip).
\<close>

fun lines_acc :: "(char \<Rightarrow> bool) \<Rightarrow> bool \<Rightarrow> string \<Rightarrow> string \<Rightarrow> string list" where
  "lines_acc p cr cur [] = (if cur = [] then [] else [rev cur])"
| "lines_acc p cr cur (c # cs) =
     (if cr \<and> c = CHR 0x0A then lines_acc p False cur cs
      else if p c then rev cur # lines_acc p (c = CHR 0x0D) [] cs
      else lines_acc p False (c # cur) cs)"

definition py_splitlines :: "string \<Rightarrow> string list" where
  "py_splitlines s = lines_acc (\<lambda>c. (10 \<le> code_of c \<and> code_of c \<le> 13) \<or> (28 \<le> code_of c \<and> code_of c \<le> 30) \<or> code_of c = 133) False [] s"

definition read_lines :: "string \<Rightarrow> string list" where
  "read_lines s = lines_acc (\<lambda>c. c = CHR 0x0A \<or> c = CHR 0x0D) False [] s"

text \<open>\<^verbatim>\<open>s.rstrip(c)\<close>.\<close>

definition rstrip_char :: "char \<Rightarrow> string \<Rightarrow> string" where
  "rstrip_char c s = rev (dropWhile (\<lambda>d. d = c) (rev s))"

text \<open>\<^verbatim>\<open>c.isalnum()\<close> for ASCII characters.\<close>

definition is_alnum :: "char \<Rightarrow> bool" where
  "is_alnum c = (is_digit c \<or> (65 \<le> code_of c \<and> code_of c \<le> 90) \<or> (97 \<le> code_of c \<and> code_of c \<le> 122))"

section \<open>The host\<close>

record virtual_memory =
  vm_total :: int
  vm_available :: int
  vm_used :: int
  vm_percent :: pyfloat

text \<open>A run of \<^verbatim>\<open>nvidia-smi\<close>: its exit status and its output, \<open>None\<close> if that is not UTF-8.\<close>

datatype smi = SmiMissing | SmiRaises | SmiExit int "string option"

record host =
  ho_platform :: string
  ho_machine :: string
  ho_cpu_percent :: "pyfloat option"
  ho_cpu_count :: "int option"
  ho_memory :: "virtual_memory option"
  ho_nvidia :: smi
  ho_brand :: "string option"
  ho_memsize :: "string option"
  ho_ioreg_path :: bool
  ho_ioreg :: "string option"
  ho_vm_stat :: "string option"
  ho_meminfo :: "string option"

definition BYTES_PER_GB :: int where
  "BYTES_PER_GB = 1024 ^ 3"

section \<open>Collector\<close>

record gpu_metrics =
  gm_name :: string
  gm_utilization :: pyfloat
  gm_vram_total_bytes :: int
  gm_vram_available_bytes :: int
  gm_vram_used_bytes :: int

definition default_gpu :: gpu_metrics where
  "default_gpu = \<lparr>gm_name = ''N/A'', gm_utilization = Fin 0, gm_vram_total_bytes = 0, gm_vram_available_bytes = 0,
     gm_vram_used_bytes = 0\<rparr>"

definition parse_gpu_line :: "string \<Rightarrow> gpu_metrics" where
  "parse_gpu_line out =
     (let line = hd (py_split (CHR 0x0A) (py_strip out)); parts = map py_strip (py_split (CHR '','') line)
      in if length parts < 5 then default_gpu
         else (case (parse_float (parts ! 1), parse_int (parts ! 2), parse_int (parts ! 3), parse_int (parts ! 4)) of
            (Some gpu_util, Some vram_total, Some vram_free, Some vram_used) \<Rightarrow>
              \<lparr>gm_name = parts ! 0, gm_utilization = gpu_util, gm_vram_total_bytes = vram_total * 1024 * 1024,
               gm_vram_available_bytes = vram_free * 1024 * 1024, gm_vram_used_bytes = vram_used * 1024 * 1024\<rparr>
          | _ \<Rightarrow> default_gpu))"

definition collect_gpu_metrics :: "host \<Rightarrow> gpu_metrics" where
  "collect_gpu_metrics ho =
     (case ho_nvidia ho of
        SmiExit status (Some out) \<Rightarrow> if status \<noteq> 0 \<or> out = [] then default_gpu else parse_gpu_line out
      | _ \<Rightarrow> default_gpu)"

text \<open>\<^verbatim>\<open>collect\<close>: only \<^verbatim>\<open>psutil\<close> can raise.\<close>

definition probe_error :: exc where
  "probe_error = OtherError ''psutil''"

definition collect :: "host \<Rightarrow> jobj res" where
  "collect ho =
     (case (ho_cpu_percent ho, ho_memory ho) of
        (Some cpu, Some mem) \<Rightarrow>
          (let g = collect_gpu_metrics ho;
               cores = (case ho_cpu_count ho of None \<Rightarrow> 1 | Some n \<Rightarrow> if n = 0 then 1 else n)
           in Inr [(''cpu_utilization'', JFloat cpu), (''cpu_cores'', JInt cores), (''ram_total_bytes'', JInt (vm_total mem)),
                   (''ram_available_bytes'', JInt (vm_available mem)), (''ram_used_bytes'', JInt (vm_used mem)),
                   (''ram_utilization_pct'', JFloat (vm_percent mem)), (''gpu_name'', JStr (gm_name g)),
                   (''gpu_utilization'', JFloat (gm_utilization g)), (''vram_total_bytes'', JInt (gm_vram_total_bytes g)),
                   (''vram_available_bytes'', JInt (gm_vram_available_bytes g)), (''vram_used_bytes'', JInt (gm_vram_used_bytes g))])
      | _ \<Rightarrow> Inl probe_error)"

section \<open>Apple Silicon\<close>

record apple_profile =
  ap_is_apple_silicon :: bool
  ap_chip_family :: string
  ap_unified_memory_gb :: pyfloat
  ap_metal_supported :: bool

definition no_apple :: apple_profile where
  "no_apple = \<lparr>ap_is_apple_silicon = False, ap_chip_family = ''Unknown'', ap_unified_memory_gb = Fin 0, ap_metal_supported = False\<rparr>"

text \<open>\<^verbatim>\<open>n / 1024**3\<close> on integers: correctly rounded, or \<^verbatim>\<open>OverflowError\<close>.\<close>

definition gb_of_int :: "int \<Rightarrow> pyfloat res" where
  "gb_of_int n = (case rnd (of_int n / of_int BYTES_PER_GB) of Fin r \<Rightarrow> Inr (Fin r)
     | _ \<Rightarrow> Inl (OverflowError ''integer division result too large for a float''))"

definition detect_apple_silicon_hardware :: "host \<Rightarrow> apple_profile" where
  "detect_apple_silicon_hardware ho =
     (if ho_platform ho \<noteq> ''darwin'' then no_apple
      else case ho_brand ho of
        None \<Rightarrow> no_apple
      | Some out \<Rightarrow>
          (let brand = py_strip out
           in if \<not> (py_in ''Apple'' brand \<or> ho_machine ho = ''arm64'') then no_apple
              else (let p = no_apple\<lparr>ap_is_apple_silicon := True,
                            ap_chip_family := (if brand = [] then ''Apple Silicon ARM64'' else brand), ap_metal_supported := True\<rparr>
                    in case ho_memsize ho of
                         None \<Rightarrow> p
                       | Some memsize \<Rightarrow>
                           if py_strip memsize = [] \<or> \<not> list_all is_digit (py_strip memsize) then p
                           else (case parse_int (py_strip memsize) of
                                None \<Rightarrow> p
                              | Some n \<Rightarrow> (case gb_of_int n of Inl e \<Rightarrow> p | Inr x \<Rightarrow> p\<lparr>ap_unified_memory_gb := fround2 x\<rparr>)))))"

section \<open>Hardware discovery\<close>

record gpu_probe =
  gp_info :: gpu_info
  gp_utilization :: pyfloat

text \<open>The constructor of \<^verbatim>\<open>GPUInfo\<close>, with its field constraints.\<close>

definition mk_gpu_info :: "string \<Rightarrow> pyfloat \<Rightarrow> pyfloat \<Rightarrow> gpu_info res" where
  "mk_gpu_info name capacity available =
     (let g = \<lparr>gpu_name = name, vram_total_gb = capacity, vram_available_gb = available\<rparr>
      in if gpu_valid g then Inr g else Inl (ValueError ''Input should be greater than or equal to 0''))"

definition to_gb :: "int \<Rightarrow> pyfloat res" where
  "to_gb n = rbind (float_of_int n) (\<lambda>x. rbind (fdiv x (Fin (of_int BYTES_PER_GB))) (\<lambda>y. Inr (fround2 y)))"

definition available_ram_gb :: "host \<Rightarrow> pyfloat res" where
  "available_ram_gb ho =
     (case ho_memory ho of None \<Rightarrow> Inl probe_error | Some m \<Rightarrow> rbind (gb_of_int (vm_available m)) (\<lambda>x. Inr (fround2 x)))"

text \<open>
  The first match of \<^verbatim>\<open>"Device Utilization %"\s*=\s*(\d+)\<close>: no part of the pattern can match what the next
  begins with, so the match at a position does not backtrack.
\<close>

definition IOREG_KEY :: string where
  "IOREG_KEY = CHR 0x22 # ''Device Utilization %'' @ [CHR 0x22]"

definition match_utilization :: "string \<Rightarrow> string option" where
  "match_utilization s =
     (if \<not> startswith s IOREG_KEY then None
      else case dropWhile is_space (drop (length IOREG_KEY) s) of
        [] \<Rightarrow> None
      | c # r \<Rightarrow>
          if c \<noteq> CHR ''='' then None
          else (let digits = takeWhile is_digit (dropWhile is_space r) in if digits = [] then None else Some digits))"

fun search_utilization :: "string \<Rightarrow> string option" where
  "search_utilization [] = None"
| "search_utilization (c # cs) =
     (case match_utilization (c # cs) of Some digits \<Rightarrow> Some digits | None \<Rightarrow> search_utilization cs)"

definition clamp_pct :: "pyfloat \<Rightarrow> pyfloat" where
  "clamp_pct v = fmin (fmax v (Fin 0)) (Fin 100)"

definition parse_ioreg_utilization :: "string \<Rightarrow> pyfloat" where
  "parse_ioreg_utilization out =
     (case search_utilization out of
        None \<Rightarrow> Fin 0
      | Some digits \<Rightarrow> (case parse_float digits of None \<Rightarrow> Fin 0 | Some v \<Rightarrow> clamp_pct v))"

definition apple_gpu_utilization :: "host \<Rightarrow> pyfloat res" where
  "apple_gpu_utilization ho =
     (if \<not> ho_ioreg_path ho then Inr (Fin 0)
      else case ho_ioreg ho of None \<Rightarrow> Inl probe_error | Some out \<Rightarrow> Inr (parse_ioreg_utilization out))"

definition detect_nvidia :: "gpu_metrics \<Rightarrow> gpu_probe option res" where
  "detect_nvidia g =
     (let name = py_strip (gm_name g)
      in rbind (to_gb (gm_vram_total_bytes g)) (\<lambda>capacity.
         if name = [] \<or> name = ''N/A'' \<or> fle capacity (Fin 0) then Inr None
         else rbind (to_gb (gm_vram_available_bytes g)) (\<lambda>available.
              rbind (mk_gpu_info name capacity (fmin (fmax available (Fin 0)) capacity)) (\<lambda>info.
              Inr (Some \<lparr>gp_info = info, gp_utilization = clamp_pct (gm_utilization g)\<rparr>)))))"

definition detect_apple_silicon :: "host \<Rightarrow> gpu_probe option res" where
  "detect_apple_silicon ho =
     (let profile = detect_apple_silicon_hardware ho; unified = ap_unified_memory_gb profile
      in if \<not> ap_is_apple_silicon profile \<or> fle unified (Fin 0) then Inr None
         else rbind (available_ram_gb ho) (\<lambda>ram.
           let available = fmin ram unified; name = py_strip (ap_chip_family profile)
           in rbind (mk_gpu_info (if name = [] then ''Apple Silicon'' else name) unified (fmax available (Fin 0))) (\<lambda>info.
              Inr (Some \<lparr>gp_info = info,
                 gp_utilization = (case apple_gpu_utilization ho of Inl e \<Rightarrow> Fin 0 | Inr v \<Rightarrow> v)\<rparr>))))"

definition probe_gpu :: "gpu_metrics \<Rightarrow> host \<Rightarrow> gpu_probe" where
  "probe_gpu g ho =
     (case detect_nvidia g of
        Inr (Some p) \<Rightarrow> p
      | _ \<Rightarrow> (case detect_apple_silicon ho of
                Inr (Some p) \<Rightarrow> p
              | _ \<Rightarrow> \<lparr>gp_info = cpu_only_gpu, gp_utilization = Fin 0\<rparr>))"

definition detect_gpu :: "host \<Rightarrow> gpu_info" where
  "detect_gpu ho = gp_info (probe_gpu (collect_gpu_metrics ho) ho)"

record host_metrics =
  hm_cpu_utilization :: pyfloat
  hm_ram_available_gb :: pyfloat
  hm_gpu_utilization :: pyfloat
  hm_vram_available_gb :: pyfloat

definition detect_host_metrics :: "host \<Rightarrow> host_metrics" where
  "detect_host_metrics ho =
     (let probe = probe_gpu (collect_gpu_metrics ho) ho;
          cpu = (case ho_cpu_percent ho of None \<Rightarrow> Fin 0 | Some v \<Rightarrow> v);
          ram = (case available_ram_gb ho of Inl e \<Rightarrow> Fin 0 | Inr v \<Rightarrow> v)
      in \<lparr>hm_cpu_utilization = clamp_pct cpu, hm_ram_available_gb = fmax ram (Fin 0),
          hm_gpu_utilization = gp_utilization probe, hm_vram_available_gb = vram_available_gb (gp_info probe)\<rparr>)"

definition detect_ram_total_gb :: "host \<Rightarrow> pyfloat" where
  "detect_ram_total_gb ho =
     (case ho_memory ho of
        None \<Rightarrow> Fin 1
      | Some m \<Rightarrow> (case gb_of_int (vm_total m) of Inl e \<Rightarrow> Fin 1 | Inr x \<Rightarrow> fround2 x))"

section \<open>Readings of the telemetry emitter\<close>

definition get_cpu_utilization :: "host \<Rightarrow> pyfloat" where
  "get_cpu_utilization ho = (case ho_cpu_percent ho of None \<Rightarrow> Fin 0 | Some v \<Rightarrow> fround2 v)"

definition FALLBACK_BYTES :: int where
  "FALLBACK_BYTES = 8 * 1024 * 1024 * 1024"

record meminfo =
  mf_total :: int
  mf_free :: int
  mf_cached :: int
  mf_buffers :: int

definition meminfo_line :: "string \<Rightarrow> meminfo \<Rightarrow> meminfo res" where
  "meminfo_line line m =
     (let parts = py_words line
      in if length parts < 2 then Inr m
         else let key = rstrip_char (CHR '':'') (parts ! 0)
              in case parse_int (parts ! 1) of
                   None \<Rightarrow> Inl (ValueError ''invalid literal for int() with base 10'')
                 | Some n \<Rightarrow>
                     let val = n * 1024
                     in Inr (if key = ''MemTotal'' then m\<lparr>mf_total := val\<rparr>
                             else if key = ''MemFree'' then m\<lparr>mf_free := val\<rparr>
                             else if key = ''Cached'' then m\<lparr>mf_cached := val\<rparr>
                             else if key = ''Buffers'' then m\<lparr>mf_buffers := val\<rparr>
                             else m))"

fun meminfo_lines :: "string list \<Rightarrow> meminfo \<Rightarrow> meminfo res" where
  "meminfo_lines [] m = Inr m"
| "meminfo_lines (l # ls) m = rbind (meminfo_line l m) (meminfo_lines ls)"

definition linux_ram_usage :: "host \<Rightarrow> int" where
  "linux_ram_usage ho =
     (case ho_meminfo ho of
        None \<Rightarrow> FALLBACK_BYTES
      | Some txt \<Rightarrow>
          (case meminfo_lines (read_lines txt) \<lparr>mf_total = 0, mf_free = 0, mf_cached = 0, mf_buffers = 0\<rparr> of
             Inl e \<Rightarrow> FALLBACK_BYTES
           | Inr m \<Rightarrow> max 0 (mf_total m - mf_free m - mf_buffers m - mf_cached m)))"

text \<open>One line of \<^verbatim>\<open>vm_stat\<close>; the state is the pages free, the speculative ones and the page size.\<close>

definition word_int :: "nat \<Rightarrow> (string \<Rightarrow> string) \<Rightarrow> string \<Rightarrow> int res" where
  "word_int i f line =
     (if length (py_words line) \<le> i then Inl (OtherError ''list index out of range'')
      else case parse_int (f (py_words line ! i)) of
        None \<Rightarrow> Inl (ValueError ''invalid literal for int() with base 10'') | Some n \<Rightarrow> Inr n)"

definition vm_stat_line :: "string \<Rightarrow> int \<times> int \<times> int \<Rightarrow> (int \<times> int \<times> int) res" where
  "vm_stat_line line = (\<lambda>(free, speculative, page).
     if py_in ''page size of'' line then rbind (word_int 4 (\<lambda>w. w) line) (\<lambda>n. Inr (free, speculative, n))
     else if py_in ''Pages free:'' line then rbind (word_int 2 (rstrip_char (CHR ''.'')) line) (\<lambda>n. Inr (n, speculative, page))
     else if py_in ''Pages speculative:'' line then rbind (word_int 2 (rstrip_char (CHR ''.'')) line) (\<lambda>n. Inr (free, n, page))
     else Inr (free, speculative, page))"

fun vm_stat_lines :: "string list \<Rightarrow> int \<times> int \<times> int \<Rightarrow> (int \<times> int \<times> int) res" where
  "vm_stat_lines [] s = Inr s"
| "vm_stat_lines (l # ls) s = rbind (vm_stat_line l s) (vm_stat_lines ls)"

definition darwin_ram_usage :: "host \<Rightarrow> int" where
  "darwin_ram_usage ho =
     (case (ho_memsize ho, ho_vm_stat ho) of
        (Some memsize, Some out) \<Rightarrow>
          (case (parse_int (py_strip memsize), vm_stat_lines (py_splitlines out) (0, 0, 4096)) of
             (Some mem, Inr (free, speculative, page)) \<Rightarrow> max 0 (mem - (free + speculative) * page)
           | _ \<Rightarrow> FALLBACK_BYTES)
      | _ \<Rightarrow> FALLBACK_BYTES)"

definition get_ram_usage_bytes :: "host \<Rightarrow> int" where
  "get_ram_usage_bytes ho =
     (if ho_platform ho = ''darwin'' then darwin_ram_usage ho
      else if ho_platform ho = ''linux'' then linux_ram_usage ho
      else FALLBACK_BYTES)"

section \<open>Bounds of what is measured\<close>

lemma clamp_pct_ok: "utilization_ok (clamp_pct v) \<longleftrightarrow> v \<noteq> NaN"
  by (cases v) (auto simp: clamp_pct_def utilization_ok_def fmin_def fmax_def)

lemma clamp_pct_NaN [simp]: "clamp_pct v = NaN \<longleftrightarrow> v = NaN"
  by (cases v) (auto simp: clamp_pct_def fmin_def fmax_def)

lemma fround2_NaN [simp]: "fround2 v = NaN \<longleftrightarrow> v = NaN"
  by (cases v) auto

lemma gb_of_int_NaN: "gb_of_int n = Inr x \<Longrightarrow> x \<noteq> NaN"
  by (auto simp: gb_of_int_def split: pyfloat.splits)

lemma to_gb_NaN: "to_gb n = Inr x \<Longrightarrow> x \<noteq> NaN"
  by (auto simp: to_gb_def float_of_int_def BYTES_PER_GB_def res_simps split: pyfloat.splits)

definition probe_ok :: "gpu_probe \<Rightarrow> bool" where
  "probe_ok p \<longleftrightarrow> gpu_valid (gp_info p) \<and> fle (vram_available_gb (gp_info p)) (vram_total_gb (gp_info p))"

lemma mk_gpu_info_ok:
  "mk_gpu_info name c a = Inr g \<Longrightarrow> fle a c \<Longrightarrow> gpu_valid g \<and> fle (vram_available_gb g) (vram_total_gb g)"
  by (auto simp: mk_gpu_info_def Let_def split: if_splits)

lemma detect_nvidia_ok: "detect_nvidia g = Inr (Some p) \<Longrightarrow> probe_ok p"
  by (auto simp: detect_nvidia_def Let_def res_simps probe_ok_def split: if_splits dest!: to_gb_NaN
      dest: mk_gpu_info_ok simp: fle_iff fmin_def fmax_def)

lemma unified_memory_NaN: "ap_unified_memory_gb (detect_apple_silicon_hardware ho) \<noteq> NaN"
  by (auto simp: detect_apple_silicon_hardware_def no_apple_def Let_def split: option.splits sum.splits dest: gb_of_int_NaN)

lemma available_ram_NaN: "available_ram_gb ho = Inr x \<Longrightarrow> x \<noteq> NaN"
  by (auto simp: available_ram_gb_def res_simps split: option.splits dest: gb_of_int_NaN)

lemma clamped_below: "u \<noteq> NaN \<Longrightarrow> \<not> fle u (Fin 0) \<Longrightarrow> x \<noteq> NaN \<Longrightarrow> fle (fmax (fmin x u) (Fin 0)) u"
  by (cases u; cases x) (auto simp: fmin_def fmax_def)

lemma detect_apple_ok: "detect_apple_silicon ho = Inr (Some p) \<Longrightarrow> probe_ok p"
  by (auto simp: detect_apple_silicon_def Let_def res_simps probe_ok_def unified_memory_NaN split: if_splits
      dest!: available_ram_NaN dest: mk_gpu_info_ok [OF _ clamped_below])

lemma probe_gpu_ok: "probe_ok (probe_gpu g ho)"
proof -
  have "probe_ok \<lparr>gp_info = cpu_only_gpu, gp_utilization = Fin 0\<rparr>"
    by (simp add: probe_ok_def cpu_only_gpu_def gpu_valid_def)
  then show ?thesis
    by (auto simp: probe_gpu_def split: sum.splits option.splits dest: detect_nvidia_ok detect_apple_ok)
qed


text \<open>
  \<^verbatim>\<open>min(max(float(digits), 0.0), 100.0)\<close> of a run of digits is a number: the scanner reads all of them.
\<close>

lemma scan_digits_all: "list_all is_digit s \<Longrightarrow> scan_digits v n s = (foldl (\<lambda>a c. 10 * a + digit_val c) v s, n + length s, [])"
  by (induction s arbitrary: v n) auto

lemma digit_range: "is_digit c \<Longrightarrow> \<not> is_space c \<and> c \<noteq> CHR ''-'' \<and> c \<noteq> CHR ''+'' \<and> lower_char c = c"
  by (auto simp: is_digit_def is_space_def lower_char_def)

lemma digits_not_special:
  assumes "list_all is_digit s" "s \<noteq> []"
  shows "scan_sign (py_strip s) = (1, s)" "py_lower s \<notin> {''inf'', ''infinity'', ''nan''}"
proof -
  obtain c cs where s: "s = c # cs" using assms(2) by (cases s) auto
  have d: "\<forall>c\<in>set s. is_digit c" using assms(1) by (simp add: list_all_iff)
  have "trimmed s" using d assms(2) by (auto simp: trimmed_def dest: digit_range hd_in_set last_in_set)
  then have "py_strip s = s" by (rule trimmed_strip)
  then show "scan_sign (py_strip s) = (1, s)" using d s by (auto simp: scan_sign_def dest: digit_range)
  have "py_lower s = s" using d by (auto simp: py_lower_def intro!: map_idI dest: digit_range)
  then show "py_lower s \<notin> {''inf'', ''infinity'', ''nan''}" using d s by (auto simp: is_digit_def)
qed

lemma parse_float_digits:
  assumes "list_all is_digit s" "s \<noteq> []"
  shows "\<exists>v. parse_float s = Some v \<and> v \<noteq> NaN"
proof -
  have "parse_float s = Some (rnd (of_int (foldl (\<lambda>a c. 10 * a + digit_val c) 0 s)))"
    using digits_not_special [OF assms] assms
    by (simp add: parse_float_def scan_digits_all scan_frac_def scan_exp_def)
  then show ?thesis by simp
qed

lemma search_utilization_digits: "search_utilization s = Some d \<Longrightarrow> list_all is_digit d \<and> d \<noteq> []"
proof (induction s)
  case (Cons c cs)
  then show ?case
    by (auto simp: match_utilization_def Let_def list_all_iff split: option.splits if_splits list.splits dest: set_takeWhileD)
qed simp

lemma ioreg_utilization_ok: "utilization_ok (parse_ioreg_utilization out)"
proof (cases "search_utilization out")
  case None
  then show ?thesis by (simp add: parse_ioreg_utilization_def utilization_ok_def)
next
  case (Some d)
  with search_utilization_digits [OF Some] obtain v where "parse_float d = Some v" "v \<noteq> NaN"
    using parse_float_digits by blast
  with Some show ?thesis by (simp add: parse_ioreg_utilization_def clamp_pct_ok)
qed


lemma apple_utilization_ok: "apple_gpu_utilization ho = Inr v \<Longrightarrow> utilization_ok v"
  by (auto simp: apple_gpu_utilization_def ioreg_utilization_ok split: if_splits option.splits) (simp add: utilization_ok_def)

section \<open>The heartbeat of a Node\<close>

text \<open>
  The \<^verbatim>\<open>Heartbeat\<close> a Node sends (\<^verbatim>\<open>_collect_heartbeat_metrics\<close> and the head of \<^verbatim>\<open>_heartbeat_loop\<close> in
  \<^verbatim>\<open>runtime.py\<close>); \<open>queue\<close> is
  the length of the task queue.
\<close>

definition measured_heartbeat :: "string \<Rightarrow> int \<Rightarrow> int \<Rightarrow> host \<Rightarrow> node_heartbeat res" where
  "measured_heartbeat k t queue ho =
     (let m = detect_host_metrics ho
      in mk_node_heartbeat k t queue (hm_cpu_utilization m) (hm_ram_available_gb m) (hm_gpu_utilization m) (hm_vram_available_gb m))"

text \<open>The one reading no probe repairs: a card whose driver reports its utilisation as not a number.\<close>

definition nan_card :: "host \<Rightarrow> bool" where
  "nan_card ho \<longleftrightarrow> gm_utilization (collect_gpu_metrics ho) = NaN \<and> (\<exists>p. detect_nvidia (collect_gpu_metrics ho) = Inr (Some p))"

lemma nvidia_utilization: "detect_nvidia g = Inr (Some p) \<Longrightarrow> gp_utilization p = clamp_pct (gm_utilization g)"
  by (auto simp: detect_nvidia_def Let_def res_simps split: if_splits)

lemma apple_probe_utilization: "detect_apple_silicon ho = Inr (Some p) \<Longrightarrow> utilization_ok (gp_utilization p)"
  by (auto simp: detect_apple_silicon_def Let_def res_simps split: if_splits sum.splits dest: apple_utilization_ok)
    (auto simp: utilization_ok_def)

lemma probe_utilization: "utilization_ok (gp_utilization (probe_gpu (collect_gpu_metrics ho) ho)) \<longleftrightarrow> \<not> nan_card ho"
  by (auto simp: probe_gpu_def nan_card_def nvidia_utilization clamp_pct_ok apple_probe_utilization split: sum.splits option.splits)
    (auto simp: utilization_ok_def)

lemma fmax_nonneg: "fle (Fin 0) (fmax v (Fin 0)) \<longleftrightarrow> v \<noteq> NaN"
  by (cases v) (auto simp: fmax_def)

lemma metrics_ok:
  "fle (Fin 0) (hm_ram_available_gb (detect_host_metrics ho))" "fle (Fin 0) (hm_vram_available_gb (detect_host_metrics ho))"
  "utilization_ok (hm_cpu_utilization (detect_host_metrics ho)) \<longleftrightarrow> ho_cpu_percent ho \<noteq> Some NaN"
  "utilization_ok (hm_gpu_utilization (detect_host_metrics ho)) \<longleftrightarrow> \<not> nan_card ho"
  using probe_gpu_ok [of "collect_gpu_metrics ho" ho]
  by (auto simp: detect_host_metrics_def Let_def fmax_nonneg clamp_pct_ok probe_utilization probe_ok_def gpu_valid_def
      split: option.splits sum.splits dest: available_ram_NaN)

lemma measured_heartbeat_Inr:
  "measured_heartbeat k t queue ho = Inr hb \<longleftrightarrow>
     py_strip k \<noteq> [] \<and> 0 \<le> queue \<and> ho_cpu_percent ho \<noteq> Some NaN \<and> \<not> nan_card ho
     \<and> hb = \<lparr>nh_node_id = py_strip k, nh_timestamp = t, nh_queue_length = queue,
             nh_cpu_utilization = hm_cpu_utilization (detect_host_metrics ho),
             nh_ram_available_gb = hm_ram_available_gb (detect_host_metrics ho),
             nh_gpu_utilization = hm_gpu_utilization (detect_host_metrics ho),
             nh_vram_available_gb = hm_vram_available_gb (detect_host_metrics ho)\<rparr>"
  using metrics_ok [of ho]
  by (auto simp: measured_heartbeat_def mk_node_heartbeat_def stripped_def Let_def res_simps fle_iff)

lemma measured_heartbeat_valid: "measured_heartbeat k t queue ho = Inr hb \<Longrightarrow> heartbeat_valid (build_heartbeat_payload hb)"
  using metrics_ok [of ho]
  by (auto simp: measured_heartbeat_Inr heartbeat_valid_def build_heartbeat_payload_def utilization_ok_def)

section \<open>Properties\<close>

text \<open>
  C30. Measuring never keeps a Node from registering or heartbeating. Whatever \<^verbatim>\<open>psutil\<close>, \<^verbatim>\<open>nvidia-smi\<close>, \<^verbatim>\<open>sysctl\<close>
  and \<^verbatim>\<open>ioreg\<close> print or however they fail, the GPU advertised is one the Scheduler's model accepts, with no more
  memory free than it has, and a heartbeat is built that passes the Scheduler's validation and reports the same
  free memory; the only readings that are refused are a CPU percentage and a card's utilisation that are not
  numbers.
\<close>

theorem measured_heartbeat_accepted:
  assumes "py_strip k \<noteq> []" "0 \<le> queue"
  shows "gpu_valid (detect_gpu ho) \<and> fle (vram_available_gb (detect_gpu ho)) (vram_total_gb (detect_gpu ho))
    \<and> (if ho_cpu_percent ho = Some NaN \<or> nan_card ho then \<exists>e. measured_heartbeat k t queue ho = Inl e
       else \<exists>hb. measured_heartbeat k t queue ho = Inr hb \<and> heartbeat_valid (build_heartbeat_payload hb)
              \<and> nh_vram_available_gb hb = vram_available_gb (detect_gpu ho))"
proof -
  have "probe_ok (probe_gpu (collect_gpu_metrics ho) ho)" by (rule probe_gpu_ok)
  moreover have "\<exists>e. measured_heartbeat k t queue ho = Inl e" if "ho_cpu_percent ho = Some NaN \<or> nan_card ho"
    using that measured_heartbeat_Inr [of k t queue ho] by (cases "measured_heartbeat k t queue ho") auto
  moreover have "\<exists>hb. measured_heartbeat k t queue ho = Inr hb \<and> heartbeat_valid (build_heartbeat_payload hb)
      \<and> nh_vram_available_gb hb = vram_available_gb (detect_gpu ho)" if n: "\<not> (ho_cpu_percent ho = Some NaN \<or> nan_card ho)"
  proof -
    obtain hb where hb: "measured_heartbeat k t queue ho = Inr hb"
      using assms n by (auto simp: measured_heartbeat_Inr)
    moreover have "nh_vram_available_gb hb = vram_available_gb (detect_gpu ho)"
      using hb by (simp add: measured_heartbeat_Inr detect_gpu_def detect_host_metrics_def Let_def)
    ultimately show ?thesis using measured_heartbeat_valid by blast
  qed
  ultimately show ?thesis by (auto simp: detect_gpu_def probe_ok_def)
qed

definition sample_host :: host where
  "sample_host = \<lparr>ho_platform = ''linux'', ho_machine = ''x86_64'', ho_cpu_percent = Some (Fin 12), ho_cpu_count = Some 4,
     ho_memory = None, ho_nvidia = SmiExit 0 (Some ''RTX, 40, 1024, 2048, 512''), ho_brand = None, ho_memsize = None,
     ho_ioreg_path = False, ho_ioreg = None, ho_vm_stat = None, ho_meminfo = None\<rparr>"

lemma sample_card: "collect_gpu_metrics sample_host = \<lparr>gm_name = ''RTX'', gm_utilization = Fin 40,
    gm_vram_total_bytes = 1024 ^ 3, gm_vram_available_bytes = 2 * 1024 ^ 3, gm_vram_used_bytes = 512 * 1024 ^ 2\<rparr>"
proof -
  have "rnd 40 = Fin 40" by (intro rnd_dbl dbl_rat_numeral) simp
  then have "parse_float ''40'' = Some (Fin 40)"
    by (simp add: parse_float_def py_strip_def is_space_def scan_sign_def py_lower_def lower_char_def is_digit_def
        digit_val_def scan_frac_def scan_exp_def)
  moreover have "parse_int ''1024'' = Some 1024" "parse_int ''2048'' = Some 2048" "parse_int ''512'' = Some 512"
    by (simp_all add: parse_int_def py_strip_def is_space_def scan_sign_def is_digit_def digit_val_def)
  ultimately show ?thesis
    by (simp add: collect_gpu_metrics_def sample_host_def parse_gpu_line_def py_strip_def is_space_def)
qed

theorem measured_heartbeat_accepted_witness:
  "\<exists>hb. measured_heartbeat ''n'' 0 0 sample_host = Inr hb \<and> heartbeat_valid (build_heartbeat_payload hb)
     \<and> nh_vram_available_gb hb = vram_available_gb (detect_gpu sample_host)"
proof -
  have "\<not> nan_card sample_host" by (simp add: nan_card_def sample_card)
  moreover have "ho_cpu_percent sample_host \<noteq> Some NaN" by (simp add: sample_host_def)
  ultimately show ?thesis
    using measured_heartbeat_accepted [of "''n''" 0 sample_host 0] by (simp add: py_strip_def is_space_def)
qed

lemma lines_acc_first: "\<forall>c\<in>set s. \<not> p c \<Longrightarrow> p d \<Longrightarrow> \<exists>ls. lines_acc p False cur (s @ d # r) = (rev cur @ s) # ls"
proof (induction s arbitrary: cur)
  case (Cons c s)
  then show ?case using Cons.IH [of "c # cur"] by auto
qed auto

definition vm_stat_header :: "string \<Rightarrow> string" where
  "vm_stat_header digits = ''Mach Virtual Memory Statistics: (page size of '' @ digits @ '' bytes)''"

lemma header_words: "\<exists>ws. py_words (vm_stat_header digits) = [''Mach'', ''Virtual'', ''Memory'', ''Statistics:'', ''(page'', ''size'', ''of''] @ ws"
  by (simp add: py_words_def vm_stat_header_def is_space_def)

lemma header_line: "vm_stat_line (vm_stat_header digits) s = Inl (ValueError ''invalid literal for int() with base 10'')"
proof -
  have "py_in ''page size of'' (vm_stat_header digits)" by (simp add: vm_stat_header_def startswith_def)
  moreover have "parse_int ''(page'' = None"
    by (simp add: parse_int_def py_strip_def is_space_def scan_sign_def is_digit_def)
  ultimately show ?thesis using header_words [of digits]
    by (cases s) (auto simp: vm_stat_line_def word_int_def)
qed

text \<open>
  On macOS the RAM usage a Node reports over the mesh is a constant, 8 GiB, whatever is in use: the page size
  of \<^verbatim>\<open>vm_stat\<close> is read from the fifth word of its first line, which is \<^verbatim>\<open>(page\<close>, so the parse raises and the
  fallback is reported.
\<close>

theorem mac_ram_reading_constant:
  assumes "list_all is_digit digits" "ho_platform ho = ''darwin''" "ho_vm_stat ho = Some (vm_stat_header digits @ CHR 0x0A # rest)"
  shows "get_ram_usage_bytes ho = 8 * 1024 ^ 3"
proof -
  let ?eol = "\<lambda>c. (10 \<le> code_of c \<and> code_of c \<le> 13) \<or> (28 \<le> code_of c \<and> code_of c \<le> 30) \<or> code_of c = 133"
  have "\<forall>c\<in>set (vm_stat_header digits). \<not> ?eol c"
    using assms(1) by (auto simp: vm_stat_header_def list_all_iff is_digit_def)
  then obtain ls where "py_splitlines (vm_stat_header digits @ CHR 0x0A # rest) = vm_stat_header digits # ls"
    using lines_acc_first [of "vm_stat_header digits" ?eol "CHR 0x0A" "[]" rest] unfolding py_splitlines_def by auto
  then show ?thesis using assms(2,3)
    by (auto simp: get_ram_usage_bytes_def darwin_ram_usage_def header_line FALLBACK_BYTES_def split: option.splits)
qed


theorem mac_ram_reading_constant_witness:
  "get_ram_usage_bytes (sample_host\<lparr>ho_platform := ''darwin'', ho_memsize := Some ''17179869184'',
     ho_vm_stat := Some (vm_stat_header ''16384'' @ CHR 0x0A # ''Pages free: 100.'')\<rparr>) = 8 * 1024 ^ 3"
  by (rule mac_ram_reading_constant [where digits = "''16384''" and rest = "''Pages free: 100.''"])
    (simp_all add: is_digit_def)

end
