(* ===== verification/Mesh_Publishing.thy ===== *)
theory Mesh_Publishing
  imports Host_Probes Zenoh_Router
begin

text \<open>
  What a Node publishes on the mesh: its heartbeats (\<^verbatim>\<open>node/clients/zenoh_heartbeat.py\<close>), the telemetry of
  \<^verbatim>\<open>TelemetryEmitter\<close> (\<^verbatim>\<open>node/core/telemetry.py\<close>) and the frames of \<^verbatim>\<open>ZenohTelemetryHeartbeat\<close>
  (\<^verbatim>\<open>node/telemetry/heartbeat.py\<close>), put together with what the Scheduler's router makes of each. A published message
  is its key and its payload. Whether Zenoh connects and what its calls raise are arguments; so are the text of a
  time stamp and the twelve random bytes of an envelope.
\<close>

type_synonym message = "string \<times> string"

section \<open>The heartbeat client\<close>

record heartbeat_client =
  hc_settings :: node_config
  hc_session :: bool
  hc_publisher :: bool
  hc_liveliness :: bool

definition init_heartbeat_client :: "node_config \<Rightarrow> heartbeat_client" where
  "init_heartbeat_client c = \<lparr>hc_settings = c, hc_session = False, hc_publisher = False, hc_liveliness = False\<rparr>"

definition heartbeat_key :: "string \<Rightarrow> string" where
  "heartbeat_key k = ''public-intelligence/net/'' @ k @ ''/heartbeat''"

definition candidate_endpoints :: "node_config \<Rightarrow> string list" where
  "candidate_endpoints c =
     (case non_empty (nc_zenoh_router_url c) of None \<Rightarrow> [] | Some u \<Rightarrow> [u]) @ nc_zenoh_peer_endpoints c @ nc_bootstrap_routers c"

fun resolve_endpoints :: "string list \<Rightarrow> string list \<Rightarrow> string list" where
  "resolve_endpoints resolved [] = resolved"
| "resolve_endpoints resolved (ep # eps) =
     resolve_endpoints (if ep \<noteq> [] \<and> ep \<notin> set resolved then resolved @ [ep] else resolved) eps"

text \<open>What \<^verbatim>\<open>start\<close> inserts into the Zenoh configuration, in order.\<close>

definition zenoh_config :: "(json \<Rightarrow> string) \<Rightarrow> node_config \<Rightarrow> (string \<times> string) list" where
  "zenoh_config dumps c =
     (let endpoints = resolve_endpoints [] (candidate_endpoints c)
      in (if endpoints = [] then [] else [(''connect/endpoints'', dumps (JList (map JStr endpoints))), (''mode'', [CHR 0x22] @ ''client'' @ [CHR 0x22])])
         @ (if nc_zenoh_multicast_scouting c then [] else [(''scouting/multicast/enabled'', ''false'')])
         @ [(''scouting/gossip/enabled'', if nc_zenoh_gossip_scouting c then ''true'' else ''false'')])"

text \<open>\<open>connects\<close> says of a configuration whether opening the session and both declarations succeed.\<close>

definition start_heartbeat_client :: "((string \<times> string) list \<Rightarrow> bool) \<Rightarrow> (json \<Rightarrow> string) \<Rightarrow> heartbeat_client \<Rightarrow> heartbeat_client" where
  "start_heartbeat_client connects dumps hc =
     (if hc_session hc then hc
      else let ok = connects (zenoh_config dumps (hc_settings hc))
           in hc\<lparr>hc_session := ok, hc_publisher := ok, hc_liveliness := ok\<rparr>)"

definition is_connected :: "heartbeat_client \<Rightarrow> bool" where
  "is_connected hc = hc_session hc"

text \<open>\<^verbatim>\<open>stop\<close>, when undeclaring the token and the publisher succeed or raise. A publisher left behind is not reset.\<close>

definition stop_heartbeat_client :: "bool \<Rightarrow> bool \<Rightarrow> heartbeat_client \<Rightarrow> heartbeat_client" where
  "stop_heartbeat_client token_ok publisher_ok hc =
     (if \<not> hc_session hc then hc
      else hc\<lparr>hc_session := False, hc_liveliness := False,
              hc_publisher := hc_publisher hc \<and> (hc_liveliness hc \<and> \<not> token_ok \<or> \<not> publisher_ok)\<rparr>)"

text \<open>\<^verbatim>\<open>heartbeat.model_dump(mode="json")\<close>; \<open>iso_text\<close> is the text pydantic gives a time stamp.\<close>

definition heartbeat_json :: "(int \<Rightarrow> string) \<Rightarrow> node_heartbeat \<Rightarrow> jobj" where
  "heartbeat_json iso_text h =
     [(''node_id'', JStr (nh_node_id h)), (''timestamp'', JStr (iso_text (nh_timestamp h))), (''queue_length'', JInt (nh_queue_length h)),
      (''cpu_utilization'', JFloat (nh_cpu_utilization h)), (''ram_available_gb'', JFloat (nh_ram_available_gb h)),
      (''gpu_utilization'', JFloat (nh_gpu_utilization h)), (''vram_available_gb'', JFloat (nh_vram_available_gb h))]"

definition sealed_heartbeat :: "(int \<Rightarrow> string) \<Rightarrow> node_heartbeat \<Rightarrow> jobj" where
  "sealed_heartbeat iso_text h = dset ''status'' (JStr ''online'') (heartbeat_json iso_text h)"

definition publish_heartbeat :: "aead_lib \<Rightarrow> (int \<Rightarrow> string) \<Rightarrow> string \<Rightarrow> node_heartbeat \<Rightarrow> heartbeat_client \<Rightarrow> message res" where
  "publish_heartbeat lib iso_text iv h hc =
     (if \<not> hc_session hc \<or> \<not> hc_publisher hc then Inl (RuntimeError ''Zenoh session is not active. Call start() first.'')
      else case non_empty (nc_network_auth_token (hc_settings hc)) of
        None \<Rightarrow> Inl (RuntimeError ''No NODE_NETWORK_AUTH_TOKEN configured; heartbeats cannot be signed.'')
      | Some token \<Rightarrow>
          (let k = nc_node_id (hc_settings hc)
           in Inr (heartbeat_key k, seal lib (sealed_heartbeat iso_text h) k token PURPOSE_HEARTBEAT iv)))"

section \<open>The telemetry emitter\<close>

text \<open>\<open>te_task\<close> says that the loop's task is alive; without a credential it returns at once.\<close>

record telemetry_emitter =
  te_node_id :: string
  te_auth_token :: "string option"
  te_session :: bool
  te_running :: bool
  te_task :: bool

definition telemetry_key :: "string \<Rightarrow> string" where
  "telemetry_key k = ''public-intelligence/net/nodes/'' @ k @ ''/telemetry''"

definition init_telemetry_emitter :: "string \<Rightarrow> bool \<Rightarrow> string option \<Rightarrow> telemetry_emitter" where
  "init_telemetry_emitter k session token =
     \<lparr>te_node_id = k, te_auth_token = token, te_session = session, te_running = False, te_task = False\<rparr>"

definition start_emitter :: "telemetry_emitter \<Rightarrow> telemetry_emitter" where
  "start_emitter te = (if te_running te then te else te\<lparr>te_running := True, te_task := non_empty (te_auth_token te) \<noteq> None\<rparr>)"

definition stop_emitter :: "telemetry_emitter \<Rightarrow> telemetry_emitter" where
  "stop_emitter te = (if te_running te then te\<lparr>te_running := False, te_task := False\<rparr> else te)"

definition emitted_metrics :: "(int \<Rightarrow> string) \<Rightarrow> int \<Rightarrow> host \<Rightarrow> string \<Rightarrow> jobj" where
  "emitted_metrics isoformat utc_now ho k =
     [(''node_id'', JStr k), (''timestamp'', JStr (isoformat utc_now)), (''cpu_utilization'', JFloat (get_cpu_utilization ho)),
      (''ram_usage_bytes'', JInt (get_ram_usage_bytes ho)), (''gpu_utilization'', JFloat (Fin 0)), (''vram_usage_bytes'', JInt 0)]"

text \<open>One turn of the loop: what it puts on the session, if there is one.\<close>

definition emitter_turn :: "aead_lib \<Rightarrow> (int \<Rightarrow> string) \<Rightarrow> string \<Rightarrow> int \<Rightarrow> host \<Rightarrow> telemetry_emitter \<Rightarrow> message option" where
  "emitter_turn lib isoformat iv utc_now ho te =
     (case non_empty (te_auth_token te) of
        None \<Rightarrow> None
      | Some token \<Rightarrow>
          if \<not> te_running te \<or> \<not> te_task te \<or> \<not> te_session te then None
          else Some (telemetry_key (te_node_id te),
                 seal lib (emitted_metrics isoformat utc_now ho (te_node_id te)) (te_node_id te) token PURPOSE_TELEMETRY iv))"

section \<open>The telemetry broadcast\<close>

record telemetry_broadcast =
  tb_settings :: node_config
  tb_session :: bool
  tb_publisher :: bool
  tb_task :: bool
  tb_running :: bool

definition init_telemetry_broadcast :: "node_config \<Rightarrow> telemetry_broadcast" where
  "init_telemetry_broadcast c = \<lparr>tb_settings = c, tb_session = False, tb_publisher = False, tb_task = False, tb_running = False\<rparr>"

definition broadcast_config :: "(json \<Rightarrow> string) \<Rightarrow> node_config \<Rightarrow> (string \<times> string) list" where
  "broadcast_config dumps c =
     (let endpoints = (case non_empty (nc_zenoh_router_url c) of None \<Rightarrow> [] | Some u \<Rightarrow> [u]) @ nc_zenoh_peer_endpoints c
      in (if endpoints = [] then [] else [(''connect/endpoints'', dumps (JList (map JStr endpoints))), (''mode'', [CHR 0x22] @ ''client'' @ [CHR 0x22])])
         @ (if nc_zenoh_multicast_scouting c then [] else [(''scouting/multicast/enabled'', ''false'')]))"

definition offline_frame :: "string \<Rightarrow> jobj" where
  "offline_frame k =
     [(''node_id'', JStr k), (''status'', JStr ''OFFLINE''), (''cpu_utilization'', JFloat (Fin 0)),
      (''ram_utilization_pct'', JFloat (Fin 0)), (''gpu_utilization'', JFloat (Fin 0))]"

definition publish_offline_frame :: "(json \<Rightarrow> string) \<Rightarrow> telemetry_broadcast \<Rightarrow> message list" where
  "publish_offline_frame dumps tb =
     (if tb_publisher tb then [(telemetry_key (nc_node_id (tb_settings tb)), dumps (JObj (offline_frame (nc_node_id (tb_settings tb)))))]
      else [])"

text \<open>\<^verbatim>\<open>stop\<close> publishes the frame and then closes; \<open>undeclared\<close> says that undeclaring the publisher did not raise.\<close>

definition stop_broadcast :: "(json \<Rightarrow> string) \<Rightarrow> bool \<Rightarrow> telemetry_broadcast \<Rightarrow> message list \<times> telemetry_broadcast" where
  "stop_broadcast dumps undeclared tb =
     (if \<not> tb_running tb then ([], tb)
      else (publish_offline_frame dumps tb,
            tb\<lparr>tb_running := False, tb_task := False, tb_publisher := tb_publisher tb \<and> \<not> undeclared, tb_session := False\<rparr>))"

text \<open>
  How \<^verbatim>\<open>start\<close> fares: the session cannot be opened, it opens and the publisher cannot be declared, or both work. A
  failure is raised again after \<^verbatim>\<open>stop\<close>.
\<close>

datatype opened = NotOpened | NoPublisher | Opened

definition start_broadcast :: "((string \<times> string) list \<Rightarrow> opened) \<Rightarrow> (json \<Rightarrow> string) \<Rightarrow> bool \<Rightarrow> telemetry_broadcast
    \<Rightarrow> unit res \<times> message list \<times> telemetry_broadcast" where
  "start_broadcast opens dumps undeclared tb =
     (if tb_running tb then (Inr (), [], tb)
      else (let tb1 = tb\<lparr>tb_running := True\<rparr>; failure = Inl (OtherError ''Zenoh'')
            in case opens (broadcast_config dumps (tb_settings tb)) of
                 Opened \<Rightarrow> (Inr (), [], tb1\<lparr>tb_session := True, tb_publisher := True, tb_task := True\<rparr>)
               | NoPublisher \<Rightarrow> (failure, stop_broadcast dumps undeclared (tb1\<lparr>tb_session := True\<rparr>))
               | NotOpened \<Rightarrow> (failure, stop_broadcast dumps undeclared tb1)))"

definition handle_signal :: "(json \<Rightarrow> string) \<Rightarrow> bool \<Rightarrow> telemetry_broadcast \<Rightarrow> message list \<times> telemetry_broadcast" where
  "handle_signal dumps undeclared tb = stop_broadcast dumps undeclared tb"

text \<open>One turn of \<^verbatim>\<open>_broadcast_loop\<close>; an exception of the collector is logged.\<close>

definition broadcast_frame :: "jobj \<Rightarrow> string \<Rightarrow> jobj" where
  "broadcast_frame metrics k = dset ''status'' (JStr ''ONLINE'') (dset ''node_id'' (JStr k) metrics)"

definition broadcast_turn :: "(json \<Rightarrow> string) \<Rightarrow> host \<Rightarrow> telemetry_broadcast \<Rightarrow> message list" where
  "broadcast_turn dumps ho tb =
     (if \<not> tb_running tb \<or> \<not> tb_task tb then []
      else case collect ho of
        Inl e \<Rightarrow> []
      | Inr metrics \<Rightarrow>
          if tb_publisher tb
          then [(telemetry_key (nc_node_id (tb_settings tb)), dumps (JObj (broadcast_frame metrics (nc_node_id (tb_settings tb)))))]
          else [])"


section \<open>From the Node to the router\<close>

lemma topic_of_key:
  assumes "k \<noteq> []" "CHR ''/'' \<notin> set k"
  shows "node_id_from_topic (heartbeat_key k) 2 = Some k" "node_id_from_topic (telemetry_key k) 3 = Some k"
  using py_split_append [OF assms(2), of "''heartbeat''"] py_split_append [OF assms(2), of "''telemetry''"] assms(1)
  by (simp_all add: node_id_from_topic_def heartbeat_key_def telemetry_key_def py_split_plain Let_def)

text \<open>
  What the libraries promise for one message: AES-GCM and base64 invert, a nonce has twelve bytes, and the JSON
  codec reads back the payload and its envelope.
\<close>

definition wire_ok :: "aead_lib \<Rightarrow> jobj \<Rightarrow> string \<Rightarrow> string \<Rightarrow> purpose \<Rightarrow> string \<Rightarrow> bool" where
  "wire_ok lib payload k token p iv \<longleftrightarrow>
     aead_ok lib \<and> length iv = 12 \<and> (\<forall>x. b64decode lib (b64encode lib x) = Some x) \<and> json_stable lib payload
   \<and> json_stable lib (envelope_fields lib k iv (payload_ciphertext lib payload k token p iv))"

lemma opened_by_router:
  assumes "wire_ok (rl_aead lib) payload k token p iv" "registry_exists k reg" "get_node_token k reg = Some token" "token \<noteq> []"
  shows "open_from_node lib (seal (rl_aead lib) payload k token p iv) k p reg = Inr (Some payload)"
  using assms envelope_roundtrip [of "rl_aead lib" iv payload k token p]
  by (simp add: open_from_node_def wire_ok_def)

lemma published_heartbeat:
  "publish_heartbeat lib iso_text iv h hc = Inr (key, raw) \<longleftrightarrow>
     (\<exists>token. hc_session hc \<and> hc_publisher hc \<and> non_empty (nc_network_auth_token (hc_settings hc)) = Some token
        \<and> key = heartbeat_key (nc_node_id (hc_settings hc))
        \<and> raw = seal lib (sealed_heartbeat iso_text h) (nc_node_id (hc_settings hc)) token PURPOSE_HEARTBEAT iv)"
  by (auto simp: publish_heartbeat_def Let_def split: option.splits)

lemma non_empty_Some [simp]: "non_empty a = Some t \<longleftrightarrow> a = Some t \<and> t \<noteq> []"
  by (auto simp: non_empty_def split: option.splits if_splits)

lemma heartbeat_reaches_registry:
  assumes "node_id_from_topic key 2 = Some k" "open_from_node lib raw k PURPOSE_HEARTBEAT (rt_registry rt) = Inr (Some data)"
    "heartbeat_of lib data = Some h" "hb_node_id h = k"
  shows "process_heartbeat lib now raw key rt = (Inr (), heartbeat_applied now h rt)"
proof -
  have "registry_exists k (rt_registry rt)" using open_from_node_exists [OF assms(2)] ..
  then show ?thesis using assms by (simp add: process_heartbeat_def heartbeat_applied_def update_heartbeat_def registry_exists_def)
qed

text \<open>A registration the client reports as done, created or already there, has stored the Node's credential.\<close>

lemma registration_done:
  assumes "client_register (scheduler_routes dump sha) cl ni app = (Inr created, app')"
  shows "\<exists>r. register_node dump sha (non_empty (sc_fleet_token cl)) (non_empty (sc_network_auth_token cl))
      (non_empty (sc_invite_code cl)) (build_registration_payload ni) app = (r, app')
    \<and> ((\<exists>n. r = Inr n) \<or> (\<exists>m. r = Inl (HTTPException 409 m)))"
proof -
  let ?reg = "register_node dump sha (non_empty (sc_fleet_token cl)) (non_empty (sc_network_auth_token cl))
      (non_empty (sc_invite_code cl)) (build_registration_payload ni) app"
  have "(\<exists>n. fst ?reg = Inr n) \<or> (\<exists>c m. fst ?reg = Inl (HTTPException c m) \<and> c \<in> {401, 403, 409})"
    by (cases rule: register_node_cases [of dump sha "non_empty (sc_fleet_token cl)" "non_empty (sc_network_auth_token cl)"
        "non_empty (sc_invite_code cl)" "build_registration_payload ni" app]) simp_all
  then show ?thesis
    using assms
    by (cases ?reg) (auto simp: client_register_def send_request_def scheduler_routes_def route_paths respond_def Let_def
        split: if_splits)
qed

lemma registration_stores_credential:
  assumes "client_register (scheduler_routes dump sha) (init_scheduler_client (Some token) fleet invite) ni app = (Inr created, app')"
    "token \<noteq> []"
  shows "registry_exists (ni_node_id ni) (na_registry app') \<and> get_node_token (ni_node_id ni) (na_registry app') = Some token"
proof -
  let ?n = "build_registration_payload ni" and ?cl = "init_scheduler_client (Some token) fleet invite"
  have id: "node_id ?n = ni_node_id ni" by (simp add: build_registration_payload_def)
  have cred: "non_empty (sc_network_auth_token ?cl) = Some token" using assms(2) by (simp add: init_scheduler_client_def)
  have st: "stored_credential (Some token) header = Some token" for header
    using assms(2) by (simp add: stored_credential_def credential_of_def)
  have redeem: "na_registry (redeem_invite sha code k a) = na_registry a" for code k a
    by (auto simp: redeem_invite_def split: option.splits)
  obtain r where "register_node dump sha (non_empty (sc_fleet_token ?cl)) (Some token) (non_empty (sc_invite_code ?cl)) ?n app = (r, app')"
      "(\<exists>n. r = Inr n) \<or> (\<exists>m. r = Inl (HTTPException 409 m))"
    using registration_done [OF assms(1)] unfolding cred by blast
  then show ?thesis
  proof (cases rule: register_node_cases [of dump sha "non_empty (sc_fleet_token ?cl)" "Some token" "non_empty (sc_invite_code ?cl)" ?n app])
    case conflict
    then show ?thesis using \<open>register_node _ _ _ _ _ _ _ = (r, app')\<close> id st
      by (auto simp: with_credential_def get_token_set stored_credential_def registry_exists_def)
  next
    case (admitted reg)
    then show ?thesis using \<open>register_node _ _ _ _ _ _ _ = (r, app')\<close> id st
      by (auto simp: redeem registry_exists_def dmem_def)
  qed auto
qed


lemma published_telemetry:
  "emitter_turn lib isoformat iv utc_now ho te = Some (key, raw) \<longleftrightarrow>
     (\<exists>token. te_running te \<and> te_task te \<and> te_session te \<and> te_auth_token te = Some token \<and> token \<noteq> []
        \<and> key = telemetry_key (te_node_id te)
        \<and> raw = seal lib (emitted_metrics isoformat utc_now ho (te_node_id te)) (te_node_id te) token PURPOSE_TELEMETRY iv)"
  by (auto simp: emitter_turn_def non_empty_def split: option.splits)

lemma emitted_timestamp: "jget (emitted_metrics isoformat utc ho k) ''timestamp'' = JStr (isoformat utc)"
  by (simp add: emitted_metrics_def jget_def dget_or_def)

section \<open>Unsealed frames\<close>

text \<open>A JSON object without a version is no envelope, on whatever topic it arrives.\<close>

lemma unsealed_refused:
  assumes "al_json_loads lib raw = Some (JObj d)" "jget d ''v'' = JNull"
  shows "open_envelope lib raw k token p = Inl (MeshAuthError (''unsupported envelope version: '' @ al_repr lib JNull))"
  using assms by (simp add: open_envelope_def)

lemma unsealed_telemetry_ignored:
  assumes "al_json_loads (rl_aead lib) raw = Some (JObj d)" "jget d ''v'' = JNull"
  shows "process_telemetry lib utc raw key rt = (Inr (), rt)"
proof -
  have "open_from_node lib raw k PURPOSE_TELEMETRY reg = Inr None" for k reg
    by (simp add: open_from_node_def unsealed_refused [OF assms] split: option.splits)
  then show ?thesis by (simp add: process_telemetry_def split: option.splits)
qed

lemma broadcast_no_version:
  "jget (offline_frame k) ''v'' = JNull" "collect ho = Inr metrics \<Longrightarrow> jget (broadcast_frame metrics k) ''v'' = JNull"
  by (auto simp: offline_frame_def broadcast_frame_def collect_def Let_def jget_def dget_or_def dict_simps split: option.splits)

text \<open>Everything a broadcast ever puts on the mesh: what \<open>start\<close>, the turns of its loop, signals and \<open>stop\<close> publish.\<close>

inductive broadcasts :: "(json \<Rightarrow> string) \<Rightarrow> telemetry_broadcast \<Rightarrow> message list \<Rightarrow> telemetry_broadcast \<Rightarrow> bool"
  for dumps :: "json \<Rightarrow> string" where
  none: "broadcasts dumps tb [] tb"
| start: "broadcasts dumps tb ms tb' \<Longrightarrow> start_broadcast opens dumps undeclared tb' = (r, ms', tb'') \<Longrightarrow> broadcasts dumps tb (ms @ ms') tb''"
| turn: "broadcasts dumps tb ms tb' \<Longrightarrow> broadcasts dumps tb (ms @ broadcast_turn dumps ho tb') tb'"
| signal: "broadcasts dumps tb ms tb' \<Longrightarrow> handle_signal dumps undeclared tb' = (ms', tb'') \<Longrightarrow> broadcasts dumps tb (ms @ ms') tb''"
| stop: "broadcasts dumps tb ms tb' \<Longrightarrow> stop_broadcast dumps undeclared tb' = (ms', tb'') \<Longrightarrow> broadcasts dumps tb (ms @ ms') tb''"

definition plain_frame :: "(json \<Rightarrow> string) \<Rightarrow> message \<Rightarrow> bool" where
  "plain_frame dumps m \<longleftrightarrow> (\<exists>d. snd m = dumps (JObj d) \<and> jget d ''v'' = JNull)"

lemma stop_plain: "stop_broadcast dumps undeclared tb = (ms, tb') \<Longrightarrow> m \<in> set ms \<Longrightarrow> plain_frame dumps m"
  by (auto simp: stop_broadcast_def publish_offline_frame_def plain_frame_def broadcast_no_version split: if_splits)

lemma turn_plain: "m \<in> set (broadcast_turn dumps ho tb) \<Longrightarrow> plain_frame dumps m"
  by (auto simp: broadcast_turn_def plain_frame_def broadcast_no_version split: if_splits sum.splits)

lemma start_plain: "start_broadcast opens dumps undeclared tb = (r, ms, tb') \<Longrightarrow> m \<in> set ms \<Longrightarrow> plain_frame dumps m"
  by (auto simp: start_broadcast_def Let_def split: if_splits opened.splits dest: stop_plain)

lemma broadcasts_plain: "broadcasts dumps tb ms tb' \<Longrightarrow> m \<in> set ms \<Longrightarrow> plain_frame dumps m"
  by (induction rule: broadcasts.induct) (auto simp: handle_signal_def dest: stop_plain turn_plain start_plain)

section \<open>Properties\<close>

text \<open>
  C29. A registered Node is heard over the mesh. After its client has registered a Node with its credential, whether the
  record was created or was already there, the next heartbeat the Node measures and publishes makes the Scheduler's
  router record exactly that heartbeat, mark the Node reachable over the mesh and take the time as its last verified sign
  of life, from which no liveliness signal or sweep evicts it until the time allowed is over.
\<close>

theorem registered_node_is_heard:
  assumes "client_register (scheduler_routes dump sha) (init_scheduler_client (Some token) fleet invite) ni app = (Inr created, app')"
    and "rt_registry rt = na_registry app'"
    and "nc_node_id (hc_settings hc) = ni_node_id ni" "nc_network_auth_token (hc_settings hc) = Some token"
    and "py_strip (ni_node_id ni) = ni_node_id ni" "CHR ''/'' \<notin> set (ni_node_id ni)"
    and "measured_heartbeat (ni_node_id ni) t queue ho = Inr h"
    and "publish_heartbeat (rl_aead lib) iso_text iv h hc = Inr (key, raw)"
    and "wire_ok (rl_aead lib) (sealed_heartbeat iso_text h) (ni_node_id ni) token PURPOSE_HEARTBEAT iv"
    and "heartbeat_of lib (sealed_heartbeat iso_text h) = Some (build_heartbeat_payload h)"
  shows "\<exists>rt'. process_heartbeat lib now raw key rt = (Inr (), rt')
    \<and> dget (reg_heartbeats (rt_registry rt')) (ni_node_id ni) = Some (build_heartbeat_payload h)
    \<and> is_mesh_reachable (ni_node_id ni) (rt_registry rt')
    \<and> (\<forall>now'. flt (fsub now' now) (rt_stale_after rt) \<longrightarrow> process_deathrattle now' (ni_node_id ni) rt' = rt')"
proof -
  let ?k = "ni_node_id ni" and ?h = "build_heartbeat_payload h"
  have "hb_node_id ?h = ?k" "?k \<noteq> []"
    using assms(5,7) by (auto simp: measured_heartbeat_Inr build_heartbeat_payload_def)
  moreover have key: "key = heartbeat_key ?k" "token \<noteq> []"
      "raw = seal (rl_aead lib) (sealed_heartbeat iso_text h) ?k token PURPOSE_HEARTBEAT iv"
    using assms(3,4,8) by (auto simp: published_heartbeat)
  moreover have "registry_exists ?k (rt_registry rt)" "get_node_token ?k (rt_registry rt) = Some token"
    using registration_stores_credential [OF assms(1) key(2)] assms(2) by simp_all
  ultimately have applied: "process_heartbeat lib now raw key rt = (Inr (), heartbeat_applied now ?h rt)"
    using assms(6,9,10) opened_by_router [of lib "sealed_heartbeat iso_text h" ?k token PURPOSE_HEARTBEAT iv "rt_registry rt"]
    by (intro heartbeat_reaches_registry) (simp_all add: topic_of_key)
  let ?rt = "heartbeat_applied now ?h rt"
  have "process_deathrattle now' ?k ?rt = ?rt" if "flt (fsub now' now) (rt_stale_after rt)" for now'
    using that \<open>hb_node_id ?h = ?k\<close>
    by (simp add: process_deathrattle_def evict_if_stale_def verified_recently_def heartbeat_applied_def dict_simps)
  moreover have "dget (reg_heartbeats (rt_registry ?rt)) ?k = Some ?h" "is_mesh_reachable ?k (rt_registry ?rt)"
    using \<open>registry_exists ?k (rt_registry rt)\<close> \<open>hb_node_id ?h = ?k\<close>
    by (simp_all add: heartbeat_applied_def update_heartbeat_def registry_exists_def mark_mesh_reachable_def is_mesh_reachable_def dict_simps)
  ultimately show ?thesis using applied by blast
qed

text \<open>
  Telemetry end to end. What a running emitter publishes for a registered Node under the credential the Scheduler holds is
  stored by the router as that Node's telemetry, if it is processed within thirty seconds and the clocks differ by no more than
  ten the other way; otherwise nothing changes. The GPU figures in it are always zero.
\<close>

theorem emitted_telemetry_mapped:
  assumes "emitter_turn (rl_aead lib) isoformat iv utc ho te = Some (key, raw)"
    and "te_node_id te \<noteq> []" "CHR ''/'' \<notin> set (te_node_id te)"
    and "te_auth_token te = Some token"
    and "registry_exists (te_node_id te) (rt_registry rt)" "get_node_token (te_node_id te) (rt_registry rt) = Some token"
    and "wire_ok (rl_aead lib) (emitted_metrics isoformat utc ho (te_node_id te)) (te_node_id te) token PURPOSE_TELEMETRY iv"
    and "from_isoformat lib (isoformat utc) = Some utc"
  shows "process_telemetry lib utc' raw key rt =
    (Inr (), if - 10000000 \<le> utc' - utc \<and> utc' - utc \<le> 30000000
             then telemetry_applied (te_node_id te) (emitted_metrics isoformat utc ho (te_node_id te)) rt else rt)
    \<and> jget (emitted_metrics isoformat utc ho (te_node_id te)) ''gpu_utilization'' = JFloat (Fin 0)"
proof -
  let ?k = "te_node_id te" and ?d = "emitted_metrics isoformat utc ho (te_node_id te)"
  have key: "key = telemetry_key ?k" "token \<noteq> []" "raw = seal (rl_aead lib) ?d ?k token PURPOSE_TELEMETRY iv"
    using assms(1,4) by (auto simp: published_telemetry)
  then have "open_from_node lib raw ?k PURPOSE_TELEMETRY (rt_registry rt) = Inr (Some ?d)"
    using assms(5-7) opened_by_router by simp
  moreover have "telemetry_time lib (jget ?d ''timestamp'') = Inr (Some utc)" using assms(8) by (simp add: emitted_timestamp)
  moreover have "jget ?d ''gpu_utilization'' = JFloat (Fin 0)" by (simp add: emitted_metrics_def jget_def dget_or_def)
  ultimately show ?thesis
    using topic_of_key(2) [OF assms(2,3)] key(1)
    by (auto simp: process_telemetry_def telemetry_stale_iff telemetry_applied_def)
qed

text \<open>
  The telemetry broadcast is never heard. Whatever a \<^verbatim>\<open>ZenohTelemetryHeartbeat\<close> publishes in its life, its \<^verbatim>\<open>OFFLINE\<close> frame
  included, is plain JSON on the topic where the Scheduler accepts sealed envelopes only: no frame changes anything the router
  holds.
\<close>

theorem broadcast_never_heard:
  assumes "broadcasts (al_json_dumps (rl_aead lib)) (init_telemetry_broadcast c) ms tb" "(key, raw) \<in> set ms"
    and "\<forall>d. al_json_dumps (rl_aead lib) (JObj d) = raw \<longrightarrow> al_json_loads (rl_aead lib) raw = Some (JObj d)"
  shows "process_telemetry lib utc raw key rt = (Inr (), rt)"
proof -
  obtain d where "raw = al_json_dumps (rl_aead lib) (JObj d)" "jget d ''v'' = JNull"
    using broadcasts_plain [OF assms(1,2)] by (auto simp: plain_frame_def)
  then show ?thesis using unsealed_telemetry_ignored assms(3) by simp
qed


section \<open>Witnesses\<close>

text \<open>A codec that knows one payload and its envelope.\<close>

definition two_documents :: "jobj \<Rightarrow> string \<Rightarrow> string \<Rightarrow> purpose \<Rightarrow> string \<Rightarrow> aead_lib" where
  "two_documents payload k token p iv =
     blank_aead\<lparr>al_json_loads := (\<lambda>s. if s = ''p'' then Some (JObj payload) else if s = ''e''
        then Some (JObj (envelope_fields blank_aead k iv (payload_ciphertext blank_aead payload k token p iv))) else None),
      al_json_dumps := (\<lambda>j. if j = JObj payload then ''p'' else ''e'')\<rparr>"

lemma two_documents_ok:
  assumes "length iv = 12" "jget payload ''v'' = JNull"
  shows "wire_ok (two_documents payload k token p iv) payload k token p iv"
proof -
  let ?lib = "two_documents payload k token p iv"
  have "gcm_encrypt ?lib = gcm_encrypt sample_aead" "gcm_decrypt ?lib = gcm_decrypt sample_aead"
    by (simp_all add: two_documents_def sample_aead_def)
  then have "aead_ok ?lib" using sample_aead_ok by (simp add: aead_ok_def)
  moreover have "b64decode ?lib (b64encode ?lib x) = Some x" for x by (simp add: two_documents_def blank_aead_def)
  moreover have e: "envelope_fields ?lib k iv (payload_ciphertext ?lib payload k token p iv)
      = envelope_fields blank_aead k iv (payload_ciphertext blank_aead payload k token p iv)"
    by (simp add: two_documents_def blank_aead_def envelope_fields_def payload_ciphertext_def derive_key_def)
  moreover have "jget (envelope_fields blank_aead k iv c) ''v'' \<noteq> JNull" for c
    by (simp add: envelope_fields_def jget_def dget_or_def)
  then have "envelope_fields blank_aead k iv c \<noteq> payload" for c using assms(2) by metis
  ultimately show ?thesis using assms(1)
    unfolding wire_ok_def e by (simp add: json_stable_def two_documents_def blank_aead_def)
qed

definition sample_iv :: string where
  "sample_iv = replicate 12 CHR ''i''"

definition publishing_node :: heartbeat_client where
  "publishing_node = \<lparr>hc_settings = node_defaults\<lparr>nc_node_id := ''n'', nc_network_auth_token := Some ''t''\<rparr>,
     hc_session = True, hc_publisher = True, hc_liveliness = True\<rparr>"

theorem emitted_telemetry_mapped_witness:
  "\<exists>lib raw. fst (process_telemetry lib 5000000 raw (telemetry_key ''n'') sample_router) = Inr ()
     \<and> dget (reg_telemetry (rt_registry (snd (process_telemetry lib 5000000 raw (telemetry_key ''n'') sample_router)))) ''n''
         = Some (emitted_metrics (\<lambda>_. ''now'') 0 sample_host ''n'')"
proof -
  let ?te = "start_emitter (init_telemetry_emitter ''n'' True (Some ''t''))" and ?d = "emitted_metrics (\<lambda>_. ''now'') 0 sample_host ''n''"
  let ?lib = "\<lparr>rl_aead = two_documents ?d ''n'' ''t'' PURPOSE_TELEMETRY sample_iv, heartbeat_of = (\<lambda>_. None), from_isoformat = (\<lambda>_. Some 0)\<rparr>"
  obtain raw where raw: "emitter_turn (rl_aead ?lib) (\<lambda>_. ''now'') sample_iv 0 sample_host ?te = Some (telemetry_key ''n'', raw)"
    by (simp add: emitter_turn_def start_emitter_def init_telemetry_emitter_def non_empty_def)
  have "wire_ok (rl_aead ?lib) ?d ''n'' ''t'' PURPOSE_TELEMETRY sample_iv"
    using two_documents_ok [of sample_iv ?d] by (simp add: sample_iv_def emitted_metrics_def jget_def dget_or_def)
  then show ?thesis
    using emitted_telemetry_mapped [OF raw, of "''t''" sample_router 5000000]
    by (intro exI [of _ ?lib] exI [of _ raw])
      (simp add: start_emitter_def init_telemetry_emitter_def telemetry_applied_def sample_router_def get_node_token_def
        registry_exists_def dmem_def mark_mesh_reachable_def dict_simps)
qed

theorem broadcast_never_heard_witness:
  "\<exists>lib raw. process_telemetry lib 0 raw (telemetry_key ''node-local'') sample_router = (Inr (), sample_router)"
proof -
  let ?d = "offline_frame ''node-local''"
  let ?lib = "\<lparr>rl_aead = two_documents ?d ''node-local'' ''t'' PURPOSE_TELEMETRY sample_iv, heartbeat_of = (\<lambda>_. None), from_isoformat = (\<lambda>_. None)\<rparr>"
  let ?dumps = "al_json_dumps (rl_aead ?lib)" and ?tb = "init_telemetry_broadcast node_defaults"
  have "broadcasts ?dumps ?tb ([] @ []) (?tb\<lparr>tb_running := True, tb_session := True, tb_publisher := True, tb_task := True\<rparr>)"
    by (rule broadcasts.start [OF broadcasts.none, of "\<lambda>_. Opened"]) (simp add: start_broadcast_def init_telemetry_broadcast_def)
  then have "broadcasts ?dumps ?tb (([] @ []) @ [(telemetry_key ''node-local'', ''p'')])
      (?tb\<lparr>tb_running := False, tb_session := False, tb_publisher := False, tb_task := False\<rparr>)"
    by (rule broadcasts.stop [where undeclared = True])
      (simp add: stop_broadcast_def init_telemetry_broadcast_def publish_offline_frame_def node_defaults_def two_documents_def)
  from broadcast_never_heard [where lib = ?lib, OF this, of "telemetry_key ''node-local''" "''p''" 0 sample_router]
  show ?thesis by (fastforce simp: two_documents_def)
qed

theorem registered_node_is_heard_witness:
  "\<exists>lib raw rt rt'. process_heartbeat lib (Fin 1) raw (heartbeat_key ''n'') rt = (Inr (), rt')
     \<and> is_mesh_reachable ''n'' (rt_registry rt')"
proof -
  let ?app = "\<lparr>na_registry = rt_registry sample_router, na_invites = None, na_auth_token = None\<rparr>"
  obtain ni where ni: "mk_node_info (\<lambda>_. True) ''n'' ''h'' ''eu'' ''127.0.0.1'' 4 (Fin 16) cpu_only_gpu [] = Inr ni"
    by (simp add: mk_node_info_def stripped_def py_strip_def is_space_def)
  then have id: "ni_node_id ni = ''n''" "node_valid (build_registration_payload ni)"
    by (auto simp: mk_node_info_def stripped_def py_strip_def is_space_def build_registration_payload_def node_valid_def gpu_valid_def cpu_only_gpu_def)
  obtain app' where reg: "client_register (scheduler_routes unary_dump id) (init_scheduler_client (Some ''t'') None None) ni ?app = (Inr False, app')"
    using id
    by (simp add: client_register_def send_request_def scheduler_routes_def route_paths respond_def Let_def init_scheduler_client_def
        register_node_def guarded_def verify_auth_token_def register_handler_def invite_refuses_def credential_of_def non_empty_def
        build_registration_payload_def register_def local_register_def set_node_token_def write_store_def sample_router_def init_registry_def
        dmem_def status_of.simps dict_simps is_value_error.simps)
  let ?h = "\<lparr>nh_node_id = ''n'', nh_timestamp = 0, nh_queue_length = 0,
      nh_cpu_utilization = hm_cpu_utilization (detect_host_metrics sample_host),
      nh_ram_available_gb = hm_ram_available_gb (detect_host_metrics sample_host),
      nh_gpu_utilization = hm_gpu_utilization (detect_host_metrics sample_host),
      nh_vram_available_gb = hm_vram_available_gb (detect_host_metrics sample_host)\<rparr>"
  have h: "measured_heartbeat (ni_node_id ni) 0 0 sample_host = Inr ?h"
    unfolding measured_heartbeat_Inr using sample_card by (simp add: id nan_card_def py_strip_def is_space_def) (simp add: sample_host_def)
  let ?d = "sealed_heartbeat (\<lambda>_. ''now'') ?h"
  let ?lib = "\<lparr>rl_aead = two_documents ?d ''n'' ''t'' PURPOSE_HEARTBEAT sample_iv,
      heartbeat_of = (\<lambda>_. Some (build_heartbeat_payload ?h)), from_isoformat = (\<lambda>_. None)\<rparr>"
  have "wire_ok (rl_aead ?lib) ?d ''n'' ''t'' PURPOSE_HEARTBEAT sample_iv"
    using two_documents_ok [of sample_iv ?d]
    by (simp add: sample_iv_def sealed_heartbeat_def heartbeat_json_def jget_def dget_or_def)
  moreover obtain raw where "publish_heartbeat (rl_aead ?lib) (\<lambda>_. ''now'') sample_iv ?h publishing_node = Inr (heartbeat_key ''n'', raw)"
    by (simp add: publish_heartbeat_def publishing_node_def non_empty_def Let_def)
  ultimately have "\<exists>rt'. process_heartbeat ?lib (Fin 1) raw (heartbeat_key ''n'') (sample_router\<lparr>rt_registry := na_registry app'\<rparr>) = (Inr (), rt')
      \<and> is_mesh_reachable ''n'' (rt_registry rt')"
    using registered_node_is_heard [OF reg, of "sample_router\<lparr>rt_registry := na_registry app'\<rparr>" publishing_node 0 0 sample_host ?h ?lib
        "\<lambda>_. ''now''" sample_iv "heartbeat_key ''n''" raw "Fin 1"] h id
    by (auto simp: publishing_node_def py_strip_def is_space_def)
  then show ?thesis by blast
qed

end
