(* ===== verification/Sandbox.thy ===== *)
theory Sandbox
  imports Node_Runtime Host_Probes "HOL-Library.Sublist"
begin

text \<open>
  The sandbox of a Node (\<^verbatim>\<open>node/core/runtime.py\<close>) and its control routes (\<^verbatim>\<open>node/api/control.py\<close>): the ring buffer of
  container logs and its live streams, the git worktrees, commands run in a container, and starting and stopping the
  runtime over HTTP. git, docker, the file system and the clock are arguments.
\<close>

section \<open>The log buffer\<close>

record sandbox_entry =
  le_timestamp :: string
  le_stream :: string
  le_branch :: string
  le_message :: string

text \<open>A queue of a subscriber is an object; its identity is a number.\<close>

record log_buffer =
  lb_maxlen :: nat
  lb_entries :: "sandbox_entry list"
  lb_subscribers :: "(nat, sandbox_entry list) dict"
  lb_next :: nat

definition init_log_buffer :: "nat \<Rightarrow> log_buffer" where
  "init_log_buffer maxlen = \<lparr>lb_maxlen = maxlen, lb_entries = [], lb_subscribers = [], lb_next = 0\<rparr>"

text \<open>Appending to a \<^verbatim>\<open>deque\<close> with a \<^verbatim>\<open>maxlen\<close> drops from the other end.\<close>

definition newest :: "nat \<Rightarrow> 'a list \<Rightarrow> 'a list" where
  "newest n xs = drop (length xs - n) xs"

definition add_log :: "string \<Rightarrow> string \<Rightarrow> string \<Rightarrow> string \<Rightarrow> log_buffer \<Rightarrow> log_buffer" where
  "add_log timestamp message stream branch b =
     (let e = \<lparr>le_timestamp = timestamp, le_stream = stream, le_branch = branch, le_message = message\<rparr>
      in b\<lparr>lb_entries := newest (lb_maxlen b) (lb_entries b @ [e]),
           lb_subscribers := map (\<lambda>(q, xs). (q, xs @ [e])) (lb_subscribers b)\<rparr>)"

definition get_logs :: "int option \<Rightarrow> log_buffer \<Rightarrow> sandbox_entry list" where
  "get_logs limit b =
     (case limit of Some n \<Rightarrow> if 0 < n then slice_from_neg n (lb_entries b) else lb_entries b | None \<Rightarrow> lb_entries b)"

definition clear_logs :: "log_buffer \<Rightarrow> log_buffer" where
  "clear_logs b = b\<lparr>lb_entries := []\<rparr>"

definition subscribe :: "log_buffer \<Rightarrow> nat \<times> log_buffer" where
  "subscribe b = (lb_next b, b\<lparr>lb_subscribers := lb_subscribers b @ [(lb_next b, [])], lb_next := lb_next b + 1\<rparr>)"

definition unsubscribe :: "nat \<Rightarrow> log_buffer \<Rightarrow> log_buffer" where
  "unsubscribe q b = b\<lparr>lb_subscribers := ddel q (lb_subscribers b)\<rparr>"

section \<open>The routes over the buffer\<close>

definition log_text :: "sandbox_entry \<Rightarrow> string" where
  "log_text e = ''['' @ le_timestamp e @ ''] ['' @ le_stream e @ ''] '' @ le_message e"

definition entry_doc :: "sandbox_entry \<Rightarrow> json" where
  "entry_doc e = JObj [(''timestamp'', JStr (le_timestamp e)), (''stream'', JStr (le_stream e)), (''branch'', JStr (le_branch e)),
     (''message'', JStr (le_message e))]"

definition get_sandbox_logs :: "int \<Rightarrow> log_buffer \<Rightarrow> json" where
  "get_sandbox_logs limit b =
     (let es = get_logs (Some limit) b
      in JObj [(''logs'', JList (map (JStr \<circ> log_text) es)), (''entries'', JList (map entry_doc es))])"

definition log_frame :: "(json \<Rightarrow> string) \<Rightarrow> sandbox_entry \<Rightarrow> string" where
  "log_frame dumps e = ''data: '' @ dumps (JObj [(''entry'', entry_doc e), (''log'', JStr (log_text e))]) @ [CHR 0x0A, CHR 0x0A]"

definition KEEP_ALIVE :: string where
  "KEEP_ALIVE = '': keep-alive'' @ [CHR 0x0A, CHR 0x0A]"

text \<open>
  The generator of \<^verbatim>\<open>stream_sandbox_logs\<close>: the entries of the replay still to yield, how many were yielded, and whether
  the last one reached the limit, which is only noticed when the generator is resumed.
\<close>

record log_stream =
  ls_queue :: nat
  ls_pending :: "sandbox_entry list"
  ls_count :: int
  ls_max :: "int option"
  ls_full :: bool
  ls_done :: bool

definition open_log_stream :: "int option \<Rightarrow> log_buffer \<Rightarrow> log_stream \<times> log_buffer" where
  "open_log_stream max_events b =
     (let (q, b1) = subscribe b
      in (\<lparr>ls_queue = q, ls_pending = get_logs (Some 50) b1, ls_count = 0, ls_max = max_events, ls_full = False, ls_done = False\<rparr>, b1))"

definition queue_of :: "nat \<Rightarrow> log_buffer \<Rightarrow> sandbox_entry list" where
  "queue_of q b = (case dget (lb_subscribers b) q of None \<Rightarrow> [] | Some xs \<Rightarrow> xs)"

definition close_log_stream :: "log_stream \<times> log_buffer \<Rightarrow> log_stream \<times> log_buffer" where
  "close_log_stream = (\<lambda>(ls, b). (ls\<lparr>ls_done := True\<rparr>, unsubscribe (ls_queue ls) b))"

definition count_event :: "log_stream \<Rightarrow> log_stream" where
  "count_event ls =
     (let n = ls_count ls + 1 in ls\<lparr>ls_count := n, ls_full := (case ls_max ls of None \<Rightarrow> False | Some m \<Rightarrow> m \<le> n)\<rparr>)"

text \<open>One resumption of the generator; waiting 0.1 s for an entry that does not come is an empty queue.\<close>

definition stream_turn :: "(json \<Rightarrow> string) \<Rightarrow> bool \<Rightarrow> log_stream \<times> log_buffer \<Rightarrow> string list \<times> log_stream \<times> log_buffer" where
  "stream_turn dumps disconnected = (\<lambda>(ls, b).
     if ls_done ls then ([], ls, b)
     else if ls_full ls then ([], close_log_stream (ls, b))
     else (case ls_pending ls of
        e # es \<Rightarrow> ([log_frame dumps e], count_event (ls\<lparr>ls_pending := es\<rparr>), b)
      | [] \<Rightarrow>
          if disconnected then ([], close_log_stream (ls, b))
          else (case queue_of (ls_queue ls) b of
             e # es \<Rightarrow> ([log_frame dumps e], count_event ls, b\<lparr>lb_subscribers := dset (ls_queue ls) es (lb_subscribers b)\<rparr>)
           | [] \<Rightarrow> if ls_max ls \<noteq> None then ([], close_log_stream (ls, b)) else ([KEEP_ALIVE], ls, b))))"

text \<open>What happens to the buffer while a stream is open.\<close>

datatype log_event = Logged string string string string | Cleared | OtherOpens | OtherCloses nat | Turn bool | ClientGone

fun hub_step :: "(json \<Rightarrow> string) \<Rightarrow> log_event \<Rightarrow> log_stream \<times> log_buffer \<Rightarrow> string list \<times> log_stream \<times> log_buffer" where
  "hub_step dumps (Logged timestamp message stream branch) (ls, b) = ([], ls, add_log timestamp message stream branch b)"
| "hub_step dumps Cleared (ls, b) = ([], ls, clear_logs b)"
| "hub_step dumps OtherOpens (ls, b) = ([], ls, snd (subscribe b))"
| "hub_step dumps (OtherCloses q) (ls, b) = ([], ls, if q = ls_queue ls then b else unsubscribe q b)"
| "hub_step dumps (Turn disconnected) s = stream_turn dumps disconnected s"
| "hub_step dumps ClientGone s = ([], close_log_stream s)"

fun log_run :: "(json \<Rightarrow> string) \<Rightarrow> log_event list \<Rightarrow> log_stream \<times> log_buffer \<Rightarrow> string list \<times> log_stream \<times> log_buffer" where
  "log_run dumps [] s = ([], s)"
| "log_run dumps (ev # evs) s =
     (let (out, s1) = hub_step dumps ev s; (outs, s2) = log_run dumps evs s1 in (out @ outs, s2))"

section \<open>Worktrees\<close>

text \<open>
  git, the file system and docker, on a world of their own: whether a path exists, the exit status and error output of a
  git command, removing a directory (whose errors are logged only), and a container.
\<close>

datatype docker_outcome = CannotStart exc | Finished "int option" string string | TimedOut string string

record 'w host_os =
  os_exists :: "string \<Rightarrow> 'w \<Rightarrow> bool"
  os_git :: "string list \<Rightarrow> 'w \<Rightarrow> (int \<times> string) \<times> 'w"
  os_rmtree :: "string \<Rightarrow> 'w \<Rightarrow> 'w"
  os_docker :: "string list \<Rightarrow> 'w \<Rightarrow> docker_outcome \<times> 'w"

text \<open>\<open>wt_temp\<close> is the directory of temporary files, absolute and without a separator at its end.\<close>

record worktrees =
  wt_temp :: string
  wt_dirs :: "(string, string) dict"

definition init_worktrees :: "string \<Rightarrow> worktrees" where
  "init_worktrees temp = \<lparr>wt_temp = temp, wt_dirs = []\<rparr>"

definition safe_name :: "string \<Rightarrow> string" where
  "safe_name branch = filter (\<lambda>c. is_alnum c \<or> c \<in> {CHR ''-'', CHR ''_''}) branch"

definition worktree_path :: "string \<Rightarrow> string \<Rightarrow> string" where
  "worktree_path temp branch = temp @ ''/node_worktree_'' @ safe_name branch"

definition cleanup_worktree :: "'w host_os \<Rightarrow> string \<Rightarrow> worktrees \<times> 'w \<Rightarrow> worktrees \<times> 'w" where
  "cleanup_worktree os branch = (\<lambda>(m, w).
     let dir = (case dget (wt_dirs m) branch of
            None \<Rightarrow> worktree_path (wt_temp m) branch
          | Some p \<Rightarrow> if p = [] then worktree_path (wt_temp m) branch else p);
         w1 = snd (os_git os [''git'', ''worktree'', ''remove'', ''-f'', dir] w);
         w2 = snd (os_git os [''git'', ''worktree'', ''prune''] w1);
         w3 = (if os_exists os dir w2 then os_rmtree os dir w2 else w2)
     in (m\<lparr>wt_dirs := ddel branch (wt_dirs m)\<rparr>, w3))"

definition add_command :: "'w host_os \<Rightarrow> string \<Rightarrow> string \<Rightarrow> 'w \<Rightarrow> string list \<times> 'w" where
  "add_command os branch dir w =
     (case os_git os [''git'', ''show-ref'', ''--verify'', ''refs/heads/'' @ branch] w of
        ((status, err), w1) \<Rightarrow>
          (if status \<noteq> 0 then [''git'', ''worktree'', ''add'', ''-b'', branch, dir] else [''git'', ''worktree'', ''add'', dir, branch], w1))"

definition create_worktree :: "'w host_os \<Rightarrow> string \<Rightarrow> worktrees \<times> 'w \<Rightarrow> string res \<times> worktrees \<times> 'w" where
  "create_worktree os branch = (\<lambda>(m, w).
     let dir = worktree_path (wt_temp m) branch;
         (m1, w1) = (if os_exists os dir w then cleanup_worktree os branch (m, w) else (m, w));
         (cmd, w2) = add_command os branch dir w1;
         registered = m1\<lparr>wt_dirs := dset branch dir (wt_dirs m1)\<rparr>
     in case os_git os cmd w2 of
          ((status, err), w3) \<Rightarrow>
            if status = 0 then (Inr dir, registered, w3)
            else if \<not> py_in ''already exists'' err \<and> \<not> py_in ''already registered'' err
            then (Inl (OtherError ''RuntimeError: Failed to create git worktree''), m1, w3)
            else (let w4 = snd (os_git os [''git'', ''worktree'', ''prune''] w3)
                  in case os_git os cmd w4 of
                       ((status', err'), w5) \<Rightarrow>
                         if status' \<noteq> 0 then (Inl (OtherError ''RuntimeError: Failed to create git worktree on retry''), m1, w5)
                         else (Inr dir, registered, w5)))"

section \<open>Commands in a container\<close>

record completed =
  cp_args :: "string list"
  cp_returncode :: int
  cp_stdout :: string
  cp_stderr :: string

text \<open>\<open>ids\<close> are the user and group of this process; \<open>None\<close> on Windows.\<close>

definition docker_command :: "(int \<times> int) option \<Rightarrow> string \<Rightarrow> string \<Rightarrow> string list \<Rightarrow> string list" where
  "docker_command ids dir img command =
     [''docker'', ''run'', ''--rm'', ''-v'', dir @ '':/workspace'', ''-w'', ''/workspace'', ''--memory'', ''512m'', ''--network'', ''none'']
     @ (case ids of None \<Rightarrow> [] | Some (uid, gid) \<Rightarrow> if uid \<noteq> 0 then [''--user'', str_of_int uid @ '':'' @ str_of_int gid] else [])
     @ [img] @ command"

definition output_lines :: "(string \<Rightarrow> string) \<Rightarrow> string \<Rightarrow> string \<Rightarrow> (string \<times> string) list" where
  "output_lines decode stream out =
     (if out = [] then [] else map (Pair stream) (filter (\<lambda>l. py_strip l \<noteq> []) (py_splitlines (decode out))))"

text \<open>\<open>stamps\<close> reads the clock for each entry.\<close>

definition log_all :: "(nat \<Rightarrow> string) \<Rightarrow> string \<Rightarrow> (string \<times> string) list \<Rightarrow> log_buffer \<Rightarrow> log_buffer" where
  "log_all stamps branch msgs b =
     fold (\<lambda>(i, stream, message). add_log (stamps i) message stream branch) (enumerate 0 msgs) b"

definition execute_in_sandbox :: "'w host_os \<Rightarrow> (string \<Rightarrow> string) \<Rightarrow> (nat \<Rightarrow> string) \<Rightarrow> (int \<times> int) option \<Rightarrow> string \<Rightarrow> string list
    \<Rightarrow> string \<Rightarrow> worktrees \<Rightarrow> log_buffer \<times> 'w \<Rightarrow> completed res \<times> log_buffer \<times> 'w" where
  "execute_in_sandbox os decode stamps ids branch command img m = (\<lambda>(b, w).
     let missing = (Inl (ValueError ''No active worktree found for branch''), b, w)
     in case dget (wt_dirs m) branch of
          None \<Rightarrow> missing
        | Some dir \<Rightarrow>
            if dir = [] then missing
            else (let cmd = docker_command ids dir img command
                  in case os_docker os cmd w of
                       (CannotStart e, w') \<Rightarrow> (Inl e, b, w')
                     | (TimedOut out err, w') \<Rightarrow>
                         (Inl (OtherError ''TimeoutError: Sandbox execution exceeded timeout limit.''),
                          log_all stamps branch (output_lines decode ''stdout'' out @ output_lines decode ''stderr'' err
                            @ [(''stderr'', ''Sandbox execution timed out on branch '' @ branch @ ''.'')]) b, w')
                     | (Finished status out err, w') \<Rightarrow>
                         (Inr \<lparr>cp_args = cmd, cp_returncode = (case status of None \<Rightarrow> 0 | Some n \<Rightarrow> n), cp_stdout = out, cp_stderr = err\<rparr>,
                          log_all stamps branch (output_lines decode ''stdout'' out @ output_lines decode ''stderr'' err) b, w')))"

section \<open>Control\<close>

definition control_response :: "string \<Rightarrow> node_runtime \<Rightarrow> json" where
  "control_response action rt =
     JObj [(''status'', JStr ''ok''), (''action'', JStr action), (''runtime_running'', JBool (rn_running rt))]"

text \<open>The runtime of the application is created on demand. What starting needs is that of \<open>start_runtime\<close>.\<close>

definition control_node :: "'w send \<Rightarrow> node_settings \<Rightarrow> (model_info list \<Rightarrow> gpu_info \<Rightarrow> node_info res) \<Rightarrow> model_info list res \<Rightarrow> gpu_info res
    \<Rightarrow> bool \<Rightarrow> string \<Rightarrow> node_runtime option \<times> 'w \<Rightarrow> json res \<times> node_runtime option \<times> 'w" where
  "control_node send st build listing g session wanted = (\<lambda>(app, w).
     let action = py_lower (py_strip wanted)
     in if action \<notin> {''start'', ''stop''} then (Inl (HTTPException 400 ''Invalid action. Must be start or stop.''), app, w)
        else
          let rt = (case app of None \<Rightarrow> init_runtime | Some rt \<Rightarrow> rt)
          in if action = ''start'' \<and> \<not> rn_running rt
             then (case start_runtime send st build listing g session (rt, w) of
                 (Inl e, rt', w') \<Rightarrow> (Inl e, Some rt', w')
               | (Inr _, rt', w') \<Rightarrow> (Inr (control_response action rt'), Some rt', w'))
             else if action = ''stop'' \<and> rn_running rt
             then (case stop_runtime send st (rt, w) of (rt', w') \<Rightarrow> (Inr (control_response action rt'), Some rt', w'))
             else (Inr (control_response action rt), Some rt, w))"

text \<open>Every route of the router depends on \<^verbatim>\<open>verify_node_auth\<close>.\<close>

definition node_guarded :: "string option \<Rightarrow> string option \<Rightarrow> ('s \<Rightarrow> 'a res \<times> 's) \<Rightarrow> 's \<Rightarrow> 'a res \<times> 's" where
  "node_guarded token header handler s = (case verify_node_auth token header of Inl e \<Rightarrow> (Inl e, s) | Inr _ \<Rightarrow> handler s)"

text \<open>\<open>wan\<close> is what the Zenoh client says of its session.\<close>

definition node_telemetry :: "string \<Rightarrow> node_runtime option \<Rightarrow> bool \<Rightarrow> host \<Rightarrow> json res" where
  "node_telemetry nid app wan ho =
     rbind (collect ho) (\<lambda>ms.
     rbind (py_float (dget_or ms ''cpu_utilization'' (JFloat (Fin 0)))) (\<lambda>cpu.
     rbind (py_int (dget_or ms ''ram_used_bytes'' (JInt 0))) (\<lambda>ram_used.
     rbind (py_int (dget_or ms ''ram_total_bytes'' (JInt 0))) (\<lambda>ram_total.
     rbind (py_float (dget_or ms ''gpu_utilization'' (JFloat (Fin 0)))) (\<lambda>gpu.
     rbind (py_int (dget_or ms ''vram_used_bytes'' (JInt 0))) (\<lambda>vram_used.
     rbind (py_int (dget_or ms ''vram_total_bytes'' (JInt 0))) (\<lambda>vram_total.
       let running = (case app of None \<Rightarrow> False | Some rt \<Rightarrow> rn_running rt)
       in Inr (JObj [(''node_id'', JStr nid), (''cpu_utilization'', JFloat cpu), (''ram_used_bytes'', JInt ram_used),
            (''ram_total_bytes'', JInt ram_total), (''gpu_utilization'', JFloat gpu), (''vram_used_bytes'', JInt vram_used),
            (''vram_total_bytes'', JInt vram_total), (''wan_connected'', JBool (running \<and> wan)),
            (''status'', JStr (if running then ''ready'' else ''stopped''))]))))))))"

section \<open>Streams lose and repeat nothing\<close>

fun logged_by :: "log_event \<Rightarrow> sandbox_entry list" where
  "logged_by (Logged timestamp message stream branch) =
     [\<lparr>le_timestamp = timestamp, le_stream = stream, le_branch = branch, le_message = message\<rparr>]"
| "logged_by _ = []"

definition logged :: "log_event list \<Rightarrow> sandbox_entry list" where
  "logged evs = concat (map logged_by evs)"

definition data_frames :: "string list \<Rightarrow> string list" where
  "data_frames out = filter (\<lambda>c. c \<noteq> KEEP_ALIVE) out"

definition outstanding :: "log_stream \<times> log_buffer \<Rightarrow> sandbox_entry list" where
  "outstanding s = (case s of (ls, b) \<Rightarrow> ls_pending ls @ queue_of (ls_queue ls) b)"

definition stream_ok :: "log_stream \<times> log_buffer \<Rightarrow> bool" where
  "stream_ok s = (case s of (ls, b) \<Rightarrow>
     dict_ok (lb_subscribers b) \<and> (\<forall>q. dmem q (lb_subscribers b) \<longrightarrow> q < lb_next b)
   \<and> ls_queue ls < lb_next b \<and> (dmem (ls_queue ls) (lb_subscribers b) \<longleftrightarrow> \<not> ls_done ls)
   \<and> 0 \<le> ls_count ls \<and> (\<forall>m. ls_max ls = Some m \<longrightarrow> ls_count ls \<le> max 1 m \<and> (\<not> ls_full ls \<longrightarrow> ls_count ls < max 1 m)))"

lemma frame_not_keep_alive [simp]: "log_frame dumps e \<noteq> KEEP_ALIVE"
  by (simp add: log_frame_def KEEP_ALIVE_def)

lemma dget_map_values: "dget (map (\<lambda>(q, xs). (q, f xs)) d) k = map_option f (dget d k)"
  by (induction d) auto

lemma fst_map_values [simp]: "fst \<circ> (\<lambda>(q, xs). (q, f xs)) = fst"
  by auto

lemma dmem_map_values [simp]: "dmem k (map (\<lambda>(q, xs). (q, f xs)) d) = dmem k d"
  by (simp add: dmem_def dget_map_values)

lemma dget_append: "dget (d @ e) k = (case dget d k of None \<Rightarrow> dget e k | Some v \<Rightarrow> Some v)"
  by (induction d) auto

lemma dmem_append: "dmem k (d @ e) \<longleftrightarrow> dmem k d \<or> dmem k e"
  by (simp add: dmem_def dget_append split: option.splits)

lemma dmem_single: "dmem k [(k', v)] \<longleftrightarrow> k = k'"
  by (auto simp: dmem_def)

lemma queue_add: "queue_of q (add_log t m st br b)
    = (if dmem q (lb_subscribers b) then queue_of q b @ logged_by (Logged t m st br) else [])"
  by (simp add: queue_of_def add_log_def dget_map_values dmem_def Let_def split: option.splits)

lemma stream_ok_buffer:
  assumes "stream_ok (ls, b)"
  shows "stream_ok (ls, add_log t m st br b)" "stream_ok (ls, clear_logs b)" "stream_ok (ls, snd (subscribe b))"
    "q \<noteq> ls_queue ls \<Longrightarrow> stream_ok (ls, unsubscribe q b)" "stream_ok (close_log_stream (ls, b))"
    "\<not> ls_done ls \<Longrightarrow> stream_ok (ls, b\<lparr>lb_subscribers := dset (ls_queue ls) es (lb_subscribers b)\<rparr>)"
proof -
  show "stream_ok (ls, snd (subscribe b))"
    using assms by (auto simp: stream_ok_def subscribe_def dmem_append dmem_iff)
qed (use assms in \<open>auto simp: stream_ok_def add_log_def clear_logs_def unsubscribe_def close_log_stream_def Let_def dict_simps\<close>)

lemma queue_other:
  "stream_ok (ls, b) \<Longrightarrow> queue_of (ls_queue ls) (snd (subscribe b)) = queue_of (ls_queue ls) b"
  "q \<noteq> ls_queue ls \<Longrightarrow> queue_of (ls_queue ls) (unsubscribe q b) = queue_of (ls_queue ls) b"
  "queue_of q (clear_logs b) = queue_of q b"
  by (auto simp: queue_of_def subscribe_def unsubscribe_def clear_logs_def dget_append stream_ok_def dict_simps split: option.splits)

lemma stream_ok_count:
  "stream_ok (ls, b) \<Longrightarrow> \<not> ls_full ls \<Longrightarrow> stream_ok (count_event ls, b)"
  "stream_ok (ls, b) \<Longrightarrow> stream_ok (ls\<lparr>ls_pending := es\<rparr>, b)"
  by (auto simp: stream_ok_def count_event_def Let_def split: option.splits)

text \<open>One resumption of an open stream: it ends, it waits, or it yields the next entry.\<close>

lemma turn_cases:
  assumes "stream_turn dumps g (ls, b) = (out, s')" "\<not> ls_done ls"
  obtains (ends) "out = []" "s' = close_log_stream (ls, b)"
  | (waits) "out = [KEEP_ALIVE]" "s' = (ls, b)" "ls_max ls = None"
  | (replays) e es where "ls_pending ls = e # es" "out = [log_frame dumps e]" "s' = (count_event (ls\<lparr>ls_pending := es\<rparr>), b)" "\<not> ls_full ls"
  | (relays) e es where "ls_pending ls = []" "queue_of (ls_queue ls) b = e # es" "out = [log_frame dumps e]" "\<not> ls_full ls"
      "s' = (count_event ls, b\<lparr>lb_subscribers := dset (ls_queue ls) es (lb_subscribers b)\<rparr>)"
  using assms unfolding stream_turn_def by (auto split: if_splits list.splits)

lemma turn_step:
  assumes "stream_ok (ls, b)" "stream_turn dumps g (ls, b) = (out, ls', b')"
  shows "stream_ok (ls', b') \<and> (ls_done ls \<longrightarrow> ls_done ls') \<and> ls_max ls' = ls_max ls \<and> ls_queue ls' = ls_queue ls
    \<and> ls_count ls' = ls_count ls + int (length (data_frames out))
    \<and> (if ls_done ls' then data_frames out = []
       else data_frames out @ map (log_frame dumps) (outstanding (ls', b')) = map (log_frame dumps) (outstanding (ls, b))
         \<and> (ls_max ls \<noteq> None \<longrightarrow> length (data_frames out) = 1))"
proof (cases "ls_done ls")
  case True
  then show ?thesis using assms by (simp add: stream_turn_def data_frames_def)
next
  case False
  from assms(2) False show ?thesis
  proof (cases rule: turn_cases)
    case ends
    then show ?thesis using stream_ok_buffer(5) [OF assms(1)] by (auto simp: close_log_stream_def data_frames_def)
  next
    case waits
    then show ?thesis using assms(1) False by (simp add: data_frames_def)
  next
    case (replays e es)
    then have "stream_ok (count_event (ls\<lparr>ls_pending := es\<rparr>), b)"
      using assms(1) by (intro stream_ok_count) simp_all
    then show ?thesis using replays False by (simp add: count_event_def data_frames_def outstanding_def Let_def)
  next
    case (relays e es)
    then have "stream_ok (count_event ls, b\<lparr>lb_subscribers := dset (ls_queue ls) es (lb_subscribers b)\<rparr>)"
      using stream_ok_buffer(6) [OF assms(1) False] by (intro stream_ok_count)
    then show ?thesis using relays False
      by (simp add: count_event_def data_frames_def outstanding_def queue_of_def dict_simps Let_def)
  qed
qed

lemma stream_step:
  assumes "stream_ok (ls, b)" "hub_step dumps ev (ls, b) = (out, ls', b')"
  shows "stream_ok (ls', b') \<and> (ls_done ls \<longrightarrow> ls_done ls') \<and> ls_max ls' = ls_max ls \<and> ls_queue ls' = ls_queue ls
    \<and> ls_count ls' = ls_count ls + int (length (data_frames out))
    \<and> (if ls_done ls' then data_frames out = []
       else data_frames out @ map (log_frame dumps) (outstanding (ls', b')) = map (log_frame dumps) (outstanding (ls, b) @ logged_by ev)
         \<and> (ls_max ls \<noteq> None \<longrightarrow> length (data_frames out) = (case ev of Turn _ \<Rightarrow> 1 | _ \<Rightarrow> 0)))"
proof (cases ev)
  case (Logged t m st br)
  have "queue_of (ls_queue ls) (add_log t m st br b) = queue_of (ls_queue ls) b @ logged_by ev" if "\<not> ls_done ls"
    using that assms(1) Logged by (simp add: queue_add stream_ok_def)
  then show ?thesis using assms Logged stream_ok_buffer(1) [OF assms(1)] by (auto simp: data_frames_def outstanding_def)
next
  case Cleared
  then show ?thesis using assms stream_ok_buffer(2) [OF assms(1)] by (auto simp: data_frames_def outstanding_def queue_other)
next
  case OtherOpens
  then show ?thesis
    using assms stream_ok_buffer(3) [OF assms(1)] queue_other(1) [OF assms(1)] by (auto simp: data_frames_def outstanding_def)
next
  case (OtherCloses q)
  then show ?thesis
    using assms stream_ok_buffer(4) [OF assms(1)] by (auto simp: data_frames_def outstanding_def queue_other split: if_splits)
next
  case (Turn g)
  then show ?thesis using assms turn_step [OF assms(1), of dumps g out ls' b'] by simp
next
  case ClientGone
  then show ?thesis using assms stream_ok_buffer(5) [OF assms(1)] by (auto simp: data_frames_def close_log_stream_def)
qed

definition turns :: "log_event list \<Rightarrow> nat" where
  "turns evs = length (filter (\<lambda>ev. case ev of Turn _ \<Rightarrow> True | _ \<Rightarrow> False) evs)"

lemma data_frames_append: "data_frames (xs @ ys) = data_frames xs @ data_frames ys"
  by (simp add: data_frames_def)

lemma run_closed:
  assumes "log_run dumps evs s = (out, s')" "stream_ok s" "ls_done (fst s)"
  shows "data_frames out = [] \<and> ls_done (fst s')"
  using assms
proof (induction evs arbitrary: s out)
  case Nil
  then show ?case by (simp add: data_frames_def)
next
  case (Cons ev evs)
  obtain o1 s1 where h: "hub_step dumps ev s = (o1, s1)" by (metis surj_pair)
  obtain o2 where r: "log_run dumps evs s1 = (o2, s')" "out = o1 @ o2" using Cons.prems(1) h by (auto split: prod.splits)
  have "stream_ok s1 \<and> ls_done (fst s1) \<and> data_frames o1 = []"
    using stream_step [of "fst s" "snd s" dumps ev o1 "fst s1" "snd s1"] h Cons.prems(2,3) by simp
  then show ?case using Cons.IH [OF r(1)] r(2) by (simp add: data_frames_append)
qed

lemma run_stream:
  assumes "log_run dumps evs s = (out, s')" "stream_ok s"
  shows "stream_ok s' \<and> ls_max (fst s') = ls_max (fst s) \<and> ls_queue (fst s') = ls_queue (fst s)
    \<and> ls_count (fst s') = ls_count (fst s) + int (length (data_frames out))
    \<and> (\<exists>rest. data_frames out @ map (log_frame dumps) rest = map (log_frame dumps) (outstanding s @ logged evs)
        \<and> (\<not> ls_done (fst s') \<longrightarrow> map (log_frame dumps) rest = map (log_frame dumps) (outstanding s')
            \<and> (ls_max (fst s) \<noteq> None \<longrightarrow> length (data_frames out) = turns evs)))"
  using assms
proof (induction evs arbitrary: s out)
  case Nil
  then show ?case by (auto simp: data_frames_def logged_def turns_def)
next
  case (Cons ev evs)
  obtain o1 s1 where h: "hub_step dumps ev s = (o1, s1)" by (metis surj_pair)
  obtain o2 where r: "log_run dumps evs s1 = (o2, s')" "out = o1 @ o2" using Cons.prems(1) h by (auto split: prod.splits)
  note st = stream_step [of "fst s" "snd s" dumps ev o1 "fst s1" "snd s1"]
  have one: "stream_ok s1" "ls_max (fst s1) = ls_max (fst s)" "ls_queue (fst s1) = ls_queue (fst s)"
      "ls_count (fst s1) = ls_count (fst s) + int (length (data_frames o1))"
    using st h Cons.prems(2) by simp_all
  from Cons.IH [OF r(1) one(1)] obtain rest where rest:
      "stream_ok s'" "ls_max (fst s') = ls_max (fst s)" "ls_queue (fst s') = ls_queue (fst s)"
      "ls_count (fst s') = ls_count (fst s1) + int (length (data_frames o2))"
      "data_frames o2 @ map (log_frame dumps) rest = map (log_frame dumps) (outstanding s1 @ logged evs)"
      "\<not> ls_done (fst s') \<longrightarrow> map (log_frame dumps) rest = map (log_frame dumps) (outstanding s')
            \<and> (ls_max (fst s) \<noteq> None \<longrightarrow> length (data_frames o2) = turns evs)"
    using one by auto
  show ?case
  proof (cases "ls_done (fst s1)")
    case True
    then have "data_frames out = []" "ls_done (fst s')"
      using run_closed [OF r(1) one(1)] st h Cons.prems(2) r(2) by (simp_all add: data_frames_append)
    then show ?thesis using rest(1-4) one(4) r(2)
      by (intro conjI exI [of _ "outstanding s @ logged (ev # evs)"]) (simp_all add: data_frames_append)
  next
    case False
    then have d: "data_frames o1 @ map (log_frame dumps) (outstanding s1) = map (log_frame dumps) (outstanding s @ logged_by ev)"
        "ls_max (fst s) \<noteq> None \<longrightarrow> length (data_frames o1) = (case ev of Turn _ \<Rightarrow> 1 | _ \<Rightarrow> 0)"
      using st h Cons.prems(2) by (simp_all del: map_append)
    have "data_frames out @ map (log_frame dumps) rest = data_frames o1 @ map (log_frame dumps) (outstanding s1 @ logged evs)"
      using rest(5) r(2) by (simp add: data_frames_append)
    also have "... = map (log_frame dumps) (outstanding s @ logged (ev # evs))"
      using d(1) by (simp add: logged_def)
    finally show ?thesis
      using rest(1-4,6) one(4) r(2) d(2) by (intro conjI exI [of _ rest]) (auto simp: data_frames_append turns_def split: log_event.splits)
  qed
qed

lemma stream_ok_open:
  assumes "dict_ok (lb_subscribers b)" "\<forall>q. dmem q (lb_subscribers b) \<longrightarrow> q < lb_next b" "open_log_stream max_events b = (ls, b1)"
  shows "stream_ok (ls, b1) \<and> outstanding (ls, b1) = get_logs (Some 50) b \<and> ls_max ls = max_events \<and> ls_count ls = 0 \<and> \<not> ls_done ls"
proof -
  have fresh: "\<not> dmem (lb_next b) (lb_subscribers b)" using assms(2) by blast
  then have none: "dget (lb_subscribers b) (lb_next b) = None" "lb_next b \<notin> set (dkeys (lb_subscribers b))"
    by (simp add: dmem_def, simp add: dmem_iff)
  have "dmem q (lb_subscribers b) \<Longrightarrow> q < Suc (lb_next b)" for q using assms(2) by (simp add: less_SucI)
  then show ?thesis
    using assms(1,3) none
    by (auto simp: open_log_stream_def subscribe_def stream_ok_def outstanding_def queue_of_def get_logs_def dmem_append dget_append dmem_single map_add_def)
qed

text \<open>The buffer holds the newest entries since it was last cleared.\<close>

fun since_cleared :: "log_event list \<Rightarrow> sandbox_entry list \<Rightarrow> sandbox_entry list" where
  "since_cleared [] es = es"
| "since_cleared (Cleared # evs) es = since_cleared evs []"
| "since_cleared (ev # evs) es = since_cleared evs (es @ logged_by ev)"

lemma newest_snoc: "newest n (newest n xs @ [x]) = newest n (xs @ [x])"
  by (cases "n \<le> length xs") (auto simp: newest_def Suc_diff_le)

lemma newest_append: "newest n (newest n xs @ ys) = newest n (xs @ ys)"
proof (induction ys rule: rev_induct)
  case (snoc y ys)
  have "newest n (newest n xs @ ys @ [y]) = newest n (newest n (newest n xs @ ys) @ [y])" using newest_snoc [of n "newest n xs @ ys" y] by simp
  also have "... = newest n (newest n (xs @ ys) @ [y])" using snoc.IH by simp
  finally show ?case by (simp add: newest_snoc)
qed (simp add: newest_def)

lemma turn_entries:
  assumes "hub_step dumps ev (ls, b) = (out, ls', b')" "\<And>t m st br. ev \<noteq> Logged t m st br" "ev \<noteq> Cleared"
  shows "lb_entries b' = lb_entries b \<and> lb_maxlen b' = lb_maxlen b \<and> logged_by ev = []"
  using assms
  by (cases ev) (auto simp: stream_turn_def close_log_stream_def unsubscribe_def subscribe_def split: if_splits list.splits)

lemma buffer_newest:
  assumes "log_run dumps evs (ls, b) = (out, ls', b')" "lb_entries b = newest (lb_maxlen b) es"
  shows "lb_entries b' = newest (lb_maxlen b) (since_cleared evs es) \<and> lb_maxlen b' = lb_maxlen b"
  using assms
proof (induction evs arbitrary: ls b es out)
  case Nil
  then show ?case by simp
next
  case (Cons ev evs)
  obtain o1 ls1 b1 where h: "hub_step dumps ev (ls, b) = (o1, ls1, b1)" by (metis surj_pair)
  obtain o2 where r: "log_run dumps evs (ls1, b1) = (o2, ls', b')" using Cons.prems(1) h by (auto split: prod.splits)
  have m: "lb_maxlen b1 = lb_maxlen b"
    using h turn_entries [OF h] by (cases ev) (auto simp: add_log_def clear_logs_def Let_def)
  show ?case
  proof (cases ev)
    case (Logged t m' st br)
    then have "lb_entries b1 = newest (lb_maxlen b1) (es @ logged_by ev)"
      using h Cons.prems(2) by (auto simp: add_log_def newest_snoc Let_def)
    from Cons.IH [OF r this] show ?thesis using Logged m by simp
  next
    case Cleared
    then have "lb_entries b1 = newest (lb_maxlen b1) []" using h by (auto simp: clear_logs_def newest_def)
    from Cons.IH [OF r this] show ?thesis using Cleared m by simp
  qed (use turn_entries [OF h] Cons.prems(2) Cons.IH [OF r, of es] m in auto)
qed


section \<open>Worktrees and their directories\<close>

datatype worktree_op = CreateWorktree string | CleanupWorktree string

fun worktree_step :: "'w host_os \<Rightarrow> worktree_op \<Rightarrow> worktrees \<times> 'w \<Rightarrow> worktrees \<times> 'w" where
  "worktree_step os (CreateWorktree branch) s = snd (create_worktree os branch s)"
| "worktree_step os (CleanupWorktree branch) s = cleanup_worktree os branch s"

definition worktree_run :: "'w host_os \<Rightarrow> worktree_op list \<Rightarrow> worktrees \<times> 'w \<Rightarrow> worktrees \<times> 'w" where
  "worktree_run os ops s = fold (worktree_step os) ops s"

definition worktrees_ok :: "string \<Rightarrow> worktrees \<Rightarrow> bool" where
  "worktrees_ok temp m \<longleftrightarrow> wt_temp m = temp \<and> (\<forall>branch d. dget (wt_dirs m) branch = Some d \<longrightarrow> d = worktree_path temp branch)"

lemma worktrees_ok_cleanup: "worktrees_ok temp m \<Longrightarrow> worktrees_ok temp (fst (cleanup_worktree os branch (m, w)))"
  by (simp add: worktrees_ok_def cleanup_worktree_def dict_simps Let_def)

lemma worktrees_ok_create:
  assumes "worktrees_ok temp m" "create_worktree os branch (m, w) = (r, m', w')"
  shows "worktrees_ok temp m'" "r = Inr d \<Longrightarrow> dget (wt_dirs m') branch = Some d \<and> d = worktree_path temp branch"
proof -
  obtain m1 w1 where m1: "(if os_exists os (worktree_path (wt_temp m) branch) w then cleanup_worktree os branch (m, w) else (m, w)) = (m1, w1)"
    by (metis surj_pair)
  have "worktrees_ok temp m1" using worktrees_ok_cleanup [OF assms(1), of os branch w] assms(1) m1 by (metis fst_conv)
  then show "worktrees_ok temp m'" "r = Inr d \<Longrightarrow> dget (wt_dirs m') branch = Some d \<and> d = worktree_path temp branch"
    using assms m1 by (auto simp: create_worktree_def worktrees_ok_def dict_simps Let_def split: prod.splits if_splits)
qed

lemma worktrees_ok_run: "worktrees_ok temp (fst s) \<Longrightarrow> worktrees_ok temp (fst (worktree_run os ops s))"
proof (induction ops arbitrary: s)
  case Nil
  then show ?case by (simp add: worktree_run_def)
next
  case (Cons op ops)
  have "worktrees_ok temp (fst (worktree_step os op s))"
  proof (cases op)
    case (CreateWorktree branch)
    obtain r m' w' where "create_worktree os branch s = (r, m', w')" by (metis surj_pair)
    then show ?thesis using worktrees_ok_create(1) [of temp "fst s" os branch "snd s"] Cons.prems CreateWorktree by simp
  next
    case (CleanupWorktree branch)
    then show ?thesis using worktrees_ok_cleanup [OF Cons.prems, of os branch "snd s"] by simp
  qed
  then show ?case using Cons.IH by (simp add: worktree_run_def)
qed

lemma safe_name_chars: "CHR ''/'' \<notin> set (safe_name branch)"
  by (simp add: safe_name_def is_alnum_def is_digit_def)

lemma worktree_path_inject: "worktree_path temp branch = worktree_path temp branch' \<longleftrightarrow> safe_name branch = safe_name branch'"
  by (simp add: worktree_path_def)

lemma log_all_entries:
  "\<exists>es. lb_entries (fold (\<lambda>(i, stream, message). add_log (stamps i) message stream branch) (enumerate n msgs) b)
      = newest (lb_maxlen b) (lb_entries b @ es)
    \<and> map (\<lambda>e. (le_stream e, le_message e)) es = msgs \<and> (\<forall>e\<in>set es. le_branch e = branch)"
  if "lb_entries b = newest (lb_maxlen b) (lb_entries b)"
  using that
proof (induction msgs arbitrary: n b)
  case Nil
  then show ?case by (intro exI [of _ "[]"]) simp
next
  case (Cons msg msgs)
  obtain st me where msg: "msg = (st, me)" by fastforce
  let ?e = "\<lparr>le_timestamp = stamps n, le_stream = st, le_branch = branch, le_message = me\<rparr>"
  let ?b = "add_log (stamps n) me st branch b"
  have b: "lb_entries ?b = newest (lb_maxlen b) (lb_entries b @ [?e])" "lb_maxlen ?b = lb_maxlen b"
    by (simp_all add: add_log_def Let_def)
  then have "lb_entries ?b = newest (lb_maxlen ?b) (lb_entries ?b)" by (simp add: newest_def)
  from Cons.IH [OF this, of "Suc n"] obtain es where es:
      "lb_entries (fold (\<lambda>(i, stream, message). add_log (stamps i) message stream branch) (enumerate (Suc n) msgs) ?b)
        = newest (lb_maxlen b) (lb_entries ?b @ es)"
      "map (\<lambda>e. (le_stream e, le_message e)) es = msgs" "\<forall>e\<in>set es. le_branch e = branch"
    using b(2) by auto
  moreover have "newest (lb_maxlen b) (newest (lb_maxlen b) (lb_entries b @ [?e]) @ es) = newest (lb_maxlen b) ((lb_entries b @ [?e]) @ es)"
    by (rule newest_append)
  ultimately show ?case using b(1) msg by (intro exI [of _ "?e # es"]) simp
qed

section \<open>Properties\<close>

text \<open>
  C34. A log stream loses and repeats nothing. However entries, resumptions, other readers and clearing of the buffer
  interleave, the data frames a stream has sent are, in order, a beginning of the last 50 entries at its start followed by
  every entry added since; while it is open, the rest is exactly what it still holds. A stream with a limit sends at most
  that many (but one in any case) and ends once it was resumed more often; a stream that ended has given up its queue.
\<close>

theorem log_stream_exactly_once:
  assumes "dict_ok (lb_subscribers b0)" "\<forall>q. dmem q (lb_subscribers b0) \<longrightarrow> q < lb_next b0"
    and "open_log_stream max_events b0 = (ls0, b1)" "log_run dumps evs (ls0, b1) = (out, ls, b)"
  shows "\<exists>rest. data_frames out @ rest = map (log_frame dumps) (get_logs (Some 50) b0 @ logged evs)
    \<and> (\<not> ls_done ls \<longrightarrow> rest = map (log_frame dumps) (outstanding (ls, b)))
    \<and> (\<forall>m. max_events = Some m \<longrightarrow>
         int (length (data_frames out)) \<le> max 1 m \<and> (max 1 m < int (turns evs) \<longrightarrow> ls_done ls))
    \<and> (ls_done ls \<longrightarrow> \<not> dmem (ls_queue ls) (lb_subscribers b))"
proof -
  from stream_ok_open [OF assms(1-3)]
  have o: "stream_ok (ls0, b1)" "outstanding (ls0, b1) = get_logs (Some 50) b0" "ls_max ls0 = max_events" "ls_count ls0 = 0"
    by simp_all
  from run_stream [OF assms(4) o(1)] obtain rest where r: "stream_ok (ls, b)" "ls_max ls = max_events"
      "ls_count ls = int (length (data_frames out))"
      "data_frames out @ map (log_frame dumps) rest = map (log_frame dumps) (get_logs (Some 50) b0 @ logged evs)"
      "\<not> ls_done ls \<longrightarrow> map (log_frame dumps) rest = map (log_frame dumps) (outstanding (ls, b))
         \<and> (max_events \<noteq> None \<longrightarrow> length (data_frames out) = turns evs)"
    using o by auto
  then have "int (length (data_frames out)) \<le> max 1 m" if "max_events = Some m" for m
    using that by (simp add: stream_ok_def)
  then show ?thesis using r by (intro exI [of _ "map (log_frame dumps) rest"]) (auto simp: stream_ok_def)
qed


lemma start_done:
  assumes "start_runtime send st build listing g session (rt, w) = (Inr u, rt', w')" "never_raises send"
  shows "rn_running rt'"
proof (cases "rn_running rt")
  case True
  then show ?thesis using assms(1) by (simp add: start_runtime_def)
next
  case False
  define models gi where "models = (case listing of Inl _ \<Rightarrow> [] | Inr ms \<Rightarrow> ms)" and "gi = (case g of Inl _ \<Rightarrow> cpu_only_gpu | Inr g \<Rightarrow> g)"
  show ?thesis
  proof (cases "build models gi")
    case (Inl e)
    then show ?thesis using assms(1) False by (simp add: start_runtime_def Let_def models_def gi_def)
  next
    case (Inr ni)
    let ?rt = "rt\<lparr>rn_running := True, rn_status := Starting, rn_node_info := Some ni\<rparr>"
    obtain a rt1 w1 where a: "attempt_registration send st ni (?rt, w) = (a, rt1, w1)" by (metis surj_pair)
    show ?thesis
      using attempt_fields [OF a assms(2)] assms(1) False Inr a
      by (cases a) (auto simp: start_runtime_def Let_def models_def gi_def arm_registration_retry_def)
  qed
qed

text \<open>
  The control route does what it says, for those who may. Without the credential of the Node, or when none is configured,
  it answers 401 and nothing changes. An answer of success names the action asked for; the runtime then runs exactly if that
  was to start, with all its tasks or none, and asking again changes nothing.
\<close>

theorem control_effect:
  assumes "node_guarded token header (control_node send st build listing g session wanted) (app, w) = (res, app', w')"
    and "never_raises send" "\<forall>rt. app = Some rt \<longrightarrow> lifecycle_ok rt"
  shows "(header \<noteq> token \<or> token \<in> {None, Some []} \<longrightarrow> (\<exists>msg. res = Inl (HTTPException 401 msg)) \<and> app' = app \<and> w' = w)
    \<and> (\<forall>v. res = Inr v \<longrightarrow> (\<exists>rt action. app' = Some rt \<and> action = py_lower (py_strip wanted) \<and> action \<in> {''start'', ''stop''}
        \<and> v = control_response action rt \<and> (rn_running rt \<longleftrightarrow> action = ''start'') \<and> lifecycle_ok rt
        \<and> node_guarded token header (control_node send st build' listing' g' session' wanted) (app', w') = (Inr v, app', w')))"
proof -
  let ?action = "py_lower (py_strip wanted)"
  define rt0 where "rt0 = (case app of None \<Rightarrow> init_runtime | Some rt \<Rightarrow> rt)"
  have ok0: "lifecycle_ok rt0"
    using assms(3) by (auto simp: rt0_def init_runtime_def lifecycle_ok_def split: option.splits)
  have deny: "header \<noteq> token \<or> token \<in> {None, Some []} \<longrightarrow> (\<exists>msg. res = Inl (HTTPException 401 msg)) \<and> app' = app \<and> w' = w"
    using assms(1) by (auto simp: node_guarded_def verify_node_auth_def split: option.splits if_splits)
  have grant: "\<exists>rt action. app' = Some rt \<and> action = ?action \<and> action \<in> {''start'', ''stop''}
        \<and> v = control_response action rt \<and> (rn_running rt \<longleftrightarrow> action = ''start'') \<and> lifecycle_ok rt
        \<and> node_guarded token header (control_node send st build' listing' g' session' wanted) (app', w') = (Inr v, app', w')"
    if res: "res = Inr v" for v
  proof -
    have auth: "verify_node_auth token header = Inr ()"
      using assms(1) res by (auto simp: node_guarded_def split: sum.splits)
    have c: "control_node send st build listing g session wanted (app, w) = (Inr v, app', w')"
      using assms(1) res auth by (simp add: node_guarded_def)
    have act: "?action \<in> {''start'', ''stop''}" using c by (auto simp: control_node_def Let_def split: if_splits)
    have "\<exists>rt. app' = Some rt \<and> v = control_response ?action rt \<and> (rn_running rt \<longleftrightarrow> ?action = ''start'') \<and> lifecycle_ok rt"
    proof (cases "?action = ''start'' \<and> \<not> rn_running rt0")
      case True
      obtain r rt' w1 where s: "start_runtime send st build listing g session (rt0, w) = (r, rt', w1)" by (metis surj_pair)
      then obtain u where u: "r = Inr u" using c True by (cases r) (simp_all add: control_node_def rt0_def Let_def)
      have "rn_running rt'" using start_done [OF s [unfolded u] assms(2)] .
      moreover have "lifecycle_ok rt'" using lifecycle_start [OF _ assms(2) s] ok0 by simp
      ultimately show ?thesis using c True s u by (auto simp: control_node_def rt0_def Let_def)
    next
      case False
      show ?thesis
      proof (cases "?action = ''stop'' \<and> rn_running rt0")
        case True
        obtain rt' w1 where s: "stop_runtime send st (rt0, w) = (rt', w1)" by fastforce
        have "\<not> rn_running rt'" using s True by (auto simp: stop_runtime_def Let_def)
        moreover have "lifecycle_ok rt'" using lifecycle_turns(1) [OF ok0 assms(2), of st w] s by simp
        ultimately show ?thesis using c True s by (auto simp: control_node_def rt0_def Let_def)
      next
        case keep: False
        then have "app' = Some rt0 \<and> v = control_response ?action rt0"
          using c False act by (auto simp: control_node_def rt0_def Let_def)
        then show ?thesis using ok0 False keep act by auto
      qed
    qed
    then obtain rt where rt: "app' = Some rt" "v = control_response ?action rt" "rn_running rt \<longleftrightarrow> ?action = ''start''" "lifecycle_ok rt"
      by blast
    then have "control_node send st build' listing' g' session' wanted (app', w') = (Inr v, app', w')"
      using act by (auto simp: control_node_def Let_def)
    then have "node_guarded token header (control_node send st build' listing' g' session' wanted) (app', w') = (Inr v, app', w')"
      using auth by (simp add: node_guarded_def)
    then show ?thesis using rt act by blast
  qed
  show ?thesis using deny grant by blast
qed

theorem control_effect_witness:
  "\<exists>rt w'. node_guarded (Some ''t'') (Some ''t'')
       (control_node sample_send sample_settings (\<lambda>ms g. Inr (sample_info ms)) (Inr [sample_model ''x'']) (Inr cpu_only_gpu) True '' start '')
       (None, sample_world losses) = (Inr (control_response ''start'' rt), Some rt, w') \<and> rn_running rt \<and> lifecycle_ok rt"
proof -
  let ?c = "control_node sample_send sample_settings (\<lambda>ms g. Inr (sample_info ms)) (Inr [sample_model ''x'']) (Inr cpu_only_gpu) True '' start ''"
  obtain res app' w' where c: "node_guarded (Some ''t'') (Some ''t'') ?c (None, sample_world losses) = (res, app', w')" by (metis surj_pair)
  have a: "py_lower (py_strip '' start '') = ''start''" by (simp add: py_lower_def py_strip_def is_space_def lower_char_def)
  have "\<exists>v. res = Inr v"
    using c a by (auto simp: node_guarded_def verify_node_auth_def control_node_def sample_defs)
  then obtain v where v: "res = Inr v" by blast
  have "never_raises sample_send" by (simp add: sample_send_def lossy_never_raises)
  from control_effect [OF c this, where build' = "\<lambda>ms g. Inr (sample_info ms)" and listing' = "Inr []" and g' = "Inr cpu_only_gpu" and session' = True]
  show ?thesis using c v a by auto
qed

lemma init_log_buffer_ok:
  "dict_ok (lb_subscribers (init_log_buffer n))" "\<not> dmem q (lb_subscribers (init_log_buffer n))"
  by (simp_all add: init_log_buffer_def)

theorem log_stream_exactly_once_witness:
  "let (ls, b1) = open_log_stream (Some 2) (add_log ''t0'' ''a'' ''stdout'' ''m'' (init_log_buffer 1));
       (out, ls', b') = log_run (\<lambda>_. ''x'') [Turn False, Logged ''t1'' ''b'' ''stdout'' ''m'', Cleared, Turn False, Turn False] (ls, b1)
   in length (data_frames out) = 2 \<and> ls_done ls'"
proof -
  let ?b = "add_log ''t0'' ''a'' ''stdout'' ''m'' (init_log_buffer 1)"
    and ?evs = "[Turn False, Logged ''t1'' ''b'' ''stdout'' ''m'', Cleared, Turn False, Turn False]"
  obtain ls b1 where o: "open_log_stream (Some 2) ?b = (ls, b1)" by fastforce
  obtain out ls' b' where r: "log_run (\<lambda>_. ''x'') ?evs (ls, b1) = (out, ls', b')" by (metis surj_pair)
  have "dict_ok (lb_subscribers ?b)" "\<forall>q. dmem q (lb_subscribers ?b) \<longrightarrow> q < lb_next ?b"
    by (simp_all add: add_log_def init_log_buffer_def)
  from log_stream_exactly_once [OF this o r] have "ls_done ls'" by (auto simp: turns_def)
  moreover have "length (data_frames out) = 2"
    using o r by (auto simp: open_log_stream_def subscribe_def get_logs_def slice_from_neg_def stream_turn_def count_event_def add_log_def
        clear_logs_def init_log_buffer_def newest_def queue_of_def data_frames_def Let_def split: prod.splits if_splits)
  ultimately show ?thesis using o r by simp
qed

text \<open>A host where git and docker succeed and print a line.\<close>

definition calm_os :: "unit host_os" where
  "calm_os = \<lparr>os_exists = (\<lambda>d w. False), os_git = (\<lambda>cmd w. ((0, []), w)), os_rmtree = (\<lambda>d w. w),
     os_docker = (\<lambda>cmd w. (Finished (Some 0) ''hi'' [], w))\<rparr>"


end
