(* ===== verification/Tensor_Frames.thy ===== *)
theory Tensor_Frames
  imports Pipeline
begin

text \<open>
  The binary frames tensors travel in: \<^verbatim>\<open>to_framed_bytes\<close> and \<^verbatim>\<open>from_framed_bytes\<close> of the two copies of
  \<^verbatim>\<open>TensorPayload\<close>, \<^verbatim>\<open>node/models/sharding.py\<close> and \<^verbatim>\<open>scheduler/models/pipeline.py\<close>. A frame is a tag, the
  length of the JSON metadata in four bytes, the metadata and the data. Byte strings are strings of characters
  below 256. JSON and the conversions pydantic applies to the fields of the constructor are arguments.
\<close>

section \<open>Four-byte lengths\<close>

definition byte_at :: "nat \<Rightarrow> nat \<Rightarrow> char" where
  "byte_at n i = char_of (n div 256 ^ i)"

text \<open>\<^verbatim>\<open>n.to_bytes(4, "big")\<close>; a number that does not fit raises.\<close>

definition to_bytes4 :: "nat \<Rightarrow> string res" where
  "to_bytes4 n =
     (if 256 ^ 4 \<le> n then Inl (OverflowError ''int too big to convert'')
      else Inr [byte_at n 3, byte_at n 2, byte_at n 1, byte_at n 0])"

definition from_bytes_big :: "string \<Rightarrow> nat" where
  "from_bytes_big bs = foldl (\<lambda>v b. 256 * v + of_char b) 0 bs"

lemma from_to_bytes4: "to_bytes4 n = Inr bs \<Longrightarrow> from_bytes_big bs = n \<and> length bs = 4"
proof -
  assume b: "to_bytes4 n = Inr bs"
  then have n: "n < 256 ^ 4" and bs: "bs = [byte_at n 3, byte_at n 2, byte_at n 1, byte_at n 0]"
    by (auto simp: to_bytes4_def split: if_splits)
  have "n div 256 ^ 3 mod 256 = n div 256 ^ 3" using n by (simp add: div_less_iff_less_mult)
  moreover have "n div 256 ^ 2 = 256 * (n div 256 ^ 3) + n div 256 ^ 2 mod 256"
    using div_mult_mod_eq [of "n div 256 ^ 2" 256] by (simp add: div_mult2_eq [symmetric])
  moreover have "n div 256 = 256 * (n div 256 ^ 2) + n div 256 mod 256"
    using div_mult_mod_eq [of "n div 256" 256] by (simp add: div_mult2_eq [symmetric])
  moreover have "n = 256 * (n div 256) + n mod 256" by simp
  ultimately show ?thesis by (simp add: bs from_bytes_big_def byte_at_def)
qed

section \<open>The metadata\<close>

record frame_lib =
  fl_dumps :: "json \<Rightarrow> string"
  fl_loads :: "string \<Rightarrow> json option"
  fl_utf8_valid :: "string \<Rightarrow> bool"
  as_int :: "json \<Rightarrow> int option"
  as_bool :: "json \<Rightarrow> bool option"
  as_str :: "json \<Rightarrow> string option"
  as_float :: "json \<Rightarrow> pyfloat option"
  as_ints :: "json \<Rightarrow> int list option"
  as_tensor :: "json \<Rightarrow> tensor_data option"

definition opt_str :: "string option \<Rightarrow> json" where
  "opt_str s = (case s of None \<Rightarrow> JNull | Some t \<Rightarrow> JStr t)"

fun is_bytes :: "tensor_data \<Rightarrow> bool" where
  "is_bytes (TBytes b) = True"
| "is_bytes _ = False"

definition scheduler_meta :: "tensor_payload \<Rightarrow> jobj" where
  "scheduler_meta p =
     [(''task_id'', JStr (tp_task_id p)), (''stage_index'', JInt (tp_stage_index p)),
      (''target_stage_index'', JInt (tp_target_stage_index p)), (''is_split_inference'', JBool (tp_is_split_inference p)),
      (''tensor_type'', JStr (tensor_type p)), (''shape'', JList (map JInt (shape p))), (''dtype'', JStr (dtype p)),
      (''sequence_id'', JInt (sequence_id p)), (''shm_name'', opt_str (shm_name p)),
      (''is_bytes'', JBool (is_bytes (tensor_data_of p)))]"

definition node_meta :: "tensor_payload \<Rightarrow> jobj" where
  "node_meta p = scheduler_meta p @
     [(''is_quantized'', JBool (is_quantized p)), (''quantization_type'', opt_str (quantization_type p)),
      (''scale_factor'', JFloat (scale_factor p)), (''is_speculative'', JBool (is_speculative p)),
      (''speculative_block_size'', JInt (speculative_block_size p))]"

fun tensor_json :: "tensor_data \<Rightarrow> json" where
  "tensor_json (TBytes b) = JNull"
| "tensor_json (TFloats xs) = JList (map JFloat xs)"
| "tensor_json (TDict d) = JObj d"

definition raw_payload :: "frame_lib \<Rightarrow> tensor_data \<Rightarrow> string" where
  "raw_payload fl d = (case d of TBytes b \<Rightarrow> b | _ \<Rightarrow> fl_dumps fl (tensor_json d))"

definition MAGIC :: string where
  "MAGIC = ''PITP''"

definition framed :: "frame_lib \<Rightarrow> jobj \<Rightarrow> tensor_data \<Rightarrow> string res" where
  "framed fl meta d =
     (let meta_bytes = fl_dumps fl (JObj meta)
      in rbind (to_bytes4 (length meta_bytes)) (\<lambda>len. Inr (MAGIC @ len @ meta_bytes @ raw_payload fl d)))"

definition node_to_framed_bytes :: "frame_lib \<Rightarrow> tensor_payload \<Rightarrow> string res" where
  "node_to_framed_bytes fl p = framed fl (node_meta p) (tensor_data_of p)"

definition scheduler_to_framed_bytes :: "frame_lib \<Rightarrow> tensor_payload \<Rightarrow> string res" where
  "scheduler_to_framed_bytes fl p = framed fl (scheduler_meta p) (tensor_data_of p)"

section \<open>Reading a frame\<close>

definition invalid :: exc where
  "invalid = ValueError ''validation error for TensorPayload''"

text \<open>A field of the constructor: a missing one takes its default, a present one is converted.\<close>

definition field :: "(json \<Rightarrow> 'a option) \<Rightarrow> 'a \<Rightarrow> string \<Rightarrow> jobj \<Rightarrow> 'a res" where
  "field conv fallback k kw =
     (case dget kw k of None \<Rightarrow> Inr fallback | Some v \<Rightarrow> (case conv v of None \<Rightarrow> Inl invalid | Some x \<Rightarrow> Inr x))"

definition required :: "(json \<Rightarrow> 'a option) \<Rightarrow> string \<Rightarrow> jobj \<Rightarrow> 'a res" where
  "required conv k kw =
     (case dget kw k of None \<Rightarrow> Inl invalid | Some v \<Rightarrow> (case conv v of None \<Rightarrow> Inl invalid | Some x \<Rightarrow> Inr x))"

definition as_opt_str :: "frame_lib \<Rightarrow> json \<Rightarrow> string option option" where
  "as_opt_str fl v = (case v of JNull \<Rightarrow> Some None | _ \<Rightarrow> map_option Some (as_str fl v))"

text \<open>
  The constructor on keyword arguments, with the data given apart (bytes are no JSON value). \<open>seq_nonneg\<close>
  is the constraint only the Node's copy puts on \<^verbatim>\<open>sequence_id\<close>.
\<close>

definition mk_payload :: "frame_lib \<Rightarrow> bool \<Rightarrow> tensor_data \<Rightarrow> jobj \<Rightarrow> tensor_payload res" where
  "mk_payload fl seq_nonneg d kw =
     rbind (required (as_str fl) ''task_id'' kw) (\<lambda>task.
     rbind (required (as_int fl) ''stage_index'' kw) (\<lambda>stage.
     rbind (field (as_int fl) 0 ''target_stage_index'' kw) (\<lambda>target.
     rbind (field (as_bool fl) False ''is_split_inference'' kw) (\<lambda>split.
     rbind (field (as_str fl) ''intermediate_activation'' ''tensor_type'' kw) (\<lambda>ttype.
     rbind (field (as_ints fl) [] ''shape'' kw) (\<lambda>dims.
     rbind (field (as_str fl) ''float32'' ''dtype'' kw) (\<lambda>dt.
     rbind (field (as_int fl) 0 ''sequence_id'' kw) (\<lambda>seq.
     rbind (field (as_opt_str fl) None ''shm_name'' kw) (\<lambda>shm.
     rbind (field (as_bool fl) False ''is_quantized'' kw) (\<lambda>quant.
     rbind (field (as_opt_str fl) None ''quantization_type'' kw) (\<lambda>qtype.
     rbind (field (as_float fl) (Fin 1) ''scale_factor'' kw) (\<lambda>scale.
     rbind (field (as_bool fl) False ''is_speculative'' kw) (\<lambda>spec.
     rbind (field (as_int fl) 1 ''speculative_block_size'' kw) (\<lambda>block.
       if stage < 0 \<or> target < 0 \<or> seq_nonneg \<and> seq < 0 then Inl invalid
       else Inr \<lparr>tp_task_id = task, tp_stage_index = stage, tp_target_stage_index = target, tp_is_split_inference = split,
              tensor_type = ttype, tensor_data_of = d, shape = dims, dtype = dt, sequence_id = seq, shm_name = shm,
              is_quantized = quant, quantization_type = qtype, scale_factor = scale, is_speculative = spec,
              speculative_block_size = block\<rparr>))))))))))))))"

text \<open>
  \<^verbatim>\<open>json.loads(raw.decode("utf-8"))\<close>.
\<close>

definition decode_json :: "frame_lib \<Rightarrow> string \<Rightarrow> json res" where
  "decode_json fl raw =
     (if \<not> fl_utf8_valid fl raw then Inl (ValueError ''UnicodeDecodeError'')
      else case fl_loads fl raw of None \<Rightarrow> Inl (ValueError ''JSONDecodeError'') | Some v \<Rightarrow> Inr v)"

text \<open>
  The keyword arguments the two copies pass on: the Scheduler's only the first nine fields, the Node's all of
  them. A missing \<^verbatim>\<open>task_id\<close> or \<^verbatim>\<open>stage_index\<close> is a \<^verbatim>\<open>KeyError\<close> here.
\<close>

definition SCHEDULER_FIELDS :: "string list" where
  "SCHEDULER_FIELDS = [''task_id'', ''stage_index'', ''target_stage_index'', ''is_split_inference'', ''tensor_type'', ''shape'',
     ''dtype'', ''sequence_id'', ''shm_name'']"

definition NODE_FIELDS :: "string list" where
  "NODE_FIELDS = SCHEDULER_FIELDS @ [''is_quantized'', ''quantization_type'', ''scale_factor'', ''is_speculative'',
     ''speculative_block_size'']"

definition read_frame :: "frame_lib \<Rightarrow> bool \<Rightarrow> string list \<Rightarrow> string \<Rightarrow> tensor_payload res" where
  "read_frame fl seq_nonneg names raw =
     (let meta_len = from_bytes_big (take 4 (drop 4 raw)); rest = drop 8 raw
      in rbind (decode_json fl (take meta_len rest)) (\<lambda>m.
         case m of
           JObj meta \<Rightarrow>
             rbind (if truthy (dget_or meta ''is_bytes'' (JBool False)) then Inr (TBytes (drop meta_len rest))
                    else rbind (decode_json fl (drop meta_len rest)) (\<lambda>v.
                      case as_tensor fl v of None \<Rightarrow> Inl invalid | Some d \<Rightarrow> Inr d)) (\<lambda>d.
             if \<not> dmem ''task_id'' meta then Inl (KeyError ''task_id'')
             else if \<not> dmem ''stage_index'' meta then Inl (KeyError ''stage_index'')
             else mk_payload fl seq_nonneg d (filter (\<lambda>(k, v). k \<in> set names) meta))
         | _ \<Rightarrow> Inl (OtherError ''AttributeError: no attribute get'')))"

text \<open>What does not start with the tag is JSON: all its keys go to the constructor.\<close>

definition read_json :: "frame_lib \<Rightarrow> bool \<Rightarrow> string \<Rightarrow> tensor_payload res" where
  "read_json fl seq_nonneg raw =
     rbind (decode_json fl raw) (\<lambda>m.
       case m of
         JObj meta \<Rightarrow>
           rbind (required (as_tensor fl) ''data'' meta) (\<lambda>d. mk_payload fl seq_nonneg d meta)
       | _ \<Rightarrow> Inl (TypeError ''argument after ** must be a mapping''))"

definition node_from_framed_bytes :: "frame_lib \<Rightarrow> string \<Rightarrow> tensor_payload res" where
  "node_from_framed_bytes fl raw =
     (if \<not> startswith raw MAGIC then read_json fl True raw else read_frame fl True NODE_FIELDS raw)"

definition scheduler_from_framed_bytes :: "frame_lib \<Rightarrow> string \<Rightarrow> tensor_payload res" where
  "scheduler_from_framed_bytes fl raw =
     (if \<not> startswith raw MAGIC then read_json fl False raw else read_frame fl False SCHEDULER_FIELDS raw)"

text \<open>The Node's boundary check: that of the Scheduler without the alignment of the bytes.\<close>

definition node_validate_boundary :: "tensor_payload \<Rightarrow> unit res" where
  "node_validate_boundary p =
     (if \<not> tp_is_split_inference p then Inl (ValueError ''Split stage payload must set is_split_inference=True'')
      else if tensor_type p \<notin> {''activation'', ''intermediate_activation''}
      then Inl (ValueError ''Split stage payload tensor_type must be an activation'')
      else if dtype p \<notin> {''float16'', ''float32'', ''float64'', ''bfloat16'', ''float8_e4m3'', ''float8_e4m3fn''}
           \<and> \<not> is_quantized p
      then Inl (ValueError ''Split stage payload dtype must be a floating-point tensor type'')
      else if shape p = [] \<or> list_ex (\<lambda>d. d \<le> 0) (shape p)
      then Inl (ValueError ''Split stage payload shape must contain positive dimensions'')
      else (case tensor_data_of p of
          TDict _ \<Rightarrow> Inl (ValueError ''Split stage payload data must not contain structured prompt fields'')
        | TBytes b \<Rightarrow> if b = [] then Inl (ValueError ''Split stage payload bytes cannot be empty'') else Inr ()
        | TFloats xs \<Rightarrow>
            if xs = [] then Inl (ValueError ''Split stage payload data cannot be empty'')
            else if prod_list (shape p) \<noteq> int (length xs)
            then Inl (ValueError ''Split stage payload data length must match tensor shape'')
            else Inr ()))"

section \<open>Round trips\<close>

text \<open>
  What the codecs are asked: the JSON text of the payload is read back, conversions leave values of the right type alone, and a
  payload satisfies the constraints of its model.
\<close>

definition frame_codec_ok :: "frame_lib \<Rightarrow> tensor_payload \<Rightarrow> bool" where
  "frame_codec_ok fl p \<longleftrightarrow>
     (\<forall>v\<in>{JObj (node_meta p), JObj (scheduler_meta p), tensor_json (tensor_data_of p)}.
        fl_loads fl (fl_dumps fl v) = Some v \<and> fl_utf8_valid fl (fl_dumps fl v))
   \<and> (\<forall>n. as_int fl (JInt n) = Some n) \<and> (\<forall>b. as_bool fl (JBool b) = Some b) \<and> (\<forall>s. as_str fl (JStr s) = Some s)
   \<and> (\<forall>x. as_float fl (JFloat x) = Some x) \<and> (\<forall>ns. as_ints fl (JList (map JInt ns)) = Some ns)
   \<and> (\<forall>xs. as_tensor fl (JList (map JFloat xs)) = Some (TFloats xs)) \<and> (\<forall>d. as_tensor fl (JObj d) = Some (TDict d))"

definition payload_valid :: "tensor_payload \<Rightarrow> bool" where
  "payload_valid p \<longleftrightarrow> 0 \<le> tp_stage_index p \<and> 0 \<le> tp_target_stage_index p \<and> 0 \<le> sequence_id p"

text \<open>The payload without what the Scheduler's frames do not carry.\<close>

definition forget_quantization :: "tensor_payload \<Rightarrow> tensor_payload" where
  "forget_quantization p = p\<lparr>is_quantized := False, quantization_type := None, scale_factor := Fin 1,
     is_speculative := False, speculative_block_size := 1\<rparr>"

lemma as_opt_str_opt: "frame_codec_ok fl p \<Longrightarrow> as_opt_str fl (opt_str s) = Some s"
  by (cases s) (simp_all add: as_opt_str_def opt_str_def frame_codec_ok_def)

lemma decode_dumps:
  "frame_codec_ok fl p \<Longrightarrow> v \<in> {JObj (node_meta p), JObj (scheduler_meta p), tensor_json (tensor_data_of p)} \<Longrightarrow>
   decode_json fl (fl_dumps fl v) = Inr v"
  unfolding frame_codec_ok_def decode_json_def by (metis (no_types, lifting) option.simps(5))

lemma read_framed:
  assumes "frame_codec_ok fl p" "framed fl meta d = Inr raw" "meta \<in> {node_meta p, scheduler_meta p}" "d = tensor_data_of p"
  shows "startswith raw MAGIC \<and> read_frame fl b names raw = mk_payload fl b d (filter (\<lambda>(k, v). k \<in> set names) meta)"
proof -
  let ?m = "fl_dumps fl (JObj meta)"
  obtain len where len: "to_bytes4 (length ?m) = Inr len" and raw: "raw = MAGIC @ len @ ?m @ raw_payload fl d"
    using assms(2) by (auto simp: framed_def Let_def rbind_eq_Inr)
  have l: "from_bytes_big len = length ?m" "length len = 4" using from_to_bytes4 [OF len] by auto
  have "take 4 (drop 4 raw) = len" "drop 8 raw = ?m @ raw_payload fl d" "startswith raw MAGIC"
    using l(2) by (simp_all add: raw MAGIC_def startswith_def)
  moreover have "decode_json fl ?m = Inr (JObj meta)" using assms(3) by (intro decode_dumps [OF assms(1)]) auto
  moreover have dd: "decode_json fl (fl_dumps fl (tensor_json d)) = Inr (tensor_json d)"
    unfolding assms(4) by (rule decode_dumps [OF assms(1)]) simp
  have conv: "as_tensor fl (JList (map JFloat xs)) = Some (TFloats xs)" "as_tensor fl (JObj o') = Some (TDict o')" for xs o'
    using assms(1) by (simp_all add: frame_codec_ok_def)
  have "(if is_bytes d then Inr (TBytes (raw_payload fl d))
      else rbind (decode_json fl (raw_payload fl d)) (\<lambda>v. case as_tensor fl v of None \<Rightarrow> Inl invalid | Some d \<Rightarrow> Inr d)) = Inr d"
    using dd conv by (cases d) (simp_all add: raw_payload_def)
  moreover have "dget meta ''is_bytes'' = Some (JBool (is_bytes d))" "dmem ''task_id'' meta" "dmem ''stage_index'' meta"
    using assms(3,4) by (auto simp: node_meta_def scheduler_meta_def dmem_def)
  ultimately show ?thesis using l(1) by (cases "is_bytes d") (simp_all add: read_frame_def Let_def dget_or_def)
qed

lemmas meta_defs = node_meta_def scheduler_meta_def SCHEDULER_FIELDS_def NODE_FIELDS_def

lemma mk_payload_meta:
  assumes "frame_codec_ok fl p" "payload_valid p"
  shows "mk_payload fl b (tensor_data_of p) (filter (\<lambda>(k, v). k \<in> set NODE_FIELDS) (node_meta p)) = Inr p"
    and "mk_payload fl b (tensor_data_of p) (filter (\<lambda>(k, v). k \<in> set SCHEDULER_FIELDS) (node_meta p)) = Inr (forget_quantization p)"
    and "mk_payload fl b (tensor_data_of p) (filter (\<lambda>(k, v). k \<in> set NODE_FIELDS) (scheduler_meta p)) = Inr (forget_quantization p)"
  using assms as_opt_str_opt [OF assms(1)]
  by (simp_all add: meta_defs mk_payload_def required_def field_def frame_codec_ok_def payload_valid_def forget_quantization_def)

section \<open>Properties\<close>

text \<open>
  C38. Frames between Nodes are faithful, frames through the Scheduler are not: a frame the Node writes is read by
  the Node as the same payload, bytes, number lists and dictionaries alike; read by the Scheduler, it has lost
  quantisation and speculation, so a quantised tensor of an integer type that passes the Node's boundary
  check is refused by the Scheduler's, and the scale factor it needs is gone.
\<close>

theorem frames_roundtrip:
  assumes "frame_codec_ok fl p" "payload_valid p" "node_to_framed_bytes fl p = Inr raw"
  shows "node_from_framed_bytes fl raw = Inr p
    \<and> scheduler_from_framed_bytes fl raw = Inr (forget_quantization p)
    \<and> (\<forall>raw'. scheduler_to_framed_bytes fl p = Inr raw' \<longrightarrow> node_from_framed_bytes fl raw' = Inr (forget_quantization p))
    \<and> (node_validate_boundary p = Inr () \<and> dtype p = ''int8'' \<longrightarrow>
         (\<exists>q m. scheduler_from_framed_bytes fl raw = Inr q \<and> validate_split_activation_boundary q = Inl (ValueError m)))"
proof -
  have n: "startswith raw MAGIC" "read_frame fl b names raw = mk_payload fl b (tensor_data_of p) (filter (\<lambda>(k, v). k \<in> set names) (node_meta p))"
    for b names
    using read_framed [OF assms(1), of "node_meta p" "tensor_data_of p" raw b names] assms(3)
    by (simp_all add: node_to_framed_bytes_def)
  have s: "startswith raw' MAGIC \<and> read_frame fl True NODE_FIELDS raw' = Inr (forget_quantization p)"
    if "scheduler_to_framed_bytes fl p = Inr raw'" for raw'
    using read_framed [OF assms(1), of "scheduler_meta p" "tensor_data_of p" raw' True NODE_FIELDS] that mk_payload_meta(3) [OF assms(1,2)]
    by (simp add: scheduler_to_framed_bytes_def)
  have q: "scheduler_from_framed_bytes fl raw = Inr (forget_quantization p)"
    using n mk_payload_meta(2) [OF assms(1,2)] by (simp add: scheduler_from_framed_bytes_def)
  moreover have "node_from_framed_bytes fl raw = Inr p"
    using n mk_payload_meta(1) [OF assms(1,2)] by (simp add: node_from_framed_bytes_def)
  moreover have "\<exists>m. validate_split_activation_boundary (forget_quantization p) = Inl (ValueError m)" if "dtype p = ''int8''"
    using that by (simp add: validate_split_activation_boundary_def forget_quantization_def)
  ultimately show ?thesis using s by (simp add: node_from_framed_bytes_def)
qed

definition quantized_payload :: tensor_payload where
  "quantized_payload = sample_payload\<lparr>tensor_data_of := TBytes ''ab'', dtype := ''int8'', is_quantized := True, scale_factor := Fin 2\<rparr>"

definition sample_frame_lib :: frame_lib where
  "sample_frame_lib =
     \<lparr>fl_dumps = (\<lambda>v. if v = JObj (node_meta quantized_payload) then ''n'' else if v = JObj (scheduler_meta quantized_payload) then ''s'' else []),
      fl_loads = (\<lambda>s. Some (if s = ''n'' then JObj (node_meta quantized_payload)
         else if s = ''s'' then JObj (scheduler_meta quantized_payload) else JNull)),
      fl_utf8_valid = (\<lambda>s. True), as_int = (\<lambda>v. case v of JInt n \<Rightarrow> Some n | _ \<Rightarrow> None),
      as_bool = (\<lambda>v. case v of JBool b \<Rightarrow> Some b | _ \<Rightarrow> None), as_str = (\<lambda>v. case v of JStr s \<Rightarrow> Some s | _ \<Rightarrow> None),
      as_float = (\<lambda>v. case v of JFloat x \<Rightarrow> Some x | _ \<Rightarrow> None),
      as_ints = (\<lambda>v. case v of JList xs \<Rightarrow> Some (map (\<lambda>x. case x of JInt n \<Rightarrow> n | _ \<Rightarrow> 0) xs) | _ \<Rightarrow> None),
      as_tensor = (\<lambda>v. case v of JList xs \<Rightarrow> Some (TFloats (map (\<lambda>x. case x of JFloat f \<Rightarrow> f | _ \<Rightarrow> NaN) xs))
         | JObj d \<Rightarrow> Some (TDict d) | _ \<Rightarrow> None)\<rparr>"

theorem frames_roundtrip_witness:
  "\<exists>raw q m. node_to_framed_bytes sample_frame_lib quantized_payload = Inr raw
     \<and> node_from_framed_bytes sample_frame_lib raw = Inr quantized_payload
     \<and> scheduler_from_framed_bytes sample_frame_lib raw = Inr q \<and> scale_factor q = Fin 1
     \<and> validate_split_activation_boundary q = Inl (ValueError m)"
proof -
  have ne: "node_meta quantized_payload \<noteq> scheduler_meta quantized_payload" by (simp add: node_meta_def)
  have codec: "frame_codec_ok sample_frame_lib quantized_payload"
    using ne by (auto simp: frame_codec_ok_def sample_frame_lib_def comp_def quantized_payload_def)
  have "\<exists>raw. node_to_framed_bytes sample_frame_lib quantized_payload = Inr raw"
    by (simp add: node_to_framed_bytes_def framed_def to_bytes4_def Let_def sample_frame_lib_def)
  then obtain raw where raw: "node_to_framed_bytes sample_frame_lib quantized_payload = Inr raw" by blast
  have ok: "payload_valid quantized_payload" by (simp add: payload_valid_def quantized_payload_def sample_payload_def)
  have "node_validate_boundary quantized_payload = Inr ()" "dtype quantized_payload = ''int8''"
    by (simp_all add: node_validate_boundary_def quantized_payload_def sample_payload_def)
  then show ?thesis using frames_roundtrip [OF codec ok raw] raw by (auto simp: forget_quantization_def)
qed

end
