(* ===== verification/Node_Worker.thy ===== *)
theory Node_Worker
  imports Node_Runtime Tensor_Frames
begin

text \<open>
  The work of a Node: the inference backends (\<^verbatim>\<open>node/backends/mock.py\<close>, \<^verbatim>\<open>ollama.py\<close>), the artifact store
  (\<^verbatim>\<open>node/storage/base.py\<close>, \<^verbatim>\<open>local.py\<close>), the worker loop of \<^verbatim>\<open>node/runtime.py\<close> that joins them, and the readiness
  route. HTTP, the file system, SHA-256, JSON and \<^verbatim>\<open>struct\<close> are arguments.
\<close>

section \<open>Backends\<close>

text \<open>What every backend does is \<^verbatim>\<open>generate\<close>: model, prompt and options to a text. Arguments are JSON values, as the worker passes them on.\<close>

type_synonym 'w generate = "json \<Rightarrow> json \<Rightarrow> json \<Rightarrow> 'w \<Rightarrow> string res \<times> 'w"

definition echo_generate :: "(json \<Rightarrow> string) \<Rightarrow> 'w generate" where
  "echo_generate rep model prompt options w = (Inr (''Echo: '' @ py_str rep prompt), w)"

text \<open>Every token but the last is followed by the space it was split at.\<close>

fun echo_chunks :: "string list \<Rightarrow> string list" where
  "echo_chunks [] = []"
| "echo_chunks [t] = [t]"
| "echo_chunks (t # ts) = (t @ '' '') # echo_chunks ts"

definition echo_stream :: "string \<Rightarrow> string list" where
  "echo_stream prompt = echo_chunks (py_split (CHR '' '') (''Echo: '' @ prompt))"

datatype backend_http = TransportFails | BadStatus | Body "json option"

type_synonym 'w post = "string \<Rightarrow> json \<Rightarrow> 'w \<Rightarrow> backend_http \<times> 'w"

definition ollama_base_url :: "string \<Rightarrow> string" where
  "ollama_base_url url = rev (dropWhile (\<lambda>c. c = CHR ''/'') (rev url))"

text \<open>\<open>answer\<close> is the status of a request for the base URL, \<open>None\<close> when it could not be made.\<close>

definition ollama_initialize :: "int option \<Rightarrow> unit res" where
  "ollama_initialize answer =
     (case answer of
        None \<Rightarrow> Inl (OtherError ''ConnectionError: Could not connect to Ollama server'')
      | Some status \<Rightarrow> if status \<noteq> 200 then Inl (OtherError ''ConnectionError: Ollama server returned status code'') else Inr ())"

definition generate_body :: "bool \<Rightarrow> json \<Rightarrow> json \<Rightarrow> json \<Rightarrow> json" where
  "generate_body stream model prompt options =
     JObj [(''model'', model), (''prompt'', prompt), (''stream'', JBool stream), (''options'', py_or options (JObj []))]"

definition generation_failed :: exc where
  "generation_failed = OtherError ''RuntimeError: Ollama generation failed''"

text \<open>An answer that is no object raises \<^verbatim>\<open>TypeError\<close>, which is not one of the exceptions caught.\<close>

definition ollama_backend_generate :: "(json \<Rightarrow> string) \<Rightarrow> 'w post \<Rightarrow> string \<Rightarrow> 'w generate" where
  "ollama_backend_generate rep post base_url model prompt options w =
     (case post (base_url @ ''/api/generate'') (generate_body False model prompt options) w of
        (Body (Some (JObj d)), w') \<Rightarrow>
          (case dget d ''response'' of None \<Rightarrow> (Inl generation_failed, w') | Some v \<Rightarrow> (Inr (py_str rep v), w'))
      | (Body (Some v), w') \<Rightarrow> (Inl (TypeError ''indices must be integers or slices''), w')
      | (_, w') \<Rightarrow> (Inl generation_failed, w'))"

text \<open>The lines of a stream: empty and undecodable ones are skipped, as are falsy responses.\<close>

fun stream_lines :: "(string \<Rightarrow> json option) \<Rightarrow> string list \<Rightarrow> json list \<times> exc option" where
  "stream_lines loads [] = ([], None)"
| "stream_lines loads (line # lines) =
     (if line = [] then stream_lines loads lines
      else case loads line of
          None \<Rightarrow> stream_lines loads lines
        | Some (JObj d) \<Rightarrow>
            (let chunk = dget_or d ''response'' (JStr []); (chunks, e) = stream_lines loads lines
             in (if truthy chunk then chunk # chunks else chunks, e))
        | Some v \<Rightarrow> ([], Some (OtherError ''AttributeError: no attribute get'')))"

text \<open>\<open>broken\<close> says whether the connection failed after the lines.\<close>

definition ollama_backend_stream :: "(string \<Rightarrow> json option) \<Rightarrow> (string list \<times> bool) option \<Rightarrow> json list \<times> exc option" where
  "ollama_backend_stream loads answer =
     (case answer of
        None \<Rightarrow> ([], Some (OtherError ''RuntimeError: Ollama stream generation failed''))
      | Some (lines, broken) \<Rightarrow>
          (case stream_lines loads lines of
             (chunks, None) \<Rightarrow> (chunks, if broken then Some (OtherError ''RuntimeError: Ollama stream generation failed'') else None)
           | (chunks, Some e) \<Rightarrow> (chunks, Some e)))"

definition stage_prompt :: "pipeline_stage \<Rightarrow> string \<Rightarrow> string" where
  "stage_prompt s input =
     ''Stage '' @ str_of_int (stage_index s) @ '' [Layers '' @ str_of_int (start_layer (layers_of s)) @ ''-''
       @ str_of_int (end_layer (layers_of s)) @ '']: '' @ input"

definition stage_model :: "(json \<Rightarrow> string) \<Rightarrow> pipeline_stage \<Rightarrow> json \<Rightarrow> string" where
  "stage_model rep s options =
     (if ps_model_id s \<noteq> [] then ps_model_id s
      else let m = (case options of JObj d \<Rightarrow> jget d ''model'' | _ \<Rightarrow> JNull) in if truthy m then py_str rep m else ''default'')"

definition ollama_pipeline_stage :: "(json \<Rightarrow> string) \<Rightarrow> 'w post \<Rightarrow> string \<Rightarrow> pipeline_stage \<Rightarrow> string \<Rightarrow> json \<Rightarrow> 'w \<Rightarrow> string res \<times> 'w" where
  "ollama_pipeline_stage rep post base_url s input options =
     ollama_backend_generate rep post base_url (JStr (stage_model rep s options)) (JStr (stage_prompt s input)) options"

definition mock_pipeline_stage :: "pipeline_stage \<Rightarrow> string \<Rightarrow> json" where
  "mock_pipeline_stage s input =
     JObj [(''stage_index'', JInt (stage_index s)),
       (''layer_range'', JList [JInt (start_layer (layers_of s)), JInt (end_layer (layers_of s))]),
       (''output_tensors'', JStr (''Mock output for stage '' @ str_of_int (stage_index s) @ '' with input '' @ input))]"

section \<open>Split stages\<close>

text \<open>
  \<^verbatim>\<open>execute_split_stage\<close>, the same code in both backends. \<open>unpack\<close> and \<open>pack\<close> are \<^verbatim>\<open>struct\<close> for one 4-byte float, big-endian or
  not; both raise for a length that is no multiple of four, and packing for a value too large.
\<close>

fun chunks4 :: "string \<Rightarrow> string list option" where
  "chunks4 [] = Some []"
| "chunks4 (a # b # c # d # rest) = map_option (Cons [a, b, c, d]) (chunks4 rest)"
| "chunks4 _ = None"

definition stage_delta :: "pipeline_stage \<Rightarrow> pyfloat res" where
  "stage_delta s = rbind (float_of_int (stage_index s + 1)) (\<lambda>n. Inr (fmul (rnd (1 / 100)) n))"

definition transform_bytes :: "(bool \<Rightarrow> string \<Rightarrow> pyfloat) \<Rightarrow> (bool \<Rightarrow> pyfloat \<Rightarrow> string res) \<Rightarrow> pyfloat \<Rightarrow> string \<Rightarrow> string res" where
  "transform_bytes unpack pack delta b =
     (let framed = startswith b MAGIC
      in case chunks4 b of
           None \<Rightarrow> Inl (OtherError ''struct.error: unpack requires a buffer of another length'')
         | Some parts \<Rightarrow> rbind (mapM (\<lambda>c. pack framed (fadd (unpack framed c) delta)) parts) (\<lambda>out. Inr (concat out)))"

definition execute_split_stage :: "(bool \<Rightarrow> string \<Rightarrow> pyfloat) \<Rightarrow> (bool \<Rightarrow> pyfloat \<Rightarrow> string res) \<Rightarrow> pipeline_stage \<Rightarrow> tensor_payload
    \<Rightarrow> tensor_payload res" where
  "execute_split_stage unpack pack s p =
     rbind (node_validate_boundary p) (\<lambda>_.
     rbind (stage_delta s) (\<lambda>delta.
     rbind (case tensor_data_of p of
         TFloats xs \<Rightarrow> Inr (TFloats (map (\<lambda>x. fadd x delta) xs))
       | TBytes b \<Rightarrow> rbind (transform_bytes unpack pack delta b) (\<lambda>b'. Inr (TBytes b'))
       | TDict d \<Rightarrow> Inr (TDict d)) (\<lambda>d.
     if stage_index s < 0 \<or> sequence_id p < 0 then Inl invalid
     else Inr \<lparr>tp_task_id = tp_task_id p, tp_stage_index = stage_index s, tp_target_stage_index = stage_index s + 1,
         tp_is_split_inference = True, tensor_type = ''activation'', tensor_data_of = d, shape = shape p, dtype = dtype p,
         sequence_id = sequence_id p, shm_name = shm_name p, is_quantized = False, quantization_type = None, scale_factor = Fin 1,
         is_speculative = False, speculative_block_size = 1\<rparr>)))"

section \<open>Artifacts\<close>

record artifact_metadata =
  am_artifact_id :: string
  am_task_id :: string
  am_uri :: string
  am_checksum :: string
  am_status :: string
  am_metadata :: jobj

text \<open>The directories and files of the disk, by path; a file is opened for writing only if its directory is there.\<close>

record disk =
  dk_dirs :: "string set"
  dk_files :: "(string, string) dict"

definition parent_dir :: "string \<Rightarrow> string" where
  "parent_dir p = rev (tl (dropWhile (\<lambda>c. c \<noteq> CHR ''/'') (rev p)))"

definition join_path :: "string \<Rightarrow> string \<Rightarrow> string" where
  "join_path base name = (if base = [] \<or> last base = CHR ''/'' then base @ name else base @ ''/'' @ name)"

definition open_store :: "string \<Rightarrow> disk \<Rightarrow> disk" where
  "open_store base dk = dk\<lparr>dk_dirs := insert base (dk_dirs dk)\<rparr>"

definition artifact_path :: "(string \<Rightarrow> string) \<Rightarrow> (json \<Rightarrow> string) \<Rightarrow> string \<Rightarrow> json \<Rightarrow> string \<Rightarrow> string" where
  "artifact_path sha rep base task data = join_path base (''art_'' @ py_str rep task @ ''_'' @ take 12 (sha data) @ ''.bin'')"

text \<open>The identifier of a task is any JSON value; only the metadata model insists on a string, after the file was written.\<close>

definition save_artifact :: "(string \<Rightarrow> string) \<Rightarrow> (json \<Rightarrow> string) \<Rightarrow> string \<Rightarrow> json \<Rightarrow> string \<Rightarrow> jobj \<Rightarrow> disk
    \<Rightarrow> artifact_metadata res \<times> disk" where
  "save_artifact sha rep base task data metadata dk =
     (let file = artifact_path sha rep base task data
      in if parent_dir file \<notin> dk_dirs dk then (Inl (OtherError ''FileNotFoundError''), dk)
         else (case task of
             JStr t \<Rightarrow> Inr \<lparr>am_artifact_id = ''art_'' @ t @ ''_'' @ take 12 (sha data), am_task_id = t, am_uri = ''file://'' @ file,
                 am_checksum = sha data, am_status = ''COMMITTED'', am_metadata = metadata\<rparr>
           | _ \<Rightarrow> Inl (ValueError ''validation error for ArtifactMetadata''),
           dk\<lparr>dk_files := dset file data (dk_files dk)\<rparr>))"

definition get_artifact :: "string \<Rightarrow> disk \<Rightarrow> string res" where
  "get_artifact uri dk =
     (if \<not> startswith uri ''file://'' then Inl (ValueError ''Invalid URI format'')
      else case dget (dk_files dk) (drop 7 uri) of
          None \<Rightarrow> Inl (OtherError ''FileNotFoundError'')
        | Some d \<Rightarrow> Inr d)"

section \<open>The worker\<close>

type_synonym 'w save = "json \<Rightarrow> string \<Rightarrow> jobj \<Rightarrow> 'w \<Rightarrow> artifact_metadata res \<times> 'w"

record worker_lib =
  wl_dumps :: "json \<Rightarrow> string"
  wl_repr :: "json \<Rightarrow> string"
  wl_utf8 :: "string \<Rightarrow> string"

fun py_len :: "json \<Rightarrow> int res" where
  "py_len (JStr s) = Inr (int (length s))"
| "py_len (JList xs) = Inr (int (length xs))"
| "py_len (JObj d) = Inr (int (length d))"
| "py_len _ = Inl (TypeError ''object has no len()'')"

definition artifact_doc :: "artifact_metadata \<Rightarrow> json" where
  "artifact_doc a =
     JObj [(''artifact_id'', JStr (am_artifact_id a)), (''task_id'', JStr (am_task_id a)), (''uri'', JStr (am_uri a)),
       (''checksum'', JStr (am_checksum a)), (''status'', JStr (am_status a)), (''metadata'', JObj (am_metadata a))]"

definition result_topic :: "string \<Rightarrow> string" where
  "result_topic task = ''public-intelligence/net/tasks/'' @ task @ ''/result''"

text \<open>One task: the artifact saved, or what was raised on the way.\<close>

definition process_task :: "worker_lib \<Rightarrow> 'w generate \<Rightarrow> 'w save \<Rightarrow> jobj \<Rightarrow> 'w \<Rightarrow> artifact_metadata res \<times> 'w" where
  "process_task wl gen save task w =
     (case (dget task ''task_id'', dget task ''prompt'') of
        (Some task_id, Some prompt) \<Rightarrow>
          (let model = py_or (jget task ''model_name'') (dget_or task ''model'' (JStr ''echo''))
           in case gen model prompt (jget task ''options'') w of
                (Inl e, w1) \<Rightarrow> (Inl e, w1)
              | (Inr output, w1) \<Rightarrow>
                  (case py_len prompt of
                     Inl e \<Rightarrow> (Inl e, w1)
                   | Inr n \<Rightarrow> save task_id (wl_utf8 wl output) [(''model'', model), (''prompt_length'', JInt n)] w1))
      | (None, _) \<Rightarrow> (Inl (KeyError ''task_id''), w)
      | _ \<Rightarrow> (Inl (KeyError ''prompt''), w))"

text \<open>
  The loop: the backend in use (the echo backend once a task with all its keys came and none was set), the queue, and how
  many tasks \<^verbatim>\<open>task_done\<close> was not called for. A turn with an empty queue waits.
\<close>

record 'w worker =
  wk_backend :: "'w generate option"
  wk_queue :: "jobj list"
  wk_unfinished :: nat

definition init_worker :: "'w worker" where
  "init_worker = \<lparr>wk_backend = None, wk_queue = [], wk_unfinished = 0\<rparr>"

definition put_task :: "jobj \<Rightarrow> 'w worker \<Rightarrow> 'w worker" where
  "put_task task wk = wk\<lparr>wk_queue := wk_queue wk @ [task], wk_unfinished := wk_unfinished wk + 1\<rparr>"

definition backend_of :: "worker_lib \<Rightarrow> 'w worker \<Rightarrow> 'w generate" where
  "backend_of wl wk = (case wk_backend wk of None \<Rightarrow> echo_generate (wl_repr wl) | Some gen \<Rightarrow> gen)"

definition worker_turn :: "worker_lib \<Rightarrow> 'w save \<Rightarrow> bool \<Rightarrow> 'w worker \<times> 'w \<Rightarrow> ((string \<times> string) list \<times> 'w worker \<times> 'w) option" where
  "worker_turn wl save session = (\<lambda>(wk, w).
     case wk_queue wk of
       [] \<Rightarrow> None
     | task # rest \<Rightarrow>
         (let wk1 = wk\<lparr>wk_queue := rest,
                wk_backend := (if dmem ''task_id'' task \<and> dmem ''prompt'' task then Some (backend_of wl wk) else wk_backend wk)\<rparr>
          in case process_task wl (backend_of wl wk) save task w of
               (Inl e, w') \<Rightarrow> Some ([], wk1, w')
             | (Inr a, w') \<Rightarrow>
                 Some (if session then [(result_topic (am_task_id a), wl_dumps wl (artifact_doc a))] else [],
                   wk1\<lparr>wk_unfinished := wk_unfinished wk1 - 1\<rparr>, w')))"

text \<open>Turns until the queue is empty.\<close>

fun drain_queue :: "nat \<Rightarrow> worker_lib \<Rightarrow> 'w save \<Rightarrow> bool \<Rightarrow> 'w worker \<times> 'w \<Rightarrow> (string \<times> string) list \<times> 'w worker \<times> 'w" where
  "drain_queue 0 wl save session s = ([], s)"
| "drain_queue (Suc n) wl save session s =
     (case worker_turn wl save session s of
        None \<Rightarrow> ([], s)
      | Some (out, s1) \<Rightarrow> (case drain_queue n wl save session s1 of (outs, s2) \<Rightarrow> (out @ outs, s2)))"

section \<open>Readiness\<close>

text \<open>\<open>wan\<close> is what the Zenoh client says of its session, \<open>stamp\<close> the text of a time.\<close>

definition readiness :: "(int \<Rightarrow> string) \<Rightarrow> ollama_lib \<Rightarrow> node_runtime option \<Rightarrow> bool \<Rightarrow> int \<times> json" where
  "readiness stamp ol app wan =
     (let ollama_ready = ollama_health ol;
          runtime_ready = (case app of None \<Rightarrow> False | Some rt \<Rightarrow> rn_running rt);
          registered = (case app of None \<Rightarrow> False | Some rt \<Rightarrow> rn_running rt \<and> rn_status rt = Registered);
          ready = (runtime_ready \<and> ollama_ready \<and> registered)
      in (if ready then 200 else 503,
          JObj [(''status'', JStr (if ready then ''ready'' else ''degraded'')), (''runtime'', JBool runtime_ready),
            (''ollama'', JBool ollama_ready), (''scheduler_registered'', JBool registered),
            (''wan_connected'', JBool (runtime_ready \<and> wan)), (''inference_ready'', JBool ready),
            (''last_heartbeat_at'', case app of None \<Rightarrow> JNull | Some rt \<Rightarrow>
               (case rn_last_heartbeat_at rt of None \<Rightarrow> JNull | Some n \<Rightarrow> JStr (stamp n))),
            (''last_heartbeat_ok'', JBool (case app of None \<Rightarrow> False | Some rt \<Rightarrow> rn_last_heartbeat_ok rt)),
            (''last_heartbeat_error'', case app of None \<Rightarrow> JNull | Some rt \<Rightarrow>
               (case rn_last_heartbeat_error rt of None \<Rightarrow> JNull | Some m \<Rightarrow> JStr m))]))"

lemma process_cases:
  assumes "process_task wl gen save task w = (r, w')"
  obtains (refused) e where "w' = w" "r = Inl e"
  | (generated) m q options r1 e where "gen m q options w = (r1, w')" "r = Inl e"
  | (saved) m q options out w1 tid md where "gen m q options w = (Inr out, w1)" "save tid (wl_utf8 wl out) md w1 = (r, w')"
      "dget task ''task_id'' = Some tid"
  using assms unfolding process_task_def by (auto simp: Let_def split: option.splits prod.splits sum.splits)

section \<open>What the worker relies on\<close>

text \<open>
  A store gives back under the URI it names what was saved, and a save writes nothing but its data at its URI; a
  backend leaves the store alone. A URI is sound if what is read there belongs there.
\<close>

locale artifact_store =
  fixes save :: "'w save" and get :: "string \<Rightarrow> 'w \<Rightarrow> string res" and uri_of :: "json \<Rightarrow> string \<Rightarrow> string"
  assumes saved: "save t d md w = (Inr a, w') \<Longrightarrow> get (am_uri a) w' = Inr d \<and> t = JStr (am_task_id a) \<and> am_uri a = uri_of t d"
    and kept: "save t d md w = (r, w') \<Longrightarrow> get u w' = get u w \<or> u = uri_of t d \<and> get u w' = Inr d"
begin

definition sound :: "string \<Rightarrow> 'w \<Rightarrow> bool" where
  "sound u w \<longleftrightarrow> (\<exists>t d. get u w = Inr d \<and> u = uri_of t d)"

lemma save_sound: "save t d md w = (Inr a, w') \<Longrightarrow> sound (am_uri a) w'"
  using saved unfolding sound_def by blast

lemma sound_saved: "sound u w \<Longrightarrow> save t d md w = (r, w') \<Longrightarrow> sound u w'"
  using kept unfolding sound_def by metis

end

locale working_node = artifact_store save get uri_of
  for save :: "'w save" and get :: "string \<Rightarrow> 'w \<Rightarrow> string res" and uri_of :: "json \<Rightarrow> string \<Rightarrow> string" +
  fixes gen :: "'w generate"
  assumes quiet: "gen model prompt options w = (r, w') \<Longrightarrow> get u w' = get u w"
begin

lemma sound_processed: "sound u w \<Longrightarrow> process_task wl gen save task w = (r, w') \<Longrightarrow> sound u w'"
proof (erule process_cases)
  fix m q options r1 e
  assume "sound u w" "gen m q options w = (r1, w')"
  then show "sound u w'" using quiet unfolding sound_def by metis
next
  fix m q options out w1 tid md
  assume "sound u w" "gen m q options w = (Inr out, w1)" "save tid (wl_utf8 wl out) md w1 = (r, w')"
  then show "sound u w'" using quiet sound_saved unfolding sound_def by metis
qed simp

lemma processed_sound: "process_task wl gen save task w = (Inr a, w') \<Longrightarrow> sound (am_uri a) w' \<and> dget task ''task_id'' = Some (JStr (am_task_id a))"
  using saved save_sound by (auto elim!: process_cases)

lemma turn_backend:
  assumes "worker_turn wl save session (wk, w) = Some (out, wk', w')" "backend_of wl wk = gen"
  shows "backend_of wl wk' = gen"
  using assms by (auto simp: worker_turn_def backend_of_def Let_def split: list.splits prod.splits sum.splits if_splits option.splits)

text \<open>Everything published during a run can be read back at its end.\<close>

lemma drained:
  assumes "drain_queue n wl save session (wk, w) = (out, wk', w')" "backend_of wl wk = gen"
  shows "(\<forall>u. sound u w \<longrightarrow> sound u w')
    \<and> (\<forall>x\<in>set out. \<exists>a. x = (result_topic (am_task_id a), wl_dumps wl (artifact_doc a)) \<and> sound (am_uri a) w')"
  using assms
proof (induction n arbitrary: wk w out)
  case 0
  then show ?case by simp
next
  case (Suc n)
  show ?case
  proof (cases "worker_turn wl save session (wk, w)")
    case None
    then show ?thesis using Suc.prems(1) by simp
  next
    case (Some t)
    obtain o1 wk1 w1 where t: "t = (o1, wk1, w1)" by (metis surj_pair)
    obtain o2 where r: "drain_queue n wl save session (wk1, w1) = (o2, wk', w')" "out = o1 @ o2"
      using Suc.prems(1) Some t by (auto split: prod.splits)
    note ih = Suc.IH [OF r(1) turn_backend [OF Some [unfolded t] Suc.prems(2)]]
    obtain task rest a where p: "wk_queue wk = task # rest" "process_task wl gen save task w = (a, w1)"
      using Some t Suc.prems(2) by (auto simp: worker_turn_def Let_def split: list.splits prod.splits sum.splits)
    have "\<forall>x\<in>set o1. \<exists>a. x = (result_topic (am_task_id a), wl_dumps wl (artifact_doc a)) \<and> sound (am_uri a) w1"
      using Some t p Suc.prems(2) processed_sound [of wl task w _ w1]
      by (auto simp: worker_turn_def Let_def split: sum.splits if_splits)
    moreover have "sound u w \<Longrightarrow> sound u w1" for u using sound_processed p(2) by blast
    ultimately show ?thesis using ih r(2) by (auto, blast+)
  qed
qed

end

section \<open>The local disk and both backends\<close>

lemma get_written:
  "get_artifact u (dk\<lparr>dk_files := dset p d (dk_files dk)\<rparr>) = get_artifact u dk
   \<or> u = ''file://'' @ p \<and> get_artifact u (dk\<lparr>dk_files := dset p d (dk_files dk)\<rparr>) = Inr d"
proof (cases "startswith u ''file://'' \<and> drop 7 u = p")
  case True
  moreover have "length ''file://'' = 7" by simp
  ultimately have "u = ''file://'' @ p" unfolding startswith_def by (metis append_take_drop_id)
  then show ?thesis by (simp add: get_artifact_def startswith_def dict_simps)
qed (auto simp: get_artifact_def dict_simps)

interpretation local_store: artifact_store "save_artifact sha rep base" get_artifact "\<lambda>t d. ''file://'' @ artifact_path sha rep base t d"
  for sha rep base
proof
  fix t d md w a w'
  assume "save_artifact sha rep base t d md w = (Inr a, w')"
  then show "get_artifact (am_uri a) w' = Inr d \<and> t = JStr (am_task_id a) \<and> am_uri a = ''file://'' @ artifact_path sha rep base t d"
    by (auto simp: save_artifact_def get_artifact_def startswith_def dict_simps Let_def split: if_splits json.splits)
next
  fix t d md w r w' u
  assume "save_artifact sha rep base t d md w = (r, w')"
  then have "w' = w \<or> w' = w\<lparr>dk_files := dset (artifact_path sha rep base t d) d (dk_files w)\<rparr>"
    by (simp add: save_artifact_def Let_def split: if_splits)
  then show "get_artifact u w' = get_artifact u w \<or> u = ''file://'' @ artifact_path sha rep base t d \<and> get_artifact u w' = Inr d"
    using get_written by blast
qed

interpretation echo_node: working_node "save_artifact sha rep base" get_artifact "\<lambda>t d. ''file://'' @ artifact_path sha rep base t d"
    "echo_generate rep'" for sha rep base rep'
  by unfold_locales (simp add: echo_generate_def)

text \<open>The Ollama backend works on the world of its connection, beside the disk.\<close>

definition beside_disk :: "'n post \<Rightarrow> (disk \<times> 'n) post" where
  "beside_disk post url body = (\<lambda>(dk, n). case post url body n of (r, n') \<Rightarrow> (r, dk, n'))"

definition save_beside :: "disk save \<Rightarrow> (disk \<times> 'n) save" where
  "save_beside save t d md = (\<lambda>(dk, n). case save t d md dk of (r, dk') \<Rightarrow> (r, dk', n))"

interpretation ollama_node: working_node "save_beside (save_artifact sha rep base)" "\<lambda>u s. get_artifact u (fst s)"
    "\<lambda>t d. ''file://'' @ artifact_path sha rep base t d" "ollama_backend_generate rep' (beside_disk post) base_url"
  for sha rep base rep' post base_url
proof
  fix t d md w a w'
  assume "save_beside (save_artifact sha rep base) t d md w = (Inr a, w')"
  then show "get_artifact (am_uri a) (fst w') = Inr d \<and> t = JStr (am_task_id a) \<and> am_uri a = ''file://'' @ artifact_path sha rep base t d"
    using local_store.saved by (fastforce simp: save_beside_def split: prod.splits)
next
  fix t d md w r w' u
  assume "save_beside (save_artifact sha rep base) t d md w = (r, w')"
  then show "get_artifact u (fst w') = get_artifact u (fst w) \<or> u = ''file://'' @ artifact_path sha rep base t d \<and> get_artifact u (fst w') = Inr d"
    using local_store.kept by (fastforce simp: save_beside_def split: prod.splits)
next
  fix model prompt options w r w' u
  assume "ollama_backend_generate rep' (beside_disk post) base_url model prompt options w = (r, w')"
  then show "get_artifact u (fst w') = get_artifact u (fst w)"
    by (auto simp: ollama_backend_generate_def beside_disk_def split: prod.splits backend_http.splits option.splits json.splits)
qed

section \<open>Backends: what they keep\<close>

text \<open>The echo backend streams the text it would have returned.\<close>

lemma echo_chunks_join: "concat (echo_chunks ts) = py_join '' '' ts"
  by (induction ts rule: echo_chunks.induct) simp_all

lemma echo_stream_text: "concat (echo_stream prompt) = ''Echo: '' @ prompt"
  by (simp only: echo_stream_def echo_chunks_join py_join_split)

text \<open>A stream yields no falsy chunk, and stops at the first line that is JSON but no object.\<close>

lemma stream_lines_truthy: "stream_lines loads lines = (chunks, e) \<Longrightarrow> c \<in> set chunks \<Longrightarrow> truthy c"
  by (induction lines arbitrary: chunks e) (auto simp: Let_def split: if_splits option.splits json.splits prod.splits)

definition FLOAT_TYPES :: "string set" where
  "FLOAT_TYPES = {''float16'', ''float32'', ''float64'', ''bfloat16'', ''float8_e4m3'', ''float8_e4m3fn''}"

fun run_split_stages :: "(bool \<Rightarrow> string \<Rightarrow> pyfloat) \<Rightarrow> (bool \<Rightarrow> pyfloat \<Rightarrow> string res) \<Rightarrow> pipeline_stage list \<Rightarrow> tensor_payload
    \<Rightarrow> tensor_payload res" where
  "run_split_stages unpack pack [] p = Inr p"
| "run_split_stages unpack pack (s # ss) p = rbind (execute_split_stage unpack pack s p) (run_split_stages unpack pack ss)"

definition stage_shift :: "pipeline_stage \<Rightarrow> pyfloat" where
  "stage_shift s = fmul (rnd (1 / 100)) (Fin (of_int (stage_index s + 1)))"

lemma stage_delta_shift: "0 \<le> stage_index s \<Longrightarrow> stage_index s < 2 ^ 53 \<Longrightarrow> stage_delta s = Inr (stage_shift s)"
  by (simp add: stage_delta_def stage_shift_def float_of_int_def rnd_dbl dbl_rat_int del: of_int_add)

text \<open>One stage on a list of floats.\<close>

lemma split_stage_floats:
  assumes "node_validate_boundary p = Inr ()" "tensor_data_of p = TFloats xs" "0 \<le> sequence_id p" "0 \<le> stage_index s" "stage_index s < 2 ^ 53"
  obtains q where "execute_split_stage unpack pack s p = Inr q" "tensor_data_of q = TFloats (map (\<lambda>x. fadd x (stage_shift s)) xs)"
    "shape q = shape p" "dtype q = dtype p" "tp_task_id q = tp_task_id p" "sequence_id q = sequence_id p"
    "tp_target_stage_index q = stage_index s + 1"
    "if dtype p \<in> FLOAT_TYPES then node_validate_boundary q = Inr () else \<exists>e. node_validate_boundary q = Inl e"
proof -
  let ?q = "\<lparr>tp_task_id = tp_task_id p, tp_stage_index = stage_index s, tp_target_stage_index = stage_index s + 1,
         tp_is_split_inference = True, tensor_type = ''activation'', tensor_data_of = TFloats (map (\<lambda>x. fadd x (stage_shift s)) xs),
         shape = shape p, dtype = dtype p, sequence_id = sequence_id p, shm_name = shm_name p, is_quantized = False,
         quantization_type = None, scale_factor = Fin 1, is_speculative = False, speculative_block_size = 1\<rparr>"
  have e: "execute_split_stage unpack pack s p = Inr ?q"
    using assms by (simp add: execute_split_stage_def stage_delta_shift)
  have f: "\<not> (shape p = [] \<or> list_ex (\<lambda>d. d \<le> 0) (shape p))" "xs \<noteq> []" "prod_list (shape p) = int (length xs)"
    using assms(1,2) by (auto simp: node_validate_boundary_def split: if_splits)
  show thesis
    by (rule that [OF e]) (use f in \<open>simp_all add: node_validate_boundary_def FLOAT_TYPES_def\<close>)
qed

section \<open>Properties\<close>

lemma parent_of_join:
  assumes "base \<noteq> []" "last base \<noteq> CHR ''/''" "CHR ''/'' \<notin> set name"
  shows "parent_dir (join_path base name) = base"
proof -
  have "dropWhile (\<lambda>c. c \<noteq> CHR ''/'') (rev name) = []" using assms(3) by auto
  then show ?thesis using assms(1,2) by (simp add: join_path_def parent_dir_def dropWhile_append)
qed

text \<open>The tasks a requester would queue: an identifier without separators, and a prompt.\<close>

definition plain_task :: "string \<times> string \<Rightarrow> jobj" where
  "plain_task tp = [(''task_id'', JStr (fst tp)), (''prompt'', JStr (snd tp))]"

lemma save_plain:
  assumes "base \<in> dk_dirs dk" "base \<noteq> []" "last base \<noteq> CHR ''/''" "CHR ''/'' \<notin> set t \<union> set (take 12 (sha data))"
  shows "\<exists>a. save_artifact sha rep base (JStr t) data md dk
      = (Inr a, dk\<lparr>dk_files := dset (artifact_path sha rep base (JStr t) data) data (dk_files dk)\<rparr>)
    \<and> am_task_id a = t \<and> am_checksum a = sha data \<and> am_uri a = ''file://'' @ artifact_path sha rep base (JStr t) data"
proof -
  have "parent_dir (artifact_path sha rep base (JStr t) data) = base"
    using assms(4) unfolding artifact_path_def by (intro parent_of_join [OF assms(2,3)]) auto
  then show ?thesis using assms(1) by (simp add: save_artifact_def Let_def)
qed

text \<open>The published result of a task: it names the task and the checksum of the echo, and its URI is that of the artifact.\<close>

definition echo_result :: "worker_lib \<Rightarrow> (string \<Rightarrow> string) \<Rightarrow> string \<Rightarrow> string \<times> string \<Rightarrow> string \<times> string \<Rightarrow> artifact_metadata \<Rightarrow> bool" where
  "echo_result wl sha base tp x a \<longleftrightarrow>
     x = (result_topic (fst tp), wl_dumps wl (artifact_doc a)) \<and> am_task_id a = fst tp
   \<and> am_checksum a = sha (wl_utf8 wl (''Echo: '' @ snd tp))
   \<and> am_uri a = ''file://'' @ artifact_path sha (wl_repr wl) base (JStr (fst tp)) (wl_utf8 wl (''Echo: '' @ snd tp))"

lemma echo_turn:
  assumes "base \<in> dk_dirs dk" "base \<noteq> []" "last base \<noteq> CHR ''/''"
    and "CHR ''/'' \<notin> set (fst tp) \<union> set (take 12 (sha (wl_utf8 wl (''Echo: '' @ snd tp))))"
    and "wk_queue wk = plain_task tp # rest" "backend_of wl wk = echo_generate (wl_repr wl)"
  obtains x a wk' dk' where "worker_turn wl (save_artifact sha (wl_repr wl) base) True (wk, dk) = Some ([x], wk', dk')"
    "echo_result wl sha base tp x a" "wk_queue wk' = rest" "wk_unfinished wk' = wk_unfinished wk - 1"
    "backend_of wl wk' = echo_generate (wl_repr wl)" "dk_dirs dk' = dk_dirs dk"
    "get_artifact (am_uri a) dk' = Inr (wl_utf8 wl (''Echo: '' @ snd tp))"
proof -
  let ?data = "wl_utf8 wl (''Echo: '' @ snd tp)" and ?save = "save_artifact sha (wl_repr wl) base"
  let ?md = "[(''model'', JStr ''echo''), (''prompt_length'', JInt (int (length (snd tp))))]"
  let ?dk = "dk\<lparr>dk_files := dset (artifact_path sha (wl_repr wl) base (JStr (fst tp)) ?data) ?data (dk_files dk)\<rparr>"
  obtain a where a: "?save (JStr (fst tp)) ?data ?md dk = (Inr a, ?dk)" "am_task_id a = fst tp" "am_checksum a = sha ?data"
      "am_uri a = ''file://'' @ artifact_path sha (wl_repr wl) base (JStr (fst tp)) ?data"
    using save_plain [OF assms(1-3), where t = "fst tp" and data = ?data and sha = sha and rep = "wl_repr wl" and md = ?md] assms(4) by blast
  let ?wk = "wk\<lparr>wk_queue := rest, wk_backend := Some (echo_generate (wl_repr wl)), wk_unfinished := wk_unfinished wk - 1\<rparr>"
  have keys: "dmem ''task_id'' (plain_task tp)" "dmem ''prompt'' (plain_task tp)" by (simp_all add: plain_task_def dmem_def)
  have "process_task wl (echo_generate (wl_repr wl)) ?save (plain_task tp) dk = (Inr a, ?dk)"
    using a(1) by (simp add: process_task_def plain_task_def echo_generate_def jget_def dget_or_def py_or_def)
  then have "worker_turn wl ?save True (wk, dk) = Some ([(result_topic (fst tp), wl_dumps wl (artifact_doc a))], ?wk, ?dk)"
    using assms(5,6) keys a(2) by (simp add: worker_turn_def Let_def)
  moreover have "get_artifact (am_uri a) ?dk = Inr ?data" using local_store.saved [OF a(1)] by blast
  ultimately show thesis using a(2-4) by (intro that [of _ ?wk ?dk a]) (simp_all add: echo_result_def backend_of_def)
qed

text \<open>
  The worker answers every task. A queue of tasks with plain identifiers and prompts is worked off in order, one published
  result per task; each result names its task, carries the checksum of the answer, and its URI reads back data of which the
  URI is the right one, so that unless two answers share the task and the first twelve digits of the checksum it is that answer.
\<close>

theorem worker_results:
  assumes "base \<in> dk_dirs dk" "base \<noteq> []" "last base \<noteq> CHR ''/''"
    and "\<forall>tp\<in>set tasks. CHR ''/'' \<notin> set (fst tp) \<union> set (take 12 (sha (wl_utf8 wl (''Echo: '' @ snd tp))))"
    and "wk_queue wk = map plain_task tasks" "backend_of wl wk = echo_generate (wl_repr wl)"
    and "drain_queue (length tasks) wl (save_artifact sha (wl_repr wl) base) True (wk, dk) = (out, wk', dk')"
  shows "wk_queue wk' = [] \<and> wk_unfinished wk' = wk_unfinished wk - length tasks
    \<and> (\<exists>as. length as = length tasks \<and> length out = length tasks
        \<and> (\<forall>i<length tasks. echo_result wl sha base (tasks ! i) (out ! i) (as ! i)
            \<and> (\<exists>t d. get_artifact (am_uri (as ! i)) dk' = Inr d
                \<and> am_uri (as ! i) = ''file://'' @ artifact_path sha (wl_repr wl) base t d)))"
  using assms(1,4-7)
proof (induction tasks arbitrary: wk dk out)
  case Nil
  then show ?case by simp
next
  case (Cons tp tasks)
  let ?save = "save_artifact sha (wl_repr wl) base"
  have tp: "CHR ''/'' \<notin> set (fst tp) \<union> set (take 12 (sha (wl_utf8 wl (''Echo: '' @ snd tp))))" using Cons.prems(2) by simp
  have q: "wk_queue wk = plain_task tp # map plain_task tasks" using Cons.prems(3) by simp
  from echo_turn [where sha = sha, OF Cons.prems(1) assms(2,3) tp q Cons.prems(4)]
  obtain x a wk1 dk1 where t: "worker_turn wl ?save True (wk, dk) = Some ([x], wk1, dk1)" "echo_result wl sha base tp x a"
      "wk_queue wk1 = map plain_task tasks" "wk_unfinished wk1 = wk_unfinished wk - 1" "backend_of wl wk1 = echo_generate (wl_repr wl)"
      "dk_dirs dk1 = dk_dirs dk" "get_artifact (am_uri a) dk1 = Inr (wl_utf8 wl (''Echo: '' @ snd tp))" .
  obtain out2 where r: "drain_queue (length tasks) wl ?save True (wk1, dk1) = (out2, wk', dk')" "out = x # out2"
    using Cons.prems(5) t(1) by (auto split: prod.splits)
  have "base \<in> dk_dirs dk1" "\<forall>tp\<in>set tasks. CHR ''/'' \<notin> set (fst tp) \<union> set (take 12 (sha (wl_utf8 wl (''Echo: '' @ snd tp))))"
    using Cons.prems(1,2) t(6) by simp_all
  from Cons.IH [OF this t(3,5) r(1)] obtain as where as: "wk_queue wk' = []" "wk_unfinished wk' = wk_unfinished wk1 - length tasks"
      "length as = length tasks" "length out2 = length tasks"
      "\<forall>i<length tasks. echo_result wl sha base (tasks ! i) (out2 ! i) (as ! i)
        \<and> (\<exists>t d. get_artifact (am_uri (as ! i)) dk' = Inr d \<and> am_uri (as ! i) = ''file://'' @ artifact_path sha (wl_repr wl) base t d)"
    by blast
  have "local_store.sound sha (wl_repr wl) base (am_uri a) dk1"
    using t(2,7) unfolding local_store.sound_def echo_result_def by blast
  then have "local_store.sound sha (wl_repr wl) base (am_uri a) dk'"
    using echo_node.drained [OF r(1) t(5)] by blast
  then have "\<exists>t d. get_artifact (am_uri a) dk' = Inr d \<and> am_uri a = ''file://'' @ artifact_path sha (wl_repr wl) base t d"
    unfolding local_store.sound_def .
  then show ?case using as t(2,4) r(2) by (intro conjI exI [of _ "a # as"]) (auto simp: less_Suc_eq_0_disj)
qed

text \<open>
  C35. Split stages compose for floating-point tensors and only for them. A chain of stages turns an activation that passes the
  boundary check into one that passes it, of the same task and shape, with every element shifted by each stage in turn in double
  arithmetic, addressed to the stage after the last. A quantised tensor of another type passes the first stage, which drops the
  mark of quantisation, and is refused by the second.
\<close>

theorem split_stages_compose:
  assumes "node_validate_boundary p = Inr ()" "tensor_data_of p = TFloats xs" "0 \<le> sequence_id p"
    and "\<forall>s\<in>set ss. 0 \<le> stage_index s \<and> stage_index s < 2 ^ 53"
  shows "(dtype p \<in> FLOAT_TYPES \<longrightarrow> (\<exists>q. run_split_stages unpack pack ss p = Inr q \<and> node_validate_boundary q = Inr ()
      \<and> shape q = shape p \<and> tp_task_id q = tp_task_id p
      \<and> tensor_data_of q = TFloats (map (\<lambda>x. foldl (\<lambda>y s. fadd y (stage_shift s)) x ss) xs)
      \<and> (ss \<noteq> [] \<longrightarrow> tp_target_stage_index q = stage_index (last ss) + 1)))
    \<and> (dtype p \<notin> FLOAT_TYPES \<and> 2 \<le> length ss \<longrightarrow>
        (\<exists>q e. execute_split_stage unpack pack (hd ss) p = Inr q \<and> run_split_stages unpack pack ss p = Inl e))"
proof -
  have floats: "\<exists>q. run_split_stages unpack pack ss p = Inr q \<and> node_validate_boundary q = Inr ()
      \<and> shape q = shape p \<and> tp_task_id q = tp_task_id p
      \<and> tensor_data_of q = TFloats (map (\<lambda>x. foldl (\<lambda>y s. fadd y (stage_shift s)) x ss) xs)
      \<and> (ss \<noteq> [] \<longrightarrow> tp_target_stage_index q = stage_index (last ss) + 1)" if "dtype p \<in> FLOAT_TYPES"
    using assms that
  proof (induction ss arbitrary: p xs)
    case Nil
    then show ?case by simp
  next
    case (Cons s ss)
    have s: "0 \<le> stage_index s" "stage_index s < 2 ^ 53" using Cons.prems(4) by simp_all
    from split_stage_floats [OF Cons.prems(1-3) s, of unpack pack]
    obtain q where q: "execute_split_stage unpack pack s p = Inr q" "tensor_data_of q = TFloats (map (\<lambda>x. fadd x (stage_shift s)) xs)"
        "shape q = shape p" "dtype q = dtype p" "tp_task_id q = tp_task_id p" "sequence_id q = sequence_id p"
        "tp_target_stage_index q = stage_index s + 1" "node_validate_boundary q = Inr ()"
      using Cons.prems(5) by metis
    have "0 \<le> sequence_id q" "\<forall>s\<in>set ss. 0 \<le> stage_index s \<and> stage_index s < 2 ^ 53" "dtype q \<in> FLOAT_TYPES"
      using Cons.prems q by simp_all
    from Cons.IH [OF q(8,2) this] show ?case using q by (auto simp: comp_def)
  qed
  have "\<exists>q e. execute_split_stage unpack pack (hd ss) p = Inr q \<and> run_split_stages unpack pack ss p = Inl e"
    if quant: "dtype p \<notin> FLOAT_TYPES" "2 \<le> length ss"
  proof -
    obtain s t rest where ss: "ss = s # t # rest" using quant(2) by (cases ss; cases "tl ss") auto
    then have s: "0 \<le> stage_index s" "stage_index s < 2 ^ 53" using assms(4) by simp_all
    from split_stage_floats [OF assms(1-3) s, of unpack pack]
    obtain q e where "execute_split_stage unpack pack s p = Inr q" "node_validate_boundary q = Inl e"
      using quant(1) by metis
    then show ?thesis by (simp add: ss execute_split_stage_def)
  qed
  then show ?thesis using floats by blast
qed

definition worker_sample :: worker_lib where
  "worker_sample = \<lparr>wl_dumps = (\<lambda>_. ''doc''), wl_repr = (\<lambda>_. []), wl_utf8 = (\<lambda>s. s)\<rparr>"

theorem worker_results_witness:
  "\<exists>out wk' dk'. drain_queue 2 worker_sample (save_artifact (\<lambda>s. ''abc'') (\<lambda>_. []) ''/a'') True
       (put_task (plain_task (''t2'', ''p'')) (put_task (plain_task (''t1'', ''p'')) init_worker), open_store ''/a'' \<lparr>dk_dirs = {}, dk_files = []\<rparr>)
     = (out, wk', dk') \<and> length out = 2 \<and> wk_unfinished wk' = 0 \<and> fst (out ! 1) = result_topic ''t2''"
proof -
  let ?wk = "put_task (plain_task (''t2'', ''p'')) (put_task (plain_task (''t1'', ''p'')) init_worker)"
    and ?dk = "open_store ''/a'' \<lparr>dk_dirs = {}, dk_files = []\<rparr>" and ?tasks = "[(''t1'', ''p''), (''t2'', ''p'')]"
  have rep: "wl_repr worker_sample = (\<lambda>_. [])" by (simp add: worker_sample_def)
  obtain out wk' dk' where d: "drain_queue (length ?tasks) worker_sample (save_artifact (\<lambda>s. ''abc'') (wl_repr worker_sample) ''/a'') True (?wk, ?dk)
      = (out, wk', dk')" by (metis surj_pair)
  have "''/a'' \<in> dk_dirs ?dk" "wk_queue ?wk = map plain_task ?tasks" "backend_of worker_sample ?wk = echo_generate (wl_repr worker_sample)"
    "wk_unfinished ?wk = 2"
    by (simp_all add: open_store_def put_task_def init_worker_def backend_of_def)
  note w = this
  have "\<forall>tp\<in>set ?tasks. CHR ''/'' \<notin> set (fst tp) \<union> set (take 12 ((\<lambda>s. ''abc'') (wl_utf8 worker_sample (''Echo: '' @ snd tp))))"
    by simp
  from worker_results [OF w(1) _ _ this w(2,3) d] obtain as where r: "wk_unfinished wk' = 2 - length ?tasks" "length out = length ?tasks"
      "\<forall>i<length ?tasks. echo_result worker_sample (\<lambda>s. ''abc'') ''/a'' (?tasks ! i) (out ! i) (as ! i)"
    unfolding w(4) by auto
  have "fst (out ! 1) = result_topic ''t2''" using spec [OF r(3), of 1] by (simp add: echo_result_def)
  then show ?thesis using d rep r(1,2) by (intro exI [of _ out] exI [of _ wk'] exI [of _ dk']) (simp add: numeral_2_eq_2)
qed

definition sample_stage :: "int \<Rightarrow> pipeline_stage" where
  "sample_stage i = \<lparr>stage_index = i, total_stages = 4, layers_of = \<lparr>start_layer = i, end_layer = i\<rparr>, ps_node_id = ''n'', ps_model_id = ''m'',
     is_local_boundary = False, stage_type_of = COMPUTE, ps_is_split_inference = True\<rparr>"

theorem split_stages_compose_witness:
  "(\<exists>q. run_split_stages (\<lambda>_ _. NaN) (\<lambda>_ _. Inr []) [sample_stage 1, sample_stage 2] sample_payload = Inr q \<and> tp_target_stage_index q = 3)
   \<and> (\<exists>e. run_split_stages (\<lambda>_ _. NaN) (\<lambda>_ _. Inr []) [sample_stage 1, sample_stage 2] (sample_payload\<lparr>dtype := ''int8'', is_quantized := True\<rparr>) = Inl e)"
proof -
  let ?ss = "[sample_stage 1, sample_stage 2]" and ?q = "sample_payload\<lparr>dtype := ''int8'', is_quantized := True\<rparr>"
  have ss: "\<forall>s\<in>set ?ss. 0 \<le> stage_index s \<and> stage_index s < 2 ^ 53" by (simp add: sample_stage_def)
  have ok: "node_validate_boundary sample_payload = Inr ()" "node_validate_boundary ?q = Inr ()"
    by (simp_all add: node_validate_boundary_def sample_payload_def)
  have d: "tensor_data_of sample_payload = TFloats [Fin 1, Fin 2]" "tensor_data_of ?q = TFloats [Fin 1, Fin 2]"
    "0 \<le> sequence_id sample_payload" "0 \<le> sequence_id ?q" "dtype sample_payload \<in> FLOAT_TYPES" "dtype ?q \<notin> FLOAT_TYPES"
    by (simp_all add: sample_payload_def FLOAT_TYPES_def)
  show ?thesis
    using split_stages_compose [OF ok(1) d(1,3) ss, of "\<lambda>_ _. NaN" "\<lambda>_ _. Inr []"]
      split_stages_compose [OF ok(2) d(2,4) ss, of "\<lambda>_ _. NaN" "\<lambda>_ _. Inr []"] d(5,6)
    by (auto simp: sample_stage_def)
qed

end
