(* ===== verification/Local_Boundary.thy ===== *)
theory Local_Boundary
  imports Host_Probes Tensor_Frames
begin

text \<open>
  The client side of split inference kept under \<^verbatim>\<open>experimental/node/local_boundary.py\<close> (the Scheduler's copy differs in its
  imports): tokenisation, the embedding layer, speculative candidates and the language-model head with sampling. The
  arguments are the generator of \<^verbatim>\<open>random.Random(seed)\<close>, the salted \<^verbatim>\<open>hash\<close> of strings, \<^verbatim>\<open>sqrt\<close>, \<^verbatim>\<open>exp\<close>, \<^verbatim>\<open>struct\<close>, the draw of
  \<^verbatim>\<open>random.choices\<close>, and \<^verbatim>\<open>sum\<close> of floats, which adds up plainly or with compensation depending on the version of Python.
\<close>

section \<open>The engine\<close>

record boundary_lib =
  bl_gauss :: "int \<Rightarrow> pyfloat \<Rightarrow> nat \<Rightarrow> pyfloat"
  bl_hash :: "string \<Rightarrow> int"
  bl_sqrt :: "pyfloat \<Rightarrow> pyfloat"
  bl_exp :: "pyfloat \<Rightarrow> pyfloat"
  bl_sum :: "pyfloat list \<Rightarrow> pyfloat"
  bl_unpack :: "bool \<Rightarrow> string \<Rightarrow> pyfloat"

record boundary_engine =
  be_vocab_size :: int
  be_hidden_dim :: int
  be_token_to_id :: "(string, int) dict"
  be_id_to_token :: "(int, string) dict"
  be_embedding :: "pyfloat list list"
  be_lm_head :: "pyfloat list list"
  be_history :: "int list"

definition SPECIAL_TOKENS :: "string list" where
  "SPECIAL_TOKENS = [''<pad>'', ''<bos>'', ''<eos>'', ''<unk>'']"

definition WORDS :: "string list" where
  "WORDS =
    [''the'', ''be'', ''to'', ''of'', ''and'', ''a'', ''in'', ''that'', ''have'', ''i'', ''it'', ''for'', ''not'',
      ''on'', ''with'', ''he'', ''as'', ''you'', ''do'', ''at'', ''this'', ''but'', ''his'', ''by'', ''from'', ''they'',
      ''we'', ''say'', ''her'', ''she'', ''or'', ''an'', ''will'', ''my'', ''one'', ''all'', ''would'', ''there'',
      ''their'', ''what'', ''so'', ''up'', ''out'', ''if'', ''about'', ''who'', ''get'', ''which'', ''go'', ''me'',
      ''when'', ''make'', ''can'', ''like'', ''time'', ''no'', ''just'', ''him'', ''know'', ''take'', ''people'',
      ''into'', ''year'', ''your'', ''good'', ''some'', ''could'', ''them'', ''see'', ''other'', ''than'', ''then'',
      ''now'', ''look'', ''only'', ''come'', ''its'', ''over'', ''think'', ''also'', ''back'', ''after'', ''use'',
      ''two'', ''how'', ''our'', ''work'', ''first'', ''well'', ''way'', ''even'', ''new'', ''want'', ''because'',
      ''any'', ''these'', ''give'', ''day'', ''most'', ''us'', ''hello'', ''world'', ''public'', ''intelligence'',
      ''ai'', ''node'', ''split'', ''inference'', ''privacy'', ''boundary'', ''secure'', ''local'', ''layer'',
      ''activation'', ''tensor'']"

text \<open>The special tokens are entered whatever the size of the vocabulary, the words while there is room.\<close>

fun add_words :: "int \<Rightarrow> string list \<Rightarrow> int \<Rightarrow> (string, int) dict \<times> (int, string) dict \<Rightarrow> (string, int) dict \<times> (int, string) dict" where
  "add_words vocab [] n tables = tables"
| "add_words vocab (w # ws) n (ids, toks) =
     (if vocab \<le> n then (ids, toks)
      else if dmem w ids then add_words vocab ws n (ids, toks)
      else add_words vocab ws (n + 1) (dset w n ids, dset n w toks))"

definition init_vocabulary :: "int \<Rightarrow> (string, int) dict \<times> (int, string) dict" where
  "init_vocabulary vocab =
     add_words vocab WORDS (int (length SPECIAL_TOKENS))
       (fold (\<lambda>(i, t). dset t (int i)) (enumerate 0 SPECIAL_TOKENS) [],
        fold (\<lambda>(i, t). dset (int i) t) (enumerate 0 SPECIAL_TOKENS) [])"

text \<open>A matrix is drawn row by row from draw number \<open>start\<close> on.\<close>

definition draw_matrix :: "(nat \<Rightarrow> pyfloat) \<Rightarrow> nat \<Rightarrow> nat \<Rightarrow> nat \<Rightarrow> pyfloat list list" where
  "draw_matrix g start rows cols = map (\<lambda>i. map (\<lambda>j. g (start + i * cols + j)) [0..<cols]) [0..<rows]"

definition init_boundary :: "boundary_lib \<Rightarrow> int \<Rightarrow> int \<Rightarrow> int \<Rightarrow> boundary_engine res" where
  "init_boundary bl vocab hidden seed =
     (if hidden < 0 then Inl (ValueError ''math domain error'')
      else rbind (float_of_int hidden) (\<lambda>h.
        rbind (fdiv (Fin 1) (if hidden = 0 then Fin 0 else bl_sqrt bl h)) (\<lambda>scale.
        let g = bl_gauss bl seed scale; v = nat vocab; d = nat hidden; (ids, toks) = init_vocabulary vocab
        in Inr \<lparr>be_vocab_size = vocab, be_hidden_dim = hidden, be_token_to_id = ids, be_id_to_token = toks,
             be_embedding = draw_matrix g 0 v d, be_lm_head = draw_matrix g (v * d) v d, be_history = []\<rparr>)))"

section \<open>Tokens\<close>

definition clean_token :: "string \<Rightarrow> string" where
  "clean_token t = filter (\<lambda>c. is_alnum c \<or> c \<in> {CHR ''_'', CHR ''-''}) t"

text \<open>\<^verbatim>\<open>abs(hash(cleaned)) % (vocab_size - 100) + 100\<close> for an unknown word.\<close>

definition token_id :: "boundary_lib \<Rightarrow> boundary_engine \<Rightarrow> string \<Rightarrow> int res" where
  "token_id bl e cleaned =
     (case dget (be_token_to_id e) cleaned of
        Some n \<Rightarrow> Inr n
      | None \<Rightarrow>
          if be_vocab_size e - 100 = 0 then Inl (ZeroDivisionError ''integer modulo by zero'')
          else Inr (\<bar>bl_hash bl cleaned\<bar> mod (be_vocab_size e - 100) + 100))"

definition bos_id :: "boundary_engine \<Rightarrow> int" where
  "bos_id e = dget_or (be_token_to_id e) ''<bos>'' 1"

definition tokenize :: "boundary_lib \<Rightarrow> boundary_engine \<Rightarrow> string \<Rightarrow> int list res" where
  "tokenize bl e prompt =
     (if py_strip prompt = [] then Inr [bos_id e]
      else rbind (mapM (token_id bl e) (filter (\<lambda>t. t \<noteq> []) (map clean_token (py_words (py_strip (py_lower prompt)))))) (\<lambda>ids.
        Inr (if ids = [] then [bos_id e] else ids)))"

section \<open>Embedding\<close>

text \<open>\<^verbatim>\<open>matrix[tid % vocab_size]\<close>.\<close>

definition embedding_row :: "boundary_engine \<Rightarrow> int \<Rightarrow> pyfloat list res" where
  "embedding_row e tid =
     (if be_vocab_size e = 0 then Inl (ZeroDivisionError ''integer modulo by zero'')
      else let i = tid mod be_vocab_size e
           in if 0 \<le> i \<and> i < int (length (be_embedding e)) then Inr (be_embedding e ! nat i)
              else Inl (OtherError ''IndexError: list index out of range''))"

definition activation :: "boundary_engine \<Rightarrow> string \<Rightarrow> int \<Rightarrow> int list \<Rightarrow> tensor_payload res" where
  "activation e task target ids =
     rbind (mapM (embedding_row e) ids) (\<lambda>rows.
     if target < 0 then Inl invalid
     else Inr \<lparr>tp_task_id = task, tp_stage_index = 0, tp_target_stage_index = target, tp_is_split_inference = True,
         tensor_type = ''activation'', tensor_data_of = TFloats (concat rows), shape = [1, int (length ids), be_hidden_dim e],
         dtype = ''float32'', sequence_id = 0, shm_name = None, is_quantized = False, quantization_type = None, scale_factor = Fin 1,
         is_speculative = False, speculative_block_size = 1\<rparr>)"

definition embed_prompt :: "boundary_lib \<Rightarrow> string \<Rightarrow> string \<Rightarrow> int \<Rightarrow> boundary_engine \<Rightarrow> tensor_payload res \<times> boundary_engine" where
  "embed_prompt bl prompt task target e =
     (case tokenize bl e prompt of
        Inl x \<Rightarrow> (Inl x, e)
      | Inr ids \<Rightarrow> (activation e task target ids, e\<lparr>be_history := ids\<rparr>))"

record draft_block =
  db_task_id :: string
  db_speculative_k :: int
  db_candidate_tokens :: "int list"
  db_draft_logprobs :: "pyfloat list"
  db_activation_payload :: tensor_payload

text \<open>Each candidate is computed from the one before it.\<close>

fun draft_tokens :: "int \<Rightarrow> nat \<Rightarrow> int \<Rightarrow> int list res" where
  "draft_tokens vocab 0 last_id = Inr []"
| "draft_tokens vocab (Suc k) last_id =
     (if vocab = 0 then Inl (ZeroDivisionError ''integer modulo by zero'')
      else let n = (last_id * 7 + 13) mod vocab in rbind (draft_tokens vocab k n) (\<lambda>ns. Inr (n # ns)))"

definition generate_speculative_candidates :: "boundary_lib \<Rightarrow> string \<Rightarrow> int \<Rightarrow> string \<Rightarrow> boundary_engine \<Rightarrow> draft_block res" where
  "generate_speculative_candidates bl prompt k task e =
     rbind (tokenize bl e prompt) (\<lambda>ids.
     rbind (draft_tokens (be_vocab_size e) (nat k) (last ids)) (\<lambda>cands.
     rbind (activation e task 1 (ids @ cands)) (\<lambda>p.
     if k < 1 \<or> 16 < k then Inl (ValueError ''validation error for DraftBlockPayload'')
     else Inr \<lparr>db_task_id = task, db_speculative_k = k, db_candidate_tokens = cands, db_draft_logprobs = replicate (nat k) (Fin (- 1 / 2)),
         db_activation_payload = p\<lparr>is_speculative := True, speculative_block_size := k\<rparr>\<rparr>)))"

section \<open>The language-model head\<close>

definition last_vector :: "int \<Rightarrow> pyfloat list \<Rightarrow> pyfloat list" where
  "last_vector d xs =
     (let h = (if d \<le> int (length xs) then slice_from_neg d xs else xs); n = length h
      in if int n < d then h @ replicate (nat d - n) (Fin 0) else if d < int n then take (nat d) h else h)"

fun chunks_of4 :: "string \<Rightarrow> string list" where
  "chunks_of4 (a # b # c # d # rest) = [a, b, c, d] # chunks_of4 rest"
| "chunks_of4 _ = []"

definition payload_floats :: "boundary_lib \<Rightarrow> tensor_payload \<Rightarrow> pyfloat list res" where
  "payload_floats bl p =
     (case tensor_data_of p of
        TFloats xs \<Rightarrow> if xs = [] then Inl (ValueError ''Activation payload data list is empty'') else Inr xs
      | TBytes b \<Rightarrow>
          if b = [] \<or> length b mod 4 \<noteq> 0 then Inl (ValueError ''Activation payload bytes length is invalid or empty'')
          else Inr (map (bl_unpack bl (startswith b MAGIC)) (chunks_of4 b))
      | TDict d \<Rightarrow> Inl (ValueError ''Activation payload contains no float vector data''))"

definition logits_of :: "boundary_lib \<Rightarrow> boundary_engine \<Rightarrow> pyfloat list \<Rightarrow> pyfloat list" where
  "logits_of bl e h = map (\<lambda>row. bl_sum bl (map2 fmul row h)) (be_lm_head e)"

text \<open>\<^verbatim>\<open>max\<close> keeps the first of equal keys; of indices by their value, and of values.\<close>

fun argmax_from :: "nat \<Rightarrow> nat \<Rightarrow> pyfloat \<Rightarrow> pyfloat list \<Rightarrow> nat" where
  "argmax_from i best v [] = best"
| "argmax_from i best v (x # xs) = (if flt v x then argmax_from (i + 1) i x xs else argmax_from (i + 1) best v xs)"

definition argmax :: "pyfloat list \<Rightarrow> nat res" where
  "argmax xs = (case xs of [] \<Rightarrow> Inl (ValueError ''max() iterable argument is empty'') | x # rest \<Rightarrow> Inr (argmax_from 1 0 x rest))"

text \<open>\<^verbatim>\<open>random.choices(range(n), weights=ws, k=1)[0]\<close> for a draw \<open>u\<close>.\<close>

fun accumulate_from :: "pyfloat \<Rightarrow> pyfloat list \<Rightarrow> pyfloat list" where
  "accumulate_from t [] = []"
| "accumulate_from t (x # xs) = (let s = fadd t x in s # accumulate_from s xs)"

definition accumulate :: "pyfloat list \<Rightarrow> pyfloat list" where
  "accumulate ws = (case ws of [] \<Rightarrow> [] | w # rest \<Rightarrow> w # accumulate_from w rest)"

definition choose_weighted :: "pyfloat \<Rightarrow> pyfloat list \<Rightarrow> nat res" where
  "choose_weighted u ws =
     (let cum = accumulate ws; total = last cum
      in if fle total (Fin 0) then Inl (ValueError ''Total of weights must be greater than zero'')
         else if total \<in> {PInf, NInf, NaN} then Inl (ValueError ''Total of weights must be finite'')
         else Inr (length (takeWhile (\<lambda>c. fle c (fmul u total)) (butlast cum))))"

definition sample_token :: "boundary_lib \<Rightarrow> pyfloat \<Rightarrow> pyfloat \<Rightarrow> pyfloat list \<Rightarrow> nat res" where
  "sample_token bl u temperature logits =
     (if fle temperature (rnd (1 / 100)) then argmax logits
      else rbind (mapM (\<lambda>v. fdiv v temperature) logits) (\<lambda>scaled.
        rbind (argmax scaled) (\<lambda>m.
        let exps = map (\<lambda>v. bl_exp bl (fsub v (scaled ! m))) scaled; total = bl_sum bl exps
        in rbind (mapM (\<lambda>x. fdiv x total) exps) (choose_weighted u))))"

definition unembed_logits :: "boundary_lib \<Rightarrow> pyfloat \<Rightarrow> tensor_payload \<Rightarrow> pyfloat \<Rightarrow> boundary_engine
    \<Rightarrow> (int \<times> string) res \<times> boundary_engine" where
  "unembed_logits bl u p temperature e =
     (case rbind (node_validate_boundary p) (\<lambda>_.
           rbind (payload_floats bl p) (\<lambda>xs.
           sample_token bl u temperature (logits_of bl e (last_vector (be_hidden_dim e) xs)))) of
        Inl x \<Rightarrow> (Inl x, e)
      | Inr n \<Rightarrow>
          (Inr (int n, case dget (be_id_to_token e) (int n) of None \<Rightarrow> ''token_'' @ str_of_int (int n) | Some t \<Rightarrow> t),
           e\<lparr>be_history := be_history e @ [int n]\<rparr>))"

section \<open>Engines are well formed\<close>

definition tables_ok :: "int \<Rightarrow> (string, int) dict \<times> (int, string) dict \<Rightarrow> bool" where
  "tables_ok n tables \<longleftrightarrow> (\<forall>w i. dget (fst tables) w = Some i \<longrightarrow> 0 \<le> i \<and> i < n)"

lemma tables_ok_mono: "tables_ok n t \<Longrightarrow> n \<le> m \<Longrightarrow> tables_ok m t"
  unfolding tables_ok_def by force

lemma tables_ok_add: "tables_ok n t \<Longrightarrow> 0 \<le> n \<Longrightarrow> n \<le> vocab \<Longrightarrow> tables_ok vocab (add_words vocab ws n t)"
proof (induction vocab ws n t rule: add_words.induct)
  case (1 vocab n tables)
  then show ?case by (auto intro: tables_ok_mono)
next
  case (2 vocab w ws n ids toks)
  have "tables_ok (n + 1) (dset w n ids, dset n w toks)"
    using 2 by (auto simp: tables_ok_def dict_simps split: if_splits) force+
  then show ?case using 2 by (auto intro: tables_ok_mono)
qed

lemma special_tables:
  "fold (\<lambda>(i, t). dset t (int i)) (enumerate 0 SPECIAL_TOKENS) [] = [(''<pad>'', 0), (''<bos>'', 1), (''<eos>'', 2), (''<unk>'', 3)]"
  by (simp add: SPECIAL_TOKENS_def)

definition engine_ok :: "boundary_engine \<Rightarrow> bool" where
  "engine_ok e \<longleftrightarrow> 100 < be_vocab_size e \<and> 0 < be_hidden_dim e
   \<and> length (be_embedding e) = nat (be_vocab_size e) \<and> (\<forall>r\<in>set (be_embedding e). length r = nat (be_hidden_dim e))
   \<and> length (be_lm_head e) = nat (be_vocab_size e) \<and> (\<forall>r\<in>set (be_lm_head e). length r = nat (be_hidden_dim e))
   \<and> (\<forall>w i. dget (be_token_to_id e) w = Some i \<longrightarrow> 0 \<le> i \<and> i < be_vocab_size e)"

lemma init_boundary_ok:
  assumes "init_boundary bl vocab hidden seed = Inr e" "100 < vocab" "0 < hidden"
  shows "engine_ok e \<and> be_vocab_size e = vocab \<and> be_hidden_dim e = hidden"
proof -
  have "tables_ok vocab (init_vocabulary vocab)"
    unfolding init_vocabulary_def special_tables
    by (rule tables_ok_add) (use assms(2) in \<open>auto simp: tables_ok_def SPECIAL_TOKENS_def split: if_splits\<close>)
  moreover obtain ids toks where "init_vocabulary vocab = (ids, toks)" by fastforce
  ultimately show ?thesis
    using assms by (auto simp: init_boundary_def rbind_eq_Inr engine_ok_def tables_ok_def draw_matrix_def Let_def)
qed

section \<open>Tokens and rows\<close>

lemma token_in_range:
  assumes "engine_ok e" "token_id bl e w = Inr n"
  shows "0 \<le> n \<and> n < be_vocab_size e"
proof (cases "dget (be_token_to_id e) w")
  case None
  have pos: "0 < be_vocab_size e - 100" using assms(1) by (simp add: engine_ok_def)
  have "n = \<bar>bl_hash bl w\<bar> mod (be_vocab_size e - 100) + 100" using assms(2) None by (simp add: token_id_def split: if_splits)
  then show ?thesis using pos_mod_sign [OF pos, of "\<bar>bl_hash bl w\<bar>"] pos_mod_bound [OF pos, of "\<bar>bl_hash bl w\<bar>"] by linarith
next
  case (Some i)
  then show ?thesis using assms by (auto simp: token_id_def engine_ok_def)
qed

lemma bos_in_range: "engine_ok e \<Longrightarrow> 0 \<le> bos_id e \<and> bos_id e < be_vocab_size e"
  by (auto simp: bos_id_def dget_or_def engine_ok_def split: option.splits)

lemma tokens_in_range:
  assumes "engine_ok e" "tokenize bl e prompt = Inr ids"
  shows "ids \<noteq> [] \<and> (\<forall>n\<in>set ids. 0 \<le> n \<and> n < be_vocab_size e)"
proof -
  have "\<forall>n\<in>set ns. 0 \<le> n \<and> n < be_vocab_size e" if "mapM (token_id bl e) ts = Inr ns" for ts ns
    using mapM_Inr [OF that] token_in_range [OF assms(1)] by (induction ts ns rule: list_all2_induct) auto
  then show ?thesis
    using assms(2) bos_in_range [OF assms(1)] by (auto simp: tokenize_def rbind_eq_Inr split: if_splits)
qed

text \<open>Tokenisation of a well-formed engine never raises.\<close>

lemma token_id_total: "engine_ok e \<Longrightarrow> \<exists>n. token_id bl e w = Inr n"
  by (cases "dget (be_token_to_id e) w") (simp_all add: token_id_def engine_ok_def)

lemma tokenize_total:
  assumes "engine_ok e"
  shows "\<exists>ids. tokenize bl e prompt = Inr ids"
proof -
  have m: "\<exists>ns. mapM (token_id bl e) ts = Inr ns" for ts
  proof (induction ts)
    case (Cons t ts)
    then obtain ns n where "mapM (token_id bl e) ts = Inr ns" "token_id bl e t = Inr n" using token_id_total [OF assms] by metis
    then show ?case by simp
  qed simp
  obtain ns where "mapM (token_id bl e) (filter (\<lambda>t. t \<noteq> []) (map clean_token (py_words (py_strip (py_lower prompt))))) = Inr ns"
    using m by blast
  then show ?thesis by (simp add: tokenize_def)
qed

lemma rows_of:
  assumes "engine_ok e" "\<forall>n\<in>set ids. 0 \<le> n \<and> n < be_vocab_size e"
  shows "mapM (embedding_row e) ids = Inr (map (\<lambda>n. be_embedding e ! nat n) ids)"
proof -
  have "embedding_row e n = Inr (be_embedding e ! nat n)" if "0 \<le> n" "n < be_vocab_size e" for n
    using assms(1) that by (simp add: embedding_row_def engine_ok_def)
  then show ?thesis using assms(2) by (induction ids) simp_all
qed

section \<open>Reading the tokens back\<close>

text \<open>The position of a row in the matrix, and the rows of a flat list.\<close>

definition index_of_row :: "pyfloat list list \<Rightarrow> pyfloat list \<Rightarrow> int" where
  "index_of_row m r = int (length (takeWhile (\<lambda>r'. r' \<noteq> r) m))"

definition recover_tokens :: "pyfloat list list \<Rightarrow> nat \<Rightarrow> pyfloat list \<Rightarrow> int list" where
  "recover_tokens m d xs = map (\<lambda>i. index_of_row m (take d (drop (i * d) xs))) [0..<length xs div d]"

lemma index_of_row_nth:
  assumes "distinct m" "n < length m"
  shows "index_of_row m (m ! n) = int n"
proof -
  have "takeWhile (\<lambda>r. r \<noteq> m ! n) m = take n m"
    using assms by (intro takeWhile_eq_take_P_nth) (auto simp: distinct_conv_nth)
  then show ?thesis using assms(2) by (simp add: index_of_row_def)
qed

lemma nth_block: "\<forall>r\<in>set rows. length r = d \<Longrightarrow> i < length rows \<Longrightarrow> take d (drop (i * d) (concat rows)) = rows ! i"
proof (induction rows arbitrary: i)
  case (Cons r rows)
  then show ?case by (cases i) simp_all
qed simp

lemma length_blocks: "\<forall>r\<in>set rows. length r = d \<Longrightarrow> length (concat rows) = length rows * d"
  by (induction rows) simp_all

lemma recover_rows:
  assumes "engine_ok e" "distinct (be_embedding e)" "\<forall>n\<in>set ids. 0 \<le> n \<and> n < be_vocab_size e"
  shows "recover_tokens (be_embedding e) (nat (be_hidden_dim e)) (concat (map (\<lambda>n. be_embedding e ! nat n) ids)) = ids"
proof -
  let ?rows = "map (\<lambda>n. be_embedding e ! nat n) ids" and ?d = "nat (be_hidden_dim e)"
  have d: "0 < ?d" and len: "\<forall>r\<in>set ?rows. length r = ?d"
    using assms(1,3) by (auto simp: engine_ok_def)
  have "length (concat ?rows) div ?d = length ids" using length_blocks [OF len] d by simp
  moreover have "index_of_row (be_embedding e) (take ?d (drop (i * ?d) (concat ?rows))) = ids ! i" if "i < length ids" for i
  proof -
    have "0 \<le> ids ! i" "ids ! i < be_vocab_size e" using assms(3) nth_mem [OF that] by auto
    then have "nat (ids ! i) < length (be_embedding e)" using assms(1) by (simp add: engine_ok_def)
    from index_of_row_nth [OF assms(2) this] show ?thesis using nth_block [OF len, of i] that \<open>0 \<le> ids ! i\<close> by simp
  qed
  ultimately show ?thesis unfolding recover_tokens_def by (intro nth_equalityI) auto
qed

section \<open>Sampling\<close>

lemma flt_trans: "flt a b \<Longrightarrow> flt b c \<Longrightarrow> flt a c"
  by (cases a; cases b; cases c) auto

lemma flt_irrefl: "\<not> flt a a"
  by (cases a) auto

lemma argmax_from_best:
  assumes "best < length xs" "v = xs ! best" "\<forall>j<i. \<not> flt v (xs ! j)" "best < i" "i \<le> length xs"
  shows "argmax_from i best v (drop i xs) < length xs \<and> (\<forall>j<length xs. \<not> flt (xs ! argmax_from i best v (drop i xs)) (xs ! j))"
  using assms
proof (induction "length xs - i" arbitrary: i best v)
  case 0
  then show ?case by simp
next
  case (Suc n)
  then have i: "i < length xs" by simp
  then have drop: "drop i xs = xs ! i # drop (Suc i) xs" by (simp add: Cons_nth_drop_Suc)
  show ?case
  proof (cases "flt v (xs ! i)")
    case True
    have "\<forall>j<Suc i. \<not> flt (xs ! i) (xs ! j)"
      using Suc.prems(3) True flt_trans flt_irrefl less_Suc_eq by metis
    then show ?thesis using Suc.hyps(1) [of "Suc i" i "xs ! i"] Suc.hyps(2) i True drop by simp
  next
    case False
    have "\<forall>j<Suc i. \<not> flt v (xs ! j)" using Suc.prems(3) False less_Suc_eq by metis
    then show ?thesis using Suc.hyps(1) [of "Suc i" best v] Suc.hyps(2) Suc.prems i False drop by simp
  qed
qed

lemma argmax_best:
  assumes "argmax xs = Inr n"
  shows "n < length xs \<and> (\<forall>j<length xs. \<not> flt (xs ! n) (xs ! j))"
proof -
  obtain x rest where "xs = x # rest" "n = argmax_from 1 0 x rest" using assms by (auto simp: argmax_def split: list.splits)
  moreover from this have "0 < length xs" "x = xs ! 0" "rest = drop 1 xs" "1 \<le> length xs" by simp_all
  moreover have "\<forall>j<1. \<not> flt (xs ! 0) (xs ! j)" using flt_irrefl by simp
  ultimately show ?thesis using argmax_from_best [of 0 xs "xs ! 0" 1] by (metis zero_less_one)
qed

lemma length_accumulate [simp]: "length (accumulate ws) = length ws"
proof -
  have "length (accumulate_from t xs) = length xs" for t xs by (induction xs arbitrary: t) (simp_all add: Let_def)
  then show ?thesis by (simp add: accumulate_def split: list.splits)
qed

lemma choose_in_range: "choose_weighted u ws = Inr n \<Longrightarrow> ws \<noteq> [] \<Longrightarrow> n < length ws"
proof -
  assume c: "choose_weighted u ws = Inr n" "ws \<noteq> []"
  then obtain P where "n = length (takeWhile P (butlast (accumulate ws)))"
    by (auto simp: choose_weighted_def Let_def split: if_splits)
  then have "n \<le> length (butlast (accumulate ws))" using length_takeWhile_le by metis
  then show ?thesis using c(2) by (cases ws) auto
qed

lemma mapM_length_Inr: "mapM f xs = Inr ys \<Longrightarrow> length ys = length xs"
  using list_all2_lengthD [OF mapM_Inr] by metis

lemma sample_in_range:
  assumes "sample_token bl u temperature logits = Inr n" "logits \<noteq> []"
  shows "n < length logits"
proof (cases "fle temperature (rnd (1 / 100))")
  case True
  then show ?thesis using assms(1) argmax_best by (simp add: sample_token_def)
next
  case False
  then obtain scaled m ps where "mapM (\<lambda>v. fdiv v temperature) logits = Inr scaled"
      "mapM (\<lambda>x. fdiv x (bl_sum bl (map (\<lambda>v. bl_exp bl (fsub v (scaled ! m))) scaled))) (map (\<lambda>v. bl_exp bl (fsub v (scaled ! m))) scaled)
        = Inr ps" "choose_weighted u ps = Inr n"
    using assms(1) by (auto simp: sample_token_def rbind_eq_Inr Let_def)
  then show ?thesis using mapM_length_Inr choose_in_range assms(2) by (metis length_map length_0_conv)
qed

section \<open>Properties\<close>


text \<open>
  Decoding stays in the vocabulary. For any accepted payload and any temperature, the token returned is one of the vocabulary
  and is the only thing added to the history. Greedy decoding, at a temperature of at most 0.01, of a list of numbers always
  succeeds, and no logit exceeds that of its token.
\<close>

theorem unembed_sound:
  assumes "init_boundary bl vocab hidden seed = Inr e" "100 < vocab" "0 < hidden" "node_validate_boundary p = Inr ()"
  shows "(\<forall>n t e'. unembed_logits bl u p temperature e = (Inr (n, t), e') \<longrightarrow>
      0 \<le> n \<and> n < vocab \<and> e' = e\<lparr>be_history := be_history e @ [n]\<rparr>)
    \<and> (\<forall>xs. tensor_data_of p = TFloats xs \<and> fle temperature (rnd (1 / 100)) \<longrightarrow>
        (\<exists>n t e'. unembed_logits bl u p temperature e = (Inr (n, t), e')
          \<and> (\<forall>j<nat vocab. \<not> flt (logits_of bl e (last_vector hidden xs) ! nat n) (logits_of bl e (last_vector hidden xs) ! j))))"
proof -
  from init_boundary_ok [OF assms(1-3)] have e: "engine_ok e" "be_vocab_size e = vocab" "be_hidden_dim e = hidden" by simp_all
  have len: "length (logits_of bl e h) = nat vocab" for h using e by (simp add: logits_of_def engine_ok_def)
  then have ne: "logits_of bl e h \<noteq> []" for h using assms(2) by (metis list.size(3) nat_0_iff not_less zero_le_numeral order.trans)
  have range: "0 \<le> n \<and> n < vocab \<and> e' = e\<lparr>be_history := be_history e @ [n]\<rparr>"
    if res: "unembed_logits bl u p temperature e = (Inr (n, t), e')" for n t e'
  proof -
    let ?r = "rbind (node_validate_boundary p) (\<lambda>_. rbind (payload_floats bl p) (\<lambda>xs.
           sample_token bl u temperature (logits_of bl e (last_vector (be_hidden_dim e) xs))))"
    obtain k where r: "?r = Inr k" using res by (cases ?r) (simp_all add: unembed_logits_def)
    then have k: "n = int k" "e' = e\<lparr>be_history := be_history e @ [n]\<rparr>" using res by (auto simp: unembed_logits_def)
    from r obtain h where h: "sample_token bl u temperature (logits_of bl e h) = Inr k" by (auto simp: rbind_eq_Inr)
    show ?thesis using sample_in_range [OF h ne] k len assms(2) by (simp add: nat_less_iff [symmetric] zless_nat_eq_int_zless)
  qed
  have greedy: "\<exists>n t e'. unembed_logits bl u p temperature e = (Inr (n, t), e')
          \<and> (\<forall>j<nat vocab. \<not> flt (logits_of bl e (last_vector hidden xs) ! nat n) (logits_of bl e (last_vector hidden xs) ! j))"
    if xs: "tensor_data_of p = TFloats xs" and t: "fle temperature (rnd (1 / 100))" for xs
  proof -
    let ?l = "logits_of bl e (last_vector hidden xs)"
    have "xs \<noteq> []" using assms(4) xs by (auto simp: node_validate_boundary_def split: if_splits)
    moreover obtain k where k: "argmax ?l = Inr k" using ne by (cases ?l) (auto simp: argmax_def)
    ultimately show ?thesis
      using argmax_best [OF k] assms(4) xs t e(3) len by (simp add: unembed_logits_def payload_floats_def sample_token_def)
  qed
  show ?thesis using range greedy by blast
qed

definition tiny_lib :: boundary_lib where
  "tiny_lib = \<lparr>bl_gauss = (\<lambda>seed scale i. Fin (of_nat i)), bl_hash = (\<lambda>s. int (length s)), bl_sqrt = (\<lambda>x. x), bl_exp = (\<lambda>x. x),
     bl_sum = (\<lambda>xs. fold fadd xs (Fin 0)), bl_unpack = (\<lambda>b s. Fin 0)\<rparr>"

lemma tiny_engine:
  obtains e where "init_boundary tiny_lib 101 1 42 = Inr e" "distinct (be_embedding e)"
proof -
  obtain ids toks where tables: "init_vocabulary 101 = (ids, toks)" by fastforce
  obtain e where e: "init_boundary tiny_lib 101 1 42 = Inr e" "be_embedding e = draw_matrix (\<lambda>i. Fin (of_nat i)) 0 101 1"
    using tables by (simp add: init_boundary_def tiny_lib_def float_of_int_def rnd_dbl Let_def)
  then have "distinct (be_embedding e)" by (simp add: draw_matrix_def distinct_map inj_on_def)
  with e(1) show thesis by (rule that)
qed


theorem unembed_sound_witness:
  "\<exists>e n t e'. init_boundary tiny_lib 101 1 42 = Inr e \<and> unembed_logits tiny_lib (Fin 0) sample_payload (Fin 0) e = (Inr (n, t), e')
     \<and> 0 \<le> n \<and> n < 101"
proof -
  obtain e where e: "init_boundary tiny_lib 101 1 42 = Inr e" by (rule tiny_engine)
  have p: "node_validate_boundary sample_payload = Inr ()" "tensor_data_of sample_payload = TFloats [Fin 1, Fin 2]"
    by (simp_all add: node_validate_boundary_def sample_payload_def)
  have t: "fle (Fin 0) (rnd (1 / 100))" using rnd_mono [of 0 "1 / 100"] by (simp add: rnd_dbl)
  have "100 < (101 :: int)" "0 < (1 :: int)" by simp_all
  from unembed_sound [OF e this p(1), of "Fin 0" "Fin 0"] p(2) t e show ?thesis by blast
qed

end
