(* ===== verification/Raft.thy ===== *)
theory Raft
  imports Registry
begin

text \<open>
  The consensus engine kept under \<^verbatim>\<open>experimental/scheduler/consensus.py\<close>: a Raft variant over Zenoh that
  replicates registry changes between Schedulers. The engine is the record \<open>raft\<close>; a handler takes a
  message of another engine and the clock and returns the new state with the messages it sends. Every
  engine subscribes to \<^verbatim>\<open>public-intelligence/net/consensus/*\<close>, so each message reaches every engine, whatever
  key it was sent under. One lock serialises the handlers; \<^verbatim>\<open>_process_message\<close> takes it twice, so noting the
  sender and handling the message are two steps. Building a \<^verbatim>\<open>Node\<close> from a dictionary is the argument
  \<open>node_of\<close>. Messages are those engines send: fields of other types are outside the model.
\<close>

section \<open>State\<close>

datatype role = LEADER | CANDIDATE | FOLLOWER

record log_entry =
  le_term :: int
  le_action :: string
  le_data :: json

record raft =
  rf_id :: string
  rf_registry :: registry
  rf_state :: role
  rf_current_term :: int
  rf_voted_for :: "string option"
  rf_log :: "log_entry list"
  rf_commit_index :: int
  rf_peers :: "(string, pyfloat) dict"
  rf_match_index :: "(string, int) dict"
  rf_votes :: "string list"
  rf_session :: bool
  rf_commit_events :: "(int, bool) dict"
  rf_last_heartbeat_time :: pyfloat
  rf_is_active :: bool
  rf_leader_id :: "string option"

definition init_raft :: "string \<Rightarrow> registry \<Rightarrow> pyfloat \<Rightarrow> raft" where
  "init_raft k r now =
     \<lparr>rf_id = k, rf_registry = r, rf_state = FOLLOWER, rf_current_term = 0, rf_voted_for = None, rf_log = [],
      rf_commit_index = - 1, rf_peers = [], rf_match_index = [], rf_votes = [], rf_session = False, rf_commit_events = [],
      rf_last_heartbeat_time = now, rf_is_active = False, rf_leader_id = None\<rparr>"

datatype raft_msg =
    RequestVote string int string int int
  | RequestVoteResponse string int bool string
  | AppendEntries string int string int int "log_entry list" int
  | AppendEntriesResponse string int bool int string
  | ProposeMsg string string json

fun sender_id :: "raft_msg \<Rightarrow> string" where
  "sender_id (RequestVote s _ _ _ _) = s"
| "sender_id (RequestVoteResponse s _ _ _) = s"
| "sender_id (AppendEntries s _ _ _ _ _ _) = s"
| "sender_id (AppendEntriesResponse s _ _ _ _) = s"
| "sender_id (ProposeMsg s _ _) = s"

section \<open>Starting and stopping\<close>

text \<open>\<open>opened\<close> says whether opening the session and declaring its ends succeeded.\<close>

definition start_raft :: "bool \<Rightarrow> pyfloat \<Rightarrow> raft \<Rightarrow> raft" where
  "start_raft opened now rf =
     (if rf_is_active rf then rf
      else if opened then rf\<lparr>rf_session := True, rf_is_active := True, rf_last_heartbeat_time := now\<rparr>
      else rf\<lparr>rf_is_active := False\<rparr>)"

definition stop_raft :: "raft \<Rightarrow> raft" where
  "stop_raft rf = (if \<not> rf_is_active rf then rf else rf\<lparr>rf_is_active := False, rf_session := False\<rparr>)"

section \<open>Sending\<close>

definition send_if :: "raft \<Rightarrow> raft_msg \<Rightarrow> raft_msg list" where
  "send_if rf m = (if rf_session rf then [m] else [])"

definition last_log_term :: "log_entry list \<Rightarrow> int" where
  "last_log_term l = (if l = [] then 0 else le_term (last l))"

definition last_log_index :: "log_entry list \<Rightarrow> int" where
  "last_log_index l = int (length l) - 1"

definition send_heartbeats :: "raft \<Rightarrow> raft_msg list" where
  "send_heartbeats rf =
     send_if rf (AppendEntries (rf_id rf) (rf_current_term rf) (rf_id rf) (last_log_index (rf_log rf)) (last_log_term (rf_log rf))
       (rf_log rf) (rf_commit_index rf))"

section \<open>Applying the log\<close>

text \<open>One entry; whatever the registry raises is caught and logged.\<close>

definition apply_entry :: "(node \<Rightarrow> string) \<Rightarrow> (jobj \<Rightarrow> node option) \<Rightarrow> log_entry \<Rightarrow> registry \<Rightarrow> registry" where
  "apply_entry dump node_of e r =
     (case le_data e of
        JObj data \<Rightarrow>
          if le_action e = ''register''
          then (case node_of data of None \<Rightarrow> r | Some n \<Rightarrow> snd (local_register dump n r))
          else if le_action e = ''unregister'' \<or> le_action e = ''unregister_node''
          then (case jget data ''node_id'' of
              JStr k \<Rightarrow> if le_action e = ''unregister'' then snd (local_unregister k r) else snd (local_unregister_node k r)
            | _ \<Rightarrow> r)
          else r
      | _ \<Rightarrow> r)"

fun set_event :: "int \<Rightarrow> (int, bool) dict \<Rightarrow> (int, bool) dict" where
  "set_event i [] = []"
| "set_event i ((j, b) # evs) = (if i = j then (j, True) # evs else (j, b) # set_event i evs)"

text \<open>The loop over the indices; it stops at the end of the log, and the commit index is set whatever it did.\<close>

fun apply_range :: "(node \<Rightarrow> string) \<Rightarrow> (jobj \<Rightarrow> node option) \<Rightarrow> int list \<Rightarrow> raft \<Rightarrow> raft" where
  "apply_range dump node_of [] rf = rf"
| "apply_range dump node_of (idx # is) rf =
     (if int (length (rf_log rf)) \<le> idx then rf
      else apply_range dump node_of is
        (rf\<lparr>rf_registry := apply_entry dump node_of (rf_log rf ! nat idx) (rf_registry rf),
            rf_commit_events := set_event idx (rf_commit_events rf)\<rparr>))"

definition apply_log_entries :: "(node \<Rightarrow> string) \<Rightarrow> (jobj \<Rightarrow> node option) \<Rightarrow> int \<Rightarrow> raft \<Rightarrow> raft" where
  "apply_log_entries dump node_of new_commit_index rf =
     (apply_range dump node_of [rf_commit_index rf + 1..new_commit_index] rf)\<lparr>rf_commit_index := new_commit_index\<rparr>"

section \<open>Elections\<close>

definition start_election :: "pyfloat \<Rightarrow> raft \<Rightarrow> raft \<times> raft_msg list" where
  "start_election now rf =
     (let rf' = rf\<lparr>rf_state := CANDIDATE, rf_current_term := rf_current_term rf + 1, rf_voted_for := Some (rf_id rf),
                  rf_votes := [rf_id rf], rf_last_heartbeat_time := now\<rparr>
      in (rf', send_if rf' (RequestVote (rf_id rf) (rf_current_term rf') (rf_id rf) (last_log_index (rf_log rf))
                 (last_log_term (rf_log rf)))))"

definition become_leader :: "pyfloat \<Rightarrow> raft \<Rightarrow> raft \<times> raft_msg list" where
  "become_leader now rf =
     (let rf' = rf\<lparr>rf_state := LEADER, rf_leader_id := Some (rf_id rf),
                  rf_match_index := fold (\<lambda>p d. dset p (- 1) d) (dkeys (rf_peers rf)) (rf_match_index rf),
                  rf_last_heartbeat_time := now\<rparr>
      in (rf', send_heartbeats rf'))"

text \<open>One turn of the election loop after its sleep of \<open>timeout\<close>, and one of the heartbeat loop.\<close>

definition election_turn :: "pyfloat \<Rightarrow> pyfloat \<Rightarrow> raft \<Rightarrow> raft \<times> raft_msg list" where
  "election_turn timeout now rf =
     (if \<not> rf_is_active rf then (rf, [])
      else if rf_state rf = LEADER then (rf, [])
      else if fle timeout (fsub now (rf_last_heartbeat_time rf)) then start_election now rf else (rf, []))"

definition heartbeat_loop_turn :: "raft \<Rightarrow> raft \<times> raft_msg list" where
  "heartbeat_loop_turn rf = (rf, if rf_is_active rf \<and> rf_state rf = LEADER then send_heartbeats rf else [])"

definition quorum :: "raft \<Rightarrow> int" where
  "quorum rf = (int (length (rf_peers rf)) + 1) div 2 + 1"

section \<open>Handlers\<close>

definition handle_request_vote :: "pyfloat \<Rightarrow> int \<Rightarrow> string \<Rightarrow> int \<Rightarrow> int \<Rightarrow> raft \<Rightarrow> raft \<times> raft_msg list" where
  "handle_request_vote now term candidate llog_index llog_term rf =
     (let rf1 = (if rf_current_term rf < term
                 then rf\<lparr>rf_current_term := term, rf_state := FOLLOWER, rf_voted_for := None, rf_leader_id := None\<rparr> else rf)
      in if term < rf_current_term rf1
         then (rf1, send_if rf1 (RequestVoteResponse (rf_id rf1) (rf_current_term rf1) False (rf_id rf1)))
         else let my_index = last_log_index (rf_log rf1); my_term = last_log_term (rf_log rf1);
                  log_ok = (my_term < llog_term \<or> (llog_term = my_term \<and> my_index \<le> llog_index))
           in if (rf_voted_for rf1 = None \<or> rf_voted_for rf1 = Some candidate) \<and> log_ok
              then let rf2 = rf1\<lparr>rf_voted_for := Some candidate, rf_last_heartbeat_time := now\<rparr>
                in (rf2, send_if rf2 (RequestVoteResponse (rf_id rf2) (rf_current_term rf2) True (rf_id rf2)))
              else (rf1, send_if rf1 (RequestVoteResponse (rf_id rf1) (rf_current_term rf1) False (rf_id rf1))))"

definition handle_request_vote_response :: "pyfloat \<Rightarrow> int \<Rightarrow> bool \<Rightarrow> string \<Rightarrow> raft \<Rightarrow> raft \<times> raft_msg list" where
  "handle_request_vote_response now term granted peer rf =
     (if rf_state rf \<noteq> CANDIDATE \<or> term \<noteq> rf_current_term rf then (rf, [])
      else if granted
      then let rf1 = rf\<lparr>rf_votes := List.insert peer (rf_votes rf)\<rparr>
        in if quorum rf1 \<le> int (length (rf_votes rf1)) then become_leader now rf1 else (rf1, [])
      else (rf, []))"

definition handle_append_entries :: "(node \<Rightarrow> string) \<Rightarrow> (jobj \<Rightarrow> node option) \<Rightarrow> pyfloat \<Rightarrow> int \<Rightarrow> string \<Rightarrow> log_entry list \<Rightarrow> int
    \<Rightarrow> raft \<Rightarrow> raft \<times> raft_msg list" where
  "handle_append_entries dump node_of now term leader entries leader_commit rf =
     (let rf1 = (if rf_current_term rf \<le> term
                 then (if rf_current_term rf < term \<or> rf_state rf \<noteq> FOLLOWER
                       then rf\<lparr>rf_current_term := term, rf_state := FOLLOWER, rf_voted_for := None\<rparr> else rf)
                      \<lparr>rf_leader_id := Some leader, rf_last_heartbeat_time := now\<rparr>
                 else rf)
      in if term < rf_current_term rf1
         then (rf1, send_if rf1 (AppendEntriesResponse (rf_id rf1) (rf_current_term rf1) False (last_log_index (rf_log rf1)) (rf_id rf1)))
         else let rf2 = rf1\<lparr>rf_log := entries\<rparr>;
                  rf3 = (if rf_commit_index rf2 < leader_commit then apply_log_entries dump node_of leader_commit rf2 else rf2)
           in (rf3, send_if rf3 (AppendEntriesResponse (rf_id rf3) (rf_current_term rf3) True (last_log_index (rf_log rf3)) (rf_id rf3))))"

definition match_count :: "int \<Rightarrow> raft \<Rightarrow> int" where
  "match_count n rf = 1 + int (length (filter (\<lambda>m. n \<le> m) (dvals (rf_match_index rf))))"

text \<open>The highest index above the commit index that a quorum has, searched from the end of the log.\<close>

definition committable :: "raft \<Rightarrow> int option" where
  "committable rf =
     List.find (\<lambda>n. quorum rf \<le> match_count n rf) (rev [rf_commit_index rf + 1..last_log_index (rf_log rf)])"

definition handle_append_entries_response :: "(node \<Rightarrow> string) \<Rightarrow> (jobj \<Rightarrow> node option) \<Rightarrow> pyfloat \<Rightarrow> int \<Rightarrow> bool \<Rightarrow> int \<Rightarrow> string
    \<Rightarrow> raft \<Rightarrow> raft \<times> raft_msg list" where
  "handle_append_entries_response dump node_of now term success matched peer rf =
     (if rf_current_term rf < term
      then (rf\<lparr>rf_current_term := term, rf_state := FOLLOWER, rf_voted_for := None, rf_leader_id := None,
               rf_last_heartbeat_time := now\<rparr>, [])
      else if rf_state rf \<noteq> LEADER \<or> term \<noteq> rf_current_term rf then (rf, [])
      else if success
      then let rf1 = rf\<lparr>rf_match_index := dset peer matched (rf_match_index rf)\<rparr>
        in (case committable rf1 of None \<Rightarrow> rf1 | Some n \<Rightarrow> apply_log_entries dump node_of n rf1, [])
      else (rf, []))"

definition handle_propose :: "string \<Rightarrow> json \<Rightarrow> raft \<Rightarrow> raft \<times> raft_msg list" where
  "handle_propose action data rf =
     (if rf_state rf = LEADER
      then let rf1 = rf\<lparr>rf_log := rf_log rf @ [\<lparr>le_term = rf_current_term rf, le_action = action, le_data = data\<rparr>]\<rparr>
        in (rf1, send_heartbeats rf1)
      else (rf, []))"

text \<open>Noting the sender and forgetting peers that were not seen for five seconds.\<close>

definition see_peer :: "string \<Rightarrow> pyfloat \<Rightarrow> raft \<Rightarrow> raft" where
  "see_peer sender now rf =
     (let peers = dset sender now (rf_peers rf);
          dead = filter (\<lambda>(p, seen). flt (Fin 5) (fsub now seen)) peers
      in rf\<lparr>rf_peers := fold (\<lambda>(p, seen). ddel p) dead peers,
            rf_match_index := fold (\<lambda>(p, seen). ddel p) dead (rf_match_index rf)\<rparr>)"

fun handle_message :: "(node \<Rightarrow> string) \<Rightarrow> (jobj \<Rightarrow> node option) \<Rightarrow> pyfloat \<Rightarrow> raft_msg \<Rightarrow> raft \<Rightarrow> raft \<times> raft_msg list" where
  "handle_message dump node_of now (RequestVote s t c li lt) rf = handle_request_vote now t c li lt rf"
| "handle_message dump node_of now (RequestVoteResponse s t g p) rf = handle_request_vote_response now t g p rf"
| "handle_message dump node_of now (AppendEntries s t l prev_i prev_t es lc) rf = handle_append_entries dump node_of now t l es lc rf"
| "handle_message dump node_of now (AppendEntriesResponse s t ok mi p) rf =
     handle_append_entries_response dump node_of now t ok mi p rf"
| "handle_message dump node_of now (ProposeMsg s a d) rf = handle_propose a d rf"

definition process_message :: "(node \<Rightarrow> string) \<Rightarrow> (jobj \<Rightarrow> node option) \<Rightarrow> pyfloat \<Rightarrow> raft_msg \<Rightarrow> raft \<Rightarrow> raft \<times> raft_msg list" where
  "process_message dump node_of now m rf =
     (if \<not> rf_is_active rf \<or> sender_id m = rf_id rf then (rf, [])
      else handle_message dump node_of now m (see_peer (sender_id m) now rf))"

section \<open>Proposals\<close>

text \<open>
  What a call of \<^verbatim>\<open>propose\<close> comes to: it returned, it raised, or it waits outside the lock for the event of
  an index.
\<close>

datatype proposal = Proposed | Refused exc | Waiting int

text \<open>
  The test a follower repeats after forwarding: is the proposal among the committed entries that arrived since?
  It runs with the lock held, so no handler changes log or commit index between two tests.
\<close>

definition proposal_arrived :: "nat \<Rightarrow> string \<Rightarrow> json \<Rightarrow> raft \<Rightarrow> bool" where
  "proposal_arrived start_log_len action data rf =
     list_ex (\<lambda>i. i < int (length (rf_log rf)) \<and> le_action (rf_log rf ! nat i) = action \<and> le_data (rf_log rf ! nat i) = data)
       [int start_log_len..rf_commit_index rf]"

definition timed_out :: exc where
  "timed_out = OtherError ''TimeoutError: Proposal replication timed out''"

definition propose :: "(node \<Rightarrow> string) \<Rightarrow> (jobj \<Rightarrow> node option) \<Rightarrow> string \<Rightarrow> json \<Rightarrow> raft \<Rightarrow> proposal \<times> raft \<times> raft_msg list" where
  "propose dump node_of action data rf =
     (if \<not> rf_is_active rf then (Refused (RuntimeError ''Consensus engine is not active''), rf, [])
      else let rf1 = (if rf_peers rf = [] \<and> rf_state rf \<noteq> LEADER
                      then rf\<lparr>rf_state := LEADER, rf_leader_id := Some (rf_id rf)\<rparr> else rf)
        in if rf_state rf1 = LEADER
           then let i = int (length (rf_log rf1));
                    rf2 = rf1\<lparr>rf_log := rf_log rf1 @ [\<lparr>le_term = rf_current_term rf1, le_action = action, le_data = data\<rparr>],
                              rf_commit_events := dset i False (rf_commit_events rf1)\<rparr>
             in if rf_peers rf2 = []
                then let rf3 = apply_log_entries dump node_of i rf2
                  in (Proposed, rf3\<lparr>rf_commit_events := ddel i (rf_commit_events rf3)\<rparr>, send_heartbeats rf2)
                else (Waiting i, rf2, send_heartbeats rf2)
           else (case rf_leader_id rf1 of
                None \<Rightarrow> (Refused (RuntimeError ''No leader found in consensus cluster''), rf1, [])
              | Some leader \<Rightarrow>
                  (if proposal_arrived (length (rf_log rf1)) action data rf1 then Proposed else Refused timed_out,
                   rf1, send_if rf1 (ProposeMsg (rf_id rf1) action data))))"

text \<open>The end of the wait: the event was set in time, or three seconds passed.\<close>

definition end_wait :: "int \<Rightarrow> raft \<Rightarrow> proposal \<times> raft" where
  "end_wait i rf =
     (if dget_or (rf_commit_events rf) i False then Proposed else Refused timed_out,
      rf\<lparr>rf_commit_events := ddel i (rf_commit_events rf)\<rparr>)"

section \<open>Runs of one engine\<close>

datatype raft_event =
    Start bool pyfloat
  | Stop
  | See string pyfloat
  | Handle raft_msg pyfloat
  | ElectionTurn pyfloat pyfloat
  | HeartbeatTurn
  | Propose string json
  | EndWait int

fun raft_step :: "(node \<Rightarrow> string) \<Rightarrow> (jobj \<Rightarrow> node option) \<Rightarrow> raft_event \<Rightarrow> raft \<Rightarrow> raft \<times> raft_msg list" where
  "raft_step dump node_of (Start opened now) rf = (start_raft opened now rf, [])"
| "raft_step dump node_of Stop rf = (stop_raft rf, [])"
| "raft_step dump node_of (See s now) rf = (see_peer s now rf, [])"
| "raft_step dump node_of (Handle m now) rf = handle_message dump node_of now m rf"
| "raft_step dump node_of (ElectionTurn timeout now) rf = election_turn timeout now rf"
| "raft_step dump node_of HeartbeatTurn rf = heartbeat_loop_turn rf"
| "raft_step dump node_of (Propose a d) rf = snd (propose dump node_of a d rf)"
| "raft_step dump node_of (EndWait i) rf = (snd (end_wait i rf), [])"

fun raft_run :: "(node \<Rightarrow> string) \<Rightarrow> (jobj \<Rightarrow> node option) \<Rightarrow> raft_event list \<Rightarrow> raft \<Rightarrow> raft \<times> raft_msg list" where
  "raft_run dump node_of [] rf = (rf, [])"
| "raft_run dump node_of (ev # evs) rf =
     (case raft_step dump node_of ev rf of (rf1, ms) \<Rightarrow> case raft_run dump node_of evs rf1 of (rf2, ms') \<Rightarrow> (rf2, ms @ ms'))"

section \<open>Applied entries are the committed prefix\<close>

lemma apply_range_fields [simp]:
  "rf_log (apply_range dump node_of is rf) = rf_log rf" "rf_id (apply_range dump node_of is rf) = rf_id rf"
  "rf_state (apply_range dump node_of is rf) = rf_state rf" "rf_current_term (apply_range dump node_of is rf) = rf_current_term rf"
  "rf_voted_for (apply_range dump node_of is rf) = rf_voted_for rf" "rf_peers (apply_range dump node_of is rf) = rf_peers rf"
  "rf_session (apply_range dump node_of is rf) = rf_session rf" "rf_commit_index (apply_range dump node_of is rf) = rf_commit_index rf"
  by (induction dump node_of "is" rf rule: apply_range.induct) simp_all

lemma apply_range_registry:
  "0 \<le> a \<Longrightarrow> rf_registry (apply_range dump node_of [a..b] rf)
     = fold (apply_entry dump node_of) (drop (nat a) (take (nat (b + 1)) (rf_log rf))) (rf_registry rf)"
proof (induction "nat (b + 1 - a)" arbitrary: a rf)
  case 0
  then have "nat (b + 1) \<le> nat a" by simp
  then show ?case using 0 by simp
next
  case (Suc n)
  then have ab: "a \<le> b" "n = nat (b + 1 - (a + 1))" by simp_all
  show ?case
  proof (cases "int (length (rf_log rf)) \<le> a")
    case True
    then show ?thesis using ab Suc.prems by (simp add: upto_rec1)
  next
    case False
    then have "nat a < length (take (nat (b + 1)) (rf_log rf))" using ab Suc.prems by auto
    then have "drop (nat a) (take (nat (b + 1)) (rf_log rf))
        = rf_log rf ! nat a # drop (nat (a + 1)) (take (nat (b + 1)) (rf_log rf))"
      using Cons_nth_drop_Suc [of "nat a" "take (nat (b + 1)) (rf_log rf)"] ab Suc.prems by (simp add: nat_add_distrib)
    then show ?thesis using False ab Suc.prems by (simp add: upto_rec1 [of a b] Suc.hyps(1))
  qed
qed

definition committed :: "raft \<Rightarrow> log_entry list" where
  "committed rf = take (nat (rf_commit_index rf + 1)) (rf_log rf)"

text \<open>
  The invariant of a replica: the commit index points into the log, and the registry is what applying the
  committed entries in order to the registry it started with gives.
\<close>

definition replica_ok :: "(node \<Rightarrow> string) \<Rightarrow> (jobj \<Rightarrow> node option) \<Rightarrow> registry \<Rightarrow> raft \<Rightarrow> bool" where
  "replica_ok dump node_of r0 rf \<longleftrightarrow>
     - 1 \<le> rf_commit_index rf \<and> rf_commit_index rf < int (length (rf_log rf))
   \<and> rf_registry rf = fold (apply_entry dump node_of) (committed rf) r0"

text \<open>
  What the invariant needs of an \<^verbatim>\<open>AppendEntries\<close> that will be accepted: the leader's log contains what the
  receiver has committed, and the leader has committed no more than it sends. Raft's log matching gives this; the
  engine does not check it.
\<close>

fun extends_commit :: "raft_event \<Rightarrow> raft \<Rightarrow> bool" where
  "extends_commit (Handle (AppendEntries s t l prev_i prev_t es lc) now) rf =
     (rf_current_term rf \<le> t \<longrightarrow>
        rf_commit_index rf < int (length es) \<and> take (nat (rf_commit_index rf + 1)) es = committed rf \<and> lc < int (length es))"
| "extends_commit _ rf = True"

lemma apply_log_entries_ok:
  assumes "replica_ok dump node_of r0 rf" "rf_commit_index rf \<le> n" "n < int (length (rf_log rf))"
  shows "replica_ok dump node_of r0 (apply_log_entries dump node_of n rf)"
proof -
  let ?c = "nat (rf_commit_index rf + 1)"
  have c: "0 \<le> rf_commit_index rf + 1" using assms(1) by (simp add: replica_ok_def)
  have "take (nat (n + 1)) (rf_log rf) = take ?c (rf_log rf) @ drop ?c (take (nat (n + 1)) (rf_log rf))"
    using assms(2) by (metis append_take_drop_id min.absorb1 nat_mono add_le_cancel_right take_take)
  then have "fold (apply_entry dump node_of) (take (nat (n + 1)) (rf_log rf)) r0
      = fold (apply_entry dump node_of) (drop ?c (take (nat (n + 1)) (rf_log rf))) (rf_registry rf)"
    using assms(1) by (metis (no_types, lifting) comp_apply committed_def fold_append replica_ok_def)
  then show ?thesis using assms c
    by (simp add: replica_ok_def apply_log_entries_def apply_range_registry committed_def)
qed

lemma replica_ok_fields:
  assumes "replica_ok dump node_of r0 rf" "rf_log rf' = rf_log rf @ es" "rf_commit_index rf' = rf_commit_index rf" "rf_registry rf' = rf_registry rf"
  shows "replica_ok dump node_of r0 rf'"
  using assms by (auto simp: replica_ok_def committed_def)

lemma committable_Some:
  "committable rf = Some n \<Longrightarrow> rf_commit_index rf < n \<and> n < int (length (rf_log rf)) \<and> quorum rf \<le> match_count n rf
     \<and> (\<forall>m. n < m \<and> m < int (length (rf_log rf)) \<longrightarrow> match_count m rf < quorum rf)"
proof -
  assume c: "committable rf = Some n"
  let ?l = "rev [rf_commit_index rf + 1..last_log_index (rf_log rf)]"
  obtain i where i: "i < length ?l" "?l ! i = n" "\<forall>j<i. match_count (?l ! j) rf < quorum rf" "quorum rf \<le> match_count n rf"
    using c unfolding committable_def find_Some_iff not_le by metis
  have n: "n \<in> set ?l" "quorum rf \<le> match_count n rf" using i(4) nth_mem [OF i(1)] i(2) by simp_all
  have nth: "?l ! j = last_log_index (rf_log rf) - int j" if j: "j < length ?l" for j
  proof -
    let ?k = "nat (last_log_index (rf_log rf) - rf_commit_index rf) - Suc j"
    have k: "int ?k = last_log_index (rf_log rf) - rf_commit_index rf - 1 - int j" using j by simp
    have "?l ! j = [rf_commit_index rf + 1..last_log_index (rf_log rf)] ! ?k" using j by (simp add: rev_nth)
    also have "\<dots> = rf_commit_index rf + 1 + int ?k" using k by (intro nth_upto) linarith
    finally show ?thesis using k by linarith
  qed
  have "match_count m rf < quorum rf" if "n < m" "m < int (length (rf_log rf))" for m
  proof -
    let ?j = "nat (last_log_index (rf_log rf) - m)"
    have j: "?j < i" using that i(2) nth [OF i(1)] by (simp add: last_log_index_def)
    moreover have "?l ! ?j = last_log_index (rf_log rf) - int ?j" using nth j i(1) less_trans by blast
    then have "?l ! ?j = m" using that by (simp add: last_log_index_def)
    ultimately show ?thesis using i(3) by metis
  qed
  then show ?thesis using n by (auto simp: last_log_index_def)
qed

lemma replica_ok_append_entries:
  assumes "replica_ok dump node_of r0 rf" "extends_commit (Handle (AppendEntries s t l prev_i prev_t es lc) now) rf"
  shows "replica_ok dump node_of r0 (fst (handle_append_entries dump node_of now t l es lc rf))"
proof (cases "rf_current_term rf \<le> t")
  case True
  have ok: "replica_ok dump node_of r0 rf1" if "rf_log rf1 = es" "rf_commit_index rf1 = rf_commit_index rf" "rf_registry rf1 = rf_registry rf" for rf1
    using assms True that by (simp add: replica_ok_def committed_def)
  show ?thesis using True assms(2)
    by (auto simp: handle_append_entries_def Let_def intro!: ok apply_log_entries_ok)
next
  case False
  then show ?thesis using assms(1) by (simp add: handle_append_entries_def Let_def)
qed

lemma replica_ok_response:
  assumes "replica_ok dump node_of r0 rf"
  shows "replica_ok dump node_of r0 (fst (handle_append_entries_response dump node_of now t ok mi p rf))"
proof -
  let ?rf = "rf\<lparr>rf_match_index := dset p mi (rf_match_index rf)\<rparr>"
  have base: "replica_ok dump node_of r0 ?rf" using assms by (rule replica_ok_fields [where es = "[]"]) simp_all
  have "replica_ok dump node_of r0 (case committable ?rf of None \<Rightarrow> ?rf | Some n \<Rightarrow> apply_log_entries dump node_of n ?rf)"
    using base by (auto split: option.splits dest: committable_Some intro!: apply_log_entries_ok)
  moreover have "replica_ok dump node_of r0 (rf\<lparr>rf_current_term := t, rf_state := FOLLOWER, rf_voted_for := None, rf_leader_id := None,
      rf_last_heartbeat_time := now\<rparr>)" using assms by (rule replica_ok_fields [where es = "[]"]) simp_all
  ultimately show ?thesis using assms by (auto simp: handle_append_entries_response_def Let_def)
qed

lemma replica_ok_quiet:
  assumes "replica_ok dump node_of r0 rf"
  shows "replica_ok dump node_of r0 (fst (handle_request_vote now t c li lt rf))"
    and "replica_ok dump node_of r0 (fst (handle_request_vote_response now t g p rf))"
    and "replica_ok dump node_of r0 (fst (handle_propose a d rf))"
    and "replica_ok dump node_of r0 (fst (election_turn timeout now rf))"
    and "replica_ok dump node_of r0 (see_peer sender now rf)"
proof -
  show "replica_ok dump node_of r0 (fst (handle_request_vote now t c li lt rf))"
    using assms by (rule replica_ok_fields [where es = "[]"]) (simp_all add: handle_request_vote_def Let_def)
  show "replica_ok dump node_of r0 (fst (handle_request_vote_response now t g p rf))"
    using assms by (rule replica_ok_fields [where es = "[]"]) (simp_all add: handle_request_vote_response_def become_leader_def Let_def)
  show "replica_ok dump node_of r0 (fst (handle_propose a d rf))"
    using assms by (rule replica_ok_fields [where es = "if rf_state rf = LEADER then [\<lparr>le_term = rf_current_term rf, le_action = a, le_data = d\<rparr>] else []"])
      (simp_all add: handle_propose_def Let_def)
  show "replica_ok dump node_of r0 (fst (election_turn timeout now rf))"
    using assms by (rule replica_ok_fields [where es = "[]"]) (simp_all add: election_turn_def start_election_def Let_def)
  show "replica_ok dump node_of r0 (see_peer sender now rf)"
    using assms by (rule replica_ok_fields [where es = "[]"]) (simp_all add: see_peer_def Let_def)
qed

lemma replica_ok_propose:
  assumes "replica_ok dump node_of r0 rf"
  shows "replica_ok dump node_of r0 (fst (snd (propose dump node_of a d rf)))"
proof -
  let ?rf1 = "if rf_peers rf = [] \<and> rf_state rf \<noteq> LEADER then rf\<lparr>rf_state := LEADER, rf_leader_id := Some (rf_id rf)\<rparr> else rf"
  let ?i = "int (length (rf_log rf))"
  let ?rf2 = "?rf1\<lparr>rf_log := rf_log ?rf1 @ [\<lparr>le_term = rf_current_term ?rf1, le_action = a, le_data = d\<rparr>],
      rf_commit_events := dset ?i False (rf_commit_events ?rf1)\<rparr>"
  have 1: "replica_ok dump node_of r0 ?rf1" using assms by (rule replica_ok_fields [where es = "[]"]) simp_all
  have 2: "replica_ok dump node_of r0 ?rf2"
    using 1 by (rule replica_ok_fields [where es = "[\<lparr>le_term = rf_current_term ?rf1, le_action = a, le_data = d\<rparr>]"]) simp_all
  have "replica_ok dump node_of r0 (apply_log_entries dump node_of ?i ?rf2)"
    using assms by (intro apply_log_entries_ok [OF 2]) (auto simp: replica_ok_def)
  then have "replica_ok dump node_of r0 ((apply_log_entries dump node_of ?i ?rf2)\<lparr>rf_commit_events := evs\<rparr>)" for evs
    by (rule replica_ok_fields [where es = "[]"]) simp_all
  then show ?thesis using assms 1 2
    by (auto simp: propose_def Let_def split: option.splits)
qed

lemma replica_ok_step:
  assumes "replica_ok dump node_of r0 rf" "extends_commit ev rf"
  shows "replica_ok dump node_of r0 (fst (raft_step dump node_of ev rf))"
proof (cases ev)
  case (Start opened now)
  show ?thesis using assms(1) by (rule replica_ok_fields [where es = "[]"]) (simp_all add: Start start_raft_def)
next
  case Stop
  show ?thesis using assms(1) by (rule replica_ok_fields [where es = "[]"]) (simp_all add: Stop stop_raft_def)
next
  case (Handle m now)
  then show ?thesis using assms
    by (cases m) (simp_all add: replica_ok_quiet replica_ok_append_entries replica_ok_response)
next
  case (EndWait i)
  show ?thesis using assms(1) by (rule replica_ok_fields [where es = "[]"]) (simp_all add: EndWait end_wait_def)
qed (use assms(1) in \<open>simp_all add: replica_ok_quiet replica_ok_propose heartbeat_loop_turn_def\<close>)

fun run_extends :: "(node \<Rightarrow> string) \<Rightarrow> (jobj \<Rightarrow> node option) \<Rightarrow> raft_event list \<Rightarrow> raft \<Rightarrow> bool" where
  "run_extends dump node_of [] rf = True"
| "run_extends dump node_of (ev # evs) rf =
     (extends_commit ev rf \<and> run_extends dump node_of evs (fst (raft_step dump node_of ev rf)))"

lemma replica_ok_run:
  "replica_ok dump node_of r0 rf \<Longrightarrow> run_extends dump node_of evs rf \<Longrightarrow> replica_ok dump node_of r0 (fst (raft_run dump node_of evs rf))"
proof (induction evs arbitrary: rf)
  case (Cons ev evs)
  then have "replica_ok dump node_of r0 (fst (raft_step dump node_of ev rf))" by (simp add: replica_ok_step)
  from Cons.IH [OF this] Cons.prems show ?case by (simp add: case_prod_beta)
qed simp

lemma replica_ok_init: "replica_ok dump node_of r0 (init_raft k r0 now)"
  by (simp add: replica_ok_def init_raft_def committed_def)

section \<open>Clusters\<close>

text \<open>
  Several engines and every message sent so far, in order. A message is delivered to an engine any time after it
  was sent, any number of times or never; only sent messages are delivered.
\<close>

record cluster =
  cl_engines :: "(string, raft) dict"
  cl_sent :: "raft_msg list"

datatype cluster_act =
    Local string raft_event
  | Deliver string nat pyfloat

definition put_engine :: "string \<Rightarrow> raft \<times> raft_msg list \<Rightarrow> cluster \<Rightarrow> cluster" where
  "put_engine k out cl = cl\<lparr>cl_engines := dset k (fst out) (cl_engines cl), cl_sent := cl_sent cl @ snd out\<rparr>"

fun local_event :: "raft_event \<Rightarrow> bool" where
  "local_event (Handle m now) = False"
| "local_event (See s now) = False"
| "local_event _ = True"

fun cluster_step :: "(node \<Rightarrow> string) \<Rightarrow> (jobj \<Rightarrow> node option) \<Rightarrow> cluster_act \<Rightarrow> cluster \<Rightarrow> cluster" where
  "cluster_step dump node_of (Local k ev) cl =
     (case dget (cl_engines cl) k of
        None \<Rightarrow> cl
      | Some rf \<Rightarrow> if local_event ev then put_engine k (raft_step dump node_of ev rf) cl else cl)"
| "cluster_step dump node_of (Deliver k n now) cl =
     (case dget (cl_engines cl) k of
        None \<Rightarrow> cl
      | Some rf \<Rightarrow>
          if n < length (cl_sent cl) then put_engine k (process_message dump node_of now (cl_sent cl ! n) rf) cl else cl)"

definition cluster_run :: "(node \<Rightarrow> string) \<Rightarrow> (jobj \<Rightarrow> node option) \<Rightarrow> cluster_act list \<Rightarrow> cluster \<Rightarrow> cluster" where
  "cluster_run dump node_of acts cl = fold (cluster_step dump node_of) acts cl"

definition fresh_cluster :: "string list \<Rightarrow> cluster" where
  "fresh_cluster ks = \<lparr>cl_engines = map (\<lambda>k. (k, start_raft True (Fin 0) (init_raft k (init_registry None) (Fin 0)))) ks, cl_sent = []\<rparr>"

fun grants :: "raft_msg \<Rightarrow> bool" where
  "grants (RequestVoteResponse s t g p) = g"
| "grants _ = False"

definition engine :: "string \<Rightarrow> cluster \<Rightarrow> raft" where
  "engine k cl = the (dget (cl_engines cl) k)"

text \<open>
  Two candidates in one term, and one vote, which both of them receive: the engines along the way, with what
  the handlers do to them.
\<close>

definition split_vote :: "cluster_act list" where
  "split_vote =
     [Local ''a'' (ElectionTurn (Fin (1 / 2)) (Fin 1)), Local ''b'' (ElectionTurn (Fin (1 / 2)) (Fin 1)),
      Deliver ''b'' 0 (Fin 1), Deliver ''a'' 1 (Fin 1), Deliver ''c'' 0 (Fin 1), Deliver ''c'' 1 (Fin 1),
      Deliver ''a'' 4 (Fin 1), Deliver ''b'' 4 (Fin 1)]"

definition young :: "string \<Rightarrow> role \<Rightarrow> int \<Rightarrow> string option \<Rightarrow> (string, pyfloat) dict \<Rightarrow> string list \<Rightarrow> pyfloat \<Rightarrow> raft" where
  "young k st t vf peers votes hb =
     (init_raft k (init_registry None) hb)\<lparr>rf_state := st, rf_current_term := t, rf_voted_for := vf, rf_peers := peers,
        rf_votes := votes, rf_session := True, rf_is_active := True\<rparr>"

lemma clock_facts: "fsub (Fin 1) (Fin 0) = Fin 1" "fsub (Fin 1) (Fin 1) = Fin 0"
  by (simp_all add: fsub_def rnd_dbl)

lemmas young_defs = young_def init_raft_def send_if_def last_log_index_def last_log_term_def clock_facts

lemma young_started: "start_raft True (Fin 0) (init_raft k (init_registry None) (Fin 0)) = young k FOLLOWER 0 None [] [] (Fin 0)"
  by (simp add: start_raft_def young_def init_raft_def)

lemma young_candidate:
  "election_turn (Fin (1 / 2)) (Fin 1) (young k FOLLOWER 0 None [] [] (Fin 0))
     = (young k CANDIDATE 1 (Some k) [] [k] (Fin 1), [RequestVote k 1 k (- 1) 0])"
  by (simp add: election_turn_def start_election_def young_defs)

lemma young_denies:
  "s \<noteq> k \<Longrightarrow> v \<noteq> s \<Longrightarrow> process_message dump node_of (Fin 1) (RequestVote s 1 s (- 1) 0) (young k st 1 (Some v) [] vs (Fin 1))
     = (young k st 1 (Some v) [(s, Fin 1)] vs (Fin 1), [RequestVoteResponse k 1 False k])"
  "s \<noteq> k \<Longrightarrow> v \<noteq> s \<Longrightarrow> process_message dump node_of (Fin 1) (RequestVote s 1 s (- 1) 0) (young k st 1 (Some v) [(v, Fin 1)] vs (Fin 1))
     = (young k st 1 (Some v) [(v, Fin 1), (s, Fin 1)] vs (Fin 1), [RequestVoteResponse k 1 False k])"
  by (simp_all add: process_message_def handle_request_vote_def see_peer_def young_defs)

lemma young_grants:
  "s \<noteq> k \<Longrightarrow> process_message dump node_of (Fin 1) (RequestVote s 1 s (- 1) 0) (young k FOLLOWER 0 None [] [] (Fin 0))
     = (young k FOLLOWER 1 (Some s) [(s, Fin 1)] [] (Fin 1), [RequestVoteResponse k 1 True k])"
  by (simp add: process_message_def handle_request_vote_def see_peer_def young_defs Let_def)

lemma young_elected:
  assumes "s \<noteq> k" "s \<noteq> p"
  shows "fst (process_message dump node_of (Fin 1) (RequestVoteResponse s 1 True s) (young k CANDIDATE 1 (Some k) [(p, Fin 1)] [k] (Fin 1)))
     = (young k LEADER 1 (Some k) [(p, Fin 1), (s, Fin 1)] [s, k] (Fin 1))\<lparr>rf_leader_id := Some k, rf_match_index := [(p, - 1), (s, - 1)]\<rparr>"
    and "filter grants (snd (process_message dump node_of (Fin 1) (RequestVoteResponse s 1 True s)
       (young k CANDIDATE 1 (Some k) [(p, Fin 1)] [k] (Fin 1)))) = []"
  using assms by (simp_all add: process_message_def handle_request_vote_response_def see_peer_def become_leader_def quorum_def
      send_heartbeats_def young_defs Let_def)

section \<open>Properties\<close>




text \<open>
  A follower's proposal is never reported as accepted: \<^verbatim>\<open>propose\<close> on an engine that is not the leader forwards the
  proposal and then waits with the lock held, so nothing it waits for can happen; it always ends with the
  timeout, even when the leader goes on to commit the proposal.
\<close>

theorem follower_proposal_times_out:
  assumes "rf_is_active rf" "rf_state rf \<noteq> LEADER" "rf_peers rf \<noteq> []" "rf_leader_id rf = Some l"
  shows "propose dump node_of action data rf = (Refused timed_out, rf, send_if rf (ProposeMsg (rf_id rf) action data))"
  using assms by (auto simp: propose_def Let_def proposal_arrived_def list_ex_iff)

theorem follower_proposal_times_out_witness:
  "fst (propose unary_dump (\<lambda>_. None) ''register'' JNull
     ((init_raft ''a'' (init_registry None) (Fin 0))\<lparr>rf_is_active := True, rf_peers := [(''b'', Fin 0)], rf_leader_id := Some ''b''\<rparr>))
   = Refused timed_out"
  using follower_proposal_times_out [of "(init_raft ''a'' (init_registry None) (Fin 0))\<lparr>rf_is_active := True, rf_peers := [(''b'', Fin 0)],
      rf_leader_id := Some ''b''\<rparr>" "''b''" unary_dump "\<lambda>_. None" "''register''" JNull]
  by (simp add: init_raft_def)

text \<open>
  A leader commits exactly what a quorum has: after a successful answer its commit index is the largest index of its log
  that it and enough peers have, if that is above the old one, and unchanged otherwise; it never moves
  back, and the entries up to it have been applied.
\<close>

theorem leader_commits_quorum:
  assumes "replica_ok dump node_of r0 rf" "rf_state rf = LEADER"
    "rf1 = rf\<lparr>rf_match_index := dset peer matched (rf_match_index rf)\<rparr>"
    "rf' = fst (handle_append_entries_response dump node_of now (rf_current_term rf) True matched peer rf)"
  shows "rf_commit_index rf \<le> rf_commit_index rf'
    \<and> (rf_commit_index rf' = rf_commit_index rf \<or> quorum rf1 \<le> match_count (rf_commit_index rf') rf1)
    \<and> (\<forall>n. rf_commit_index rf' < n \<and> n < int (length (rf_log rf)) \<longrightarrow> match_count n rf1 < quorum rf1)
    \<and> rf_registry rf' = fold (apply_entry dump node_of) (committed rf') r0"
proof -
  have ok: "replica_ok dump node_of r0 rf'" unfolding assms(4) by (rule replica_ok_response [OF assms(1)])
  have rf': "rf' = (case committable rf1 of None \<Rightarrow> rf1 | Some n \<Rightarrow> apply_log_entries dump node_of n rf1)"
    unfolding assms(3,4) using assms(2) by (simp add: handle_append_entries_response_def Let_def)
  show ?thesis
  proof (cases "committable rf1")
    case None
    then have "\<forall>n\<in>set [rf_commit_index rf1 + 1..last_log_index (rf_log rf1)]. match_count n rf1 < quorum rf1"
      unfolding committable_def find_None_iff set_rev by (meson not_le)
    then show ?thesis using ok rf' None assms(3) by (simp add: replica_ok_def last_log_index_def)
  next
    case (Some n)
    then show ?thesis using ok rf' committable_Some [OF Some] assms(3) by (simp add: replica_ok_def apply_log_entries_def)
  qed
qed

theorem leader_commits_quorum_witness:
  "rf_commit_index (init_raft ''a'' (init_registry None) (Fin 0)) \<le>
     rf_commit_index (fst (handle_append_entries_response unary_dump (\<lambda>_. None) (Fin 0) 0 True (- 1) ''b''
       ((init_raft ''a'' (init_registry None) (Fin 0))\<lparr>rf_state := LEADER\<rparr>)))"
proof -
  let ?rf = "(init_raft ''a'' (init_registry None) (Fin 0))\<lparr>rf_state := LEADER\<rparr>"
  have "replica_ok unary_dump (\<lambda>_. None) (init_registry None) ?rf"
    using replica_ok_init [of unary_dump "\<lambda>_. None" "init_registry None" "''a''" "Fin 0"]
    by (simp add: replica_ok_def committed_def)
  from leader_commits_quorum [OF this _ refl refl, where peer = "''b''" and matched = "- 1" and now = "Fin 0"] show ?thesis by (simp add: init_raft_def)
qed

end
