(* ===== verification/Tensor_Transport.thy ===== *)
theory Tensor_Transport
  imports Tensor_Frames
begin

text \<open>
  The tensor transport kept under \<^verbatim>\<open>experimental/node/transport.py\<close> (the copy for the Scheduler differs in its
  imports and comments): shared memory between processes of one machine, and streams over Zenoh with a window of
  unacknowledged frames. Zenoh is an argument: what it delivers are bytes, and \<^verbatim>\<open>to_string\<close> may raise. A handler of
  samples runs in a Zenoh thread to its end; a sender that finds its window full waits, which is \<open>None\<close> here.
\<close>

type_synonym sample = "string \<times> string"

section \<open>Shared memory\<close>

text \<open>The segments of the machine, and the handles this process keeps open (\<^verbatim>\<open>_OPEN_BLOCKS\<close>).\<close>

record shm =
  sm_segments :: "(string, string) dict"
  sm_open :: "string set"

definition missing_segment :: exc where
  "missing_segment = OtherError ''FileNotFoundError''"

text \<open>\<open>name\<close> is the random name; the system may round the size up, which leaves the bytes \<open>pad\<close> after the data.\<close>

definition write_data :: "string \<Rightarrow> string \<Rightarrow> string \<Rightarrow> shm \<Rightarrow> string res \<times> shm" where
  "write_data name pad data m =
     (if dmem name (sm_segments m) then (Inl (OtherError ''FileExistsError''), m)
      else case to_bytes4 (length data) of
        Inl e \<Rightarrow> (Inl e, m)
      | Inr prefix \<Rightarrow>
          (Inr name, m\<lparr>sm_segments := dset name (prefix @ data @ pad) (sm_segments m), sm_open := insert name (sm_open m)\<rparr>))"

definition read_data :: "string \<Rightarrow> shm \<Rightarrow> string res" where
  "read_data name m =
     (case dget (sm_segments m) name of
        None \<Rightarrow> Inl missing_segment
      | Some buf \<Rightarrow> Inr (take (from_bytes_big (take 4 buf)) (drop 4 buf)))"

text \<open>Every exception is suppressed; a segment of another process is attached and unlinked like an own one.\<close>

definition cleanup :: "string \<Rightarrow> shm \<Rightarrow> shm" where
  "cleanup name m = m\<lparr>sm_segments := ddel name (sm_segments m), sm_open := sm_open m - {name}\<rparr>"

section \<open>The router of a sender\<close>

text \<open>
  \<open>sr_ack\<close> is the number last acknowledged, as JSON delivered it: an integer, or a float that only a forged
  acknowledgement carries.
\<close>

record stream_router =
  sr_session_id :: string
  sr_window :: int
  sr_sent :: int
  sr_ack :: json
  sr_event :: bool
  sr_subscribed :: bool
  sr_publisher :: bool
  sr_ack_topics :: "string list"

definition init_stream_router :: "string \<Rightarrow> int \<Rightarrow> stream_router" where
  "init_stream_router session_id window =
     \<lparr>sr_session_id = session_id, sr_window = window, sr_sent = 0, sr_ack = JInt 0, sr_event = False, sr_subscribed = True,
      sr_publisher = True, sr_ack_topics = []\<rparr>"

definition get_tensor_topic :: "string \<Rightarrow> int \<Rightarrow> string" where
  "get_tensor_topic task stage = ''public-intelligence/net/tasks/'' @ task @ ''/tensors/'' @ str_of_int stage"

definition get_tensor_ack_topic :: "string \<Rightarrow> int \<Rightarrow> string" where
  "get_tensor_ack_topic task stage = ''public-intelligence/net/tasks/'' @ task @ ''/tensors/'' @ str_of_int stage @ ''/ack''"

definition ack_topic :: "string \<Rightarrow> string" where
  "ack_topic session_id = ''public-intelligence/net/transport/ack/'' @ session_id"

definition stream_topic :: "string \<Rightarrow> string" where
  "stream_topic session_id = ''public-intelligence/net/transport/stream/'' @ session_id"

text \<open>Numbers compare by value, integers with floats exactly; \<^verbatim>\<open>max\<close> with anything else raises.\<close>

fun number :: "json \<Rightarrow> pyfloat option" where
  "number (JInt n) = Some (Fin (of_int n))"
| "number (JBool b) = Some (Fin (if b then 1 else 0))"
| "number (JFloat f) = Some f"
| "number _ = None"

definition receive_ack :: "json \<Rightarrow> stream_router \<Rightarrow> unit res \<times> stream_router" where
  "receive_ack seq r =
     (case (number (sr_ack r), number seq) of
        (Some a, Some b) \<Rightarrow> (Inr (), r\<lparr>sr_ack := (if flt a b then seq else sr_ack r), sr_event := True\<rparr>)
      | _ \<Rightarrow> (Inl (TypeError ''not supported between instances''), r))"

text \<open>\<^verbatim>\<open>_on_ack\<close> on the text of a sample; what raises is logged.\<close>

definition on_ack :: "(string \<Rightarrow> json option) \<Rightarrow> string \<Rightarrow> stream_router \<Rightarrow> stream_router" where
  "on_ack loads body r =
     (case loads body of Some (JObj d) \<Rightarrow> snd (receive_ack (dget_or d ''seq'' (JInt 0)) r) | _ \<Rightarrow> r)"

text \<open>\<^verbatim>\<open>sent_count - ack_count >= window_size\<close>.\<close>

definition window_full :: "stream_router \<Rightarrow> bool" where
  "window_full r =
     (case sr_ack r of
        JFloat f \<Rightarrow> fle (Fin (of_int (sr_window r))) (fsub (rnd (of_int (sr_sent r))) f)
      | JBool b \<Rightarrow> sr_window r \<le> sr_sent r - (if b then 1 else 0)
      | JInt n \<Rightarrow> sr_window r \<le> sr_sent r - n
      | _ \<Rightarrow> False)"

definition SHM_PREFIX :: string where
  "SHM_PREFIX = ''shm://''"

text \<open>
  \<^verbatim>\<open>send_chunk\<close>: \<open>None\<close> while the window is full. The count goes up before the shared memory is written, and stays up
  when that raises. What is published is the payload returned, unless the router was stopped and no function to
  publish with is given (\<open>has_func\<close>).
\<close>

definition send_chunk :: "string \<Rightarrow> string \<Rightarrow> bool \<Rightarrow> bool \<Rightarrow> string \<Rightarrow> stream_router \<times> shm
    \<Rightarrow> (string res \<times> string list \<times> stream_router \<times> shm) option" where
  "send_chunk name pad has_func is_local chunk = (\<lambda>(r, m).
     if window_full r then None
     else
       let r1 = r\<lparr>sr_sent := sr_sent r + 1\<rparr>;
           publish = (\<lambda>p. if has_func \<or> sr_publisher r then [p] else [])
       in if \<not> is_local then Some (Inr chunk, publish chunk, r1, m)
          else case write_data name pad chunk m of
                 (Inl e, m') \<Rightarrow> Some (Inl e, [], r1, m')
               | (Inr n, m') \<Rightarrow> Some (Inr (SHM_PREFIX @ n), publish (SHM_PREFIX @ n), r1, m'))"

definition subscribe_acks :: "string \<Rightarrow> stream_router \<Rightarrow> stream_router" where
  "subscribe_acks topic r = (if topic \<in> set (sr_ack_topics r) then r else r\<lparr>sr_ack_topics := sr_ack_topics r @ [topic]\<rparr>)"

text \<open>\<^verbatim>\<open>send_tensor_payload\<close>: both ways of publishing put the frame on the topic of the target stage.\<close>

definition send_tensor_payload :: "frame_lib \<Rightarrow> string \<Rightarrow> string \<Rightarrow> bool \<Rightarrow> tensor_payload \<Rightarrow> stream_router \<times> shm
    \<Rightarrow> (unit res \<times> sample list \<times> stream_router \<times> shm) option" where
  "send_tensor_payload fl name pad is_local p = (\<lambda>(r, m).
     case node_to_framed_bytes fl p of
       Inl e \<Rightarrow> Some (Inl e, [], r, m)
     | Inr frame \<Rightarrow>
         (let r1 = subscribe_acks (get_tensor_ack_topic (tp_task_id p) (tp_stage_index p)) r
          in case send_chunk name pad True is_local frame (r1, m) of
               None \<Rightarrow> None
             | Some (Inl e, _, r2, m2) \<Rightarrow> Some (Inl e, [], r2, m2)
             | Some (Inr _, out, r2, m2) \<Rightarrow>
                 Some (Inr (), map (Pair (get_tensor_topic (tp_task_id p) (tp_target_stage_index p))) out, r2, m2)))"

definition stop_stream :: "stream_router \<Rightarrow> stream_router" where
  "stop_stream r = r\<lparr>sr_subscribed := False, sr_publisher := False, sr_ack_topics := []\<rparr>"

section \<open>Receiving\<close>

record receiver =
  rc_session_id :: string
  rc_processed :: int
  rc_subscribed :: bool

definition init_receiver :: "string \<Rightarrow> receiver" where
  "init_receiver session_id = \<lparr>rc_session_id = session_id, rc_processed = 0, rc_subscribed = False\<rparr>"

definition seq_doc :: "int \<Rightarrow> json" where
  "seq_doc n = JObj [(''seq'', JInt n)]"

definition send_ack :: "(json \<Rightarrow> string) \<Rightarrow> receiver \<Rightarrow> sample list \<times> receiver" where
  "send_ack dumps rc =
     (let n = rc_processed rc + 1 in ([(ack_topic (rc_session_id rc), dumps (seq_doc n))], rc\<lparr>rc_processed := n\<rparr>))"

text \<open>
  The bytes a sample stands for: those of the segment it names, which is released whether or not it could be read, or
  its own. \<open>to_string\<close> is applied first and what it raises leaves the handler.
\<close>

definition sample_bytes :: "string res \<Rightarrow> string \<Rightarrow> shm \<Rightarrow> string option \<times> shm" where
  "sample_bytes body payload m =
     (case body of
        Inl e \<Rightarrow> (None, m)
      | Inr s \<Rightarrow>
          if startswith s SHM_PREFIX
          then (let name = drop 6 s
                in (case read_data name m of Inl e \<Rightarrow> None | Inr data \<Rightarrow> Some data, cleanup name m))
          else (Some payload, m))"

text \<open>\<open>accepts\<close> says whether the callback returns; if it raises, no acknowledgement is sent.\<close>

definition on_stream_sample :: "(json \<Rightarrow> string) \<Rightarrow> (string \<Rightarrow> string res) \<Rightarrow> (string \<Rightarrow> bool) \<Rightarrow> string \<Rightarrow> receiver \<times> shm
    \<Rightarrow> string option \<times> sample list \<times> receiver \<times> shm" where
  "on_stream_sample dumps to_string accepts payload = (\<lambda>(rc, m).
     case sample_bytes (to_string payload) payload m of
       (None, m') \<Rightarrow> (None, [], rc, m')
     | (Some data, m') \<Rightarrow>
         if \<not> accepts data then (Some data, [], rc, m')
         else (let (acks, rc') = send_ack dumps rc in (Some data, acks, rc', m')))"

text \<open>The receiver's tensor listener works on the bytes; a name that is not UTF-8 loses the bytes that do not decode.\<close>

definition on_tensor_sample :: "frame_lib \<Rightarrow> (string \<Rightarrow> string) \<Rightarrow> (tensor_payload \<Rightarrow> bool) \<Rightarrow> string \<Rightarrow> string \<Rightarrow> receiver \<times> shm
    \<Rightarrow> tensor_payload option \<times> sample list \<times> receiver \<times> shm" where
  "on_tensor_sample fl decode_ignore accepts task payload = (\<lambda>(rc, m).
     case (if startswith payload SHM_PREFIX then sample_bytes (Inr (SHM_PREFIX @ decode_ignore (drop 6 payload))) payload m
           else (Some payload, m)) of
       (None, m') \<Rightarrow> (None, [], rc, m')
     | (Some raw, m') \<Rightarrow>
         (case node_from_framed_bytes fl raw of
            Inl e \<Rightarrow> (None, [], rc, m')
          | Inr p \<Rightarrow>
              if \<not> accepts p then (Some p, [], rc, m')
              else (let n = rc_processed rc + 1
                    in (Some p, [(get_tensor_ack_topic task (tp_stage_index p), fl_dumps fl (seq_doc n))], rc\<lparr>rc_processed := n\<rparr>, m'))))"

text \<open>The router's own tensor listener acknowledges with, and counts in, the number its sending side waits on.\<close>

definition bump_ack :: "json \<Rightarrow> json" where
  "bump_ack a = (case py_plus_one a of Inl e \<Rightarrow> a | Inr b \<Rightarrow> b)"

definition on_router_tensor_sample :: "frame_lib \<Rightarrow> (string \<Rightarrow> string res) \<Rightarrow> (tensor_payload \<Rightarrow> bool) \<Rightarrow> string \<Rightarrow> string
    \<Rightarrow> stream_router \<times> shm \<Rightarrow> tensor_payload option \<times> sample list \<times> stream_router \<times> shm" where
  "on_router_tensor_sample fl to_string accepts task payload = (\<lambda>(r, m).
     case sample_bytes (to_string payload) payload m of
       (None, m') \<Rightarrow> (None, [], r, m')
     | (Some raw, m') \<Rightarrow>
         (case node_from_framed_bytes fl raw of
            Inl e \<Rightarrow> (None, [], r, m')
          | Inr p \<Rightarrow>
              if \<not> accepts p then (Some p, [], r, m')
              else (let a = bump_ack (sr_ack r)
                    in (Some p, [(get_tensor_ack_topic task (tp_stage_index p), fl_dumps fl (JObj [(''seq'', a)]))],
                        r\<lparr>sr_ack := a\<rparr>, m'))))"

text \<open>The receiver sends a payload through a router of its own, with a fresh identifier, and stops it.\<close>

definition receiver_send_tensor_payload :: "frame_lib \<Rightarrow> string \<Rightarrow> string \<Rightarrow> string \<Rightarrow> bool \<Rightarrow> tensor_payload \<Rightarrow> shm
    \<Rightarrow> (unit res \<times> sample list \<times> stream_router \<times> shm) option" where
  "receiver_send_tensor_payload fl hex name pad is_local p m =
     (case send_tensor_payload fl name pad is_local p (init_stream_router (''rec-send-'' @ hex) 4, m) of
        None \<Rightarrow> None
      | Some (res, out, r, m') \<Rightarrow> Some (res, out, stop_stream r, m'))"

definition start_receiver :: "receiver \<Rightarrow> receiver" where
  "start_receiver rc = rc\<lparr>rc_subscribed := True\<rparr>"

definition stop_receiver :: "receiver \<Rightarrow> receiver" where
  "stop_receiver rc = rc\<lparr>rc_subscribed := False\<rparr>"


section \<open>A sender, its receivers and the network\<close>

text \<open>
  Frames and acknowledgements in flight, the receiver subscribed to each topic, and, counted for the statements only,
  the frames processed and lost and the acknowledgements lost. Frames and acknowledgements arrive in any order; the
  sender uses the topics \<open>D\<close>.
\<close>

record link =
  lk_router :: stream_router
  lk_receivers :: "string \<Rightarrow> receiver"
  lk_frames :: "sample list"
  lk_acks :: "sample list"
  lk_shm :: shm
  lk_done :: nat
  lk_lost :: nat
  lk_lost_acks :: nat

type_synonym reaction = "string \<Rightarrow> string \<Rightarrow> receiver \<times> shm \<Rightarrow> sample list \<times> receiver \<times> shm"

definition stream_reaction :: "(json \<Rightarrow> string) \<Rightarrow> (string \<Rightarrow> string res) \<Rightarrow> (string \<Rightarrow> bool) \<Rightarrow> reaction" where
  "stream_reaction dumps to_string accepts topic payload s = snd (on_stream_sample dumps to_string accepts payload s)"

definition tensor_reaction :: "frame_lib \<Rightarrow> (string \<Rightarrow> string) \<Rightarrow> (tensor_payload \<Rightarrow> bool) \<Rightarrow> (string \<Rightarrow> string) \<Rightarrow> reaction" where
  "tensor_reaction fl decode_ignore accepts task_of topic payload s = snd (on_tensor_sample fl decode_ignore accepts (task_of topic) payload s)"

definition hears :: "stream_router \<Rightarrow> string \<Rightarrow> bool" where
  "hears r topic \<longleftrightarrow> topic = ack_topic (sr_session_id r) \<and> sr_subscribed r \<or> topic \<in> set (sr_ack_topics r)"

definition fresh_link :: "string \<Rightarrow> int \<Rightarrow> shm \<Rightarrow> link" where
  "fresh_link session_id window m =
     \<lparr>lk_router = init_stream_router session_id window, lk_receivers = (\<lambda>_. init_receiver session_id), lk_frames = [], lk_acks = [], lk_shm = m,
      lk_done = 0, lk_lost = 0, lk_lost_acks = 0\<rparr>"

definition sent_link :: "sample list \<Rightarrow> stream_router \<Rightarrow> shm \<Rightarrow> link \<Rightarrow> link" where
  "sent_link out r m s =
     s\<lparr>lk_router := r, lk_shm := m, lk_frames := lk_frames s @ out, lk_lost := lk_lost s + (if out = [] then 1 else 0)\<rparr>"

inductive link_step :: "frame_lib \<Rightarrow> reaction \<Rightarrow> string set \<Rightarrow> link \<Rightarrow> link \<Rightarrow> bool"
  for fl :: frame_lib and react :: reaction and D :: "string set" where
  SendChunk: "send_chunk name pad has_func is_local chunk (lk_router s, lk_shm s) = Some (res, out, r, m) \<Longrightarrow>
     stream_topic (sr_session_id (lk_router s)) \<in> D \<Longrightarrow>
     link_step fl react D s (sent_link (map (Pair (stream_topic (sr_session_id (lk_router s)))) out) r m s)"
| SendTensor: "send_tensor_payload fl name pad is_local p (lk_router s, lk_shm s) = Some (res, out, r, m) \<Longrightarrow>
     node_to_framed_bytes fl p = Inr frame \<Longrightarrow> get_tensor_topic (tp_task_id p) (tp_target_stage_index p) \<in> D \<Longrightarrow>
     link_step fl react D s (sent_link out r m s)"
| Deliver: "lk_frames s = xs @ (topic, payload) # ys \<Longrightarrow> react topic payload (lk_receivers s topic, lk_shm s) = (acks, rc, m) \<Longrightarrow>
     link_step fl react D s (s\<lparr>lk_receivers := (lk_receivers s)(topic := rc), lk_shm := m, lk_frames := xs @ ys,
        lk_acks := lk_acks s @ acks, lk_done := lk_done s + length acks, lk_lost := lk_lost s + (if acks = [] then 1 else 0)\<rparr>)"
| LoseFrame: "lk_frames s = xs @ f # ys \<Longrightarrow> link_step fl react D s (s\<lparr>lk_frames := xs @ ys, lk_lost := lk_lost s + 1\<rparr>)"
| Ack: "lk_acks s = xs @ (topic, body) # ys \<Longrightarrow> hears (lk_router s) topic \<Longrightarrow>
     link_step fl react D s (s\<lparr>lk_router := on_ack (fl_loads fl) body (lk_router s), lk_acks := xs @ ys\<rparr>)"
| LoseAck: "lk_acks s = xs @ a # ys \<Longrightarrow> link_step fl react D s (s\<lparr>lk_acks := xs @ ys, lk_lost_acks := lk_lost_acks s + 1\<rparr>)"

inductive link_reach :: "frame_lib \<Rightarrow> reaction \<Rightarrow> string set \<Rightarrow> link \<Rightarrow> link \<Rightarrow> bool"
  for fl :: frame_lib and react :: reaction and D :: "string set" and s0 :: link where
  Refl: "link_reach fl react D s0 s0"
| Step: "link_reach fl react D s0 s \<Longrightarrow> link_step fl react D s s' \<Longrightarrow> link_reach fl react D s0 s'"

section \<open>The window\<close>

definition ack_codec :: "frame_lib \<Rightarrow> bool" where
  "ack_codec fl \<longleftrightarrow> (\<forall>n\<ge>0. fl_loads fl (fl_dumps fl (seq_doc n)) = Some (seq_doc n))"

definition flow_inv :: "frame_lib \<Rightarrow> int \<Rightarrow> link \<Rightarrow> bool" where
  "flow_inv fl w s \<longleftrightarrow>
     sr_window (lk_router s) = w \<and> sr_sent (lk_router s) = int (length (lk_frames s) + lk_done s + lk_lost s)
   \<and> (\<exists>a. sr_ack (lk_router s) = JInt a \<and> 0 \<le> a \<and> a \<le> int (lk_done s) \<and> sr_sent (lk_router s) - a \<le> w)
   \<and> (\<forall>t. 0 \<le> rc_processed (lk_receivers s t) \<and> rc_processed (lk_receivers s t) \<le> int (lk_done s))
   \<and> (\<forall>x\<in>set (lk_acks s). \<exists>n. snd x = fl_dumps fl (seq_doc n) \<and> 0 \<le> n \<and> n \<le> int (lk_done s))"

definition caught_up :: "frame_lib \<Rightarrow> string \<Rightarrow> link \<Rightarrow> bool" where
  "caught_up fl d s \<longleftrightarrow>
     (\<forall>x\<in>set (lk_frames s). fst x = d) \<and> int (lk_done s) = rc_processed (lk_receivers s d)
   \<and> (lk_lost_acks s = 0 \<longrightarrow> sr_ack (lk_router s) = JInt (int (lk_done s))
        \<or> (\<exists>t. (t, fl_dumps fl (seq_doc (int (lk_done s)))) \<in> set (lk_acks s)))"

lemma on_ack_number:
  assumes "sr_ack r = JInt a" "0 \<le> n" "ack_codec fl"
  shows "on_ack (fl_loads fl) (fl_dumps fl (seq_doc n)) r = r\<lparr>sr_ack := JInt (max a n), sr_event := True\<rparr>"
  using assms by (auto simp: on_ack_def ack_codec_def) (simp add: seq_doc_def dget_or_def receive_ack_def max_def)

lemma window_full_topics [simp]: "window_full (r\<lparr>sr_ack_topics := ts\<rparr>) = window_full r"
  by (cases "sr_ack r") (simp_all add: window_full_def)

lemma send_chunk_Some:
  assumes "send_chunk name pad has_func is_local chunk (r, m) = Some (res, out, r', m')"
  shows "\<not> window_full r" "r' = r\<lparr>sr_sent := sr_sent r + 1\<rparr>" "length out \<le> 1"
  using assms by (auto simp: send_chunk_def Let_def split: if_splits prod.splits sum.splits)

lemma send_tensor_Some:
  assumes "send_tensor_payload fl name pad is_local p (r, m) = Some (res, out, r', m')" "node_to_framed_bytes fl p = Inr frame"
  shows "\<not> window_full r" "\<exists>ts. r' = r\<lparr>sr_sent := sr_sent r + 1, sr_ack_topics := ts\<rparr>" "length out \<le> 1"
    "\<forall>x\<in>set out. fst x = get_tensor_topic (tp_task_id p) (tp_target_stage_index p)"
proof -
  let ?r = "subscribe_acks (get_tensor_ack_topic (tp_task_id p) (tp_stage_index p)) r"
  obtain x where x: "send_chunk name pad True is_local frame (?r, m) = Some x"
    using assms by (auto simp: send_tensor_payload_def split: option.splits)
  obtain res1 out1 r1 m1 where x1: "x = (res1, out1, r1, m1)" by (cases x) auto
  have r1: "r1 = r'" "\<not> window_full ?r" "r1 = ?r\<lparr>sr_sent := sr_sent ?r + 1\<rparr>" "length out1 \<le> 1"
    using assms x x1 send_chunk_Some [of name pad True is_local frame ?r m res1 out1 r1 m1]
    by (auto simp: send_tensor_payload_def split: sum.splits)
  then show "\<not> window_full r" by (simp add: subscribe_acks_def split: if_splits)
  show "\<exists>ts. r' = r\<lparr>sr_sent := sr_sent r + 1, sr_ack_topics := ts\<rparr>"
    unfolding r1(1) [symmetric] r1(3) by (intro exI [of _ "sr_ack_topics ?r"]) (simp add: subscribe_acks_def)
  show "length out \<le> 1" "\<forall>x\<in>set out. fst x = get_tensor_topic (tp_task_id p) (tp_target_stage_index p)"
    using assms x x1 r1(4) by (auto simp: send_tensor_payload_def split: sum.splits)
qed

lemma flow_inv_sent:
  assumes "flow_inv fl w s" "\<not> window_full (lk_router s)" "length out \<le> 1"
    and "r = (lk_router s)\<lparr>sr_sent := sr_sent (lk_router s) + 1, sr_ack_topics := ts\<rparr>"
  shows "flow_inv fl w (sent_link out r m s)"
  using assms by (cases out) (auto simp: flow_inv_def sent_link_def window_full_def)

lemma flow_inv_ack:
  assumes "flow_inv fl w s" "ack_codec fl" "lk_acks s = xs @ (topic, body) # ys"
  shows "flow_inv fl w (s\<lparr>lk_router := on_ack (fl_loads fl) body (lk_router s), lk_acks := xs @ ys\<rparr>)"
proof -
  obtain n where n: "body = fl_dumps fl (seq_doc n)" "0 \<le> n" "n \<le> int (lk_done s)"
    using assms(1,3) by (auto simp: flow_inv_def)
  obtain a where a: "sr_ack (lk_router s) = JInt a" using assms(1) by (auto simp: flow_inv_def)
  show ?thesis using assms(1,3) n a by (auto simp: flow_inv_def on_ack_number [OF a n(2) assms(2)])
qed

text \<open>What the sender relies on: a receiver acknowledges nothing, or its next number.\<close>

locale acknowledging =
  fixes react :: reaction and fl :: frame_lib
  assumes react_cases: "react topic payload (rc, m) = (acks, rc', m') \<Longrightarrow>
      acks = [] \<and> rc_processed rc' = rc_processed rc
    \<or> (\<exists>t. acks = [(t, fl_dumps fl (seq_doc (rc_processed rc + 1)))] \<and> rc_processed rc' = rc_processed rc + 1)"
begin

lemma flow_inv_deliver:
  assumes "flow_inv fl w s" "lk_frames s = xs @ (topic, payload) # ys"
    "react topic payload (lk_receivers s topic, lk_shm s) = (acks, rc, m)"
  shows "flow_inv fl w (s\<lparr>lk_receivers := (lk_receivers s)(topic := rc), lk_shm := m, lk_frames := xs @ ys,
        lk_acks := lk_acks s @ acks, lk_done := lk_done s + length acks, lk_lost := lk_lost s + (if acks = [] then 1 else 0)\<rparr>)"
  using react_cases [OF assms(3)]
proof
  assume "acks = [] \<and> rc_processed rc = rc_processed (lk_receivers s topic)"
  then show ?thesis using assms(1,2) by (auto simp: flow_inv_def)
next
  let ?n = "rc_processed (lk_receivers s topic) + 1"
  assume "\<exists>t. acks = [(t, fl_dumps fl (seq_doc ?n))] \<and> rc_processed rc = ?n"
  then obtain t where acks: "acks = [(t, fl_dumps fl (seq_doc ?n))]" "rc_processed rc = ?n" by blast
  have n: "0 \<le> ?n" "?n \<le> 1 + int (lk_done s)" using assms(1) by (auto simp: flow_inv_def)
  have old: "\<exists>k. snd x = fl_dumps fl (seq_doc k) \<and> 0 \<le> k \<and> k \<le> 1 + int (lk_done s)" if "x \<in> set (lk_acks s)" for x
    using assms(1) that unfolding flow_inv_def by force
  have new: "\<exists>k. fl_dumps fl (seq_doc ?n) = fl_dumps fl (seq_doc k) \<and> 0 \<le> k \<and> k \<le> 1 + int (lk_done s)"
    using n by blast
  have rec: "0 \<le> rc_processed (lk_receivers s u)" "rc_processed (lk_receivers s u) \<le> 1 + int (lk_done s)" for u
    using assms(1) unfolding flow_inv_def by (auto intro: order_trans)
  show ?thesis using assms(1,2) acks n old new rec by (auto simp: flow_inv_def)
qed

lemma flow_inv_step:
  assumes "link_step fl react D s s'" "flow_inv fl w s" "ack_codec fl"
  shows "flow_inv fl w s'"
  using assms
proof (induction rule: link_step.induct)
  case (SendChunk name pad has_func is_local chunk s res out r m)
  then show ?case
    using send_chunk_Some [OF SendChunk.hyps(1)] by (auto intro!: flow_inv_sent [where ts = "sr_ack_topics (lk_router s)"])
next
  case (SendTensor name pad is_local p s res out r m frame)
  then show ?case using send_tensor_Some [OF SendTensor.hyps(1,2)] by (blast intro: flow_inv_sent)
next
  case (Deliver s xs topic payload ys acks rc m)
  then show ?case by (blast intro: flow_inv_deliver)
next
  case (Ack s xs topic body ys)
  then show ?case by (blast intro: flow_inv_ack)
qed (auto simp: flow_inv_def)

lemma flow_inv_reach:
  assumes "link_reach fl react D (fresh_link sid w m) s" "ack_codec fl" "0 \<le> w"
  shows "flow_inv fl w s"
  using assms(1)
proof induction
  case Refl
  show ?case using assms(3) by (simp add: flow_inv_def fresh_link_def init_stream_router_def init_receiver_def)
qed (rule flow_inv_step [OF _ _ assms(2)])

text \<open>With one destination the receiver's number is the number of frames processed, and the last acknowledgement says so.\<close>

lemma caught_up_sent:
  assumes "caught_up fl d s" "\<forall>x\<in>set out. fst x = d" "r = (lk_router s)\<lparr>sr_sent := n, sr_ack_topics := ts\<rparr>"
  shows "caught_up fl d (sent_link out r m s)"
  using assms by (auto simp: caught_up_def sent_link_def)

lemma caught_up_deliver:
  assumes "caught_up fl d s" "lk_frames s = xs @ (topic, payload) # ys"
    "react topic payload (lk_receivers s topic, lk_shm s) = (acks, rc, m)"
  shows "caught_up fl d (s\<lparr>lk_receivers := (lk_receivers s)(topic := rc), lk_shm := m, lk_frames := xs @ ys,
        lk_acks := lk_acks s @ acks, lk_done := lk_done s + length acks, lk_lost := lk_lost s + (if acks = [] then 1 else 0)\<rparr>)"
proof -
  have d: "topic = d" "int (lk_done s) = rc_processed (lk_receivers s d)" using assms(1,2) by (auto simp: caught_up_def)
  from react_cases [OF assms(3)] show ?thesis
  proof
    assume "acks = [] \<and> rc_processed rc = rc_processed (lk_receivers s topic)"
    then show ?thesis using assms(1,2) d by (auto simp: caught_up_def)
  next
    assume "\<exists>t. acks = [(t, fl_dumps fl (seq_doc (rc_processed (lk_receivers s topic) + 1)))]
        \<and> rc_processed rc = rc_processed (lk_receivers s topic) + 1"
    then show ?thesis using assms(1,2) d by (auto simp: caught_up_def add.commute)
  qed
qed

lemma caught_up_ack:
  assumes "caught_up fl d s" "flow_inv fl w s" "ack_codec fl" "lk_acks s = xs @ (topic, body) # ys"
  shows "caught_up fl d (s\<lparr>lk_router := on_ack (fl_loads fl) body (lk_router s), lk_acks := xs @ ys\<rparr>)"
proof -
  obtain n where n: "body = fl_dumps fl (seq_doc n)" "0 \<le> n" "n \<le> int (lk_done s)"
    using assms(2,4) by (auto simp: flow_inv_def)
  obtain a where a: "sr_ack (lk_router s) = JInt a" "a \<le> int (lk_done s)" using assms(2) by (auto simp: flow_inv_def)
  have last: "n = int (lk_done s)" if "body = fl_dumps fl (seq_doc (int (lk_done s)))"
  proof -
    have "Some (seq_doc n) = Some (seq_doc (int (lk_done s)))"
      using assms(3) n that unfolding ack_codec_def by (metis of_nat_0_le_iff)
    then show ?thesis by (simp add: seq_doc_def)
  qed
  let ?s = "s\<lparr>lk_router := on_ack (fl_loads fl) body (lk_router s), lk_acks := xs @ ys\<rparr>"
  have ack: "sr_ack (lk_router ?s) = JInt (max a n)" using n(1) by (simp add: on_ack_number [OF a(1) n(2) assms(3)])
  have "sr_ack (lk_router ?s) = JInt (int (lk_done s)) \<or> (\<exists>t. (t, fl_dumps fl (seq_doc (int (lk_done s)))) \<in> set (xs @ ys))"
    if none: "lk_lost_acks s = 0"
  proof (cases "a = int (lk_done s) \<or> n = int (lk_done s)")
    case True
    then show ?thesis using a(2) n(3) ack by auto
  next
    case False
    then obtain t where "(t, fl_dumps fl (seq_doc (int (lk_done s)))) \<in> set (lk_acks s)"
      using assms(1) none a(1) unfolding caught_up_def by auto
    then show ?thesis using False last assms(4) by auto
  qed
  then show ?thesis using assms(1) by (simp add: caught_up_def)
qed

lemma caught_up_step:
  assumes "link_step fl react {d} s s'" "caught_up fl d s" "flow_inv fl w s" "ack_codec fl"
  shows "caught_up fl d s'"
  using assms
proof (induction rule: link_step.induct)
  case (SendChunk name pad has_func is_local chunk s res out r m)
  then show ?case
    using send_chunk_Some [OF SendChunk.hyps(1)]
    by (intro caught_up_sent [where ts = "sr_ack_topics (lk_router s)" and n = "sr_sent (lk_router s) + 1"]) auto
next
  case (SendTensor name pad is_local p s res out r m frame)
  obtain ts where "r = (lk_router s)\<lparr>sr_sent := sr_sent (lk_router s) + 1, sr_ack_topics := ts\<rparr>"
      "\<forall>x\<in>set out. fst x = get_tensor_topic (tp_task_id p) (tp_target_stage_index p)"
    using send_tensor_Some [OF SendTensor.hyps(1,2)] by blast
  then show ?case using SendTensor by (intro caught_up_sent) auto
next
  case (Deliver s xs topic payload ys acks rc m)
  then show ?case by (blast intro: caught_up_deliver)
next
  case (Ack s xs topic body ys)
  then show ?case by (blast intro: caught_up_ack)
qed (auto simp: caught_up_def)

lemma caught_up_reach:
  assumes "link_reach fl react {d} (fresh_link sid w m) s" "ack_codec fl" "0 \<le> w"
  shows "caught_up fl d s"
  using assms(1)
proof induction
  case Refl
  show ?case by (simp add: caught_up_def fresh_link_def init_stream_router_def init_receiver_def)
next
  case (Step s s')
  then show ?case using flow_inv_reach [OF Step.hyps(1) assms(2,3)] caught_up_step assms(2) by blast
qed

text \<open>The window bounds what is in flight or lost; once it is lost the sender waits for ever; if nothing is, it goes on.\<close>

lemma flow_bound:
  assumes "link_reach fl react D (fresh_link sid w m) s" "ack_codec fl" "0 \<le> w"
  shows "int (length (lk_frames s) + lk_lost s) \<le> w"
  using flow_inv_reach [OF assms] by (auto simp: flow_inv_def)

lemma flow_stuck:
  assumes "link_reach fl react D (fresh_link sid w m) s" "ack_codec fl" "0 \<le> w" "w \<le> int (lk_lost s)"
  shows "window_full (lk_router s)"
  using flow_inv_reach [OF assms(1-3)] assms(4) by (auto simp: flow_inv_def window_full_def)

lemma flow_ready:
  assumes "link_reach fl react {d} (fresh_link sid w m) s" "ack_codec fl" "0 < w"
    "lk_frames s = []" "lk_acks s = []" "lk_lost s = 0" "lk_lost_acks s = 0"
  shows "\<not> window_full (lk_router s)"
proof -
  have "0 \<le> w" using assms(3) by simp
  from caught_up_reach [OF assms(1,2) this] flow_inv_reach [OF assms(1,2) this] show ?thesis
    using assms(3-7) by (auto simp: caught_up_def flow_inv_def window_full_def)
qed

end

interpretation stream_ack: acknowledging "stream_reaction (fl_dumps fl) to_string accepts" fl for fl to_string accepts
proof
  fix topic payload rc m acks rc' m'
  assume "stream_reaction (fl_dumps fl) to_string accepts topic payload (rc, m) = (acks, rc', m')"
  then show "acks = [] \<and> rc_processed rc' = rc_processed rc
    \<or> (\<exists>t. acks = [(t, fl_dumps fl (seq_doc (rc_processed rc + 1)))] \<and> rc_processed rc' = rc_processed rc + 1)"
    by (auto simp: stream_reaction_def on_stream_sample_def send_ack_def Let_def split: prod.splits option.splits if_splits)
qed

interpretation tensor_ack: acknowledging "tensor_reaction fl decode_ignore accepts task_of" fl for fl decode_ignore accepts task_of
proof
  fix topic payload rc m acks rc' m'
  assume "tensor_reaction fl decode_ignore accepts task_of topic payload (rc, m) = (acks, rc', m')"
  then show "acks = [] \<and> rc_processed rc' = rc_processed rc
    \<or> (\<exists>t. acks = [(t, fl_dumps fl (seq_doc (rc_processed rc + 1)))] \<and> rc_processed rc' = rc_processed rc + 1)"
    by (auto simp: tensor_reaction_def on_tensor_sample_def Let_def split: prod.splits option.splits if_splits sum.splits)
qed


section \<open>Two receivers behind one window\<close>

definition quiet :: "link \<Rightarrow> bool" where
  "quiet s \<longleftrightarrow> lk_frames s = [] \<and> lk_acks s = [] \<and> lk_lost s = 0 \<and> lk_lost_acks s = 0"

abbreviation accepting :: "frame_lib \<Rightarrow> (string \<Rightarrow> string) \<Rightarrow> reaction" where
  "accepting fl task_of \<equiv> tensor_reaction fl (\<lambda>s. s) (\<lambda>_. True) task_of"

abbreviation topic_of :: "tensor_payload \<Rightarrow> string" where
  "topic_of p \<equiv> get_tensor_topic (tp_task_id p) (tp_target_stage_index p)"

text \<open>A payload that can be framed, travels and is read back.\<close>

definition travels :: "frame_lib \<Rightarrow> (string \<Rightarrow> string) \<Rightarrow> tensor_payload \<Rightarrow> bool" where
  "travels fl task_of p \<longleftrightarrow> task_of (topic_of p) = tp_task_id p
     \<and> (\<exists>frame. node_to_framed_bytes fl p = Inr frame \<and> node_from_framed_bytes fl frame = Inr p)"

lemma frame_not_shm: "node_to_framed_bytes fl p = Inr frame \<Longrightarrow> \<not> startswith frame SHM_PREFIX"
  by (auto simp: node_to_framed_bytes_def framed_def MAGIC_def SHM_PREFIX_def startswith_def res_simps Let_def split: if_splits)

text \<open>One payload sent, processed and acknowledged.\<close>

lemma exchange:
  assumes "travels fl task_of p" "topic_of p \<in> D" "quiet s" "\<not> window_full (lk_router s)" "ack_codec fl"
    "sr_ack (lk_router s) = JInt a" "0 \<le> rc_processed (lk_receivers s (topic_of p))"
    "link_reach fl (accepting fl task_of) D s0 s"
  shows "\<exists>s'. link_reach fl (accepting fl task_of) D s0 s' \<and> quiet s'
    \<and> sr_sent (lk_router s') = sr_sent (lk_router s) + 1 \<and> sr_window (lk_router s') = sr_window (lk_router s)
    \<and> sr_ack (lk_router s') = JInt (max a (rc_processed (lk_receivers s (topic_of p)) + 1))
    \<and> (\<forall>t. rc_processed (lk_receivers s' t) = rc_processed (lk_receivers s t) + (if t = topic_of p then 1 else 0))"
proof -
  let ?react = "accepting fl task_of" and ?d = "topic_of p" and ?n = "rc_processed (lk_receivers s (topic_of p)) + 1"
  let ?reply = "get_tensor_ack_topic (tp_task_id p) (tp_stage_index p)"
  obtain frame where f: "node_to_framed_bytes fl p = Inr frame" "node_from_framed_bytes fl frame = Inr p" "task_of ?d = tp_task_id p"
    using assms(1) by (auto simp: travels_def)
  let ?r1 = "subscribe_acks ?reply (lk_router s)"
  let ?r = "?r1\<lparr>sr_sent := sr_sent ?r1 + 1\<rparr>"
  have full: "\<not> window_full ?r1" using assms(4) by (simp add: subscribe_acks_def)
  have sent: "send_tensor_payload fl [] [] False p (lk_router s, lk_shm s) = Some (Inr (), [(?d, frame)], ?r, lk_shm s)"
    using f(1) full by (simp add: send_tensor_payload_def send_chunk_def Let_def)
  let ?s1 = "sent_link [(?d, frame)] ?r (lk_shm s) s"
  have s1: "link_reach fl ?react D s0 ?s1"
    using link_step.SendTensor [OF sent f(1) assms(2)] by (rule link_reach.Step [OF assms(8)])
  have frames: "lk_frames ?s1 = [] @ (?d, frame) # []" using assms(3) by (simp add: sent_link_def quiet_def)
  have react: "?react ?d frame (lk_receivers ?s1 ?d, lk_shm ?s1)
      = ([(?reply, fl_dumps fl (seq_doc ?n))], (lk_receivers s ?d)\<lparr>rc_processed := ?n\<rparr>, lk_shm s)"
    using f frame_not_shm [OF f(1)] by (simp add: tensor_reaction_def on_tensor_sample_def sent_link_def Let_def)
  let ?rc = "(lk_receivers s ?d)\<lparr>rc_processed := ?n\<rparr>"
  let ?acks = "[(?reply, fl_dumps fl (seq_doc ?n))]"
  let ?s2 = "?s1\<lparr>lk_receivers := (lk_receivers ?s1)(?d := ?rc), lk_shm := lk_shm s, lk_frames := [] @ [],
      lk_acks := lk_acks ?s1 @ ?acks, lk_done := lk_done ?s1 + length ?acks, lk_lost := lk_lost ?s1 + (if ?acks = [] then 1 else 0)\<rparr>"
  have "link_step fl ?react D ?s1 ?s2" by (rule link_step.Deliver, rule frames, rule react)
  then have s2: "link_reach fl ?react D s0 ?s2" by (rule link_reach.Step [OF s1])
  have ret: "hears ?r ?reply" by (simp add: hears_def subscribe_acks_def)
  have ack: "on_ack (fl_loads fl) (fl_dumps fl (seq_doc ?n)) ?r = ?r\<lparr>sr_ack := JInt (max a ?n), sr_event := True\<rparr>"
    using assms(5-7) by (intro on_ack_number) (auto simp: subscribe_acks_def)
  have acks: "lk_acks ?s2 = [] @ (?reply, fl_dumps fl (seq_doc ?n)) # []" using assms(3) by (simp add: sent_link_def quiet_def)
  have heard: "hears (lk_router ?s2) ?reply" using ret by (simp add: sent_link_def)
  let ?s3 = "?s2\<lparr>lk_router := on_ack (fl_loads fl) (fl_dumps fl (seq_doc ?n)) (lk_router ?s2), lk_acks := [] @ []\<rparr>"
  have "link_step fl ?react D ?s2 ?s3" by (rule link_step.Ack, rule acks, rule heard)
  then have "link_reach fl ?react D s0 ?s3" by (rule link_reach.Step [OF s2])
  moreover have "lk_router ?s3 = ?r\<lparr>sr_ack := JInt (max a ?n), sr_event := True\<rparr>" using ack by (simp add: sent_link_def)
  moreover have "quiet ?s3" using assms(3) by (simp add: quiet_def sent_link_def)
  moreover have "\<forall>t. rc_processed (lk_receivers ?s3 t) = rc_processed (lk_receivers s t) + (if t = ?d then 1 else 0)"
    by (simp add: sent_link_def)
  ultimately obtain s3 where "link_reach fl ?react D s0 s3" "lk_router s3 = ?r\<lparr>sr_ack := JInt (max a ?n), sr_event := True\<rparr>"
      "quiet s3" "\<forall>t. rc_processed (lk_receivers s3 t) = rc_processed (lk_receivers s t) + (if t = ?d then 1 else 0)"
    by blast
  then show ?thesis by (intro exI [of _ s3]) (simp add: subscribe_acks_def)
qed

lemma fan_out_rounds:
  assumes "travels fl task_of p" "travels fl task_of q" "topic_of p \<noteq> topic_of q" "ack_codec fl" "int i \<le> w"
  shows "\<exists>s. link_reach fl (accepting fl task_of) {topic_of p, topic_of q} (fresh_link sid w m) s \<and> quiet s
    \<and> sr_sent (lk_router s) = 2 * int i \<and> sr_window (lk_router s) = w \<and> sr_ack (lk_router s) = JInt (int i)
    \<and> rc_processed (lk_receivers s (topic_of p)) = int i \<and> rc_processed (lk_receivers s (topic_of q)) = int i"
  using assms(5)
proof (induction i)
  case 0
  show ?case
    by (intro exI [of _ "fresh_link sid w m"])
      (simp add: link_reach.Refl quiet_def fresh_link_def init_stream_router_def init_receiver_def)
next
  case (Suc i)
  let ?D = "{topic_of p, topic_of q}"
  have "int i \<le> w" using Suc.prems by simp
  from Suc.IH [OF this] obtain s where s: "link_reach fl (accepting fl task_of) ?D (fresh_link sid w m) s" "quiet s"
      "sr_sent (lk_router s) = 2 * int i" "sr_window (lk_router s) = w" "sr_ack (lk_router s) = JInt (int i)"
      "rc_processed (lk_receivers s (topic_of p)) = int i" "rc_processed (lk_receivers s (topic_of q)) = int i"
    by blast
  have "\<not> window_full (lk_router s)" "topic_of p \<in> ?D" "0 \<le> rc_processed (lk_receivers s (topic_of p))"
    using s Suc.prems by (simp_all add: window_full_def)
  from exchange [OF assms(1) this(2) s(2) this(1) assms(4) s(5) this(3) s(1)]
  obtain s1 where "link_reach fl (accepting fl task_of) ?D (fresh_link sid w m) s1" "quiet s1"
      "sr_sent (lk_router s1) = sr_sent (lk_router s) + 1" "sr_window (lk_router s1) = sr_window (lk_router s)"
      "sr_ack (lk_router s1) = JInt (max (int i) (rc_processed (lk_receivers s (topic_of p)) + 1))"
      "\<forall>t. rc_processed (lk_receivers s1 t) = rc_processed (lk_receivers s t) + (if t = topic_of p then 1 else 0)"
    by blast
  then have s1: "link_reach fl (accepting fl task_of) ?D (fresh_link sid w m) s1" "quiet s1"
      "sr_sent (lk_router s1) = 2 * int i + 1" "sr_window (lk_router s1) = w" "sr_ack (lk_router s1) = JInt (int i + 1)"
      "rc_processed (lk_receivers s1 (topic_of p)) = int i + 1" "rc_processed (lk_receivers s1 (topic_of q)) = int i"
    using s assms(3) by simp_all
  have "\<not> window_full (lk_router s1)" "topic_of q \<in> ?D" "0 \<le> rc_processed (lk_receivers s1 (topic_of q))"
    using s1 Suc.prems by (simp_all add: window_full_def)
  from exchange [OF assms(2) this(2) s1(2) this(1) assms(4) s1(5) this(3) s1(1)]
  obtain s2 where "link_reach fl (accepting fl task_of) ?D (fresh_link sid w m) s2" "quiet s2"
      "sr_sent (lk_router s2) = sr_sent (lk_router s1) + 1" "sr_window (lk_router s2) = sr_window (lk_router s1)"
      "sr_ack (lk_router s2) = JInt (max (int i + 1) (rc_processed (lk_receivers s1 (topic_of q)) + 1))"
      "\<forall>t. rc_processed (lk_receivers s2 t) = rc_processed (lk_receivers s1 t) + (if t = topic_of q then 1 else 0)"
    by blast
  then show ?case using s1 assms(3) by (intro exI [of _ s2]) simp
qed


section \<open>Properties\<close>

text \<open>A receiver that passes a payload on never waits: its router is new, so the window is always open.\<close>

lemma forwarding_never_waits: "receiver_send_tensor_payload fl hex name pad is_local p m \<noteq> None"
  by (auto simp: receiver_send_tensor_payload_def send_tensor_payload_def send_chunk_def init_stream_router_def window_full_def
      subscribe_acks_def Let_def split: sum.splits prod.splits)

lemma ddel_absent: "k \<notin> set (dkeys d) \<Longrightarrow> ddel k d = d"
  by (induction d) auto

lemma ddel_new: "k \<notin> set (dkeys d) \<Longrightarrow> ddel k (d @ [(k, v)]) = d"
  by (induction d) auto

text \<open>
  Shared memory carries a chunk once. A chunk sent to a process of the same machine arrives as it was sent, however the
  system rounds the size of the segment, and afterwards the memory is as it was before; the same message arriving again
  yields nothing and is not acknowledged.
\<close>

lemma local_transfer:
  assumes "send_chunk name pad has_func True chunk (r, m) = Some (Inr token, out, r', m')" "name \<notin> sm_open m"
    and "to_string token = Inr token" "accepts chunk"
  shows "\<exists>acks rc'. on_stream_sample dumps to_string accepts token (rc, m') = (Some chunk, acks, rc', m)
    \<and> rc_processed rc' = rc_processed rc + 1
    \<and> on_stream_sample dumps to_string accepts token (rc', m) = (None, [], rc', m)"
proof -
  have w: "write_data name pad chunk m = (Inr name, m')" and tok: "token = SHM_PREFIX @ name"
    using assms(1) by (auto simp: send_chunk_def Let_def write_data_def split: if_splits prod.splits sum.splits)
  then obtain prefix where p: "\<not> dmem name (sm_segments m)" "to_bytes4 (length chunk) = Inr prefix"
      "m' = m\<lparr>sm_segments := dset name (prefix @ chunk @ pad) (sm_segments m), sm_open := insert name (sm_open m)\<rparr>"
    by (auto simp: write_data_def split: if_splits sum.splits)
  have len: "from_bytes_big prefix = length chunk" "length prefix = 4" using from_to_bytes4 [OF p(2)] by auto
  have fresh: "name \<notin> set (dkeys (sm_segments m))" using p(1) by (simp add: dmem_iff)
  have "read_data name m' = Inr chunk" using len by (simp add: read_data_def p(3) dict_simps)
  moreover have "cleanup name m' = m"
    using assms(2) fresh by (simp add: cleanup_def p(3) dset_new ddel_new)
  moreover have "read_data name m = Inl missing_segment" using p(1) by (simp add: read_data_def dmem_def)
  moreover have "cleanup name m = m" using assms(2) fresh by (simp add: cleanup_def ddel_absent)
  moreover have "startswith token SHM_PREFIX" "drop 6 token = name" by (simp_all add: tok startswith_def SHM_PREFIX_def)
  ultimately show ?thesis
    using assms(3,4) by (simp add: on_stream_sample_def sample_bytes_def send_ack_def Let_def)
qed


text \<open>
  A sender with two destinations deadlocks. The router has one count for all topics, but every receiver numbers its own
  acknowledgements and the router keeps the largest number: after each of two receivers has processed and acknowledged a
  window's worth of payloads, with nothing lost and nothing in flight, every further send waits for ever.
\<close>

theorem fan_out_deadlock:
  assumes "travels fl task_of p" "travels fl task_of q" "topic_of p \<noteq> topic_of q" "ack_codec fl" "0 < w"
  shows "\<exists>s. link_reach fl (accepting fl task_of) {topic_of p, topic_of q} (fresh_link sid w m) s \<and> quiet s
    \<and> (\<forall>name pad is_local. send_tensor_payload fl name pad is_local p (lk_router s, lk_shm s) = None
        \<and> send_tensor_payload fl name pad is_local q (lk_router s, lk_shm s) = None)"
proof -
  have "int (nat w) \<le> w" using assms(5) by simp
  from fan_out_rounds [OF assms(1-4) this]
  obtain s where s: "link_reach fl (accepting fl task_of) {topic_of p, topic_of q} (fresh_link sid w m) s" "quiet s"
      "window_full (lk_router s)"
    using assms(5) by (fastforce simp: window_full_def)
  then have "window_full (subscribe_acks t (lk_router s))" for t by (simp add: subscribe_acks_def)
  then have "send_tensor_payload fl name pad is_local x (lk_router s, lk_shm s) = None" if "travels fl task_of x" for name pad is_local x
    using that by (auto simp: travels_def send_tensor_payload_def send_chunk_def)
  then show ?thesis using s(1,2) assms(1,2) by blast
qed

definition no_shm :: shm where
  "no_shm = \<lparr>sm_segments = [], sm_open = {}\<rparr>"

definition payload_to :: "int \<Rightarrow> tensor_payload" where
  "payload_to stage = sample_payload\<lparr>tensor_data_of := TBytes ''ab'', tp_target_stage_index := stage\<rparr>"

definition link_lib :: frame_lib where
  "link_lib = sample_frame_lib
     \<lparr>fl_dumps := (\<lambda>v. if v = JObj (node_meta (payload_to 1)) then ''p'' else if v = JObj (node_meta (payload_to 2)) then ''q''
        else case v of JObj [(k, JInt n)] \<Rightarrow> replicate (nat n) (CHR ''i'') | _ \<Rightarrow> []),
      fl_loads := (\<lambda>s. Some (if s = ''p'' then JObj (node_meta (payload_to 1)) else if s = ''q'' then JObj (node_meta (payload_to 2))
        else seq_doc (int (length s))))\<rparr>"

lemma link_codec: "ack_codec link_lib"
proof -
  have "replicate k (CHR ''i'') \<noteq> ''p''" "replicate k (CHR ''i'') \<noteq> ''q''" for k by (cases k, simp_all)+
  then show ?thesis by (simp add: ack_codec_def link_lib_def seq_doc_def node_meta_def)
qed

lemma payload_travels: "stage \<in> {1, 2} \<Longrightarrow> travels link_lib (\<lambda>_. tp_task_id sample_payload) (payload_to stage)"
proof -
  assume stage: "stage \<in> {1, 2}"
  have d: "node_meta (payload_to 1) \<noteq> node_meta (payload_to 2)" by (simp add: node_meta_def scheduler_meta_def payload_to_def)
  let ?p = "payload_to stage"
  let ?m = "fl_dumps link_lib (JObj (node_meta ?p))"
  have m: "length ?m = 1" "fl_loads link_lib ?m = Some (JObj (node_meta ?p))" using stage d by (auto simp: link_lib_def)
  obtain len where len: "to_bytes4 1 = Inr len" by (simp add: to_bytes4_def)
  have l: "from_bytes_big len = 1" "length len = 4" using from_to_bytes4 [OF len] by auto
  have frame: "node_to_framed_bytes link_lib ?p = Inr (MAGIC @ len @ ?m @ ''ab'')"
    using len m(1) by (simp add: node_to_framed_bytes_def framed_def raw_payload_def payload_to_def)
  have "node_from_framed_bytes link_lib (MAGIC @ len @ ?m @ ''ab'')
      = mk_payload link_lib True (TBytes ''ab'') (filter (\<lambda>(k, v). k \<in> set NODE_FIELDS) (node_meta ?p))"
  proof -
    have start: "startswith (MAGIC @ len @ ?m @ ''ab'') MAGIC" "take 4 (drop 4 (MAGIC @ len @ ?m @ ''ab'')) = len"
      "drop 8 (MAGIC @ len @ ?m @ ''ab'') = ?m @ ''ab''"
      using l(2) by (simp_all add: startswith_def MAGIC_def)
    have utf: "fl_utf8_valid link_lib s" for s by (simp add: link_lib_def sample_frame_lib_def)
    have meta: "decode_json link_lib ?m = Inr (JObj (node_meta ?p))" using m(2) utf by (simp add: decode_json_def)
    have keys: "dget (node_meta ?p) ''is_bytes'' = Some (JBool True)" "dmem ''task_id'' (node_meta ?p)" "dmem ''stage_index'' (node_meta ?p)"
      by (simp_all add: node_meta_def scheduler_meta_def payload_to_def dmem_def)
    have cut: "take 1 (?m @ ''ab'') = ?m" "drop 1 (?m @ ''ab'') = ''ab''" using m(1) by simp_all
    show ?thesis
      using start meta keys cut l(1) by (simp add: node_from_framed_bytes_def read_frame_def Let_def dget_or_def)
  qed
  also have "... = Inr ?p"
    using stage
    by (auto simp: meta_defs mk_payload_def required_def field_def as_opt_str_def opt_str_def payload_to_def sample_payload_def
        link_lib_def sample_frame_lib_def comp_def)
  finally show ?thesis using frame by (simp add: travels_def payload_to_def)
qed


theorem fan_out_deadlock_witness:
  "\<exists>s. link_reach link_lib (accepting link_lib (\<lambda>_. ''t'')) {topic_of (payload_to 1), topic_of (payload_to 2)} (fresh_link ''s'' 4 no_shm) s
     \<and> quiet s \<and> send_tensor_payload link_lib ''n'' [] False (payload_to 1) (lk_router s, lk_shm s) = None"
proof -
  have t: "travels link_lib (\<lambda>_. ''t'') (payload_to 1)" "travels link_lib (\<lambda>_. ''t'') (payload_to 2)"
    using payload_travels [of 1] payload_travels [of 2] by (simp_all add: sample_payload_def)
  have ne: "topic_of (payload_to 1) \<noteq> topic_of (payload_to 2)"
    by (simp add: get_tensor_topic_def payload_to_def str_of_int_def nat_digits.simps)
  show ?thesis using fan_out_deadlock [OF t ne link_codec, of 4 "''s''" no_shm] by auto
qed

end
