(* ===== verification/Operator_Tools.thy ===== *)
theory Operator_Tools
  imports Scheduler_App
begin

text \<open>
  The operator's command-line tools, which run beside the Scheduler in processes of their own:
  \<^verbatim>\<open>scripts/mint_invite.py\<close> on the store file and \<^verbatim>\<open>scripts/mint_token.py\<close> on the key directory. A tool that
  exits early raises \<^verbatim>\<open>SystemExit\<close>, the value \<open>sys_exit\<close> here; what it prints is a list of strings. Each is
  put together with the part of the Scheduler it works on: the invite registry that is running on the same
  file, and \<^verbatim>\<open>verify_jwt\<close>.
\<close>

section \<open>Minting invites\<close>

definition sys_exit :: "int \<Rightarrow> exc" where
  "sys_exit n = OtherError (''SystemExit: '' @ str_of_int n)"

definition newline :: string where
  "newline = [CHR 0x0A]"

definition pad_right :: "nat \<Rightarrow> string \<Rightarrow> string" where
  "pad_right w s = s @ replicate (w - length s) (CHR '' '')"

definition pad_left :: "nat \<Rightarrow> string \<Rightarrow> string" where
  "pad_left w s = replicate (w - length s) (CHR '' '') @ s"

record invite_args =
  ia_issue :: bool
  ia_label :: string
  ia_max_uses :: int
  ia_revoke :: "string option"

text \<open>\<^verbatim>\<open>_registry\<close>: the registry on the file at the configured path (\<open>None\<close>: no file there yet).\<close>

definition cli_registry :: "scheduler_settings \<Rightarrow> sqlite_store option \<Rightarrow> invites res" where
  "cli_registry st file =
     (if ss_database_path st \<in> {None, Some []} then Inl (sys_exit 1)
      else Inr (load_invite_registry (init_invites (Some (open_conn file)))))"

definition or_none :: "string \<Rightarrow> string" where
  "or_none s = (if s = [] then ''(none)'' else s)"

definition issued_lines :: "string \<Rightarrow> invite_code \<Rightarrow> string list" where
  "issued_lines code i =
     [''Invite code (shown once -- only its hash is stored):'' @ newline, ''    '' @ code @ newline,
      ''  label:    '' @ or_none (label i), ''  max uses: '' @ str_of_int (max_uses i),
      newline @ ''The host sets this in packages/node/.env:'', ''    NODE_INVITE_CODE='' @ code]"

definition summary_line :: "invite_summary \<Rightarrow> string" where
  "summary_line r =
     (let state = (if sm_revoked r then ''revoked'' else if sm_usable r then ''usable'' else ''spent'');
          uses = str_of_int (sm_uses r) @ ''/'' @ str_of_int (sm_max_uses r)
      in pad_right 30 (or_none (sm_label r)) @ '' '' @ pad_left 8 uses @ ''  '' @ pad_right 10 state)"

definition summary_lines :: "invite_summary list \<Rightarrow> string list" where
  "summary_lines rs =
     (if rs = [] then [''No invites issued. Registration is OPEN to anyone holding the fleet token.'']
      else (pad_right 30 ''LABEL'' @ '' '' @ pad_left 8 ''USES'' @ ''  '' @ pad_right 10 ''STATE'') # map summary_line rs)"

text \<open>
  \<^verbatim>\<open>_run\<close>: the exit code and the lines printed, and the file afterwards. \<open>code\<close> is the code \<^verbatim>\<open>issue\<close>
  would draw. A \<^verbatim>\<open>--revoke\<close> with an empty code falls through to the listing.
\<close>

definition mint_invite :: "(string \<Rightarrow> string) \<Rightarrow> scheduler_settings \<Rightarrow> string \<Rightarrow> pyfloat \<Rightarrow> invite_args
    \<Rightarrow> sqlite_store option \<Rightarrow> (int \<times> string list) res \<times> sqlite_store option" where
  "mint_invite sha256 st code now args file =
     (case cli_registry st file of
        Inl e \<Rightarrow> (Inl e, file)
      | Inr v \<Rightarrow>
          if ia_issue args
          then (case issue sha256 code (ia_label args) (ia_max_uses args) now v of
                  (Inl e, v') \<Rightarrow> (Inl e, inv_store v')
                | (Inr (c, i), v') \<Rightarrow> (Inr (0, issued_lines c i), inv_store v'))
          else (case ia_revoke args of
                  Some c \<Rightarrow>
                    if c \<noteq> []
                    then (case revoke sha256 c v of
                            (True, v') \<Rightarrow> (Inr (0, [''revoked'']), inv_store v')
                          | (False, v') \<Rightarrow> (Inr (1, [''no change -- unknown or already revoked'']), inv_store v'))
                    else (Inr (0, summary_lines (invite_summaries v)), inv_store v)
                | None \<Rightarrow> (Inr (0, summary_lines (invite_summaries v)), inv_store v)))"

definition revoke_args :: "string \<Rightarrow> invite_args" where
  "revoke_args c = \<lparr>ia_issue = False, ia_label = [], ia_max_uses = 1, ia_revoke = Some c\<rparr>"

definition issue_args :: "string \<Rightarrow> int \<Rightarrow> invite_args" where
  "issue_args lbl n = \<lparr>ia_issue = True, ia_label = lbl, ia_max_uses = n, ia_revoke = None\<rparr>"

text \<open>
  The running Scheduler keeps its invites in memory and reads the file only at startup: after another process
  has written the file, it goes on with its own memory and the new file.
\<close>

definition on_file :: "sqlite_store option \<Rightarrow> invites \<Rightarrow> invites" where
  "on_file file v = v\<lparr>inv_store := file\<rparr>"

definition restarted :: "sqlite_store option \<Rightarrow> invites" where
  "restarted file = load_invite_registry (init_invites file)"

lemma on_file_simps [simp]:
  "inv_invites (on_file f v) = inv_invites v" "inv_store (on_file f v) = f"
  "on_file f (on_file g v) = on_file f v"
  by (simp_all add: on_file_def)

lemma open_conn_tables: "tbl_invites (open_conn (Some s)) = tbl_invites s"
  by (simp add: open_conn_def check_schema_version_def split: option.splits)

text \<open>What the tool loads from the file of a registry that is durable is that registry.\<close>

lemma durable_on_same_invites:
  assumes "invites_durable v" "inv_store v = Some s" "tbl_invites s' = tbl_invites s"
  shows "invites_durable (on_file (Some s') v)"
  using assms by (simp add: invites_durable_def invites_inv_def)

lemma cli_registry_durable:
  assumes "invites_durable v" "ss_database_path st \<notin> {None, Some []}"
  shows "\<exists>s. cli_registry st (inv_store v) = Inr (on_file (Some s) v) \<and> invites_durable (on_file (Some s) v)"
proof -
  obtain s where s: "inv_store v = Some s" using assms(1) by (auto simp: invites_durable_def)
  let ?v = "on_file (Some (open_conn (Some s))) v"
  have d: "invites_durable ?v" using assms(1) s open_conn_tables by (rule durable_on_same_invites)
  have "load_invite_registry (init_invites (Some (open_conn (Some s)))) = ?v"
    using restart_invites [OF d] by simp
  then show ?thesis using assms(2) s d by (auto simp: cli_registry_def)
qed

lemma revoke_durable: "invites_durable v \<Longrightarrow> invites_durable (snd (revoke sha256 c v))"
  using invite_step_durable [of v sha256 "Revoke c"] by simp

lemma issue_durable:
  "invites_durable v \<Longrightarrow> \<not> dmem (hash_code sha256 c) (inv_invites v) \<Longrightarrow> invites_durable (snd (issue sha256 c l n now v))"
  using invite_step_durable [of v sha256 "Issue c l n now"] by simp

lemma verify_memory: "verify sha256 c (on_file f v) = verify sha256 c v"
  by (cases c) (simp_all add: verify_def)

lemma redeem_memory:
  "fst (redeem sha256 c k (on_file f v)) = fst (redeem sha256 c k v)"
  "inv_invites (snd (redeem sha256 c k (on_file f v))) = inv_invites (snd (redeem sha256 c k v))"
  by (simp_all add: redeem_def verify_memory Let_def split: option.splits)

text \<open>What the running registry decides depends on its memory alone.\<close>

lemma admissions_memory:
  "inv_invites v = inv_invites w \<Longrightarrow> admissions sha256 h ops v = admissions sha256 h ops w"
proof (induction ops arbitrary: v w)
  case (Cons op ops)
  have "admissions sha256 h ops (invite_step sha256 op v) = admissions sha256 h ops (invite_step sha256 op w)"
    using Cons.prems by (intro Cons.IH invite_step_memory)
  moreover have "admitted_by sha256 h op v = admitted_by sha256 h op w"
  proof (cases op)
    case (Redeem c k)
    have "verify sha256 (Some c) v = verify sha256 (Some c) w" using Cons.prems by (simp add: verify_def)
    then show ?thesis using Redeem by (simp add: redeem_def Let_def split: option.splits)
  qed simp_all
  ultimately show ?case by simp
qed simp

text \<open>Revoking through the tool, on the file of a durable registry that still has the code.\<close>

lemma mint_invite_revoke:
  assumes "invites_durable v" "ss_database_path st \<notin> {None, Some []}" "c \<noteq> []"
    "dget (inv_invites v) (hash_code sha256 c) = Some i" "\<not> revoked i"
    "mint_invite sha256 st code now (revoke_args c) (inv_store v) = (r, file)"
  shows "r = Inr (0, [''revoked''])" "\<exists>w. file = inv_store w \<and> invites_durable w
      \<and> inv_invites w = dset (hash_code sha256 c) (i\<lparr>revoked := True\<rparr>) (inv_invites v)"
proof -
  obtain s where s: "cli_registry st (inv_store v) = Inr (on_file (Some s) v)" "invites_durable (on_file (Some s) v)"
    using cli_registry_durable [OF assms(1,2)] by blast
  let ?w = "snd (revoke sha256 c (on_file (Some s) v))"
  have h: "code_hash i = hash_code sha256 c"
    using assms(1,4) invites_invD by (auto simp: invites_durable_def)
  have rv: "revoke sha256 c (on_file (Some s) v) = (True, put_invite (i\<lparr>revoked := True\<rparr>) (on_file (Some s) v))"
    using assms(4,5) by (simp add: revoke_def)
  show "r = Inr (0, [''revoked''])" using assms(3,6) s(1) rv by (simp add: mint_invite_def revoke_args_def)
  have "file = inv_store ?w" using assms(3,6) s(1) rv by (simp add: mint_invite_def revoke_args_def)
  moreover have "invites_durable ?w" using s(2) by (rule revoke_durable)
  ultimately show "\<exists>w. file = inv_store w \<and> invites_durable w
      \<and> inv_invites w = dset (hash_code sha256 c) (i\<lparr>revoked := True\<rparr>) (inv_invites v)"
    using rv h by auto
qed

text \<open>A redemption by the running Scheduler writes the whole row of the file, its own \<^verbatim>\<open>revoked\<close> flag included.\<close>

lemma redeem_overwrites:
  assumes "invites_durable w" "invites_inv v" "dkeys (inv_invites w) = dkeys (inv_invites v)"
    "dget (inv_invites w) (hash_code sha256 c) = Some j" "created_at j = created_at i"
    "verify sha256 (Some c) v = Some i"
    "redeem sha256 c k (on_file (inv_store w) v) = (adm, v')"
  shows "adm = Some (i\<lparr>uses := uses i + 1\<rparr>)"
    "dget (inv_invites (restarted (inv_store v'))) (hash_code sha256 c) = Some (i\<lparr>uses := uses i + 1\<rparr>)"
proof -
  let ?i = "i\<lparr>uses := uses i + 1\<rparr>"
  have i: "code_hash i = hash_code sha256 c" "invite_valid i" "uses i + 1 \<le> max_uses i"
    using assms(2,6) invites_invD by (auto simp: verify_Some usable_def spent_def)
  have red: "redeem sha256 c k (on_file (inv_store w) v) = (Some ?i, put_invite ?i (on_file (inv_store w) v))"
    using assms(6) by (simp add: redeem_def verify_memory Let_def)
  then show "adm = Some ?i" using assms(7) by simp
  have "invites_durable (put_invite ?i w)"
    using assms(1,4,5) i by (intro put_invite_durable) (auto simp: invite_valid_def)
  then have "restarted (inv_store (put_invite ?i w)) = put_invite ?i w"
    by (simp add: restarted_def restart_invites)
  moreover have "inv_store v' = inv_store (put_invite ?i w)" using red assms(7) by (auto simp: put_invite_def)
  ultimately show "dget (inv_invites (restarted (inv_store v'))) (hash_code sha256 c) = Some ?i"
    using i by (simp add: dict_simps)
qed

section \<open>Properties of the invite tool\<close>

text \<open>
  C24. A revocation holds from the next restart on, and only if the code is not used before it. When the
  operator revokes a usable code with the tool, the tool reports it as revoked, and a Scheduler started on the
  file then admits nobody with it, whatever happens later. But a Scheduler that is running on the same
  file admits under the code exactly as if it had not been revoked; and one such admission writes the row back, so
  that after it the file itself says the code is not revoked, and a restart no longer helps.
\<close>

theorem tool_revocation:
  assumes "invites_durable v" "ss_database_path st \<notin> {None, Some []}"
    "verify sha256 (Some c) v = Some i"
    "mint_invite sha256 st code now (revoke_args c) (inv_store v) = (r, file)"
    "fresh_run sha256 later (restarted file)"
  shows "r = Inr (0, [''revoked''])
    \<and> admissions sha256 (hash_code sha256 c) later (restarted file) = 0
    \<and> admissions sha256 (hash_code sha256 c) ops (on_file file v) = admissions sha256 (hash_code sha256 c) ops v
    \<and> (\<exists>v'. redeem sha256 c k (on_file file v) = (Some (i\<lparr>uses := uses i + 1\<rparr>), v')
         \<and> dget (inv_invites (restarted (inv_store v'))) (hash_code sha256 c) = Some (i\<lparr>uses := uses i + 1, revoked := False\<rparr>))"
proof -
  let ?h = "hash_code sha256 c"
  have i: "c \<noteq> []" "dget (inv_invites v) ?h = Some i" "usable i" "\<not> revoked i"
    using assms(3) by (auto simp: verify_Some usable_def)
  have inv: "invites_inv v" using assms(1) by (simp add: invites_durable_def)
  note tool = mint_invite_revoke [OF assms(1,2) i(1,2,4) assms(4)]
  obtain w where w: "file = inv_store w" "invites_durable w" "inv_invites w = dset ?h (i\<lparr>revoked := True\<rparr>) (inv_invites v)"
    using tool(2) by blast
  have rw: "restarted file = w" using w by (simp add: restarted_def restart_invites)
  have "left_of w ?h = 0" using w(3) by (simp add: left_of_def dict_simps usable_def)
  then have "admissions sha256 ?h later w = 0"
    using admissions_left [of w sha256 later ?h] w(2,3) assms(5) rw by (auto simp: invites_durable_def dict_simps)
  moreover have "admissions sha256 ?h ops (on_file file v) = admissions sha256 ?h ops v"
    by (rule admissions_memory) simp
  moreover have "dkeys (inv_invites w) = dkeys (inv_invites v)" "dget (inv_invites w) ?h = Some (i\<lparr>revoked := True\<rparr>)"
    using w(3) i(2) dmem_iff [of ?h "inv_invites v"] by (simp_all add: dict_simps dkeys_dset dmem_def)
  then have "\<exists>v'. redeem sha256 c k (on_file file v) = (Some (i\<lparr>uses := uses i + 1\<rparr>), v')
         \<and> dget (inv_invites (restarted (inv_store v'))) ?h = Some (i\<lparr>uses := uses i + 1\<rparr>)"
    using redeem_overwrites [OF w(2) inv _ _ _ assms(3)] w(1)
    by (cases "redeem sha256 c k (on_file file v)") auto
  moreover have "i\<lparr>uses := uses i + 1, revoked := False\<rparr> = i\<lparr>uses := uses i + 1\<rparr>" using i(4) by (cases i) simp
  ultimately show ?thesis using tool(1) rw by simp
qed

definition sample_invite :: invite_code where
  "sample_invite = \<lparr>code_hash = ''k'', label = ''l'', max_uses = 2, uses = 0, revoked = False, created_at = Fin 0\<rparr>"

definition sample_invites :: invites where
  "sample_invites = put_invite sample_invite (init_invites (Some empty_store))"

lemma sample_invites_durable: "invites_durable sample_invites"
  unfolding sample_invites_def
  by (rule put_invite_durable [OF invites_durable_init]) (simp_all add: sample_invite_def invite_valid_def init_invites_def)

theorem tool_revocation_witness:
  "\<exists>file. mint_invite id scheduler_defaults [] (Fin 0) (revoke_args ''k'') (inv_store sample_invites) = (Inr (0, [''revoked'']), file)
     \<and> admissions id ''k'' [Redeem ''k'' ''a''] (restarted file) = 0
     \<and> admissions id ''k'' [Redeem ''k'' ''a'', Redeem ''k'' ''b'', Redeem ''k'' ''c''] (on_file file sample_invites) = 2"
proof -
  obtain r f where m: "mint_invite id scheduler_defaults [] (Fin 0) (revoke_args ''k'') (inv_store sample_invites) = (r, f)"
    by (cases "mint_invite id scheduler_defaults [] (Fin 0) (revoke_args ''k'') (inv_store sample_invites)")
  have v: "verify id (Some ''k'') sample_invites = Some sample_invite"
    by (simp add: verify_Some sample_invites_def sample_invite_def hash_code_def init_invites_def usable_def spent_def)
  have "admissions id ''k'' [Redeem ''k'' ''a'', Redeem ''k'' ''b'', Redeem ''k'' ''c''] sample_invites = 2"
    by (simp add: sample_invites_def sample_invite_def hash_code_def init_invites_def usable_def spent_def redeem_def verify_def
        put_invite_def Let_def)
  then show ?thesis
    using tool_revocation [OF sample_invites_durable _ v m, of "[Redeem ''k'' ''a'']"
        "[Redeem ''k'' ''a'', Redeem ''k'' ''b'', Redeem ''k'' ''c'']" "''a''"] m
    by (auto simp: scheduler_defaults_def hash_code_def)
qed

text \<open>
  A code the tool issues works from the next restart on, for the number of nodes asked for. A Scheduler
  that is running on the file refuses it until then; and one that had no invites goes on admitting everybody.
\<close>

theorem tool_issue:
  assumes "invites_durable v" "ss_database_path st \<notin> {None, Some []}" "code \<noteq> []" "1 \<le> n"
    "\<not> dmem (hash_code sha256 code) (inv_invites v)"
    "mint_invite sha256 st code now (issue_args lbl n) (inv_store v) = (r, file)"
  shows "\<exists>lines. r = Inr (0, lines) \<and> newline @ ''The host sets this in packages/node/.env:'' \<in> set lines
    \<and> left_of (restarted file) (hash_code sha256 code) = nat n \<and> enforcing (restarted file)
    \<and> verify sha256 (Some code) (on_file file v) = None \<and> enforcing (on_file file v) = enforcing v"
proof -
  obtain s where s: "cli_registry st (inv_store v) = Inr (on_file (Some s) v)" "invites_durable (on_file (Some s) v)"
    using cli_registry_durable [OF assms(1,2)] by blast
  let ?i = "\<lparr>code_hash = hash_code sha256 code, label = lbl, max_uses = n, uses = 0, revoked = False, created_at = now\<rparr>"
  let ?w = "put_invite ?i (on_file (Some s) v)"
  have iss: "issue sha256 code lbl n now (on_file (Some s) v) = (Inr (code, ?i), ?w)"
    using assms(4) by (simp add: issue_def Let_def invite_valid_def)
  have rf: "r = Inr (0, issued_lines code ?i)" "file = inv_store ?w"
    using assms(6) s(1) iss by (auto simp: mint_invite_def issue_args_def)
  have "invites_durable ?w" using issue_durable [of "on_file (Some s) v" sha256 code lbl n now] s(2) assms(5) iss by simp
  then have "restarted file = ?w" by (simp add: restarted_def restart_invites rf(2))
  then show ?thesis
    using assms(4,5) rf(1)
    by (auto simp: left_of_def dict_simps usable_def spent_def enforcing_def verify_memory verify_def dmem_def issued_lines_def
        split: option.splits)
qed

section \<open>Minting tokens\<close>

text \<open>
  The key directory of \<^verbatim>\<open>mint_token.py\<close>: the two PEM files. The RSA key pair \<^verbatim>\<open>generate_private_key\<close> draws
  is an argument, and so is PyJWT's \<^verbatim>\<open>encode\<close> under a private key with a \<^verbatim>\<open>kid\<close> header.
\<close>

record key_dir =
  kd_private :: "string option"
  kd_public :: "string option"

definition generate_keypair :: "bool \<Rightarrow> string \<times> string \<Rightarrow> key_dir \<Rightarrow> unit res \<times> key_dir" where
  "generate_keypair force pair kd =
     (if kd_private kd \<noteq> None \<and> \<not> force then (Inl (sys_exit 1), kd)
      else (Inr (), \<lparr>kd_private = Some (fst pair), kd_public = Some (snd pair)\<rparr>))"

definition minted_claims :: "string \<Rightarrow> string \<Rightarrow> int \<Rightarrow> int \<Rightarrow> jobj" where
  "minted_claims tenant subject hours now =
     credential_claims \<lparr>cq_tenant_id = tenant, cq_subject = subject, cq_ttl_hours = hours, cq_kid = KID_PRIMARY\<rparr>
       now (now + 3600 * hours)"

text \<open>\<^verbatim>\<open>now\<close> is in whole seconds, as PyJWT writes it; hours may be negative and the \<^verbatim>\<open>kid\<close> is only a hint.\<close>

definition mint :: "(jobj \<Rightarrow> string \<Rightarrow> string \<Rightarrow> string) \<Rightarrow> key_dir \<Rightarrow> string \<Rightarrow> string \<Rightarrow> int \<Rightarrow> string \<Rightarrow> int \<Rightarrow> string res" where
  "mint encode kd tenant subject hours kid now =
     (case kd_private kd of
        None \<Rightarrow> Inl (sys_exit 1)
      | Some key \<Rightarrow>
          if \<not> datetime_ok (now + 3600 * hours) then Inl (OverflowError ''date value out of range'')
          else Inr (encode (minted_claims tenant subject hours now) key kid))"

record token_args =
  ta_generate_keypair :: bool
  ta_force :: bool
  ta_tenant :: string
  ta_subject :: string
  ta_hours :: int
  ta_kid :: string

definition mint_token :: "(jobj \<Rightarrow> string \<Rightarrow> string \<Rightarrow> string) \<Rightarrow> string \<times> string \<Rightarrow> token_args \<Rightarrow> int \<Rightarrow> key_dir
    \<Rightarrow> string option res \<times> key_dir" where
  "mint_token encode pair args now kd =
     (if ta_generate_keypair args
      then (case generate_keypair (ta_force args) pair kd of
              (Inl e, kd') \<Rightarrow> (Inl e, kd') | (Inr _, kd') \<Rightarrow> (Inr None, kd'))
      else (case mint encode kd (ta_tenant args) (ta_subject args) (ta_hours args) (ta_kid args) now of
              Inl e \<Rightarrow> (Inl e, kd) | Inr t \<Rightarrow> (Inr (Some t), kd)))"

text \<open>
  A token the tool prints, under keys the tool made, is accepted by a Scheduler that has the public key of the
  directory as either of its keys, for the tenant it was minted for, whatever \<^verbatim>\<open>kid\<close> was asked for.
  Until the keys are made with \<^verbatim>\<open>--force\<close> again, the directory stays as it is. Hypotheses on PyJWT as for the credentials
  the Scheduler issues itself.
\<close>

theorem minted_token_accepted:
  assumes "generate_keypair force pair kd0 = (Inr (), kd)" "\<not> ta_generate_keypair args" "ta_tenant args \<noteq> []"
    "mint_token encode other args now kd = (Inr (Some token), kd')"
    "snd pair \<noteq> []" "primary = kd_public kd \<or> secondary = kd_public kd" "CHR '' '' \<notin> set token"
    "jwt_decode lib (encode (minted_claims (ta_tenant args) (ta_subject args) (ta_hours args) now) (fst pair) (ta_kid args)) (snd pair)
      = Some (minted_claims (ta_tenant args) (ta_subject args) (ta_hours args) now)"
    "\<And>k. jwt_decode lib token k \<in> {None, Some (minted_claims (ta_tenant args) (ta_subject args) (ta_hours args) now)}"
  shows "kd' = kd \<and> (\<exists>claims. verify_jwt lib primary secondary (Some (''Bearer '' @ token)) = Inr claims
      \<and> tenant_of claims = Inr (ta_tenant args)) \<and> generate_keypair False other kd = (Inl (sys_exit 1), kd)"
proof -
  let ?c = "minted_claims (ta_tenant args) (ta_subject args) (ta_hours args) now"
  have kd: "kd = \<lparr>kd_private = Some (fst pair), kd_public = Some (snd pair)\<rparr>"
    using assms(1) by (auto simp: generate_keypair_def split: if_splits)
  have t: "kd' = kd" "token = encode ?c (fst pair) (ta_kid args)"
    using assms(2,4) by (auto simp: mint_token_def mint_def kd split: sum.splits if_splits)
  have "verify_jwt lib primary secondary (Some (''Bearer '' @ token)) = Inr ?c"
    using assms(5-9) t(2) kd by (intro encoded_token_accepted [of "snd pair"])
      (auto simp: minted_claims_def credential_claims_def dmem_def)
  moreover have "tenant_of ?c = Inr (ta_tenant args)"
    using assms(3) by (simp add: tenant_of_def jget_def dget_or_def minted_claims_def credential_claims_def)
  ultimately show ?thesis using t(1) kd by (simp add: generate_keypair_def)
qed

end
