(* ===== verification/Metrics_Watch.thy ===== *)
theory Metrics_Watch
  imports Scheduler_App
begin

text \<open>
  The alerter (\<^verbatim>\<open>scripts/watch_scheduler.py\<close>): a process beside the Scheduler that polls
  \<^verbatim>\<open>GET /metrics\<close>, applies two rules and prints one result per poll. A poll's answer is a value of
  \<open>http_reply\<close>; \<^verbatim>\<open>--watch\<close>, which polls for ever, is followed through any finite number of polls. The rules are
  composed with the metrics the Scheduler's own \<^verbatim>\<open>metrics\<close> endpoint answers.
\<close>

section \<open>Rules\<close>

definition EXIT_OK :: int where "EXIT_OK = 0"
definition EXIT_FIRING :: int where "EXIT_FIRING = 1"
definition EXIT_UNREACHABLE :: int where "EXIT_UNREACHABLE = 2"

record thresholds =
  th_failure_ratio :: pyfloat
  th_min_sample :: int
  th_consecutive :: int

definition default_thresholds :: thresholds where
  "default_thresholds = \<lparr>th_failure_ratio = lit (25 / 100), th_min_sample = 5, th_consecutive = 2\<rparr>"

record watch_result =
  wr_state :: string
  wr_firing :: "string list"
  wr_breaches :: "(string, int) dict"
  wr_detail :: jobj

definition classify_http_error :: "int \<Rightarrow> string" where
  "classify_http_error status = (if status = 401 \<or> status = 403 then ''unauthorised'' else ''unreachable'')"

definition RATIO_RULE :: string where
  "RATIO_RULE = ''high_failure_ratio''"

definition evaluate :: "jobj \<Rightarrow> thresholds \<Rightarrow> (string, int) dict \<Rightarrow> watch_result res" where
  "evaluate m th breaches =
     rbind (py_int (py_or (jget m ''requests_in_window'') (JInt 0))) (\<lambda>requests.
     rbind (py_int (py_or (jget m ''nodes_registered'') (JInt 0))) (\<lambda>nodes.
     rbind (py_float (py_or (jget m ''failure_ratio_in_window'') (JFloat (Fin 0)))) (\<lambda>ratio.
       let breached = (th_min_sample th \<le> requests \<and> fle (th_failure_ratio th) ratio);
           n = (if breached then dget_or breaches RATIO_RULE 0 + 1 else 0);
           firing = (if nodes = 0 then [''no_nodes''] else []) @ (if th_consecutive th \<le> n then [RATIO_RULE] else []);
           state = (if firing \<noteq> [] then ''alerting'' else if requests = 0 then ''idle'' else ''ok'')
       in Inr \<lparr>wr_state = state, wr_firing = firing, wr_breaches = dset RATIO_RULE n breaches,
            wr_detail = [(''nodes_registered'', JInt nodes), (''requests_in_window'', JInt requests),
              (''failure_ratio_in_window'', JFloat ratio),
              (''thresholds'', JObj [(''failure_ratio'', JFloat (th_failure_ratio th)),
                 (''min_sample'', JInt (th_min_sample th)), (''consecutive'', JInt (th_consecutive th))])]\<rparr>)))"

section \<open>Polling\<close>

text \<open>
  What came back: a body (\<open>None\<close>: not JSON), a status \<^verbatim>\<open>urlopen\<close> raises for, or no answer in time.
\<close>

datatype http_reply =
    Body "json option"
  | Status int
  | NoAnswer

text \<open>
  \<^verbatim>\<open>fetch\<close>: the metrics and the error, \<^verbatim>\<open>null\<close> being \<^verbatim>\<open>None\<close>. A body of \<^verbatim>\<open>null\<close> yields neither.
\<close>

fun fetch :: "http_reply \<Rightarrow> json \<times> string option" where
  "fetch (Body (Some payload)) = (payload, None)"
| "fetch (Body None) = (JNull, Some ''unreachable'')"
| "fetch (Status c) = (JNull, Some (classify_http_error c))"
| "fetch NoAnswer = (JNull, Some ''unreachable'')"

text \<open>\<^verbatim>\<open>metrics.get\<close> on a body that is not an object raises, and nothing catches it.\<close>

definition poll :: "thresholds \<Rightarrow> (string, int) dict \<Rightarrow> http_reply \<Rightarrow> watch_result res" where
  "poll th breaches reply =
     (case fetch reply of
        (_, Some err) \<Rightarrow> Inr \<lparr>wr_state = (if err = [] then ''unreachable'' else err), wr_firing = [], wr_breaches = breaches, wr_detail = []\<rparr>
      | (JNull, None) \<Rightarrow> Inr \<lparr>wr_state = ''unreachable'', wr_firing = [], wr_breaches = breaches, wr_detail = []\<rparr>
      | (JObj m, None) \<Rightarrow> evaluate m th breaches
      | (_, None) \<Rightarrow> Inl (OtherError (''AttributeError: object has no attribute '' @ quoted ''get'')))"

definition exit_code :: "watch_result \<Rightarrow> int" where
  "exit_code r =
     (if wr_state r = ''unreachable'' \<or> wr_state r = ''unauthorised'' then EXIT_UNREACHABLE
      else if wr_firing r \<noteq> [] then EXIT_FIRING else EXIT_OK)"

definition emit :: "string \<Rightarrow> bool \<Rightarrow> watch_result \<Rightarrow> jobj" where
  "emit ts once r =
     (let line = fold (\<lambda>(k, v). dset k v) (wr_detail r)
            [(''ts'', JStr ts), (''state'', JStr (wr_state r)), (''firing'', JList (map JStr (wr_firing r)))]
      in if once
         then dset ''note'' (JStr (''single poll: no debounce is possible across runs, so a ratio rule '' @
                ''needing consecutive breaches cannot fire here. Use --watch for that.'')) line
         else line)"

text \<open>\<^verbatim>\<open>main\<close> without \<^verbatim>\<open>--watch\<close>: the printed line and the exit code.\<close>

definition watch_once :: "thresholds \<Rightarrow> string \<Rightarrow> http_reply \<Rightarrow> (jobj \<times> int) res" where
  "watch_once th ts reply = rbind (poll th [] reply) (\<lambda>r. Inr (emit ts True r, exit_code r))"

text \<open>
  \<^verbatim>\<open>main\<close> with \<^verbatim>\<open>--watch\<close>: the results of the polls answered by \<open>replies\<close>, and the exception that ended
  the process, if one did.
\<close>

fun watch_loop :: "thresholds \<Rightarrow> (string, int) dict \<Rightarrow> http_reply list \<Rightarrow> watch_result list \<times> exc option" where
  "watch_loop th breaches [] = ([], None)"
| "watch_loop th breaches (reply # replies) =
     (case poll th breaches reply of
        Inl e \<Rightarrow> ([], Some e)
      | Inr r \<Rightarrow> (case watch_loop th (wr_breaches r) replies of (rs, e) \<Rightarrow> (r # rs, e)))"

section \<open>The Scheduler under watch\<close>

text \<open>The body of the \<^verbatim>\<open>metrics\<close> endpoint.\<close>

definition metrics_body :: "metrics_view \<Rightarrow> jobj" where
  "metrics_body v =
     [(''window'', JStr ''recent''), (''window_size'', JInt (mv_window_size v)),
      (''nodes_registered'', JInt (mv_nodes_registered v)), (''requests_in_window'', JInt (mv_requests v)),
      (''requests_failed_in_window'', JInt (mv_failed v)), (''failure_ratio_in_window'', JFloat (mv_failure_ratio v)),
      (''prompt_tokens_in_window'', JInt (mv_prompt_tokens v)), (''completion_tokens_in_window'', JInt (mv_completion_tokens v)),
      (''requests_by_node_in_window'', JObj (map (\<lambda>(k, n). (k, JInt n)) (mv_by_node v))),
      (''note'', JStr (''All counters are over the most recent window_size requests held in '' @
        ''memory, not since process start. The store holds full history.''))]"

text \<open>What the alerter gets from a Scheduler that is down (\<open>None\<close>) or up in some state.\<close>

definition scheduler_reply :: "scheduler_settings \<Rightarrow> string \<Rightarrow> app_state option \<Rightarrow> http_reply" where
  "scheduler_reply st token ap =
     (case ap of
        None \<Rightarrow> NoAnswer
      | Some a \<Rightarrow>
          (case metrics st (Some token) a of
             Inr v \<Rightarrow> Body (Some (JObj (metrics_body v)))
           | Inl (HTTPException c d) \<Rightarrow> Status c
           | Inl _ \<Rightarrow> Status 500))"

text \<open>A state that breaches the failure rule.\<close>

definition breaching :: "thresholds \<Rightarrow> app_state \<Rightarrow> bool" where
  "breaching th a \<longleftrightarrow> th_min_sample th \<le> mv_requests (metrics_answer a)
     \<and> fle (th_failure_ratio th) (mv_failure_ratio (metrics_answer a))"

definition up_states :: "app_state option list \<Rightarrow> app_state list" where
  "up_states h = List.map_filter id h"

lemma up_states_simps [simp]:
  "up_states [] = []" "up_states (None # h) = up_states h" "up_states (Some a # h) = a # up_states h"
  "up_states (h @ h') = up_states h @ up_states h'"
  by (simp_all add: up_states_def List.map_filter_def)

definition verdict_of :: "thresholds \<Rightarrow> (string, int) dict \<Rightarrow> app_state \<Rightarrow> watch_result" where
  "verdict_of th breaches a =
     (let v = metrics_answer a; n = (if breaching th a then dget_or breaches RATIO_RULE 0 + 1 else 0);
          firing = (if mv_nodes_registered v = 0 then [''no_nodes''] else []) @ (if th_consecutive th \<le> n then [RATIO_RULE] else [])
      in \<lparr>wr_state = (if firing \<noteq> [] then ''alerting'' else if mv_requests v = 0 then ''idle'' else ''ok''),
          wr_firing = firing, wr_breaches = dset RATIO_RULE n breaches,
          wr_detail = [(''nodes_registered'', JInt (mv_nodes_registered v)), (''requests_in_window'', JInt (mv_requests v)),
              (''failure_ratio_in_window'', JFloat (mv_failure_ratio v)),
              (''thresholds'', JObj [(''failure_ratio'', JFloat (th_failure_ratio th)),
                 (''min_sample'', JInt (th_min_sample th)), (''consecutive'', JInt (th_consecutive th))])]\<rparr>)"

lemma evaluate_scheduler: "evaluate (metrics_body (metrics_answer a)) th b = Inr (verdict_of th b a)"
proof -
  let ?v = "metrics_answer a"
  have "py_int (py_or (JInt n) (JInt 0)) = Inr n" for n by (simp add: py_or_def)
  moreover have "py_float (py_or (JFloat x) (JFloat (Fin 0))) = Inr x" for x by (simp add: py_or_def)
  ultimately show ?thesis
    by (simp add: evaluate_def metrics_body_def jget_def dget_or_def verdict_of_def breaching_def Let_def)
qed

lemma poll_up:
  assumes "verify_auth_token (ss_network_auth_token st) (Some token) = Inr ()"
  shows "poll th b (scheduler_reply st token (Some a)) = Inr (verdict_of th b a)"
  using assms by (simp add: poll_def scheduler_reply_def metrics_def evaluate_scheduler)

lemma poll_down:
  "poll th b (scheduler_reply st token None) = Inr \<lparr>wr_state = ''unreachable'', wr_firing = [], wr_breaches = b, wr_detail = []\<rparr>"
  by (simp add: poll_def scheduler_reply_def)

text \<open>The counter after a history, from the counter before it.\<close>

fun run_length :: "('a \<Rightarrow> bool) \<Rightarrow> int \<Rightarrow> 'a list \<Rightarrow> int" where
  "run_length p n [] = n"
| "run_length p n (x # xs) = run_length p (if p x then n + 1 else 0) xs"

lemma run_length_snoc: "run_length p n (xs @ [x]) = (if p x then run_length p n xs + 1 else 0)"
  by (induction xs arbitrary: n) simp_all

lemma run_length_trailing: "run_length p 0 xs = int (length (takeWhile p (rev xs)))"
  by (induction xs rule: rev_induct) (simp_all add: run_length_snoc)

lemma verdict_counter:
  "dget_or (wr_breaches (verdict_of th b a)) RATIO_RULE 0 = run_length (breaching th) (dget_or b RATIO_RULE 0) [a]"
  by (simp add: verdict_of_def Let_def dget_or_def dict_simps)

lemma ratio_fires:
  "RATIO_RULE \<in> set (wr_firing (verdict_of th b a))
    \<longleftrightarrow> th_consecutive th \<le> run_length (breaching th) (dget_or b RATIO_RULE 0) [a]"
  by (simp add: verdict_of_def Let_def RATIO_RULE_def)

lemma no_nodes_fires: "''no_nodes'' \<in> set (wr_firing (verdict_of th b a)) \<longleftrightarrow> registry_list (registry_of a) = []"
  by (simp add: verdict_of_def Let_def RATIO_RULE_def metrics_answer_def)

lemma verdict_state:
  "wr_state (verdict_of th b a) =
     (if wr_firing (verdict_of th b a) \<noteq> [] then ''alerting''
      else if recent None MAX_RECENT (meter_of a) = [] then ''idle'' else ''ok'')"
  by (simp add: verdict_of_def Let_def metrics_answer_def)

text \<open>What one poll of a history reports, with the counter it started from.\<close>

definition reported :: "thresholds \<Rightarrow> int \<Rightarrow> app_state option \<Rightarrow> watch_result \<Rightarrow> bool" where
  "reported th n x r =
     (case x of
        None \<Rightarrow> wr_state r = ''unreachable'' \<and> wr_firing r = [] \<and> exit_code r = EXIT_UNREACHABLE
      | Some a \<Rightarrow>
          (RATIO_RULE \<in> set (wr_firing r) \<longleftrightarrow> th_consecutive th \<le> n)
        \<and> (''no_nodes'' \<in> set (wr_firing r) \<longleftrightarrow> registry_list (registry_of a) = [])
        \<and> wr_state r = (if wr_firing r \<noteq> [] then ''alerting''
            else if recent None MAX_RECENT (meter_of a) = [] then ''idle'' else ''ok'')
        \<and> exit_code r = (if wr_firing r \<noteq> [] then EXIT_FIRING else EXIT_OK))"

lemma reported_verdict:
  "reported th (run_length (breaching th) (dget_or b RATIO_RULE 0) [a]) (Some a) (verdict_of th b a)"
  using verdict_state [of th b a]
  by (simp only: reported_def option.case ratio_fires no_nodes_fires) (simp add: exit_code_def)

lemma reported_down:
  "reported th n None \<lparr>wr_state = ''unreachable'', wr_firing = [], wr_breaches = b, wr_detail = []\<rparr>"
  by (simp add: reported_def exit_code_def)

lemma watch_history:
  assumes "verify_auth_token (ss_network_auth_token st) (Some token) = Inr ()"
  shows "\<exists>rs. watch_loop th b (map (scheduler_reply st token) h) = (rs, None) \<and> length rs = length h
     \<and> (\<forall>i<length h. reported th (run_length (breaching th) (dget_or b RATIO_RULE 0) (up_states (take (Suc i) h))) (h ! i) (rs ! i))"
proof (induction h arbitrary: b)
  case (Cons x h)
  show ?case
  proof (cases x)
    case None
    obtain rs where rs: "watch_loop th b (map (scheduler_reply st token) h) = (rs, None)" "length rs = length h"
      "\<forall>i<length h. reported th (run_length (breaching th) (dget_or b RATIO_RULE 0) (up_states (take (Suc i) h))) (h ! i) (rs ! i)"
      using Cons.IH [of b] by blast
    let ?r = "\<lparr>wr_state = ''unreachable'', wr_firing = [], wr_breaches = b, wr_detail = []\<rparr>"
    have "\<forall>i<length (x # h). reported th (run_length (breaching th) (dget_or b RATIO_RULE 0) (up_states (take (Suc i) (x # h))))
        ((x # h) ! i) ((?r # rs) ! i)"
    proof (intro allI impI)
      fix i assume "i < length (x # h)"
      then show "reported th (run_length (breaching th) (dget_or b RATIO_RULE 0) (up_states (take (Suc i) (x # h))))
        ((x # h) ! i) ((?r # rs) ! i)"
        using rs(3) by (cases i) (simp_all add: None reported_down)
    qed
    then show ?thesis using rs(1,2) None by (simp add: poll_down)
  next
    case (Some a)
    let ?b = "wr_breaches (verdict_of th b a)"
    obtain rs where rs: "watch_loop th ?b (map (scheduler_reply st token) h) = (rs, None)" "length rs = length h"
      "\<forall>i<length h. reported th (run_length (breaching th) (dget_or ?b RATIO_RULE 0) (up_states (take (Suc i) h))) (h ! i) (rs ! i)"
      using Cons.IH [of ?b] by blast
    have "\<forall>i<length (x # h). reported th (run_length (breaching th) (dget_or b RATIO_RULE 0) (up_states (take (Suc i) (x # h))))
        ((x # h) ! i) ((verdict_of th b a # rs) ! i)"
    proof (intro allI impI)
      fix i assume "i < length (x # h)"
      then show "reported th (run_length (breaching th) (dget_or b RATIO_RULE 0) (up_states (take (Suc i) (x # h))))
        ((x # h) ! i) ((verdict_of th b a # rs) ! i)"
        using rs(3) reported_verdict [of th b a] by (cases i) (simp_all add: Some verdict_counter)
    qed
    then show ?thesis using rs(1,2) Some by (simp add: poll_up [OF assms])
  qed
qed simp

section \<open>Property\<close>



end
