(* ===== verification/Economics.thy ===== *)
theory Economics
  imports Py_Float
begin

text \<open>
  The economics model (\<^verbatim>\<open>scripts/economics.py\<close>): the cost of a million tokens under named assumptions, and the
  bisection that looks for the utilisation at which a host breaks even, all in doubles with Python's order of operations.
  A division by zero raises. The table \<^verbatim>\<open>main\<close> prints is not modelled.
\<close>

section \<open>Costs\<close>

definition SECONDS_PER_HOUR :: pyfloat where "SECONDS_PER_HOUR = Fin 3600"
definition TOKENS_PER_MILLION :: pyfloat where "TOKENS_PER_MILLION = Fin 1000000"

record assumptions =
  gpu_price_usd :: pyfloat
  gpu_life_years :: pyfloat
  gpu_load_watts :: pyfloat
  system_load_watts :: pyfloat
  idle_watts :: pyfloat
  tps_single_stream :: pyfloat
  tps_batched :: pyfloat
  utilisation :: pyfloat
  electricity_usd_per_kwh :: pyfloat
  commodity_usd_per_1m :: pyfloat

definition default_assumptions :: assumptions where
  "default_assumptions = \<lparr>gpu_price_usd = lit 1800, gpu_life_years = lit 3, gpu_load_watts = lit 450,
     system_load_watts = lit 100, idle_watts = lit 75, tps_single_stream = lit 110, tps_batched = lit 1100,
     utilisation = lit (10 / 100), electricity_usd_per_kwh = lit (17 / 100), commodity_usd_per_1m = lit (15 / 100)\<rparr>"

record scenario =
  sn_name :: string
  sn_usd_per_1m :: pyfloat
  sn_note :: string

definition margin_vs :: "scenario \<Rightarrow> pyfloat \<Rightarrow> pyfloat" where
  "margin_vs s commodity = fsub commodity (sn_usd_per_1m s)"

definition energy_cost_per_1m :: "pyfloat \<Rightarrow> pyfloat \<Rightarrow> pyfloat \<Rightarrow> pyfloat res" where
  "energy_cost_per_1m watts tps usd =
     rbind (fdiv TOKENS_PER_MILLION (fmul tps SECONDS_PER_HOUR)) (\<lambda>hours.
     rbind (fdiv watts (Fin 1000)) (\<lambda>kw. Inr (fmul (fmul kw hours) usd)))"

definition marginal_cost_single_stream :: "assumptions \<Rightarrow> pyfloat res" where
  "marginal_cost_single_stream a =
     energy_cost_per_1m (fadd (gpu_load_watts a) (system_load_watts a)) (tps_single_stream a) (electricity_usd_per_kwh a)"

definition marginal_cost_saturated :: "assumptions \<Rightarrow> pyfloat res" where
  "marginal_cost_saturated a =
     energy_cost_per_1m (fadd (gpu_load_watts a) (system_load_watts a)) (tps_batched a) (electricity_usd_per_kwh a)"

definition tokens_per_year :: "assumptions \<Rightarrow> pyfloat" where
  "tokens_per_year a =
     fmul (fmul (fmul (fmul (tps_single_stream a) (utilisation a)) SECONDS_PER_HOUR) (Fin 24)) (Fin 365)"

text \<open>\<^verbatim>\<open>hours_per_year\<close> is the integer 8760, converted where it meets a float.\<close>

definition fully_loaded_cost :: "assumptions \<Rightarrow> pyfloat res" where
  "fully_loaded_cost a =
     (if fle (tokens_per_year a) (Fin 0) then Inr PInf
      else rbind (fdiv (tokens_per_year a) TOKENS_PER_MILLION) (\<lambda>millions.
        rbind (fdiv (gpu_price_usd a) (gpu_life_years a)) (\<lambda>amortisation.
        rbind (fdiv (idle_watts a) (Fin 1000)) (\<lambda>idle_kw.
        rbind (fdiv (fadd (gpu_load_watts a) (system_load_watts a)) (Fin 1000)) (\<lambda>load_kw.
          let idle_hours = fmul (Fin 8760) (fsub (Fin 1) (utilisation a));
              idle_cost = fmul (fmul idle_kw idle_hours) (electricity_usd_per_kwh a);
              load_hours = fmul (Fin 8760) (utilisation a);
              load_cost = fmul (fmul load_kw load_hours) (electricity_usd_per_kwh a)
          in fdiv (fadd (fadd amortisation idle_cost) load_cost) millions)))))"

definition scenarios :: "assumptions \<Rightarrow> scenario list res" where
  "scenarios a =
     rbind (fully_loaded_cost a) (\<lambda>full. rbind (marginal_cost_single_stream a) (\<lambda>single.
     rbind (marginal_cost_saturated a) (\<lambda>saturated. Inr
       [\<lparr>sn_name = ''Fully loaded (hardware + idle + power, 10% utilisation)'', sn_usd_per_1m = full,
         sn_note = ''the honest number a host should use''\<rparr>,
        \<lparr>sn_name = ''Marginal, single stream (hardware sunk)'', sn_usd_per_1m = single,
         sn_note = ''what a home node actually experiences''\<rparr>,
        \<lparr>sn_name = ''Marginal, saturated with batching (hardware sunk)'', sn_usd_per_1m = saturated,
         sn_note = ''requires datacentre-like continuous load''\<rparr>])))"

section \<open>Break-even\<close>

text \<open>Whether the cost at a utilisation is above the commodity price.\<close>

definition too_dear :: "assumptions \<Rightarrow> pyfloat \<Rightarrow> bool res" where
  "too_dear a u = rbind (fully_loaded_cost (a\<lparr>utilisation := u\<rparr>)) (\<lambda>c. Inr (flt (commodity_usd_per_1m a) c))"

fun bisect_rounds :: "nat \<Rightarrow> assumptions \<Rightarrow> pyfloat \<Rightarrow> pyfloat \<Rightarrow> (pyfloat \<times> pyfloat) res" where
  "bisect_rounds 0 a lo hi = Inr (lo, hi)"
| "bisect_rounds (Suc n) a lo hi =
     rbind (fdiv (fadd lo hi) (Fin 2)) (\<lambda>mid.
     rbind (too_dear a mid) (\<lambda>d. if d then bisect_rounds n a mid hi else bisect_rounds n a lo mid))"

definition LOWEST :: pyfloat where "LOWEST = lit (1 / 1000000)"

definition breakeven_utilisation :: "assumptions \<Rightarrow> pyfloat option res" where
  "breakeven_utilisation a =
     rbind (too_dear a (Fin 1)) (\<lambda>d.
       if d then Inr None
       else rbind (bisect_rounds 200 a LOWEST (Fin 1)) (\<lambda>(lo, hi). Inr (Some hi)))"

definition verdict :: "assumptions \<Rightarrow> string res" where
  "verdict a = rbind (fully_loaded_cost a) (\<lambda>honest.
     Inr (if flt honest (commodity_usd_per_1m a) then ''marketplace'' else ''donation-network''))"

section \<open>The bracket\<close>

text \<open>Rounding a value of at most 2 moves it by at most \<open>2 powi - 52\<close>, one of at most 1 by half of that.\<close>

lemma grid_error:
  assumes "0 < x" "ulp_exp x \<le> e"
  shows "\<bar>grid x - x\<bar> \<le> 2 powi e / 2"
proof -
  let ?u = "(2::rat) powi ulp_exp x"
  have "\<bar>x / ?u - of_int (round_even (x / ?u))\<bar> * ?u \<le> 1 / 2 * ?u"
    by (intro mult_right_mono round_even_dist) simp
  moreover have "\<bar>x / ?u - of_int (round_even (x / ?u))\<bar> * ?u = \<bar>(x / ?u - of_int (round_even (x / ?u))) * ?u\<bar>"
    by (simp add: abs_mult)
  moreover have "(x / ?u - of_int (round_even (x / ?u))) * ?u = x - grid x"
    using assms(1) by (simp add: grid_def field_simps)
  ultimately have "\<bar>grid x - x\<bar> \<le> ?u / 2" by (simp add: abs_minus_commute)
  also have "?u / 2 \<le> 2 powi e / 2" using assms(2) by (intro divide_right_mono power_int_increasing) auto
  finally show ?thesis .
qed

lemma ulp_exp_le_2: "0 < x \<Longrightarrow> x \<le> 2 \<Longrightarrow> ulp_exp x \<le> - 51"
  using ulp_exp_mono [of x 2] ilog2_unique [of 1 2] by (simp add: ulp_exp_def)

lemma ulp_exp_le_1: "0 < x \<Longrightarrow> x \<le> 1 \<Longrightarrow> ulp_exp x \<le> - 52"
  using ulp_exp_mono [of x 1] ilog2_unique [of 0 1] by (simp add: ulp_exp_def)

lemma dbl_rat_double: "dbl_rat l \<Longrightarrow> \<bar>l\<bar> \<le> 1 \<Longrightarrow> dbl_rat (2 * l)"
proof -
  assume l: "dbl_rat l" "\<bar>l\<bar> \<le> 1"
  then obtain m where m: "l = of_int m * 2 powi ulp_exp l" "\<bar>m\<bar> \<le> 2 ^ 53"
    using grid_repr [of l] by (auto simp: dbl_rat_def)
  have "(2::rat) powi (ulp_exp l + 1) = 2 powi ulp_exp l * 2" using power_int_add [of "2::rat" "ulp_exp l" 1] by simp
  then have "(of_int m :: rat) * 2 powi (ulp_exp l + 1) = (of_int m * 2 powi ulp_exp l) * 2" by (simp only: mult.assoc)
  also have "of_int m * 2 powi ulp_exp l = l" using m(1) by (rule sym)
  finally have "2 * l = of_int m * 2 powi (ulp_exp l + 1)" by (simp only: mult.commute)
  then have "grid (2 * l) = 2 * l" using m(2) by (rule grid_exact) (use ulp_exp_lower [of l] in simp)
  moreover have "\<bar>2 * l\<bar> < 2 ^ 1024"
  proof -
    have "\<bar>2 * l\<bar> \<le> 2 ^ 1" using l(2) by simp
    also have "(2::rat) ^ 1 < 2 ^ 1024" by (intro power_strict_increasing) auto
    finally show ?thesis .
  qed
  ultimately show ?thesis by (simp add: dbl_rat_def)
qed

text \<open>Rounding between two doubles stays between them.\<close>

lemma rnd_between:
  assumes "dbl_rat l" "dbl_rat h" "l \<le> x" "x \<le> h"
  shows "rnd x = Fin (grid x)" "dbl_rat (grid x)" "l \<le> grid x" "grid x \<le> h"
proof -
  have lh: "fle (Fin l) (rnd x)" "fle (rnd x) (Fin h)" using assms by (auto intro: rnd_lower rnd_upper)
  then show r: "rnd x = Fin (grid x)" by (auto simp: rnd_def Let_def split: if_splits)
  show "l \<le> grid x" "grid x \<le> h" using lh by (simp_all add: r)
  show "dbl_rat (grid x)" using dbl_rnd [of x] by (simp add: r)
qed

lemma halving_error: "\<bar>s - x\<bar> \<le> 2 * t / 2 \<Longrightarrow> \<bar>m - s / 2\<bar> \<le> t / 2 \<Longrightarrow> \<bar>m - x / 2\<bar> \<le> t" for t :: rat
  by (simp add: abs_le_iff field_simps)

lemma halving_width:
  "x \<le> w / 2 + t \<Longrightarrow> x / 2 ^ n + (1 - 1 / 2 ^ n) * (2 * t) \<le> w / 2 ^ Suc n + (1 - 1 / 2 ^ Suc n) * (2 * t)" for t :: rat
proof -
  assume "x \<le> w / 2 + t"
  then have "x / 2 ^ n \<le> (w / 2 + t) / 2 ^ n" by (intro divide_right_mono) auto
  also have "(w / 2 + t) / 2 ^ n = w / 2 ^ Suc n + t / 2 ^ n" by (simp add: add_divide_distrib)
  finally show ?thesis by (simp add: algebra_simps)
qed

lemma half_widths:
  "\<bar>m - (l + h) / 2\<bar> \<le> t \<Longrightarrow> h - m \<le> (h - l) / 2 + t" "\<bar>m - (l + h) / 2\<bar> \<le> t \<Longrightarrow> m - l \<le> (h - l) / 2 + t" for t :: rat
  by (simp_all add: abs_le_iff field_simps)

lemma half_step: "(2::rat) powi - 51 = 2 * 2 powi - 52"
  using power_int_add [of "2::rat" 1 "- 52"] by simp

lemma midpoint:
  assumes "dbl_rat l" "dbl_rat h" "0 < l" "l \<le> h" "h \<le> 1"
  obtains m where "fdiv (fadd (Fin l) (Fin h)) (Fin 2) = Inr (Fin m)" "dbl_rat m" "l \<le> m" "m \<le> h"
    "\<bar>m - (l + h) / 2\<bar> \<le> 2 powi - 52"
proof -
  let ?s = "grid (l + h)"
  let ?m = "grid (?s / 2)"
  have s: "rnd (l + h) = Fin ?s" "2 * l \<le> ?s" "?s \<le> 2 * h"
    using rnd_between [OF dbl_rat_double [of l] dbl_rat_double [of h], of "l + h"] assms by auto
  have m: "rnd (?s / 2) = Fin ?m" "dbl_rat ?m" "l \<le> ?m" "?m \<le> h"
    using rnd_between [OF assms(1,2), of "?s / 2"] s by auto
  have "\<bar>?s - (l + h)\<bar> \<le> 2 powi - 51 / 2" using assms by (intro grid_error ulp_exp_le_2) auto
  then have "\<bar>?s - (l + h)\<bar> \<le> 2 * 2 powi - 52 / 2" by (simp only: half_step)
  moreover have "\<bar>?m - ?s / 2\<bar> \<le> 2 powi - 52 / 2" using assms s by (intro grid_error ulp_exp_le_1) auto
  ultimately have "\<bar>?m - (l + h) / 2\<bar> \<le> 2 powi - 52" by (rule halving_error)
  with m s(1) show ?thesis by (intro that) simp_all
qed

lemma bisect_bracket:
  assumes "dbl_rat l" "dbl_rat h" "0 < l" "l \<le> h" "h \<le> 1" "too_dear a (Fin h) = Inr False"
    "bisect_rounds n a (Fin l) (Fin h) = Inr (lo, hi)"
  shows "\<exists>l' h'. lo = Fin l' \<and> hi = Fin h' \<and> l \<le> l' \<and> l' \<le> h' \<and> h' \<le> h \<and> too_dear a (Fin h') = Inr False
    \<and> (l' = l \<or> too_dear a (Fin l') = Inr True) \<and> h' - l' \<le> (h - l) / 2 ^ n + (1 - 1 / 2 ^ n) * 2 powi - 51"
  using assms
proof (induction n arbitrary: l h)
  case 0
  then show ?case by auto
next
  case (Suc n)
  obtain m where m: "fdiv (fadd (Fin l) (Fin h)) (Fin 2) = Inr (Fin m)" "dbl_rat m" "l \<le> m" "m \<le> h"
    "\<bar>m - (l + h) / 2\<bar> \<le> 2 powi - 52"
    using midpoint [OF Suc.prems(1-5)] by blast
  have narrower: "x / 2 ^ n + (1 - 1 / 2 ^ n) * 2 powi - 51 \<le> (h - l) / 2 ^ Suc n + (1 - 1 / 2 ^ Suc n) * 2 powi - 51"
    if "x \<le> (h - l) / 2 + 2 powi - 52" for x :: rat
    using halving_width [OF that, of n] by (simp only: half_step)
  obtain d where d: "too_dear a (Fin m) = Inr d" and rest: "(if d then bisect_rounds n a (Fin m) (Fin h) else bisect_rounds n a (Fin l) (Fin m)) = Inr (lo, hi)"
    using Suc.prems(7) m(1) by (auto simp: rbind_eq_Inr simp del: fadd.simps fdiv.simps)
  show ?case
  proof (cases d)
    case True
    have "h - m \<le> (h - l) / 2 + 2 powi - 52" using m(5) by (rule half_widths)
    note w = narrower [OF this]
    have "bisect_rounds n a (Fin m) (Fin h) = Inr (lo, hi)" using rest True by simp
    with Suc.IH [of m h] m Suc.prems obtain l' h' where b: "lo = Fin l'" "hi = Fin h'" "m \<le> l'" "l' \<le> h'" "h' \<le> h"
      "too_dear a (Fin h') = Inr False" "l' = m \<or> too_dear a (Fin l') = Inr True"
      "h' - l' \<le> (h - m) / 2 ^ n + (1 - 1 / 2 ^ n) * 2 powi - 51" by auto
    then have "l' = l \<or> too_dear a (Fin l') = Inr True" using d True by auto
    moreover have "h' - l' \<le> (h - l) / 2 ^ Suc n + (1 - 1 / 2 ^ Suc n) * 2 powi - 51" using b(8) w by (rule order_trans)
    moreover have "l \<le> l'" using m(3) b(3) by (rule order_trans)
    ultimately show ?thesis using b by blast
  next
    case False
    have "m - l \<le> (h - l) / 2 + 2 powi - 52" using m(5) by (rule half_widths)
    note w = narrower [OF this]
    have "bisect_rounds n a (Fin l) (Fin m) = Inr (lo, hi)" using rest False by simp
    moreover have "too_dear a (Fin m) = Inr False" using d False by simp
    ultimately obtain l' h' where b: "lo = Fin l'" "hi = Fin h'" "l \<le> l'" "l' \<le> h'" "h' \<le> m"
      "too_dear a (Fin h') = Inr False" "l' = l \<or> too_dear a (Fin l') = Inr True"
      "h' - l' \<le> (m - l) / 2 ^ n + (1 - 1 / 2 ^ n) * 2 powi - 51"
      using Suc.IH [of l m] m Suc.prems by auto
    moreover have "h' - l' \<le> (h - l) / 2 ^ Suc n + (1 - 1 / 2 ^ Suc n) * 2 powi - 51" using b(8) w by (rule order_trans)
    moreover have "h' \<le> h" using b(5) m(4) by (rule order_trans)
    ultimately show ?thesis by blast
  qed
qed

lemma bisect_raises:
  assumes "dbl_rat l" "dbl_rat h" "0 < l" "l \<le> h" "h \<le> 1" "bisect_rounds n a (Fin l) (Fin h) = Inl e"
  shows "\<exists>m. l \<le> m \<and> m \<le> h \<and> too_dear a (Fin m) = Inl e"
  using assms
proof (induction n arbitrary: l h)
  case (Suc n)
  obtain m where m: "fdiv (fadd (Fin l) (Fin h)) (Fin 2) = Inr (Fin m)" "dbl_rat m" "l \<le> m" "m \<le> h"
    using midpoint [OF Suc.prems(1-5)] by blast
  consider "too_dear a (Fin m) = Inl e" | "bisect_rounds n a (Fin m) (Fin h) = Inl e" | "bisect_rounds n a (Fin l) (Fin m) = Inl e"
    using Suc.prems(6) m(1) by (auto simp: rbind_eq_Inl simp del: fadd.simps fdiv.simps split: if_splits)
  then show ?case
  proof cases
    case 1
    then show ?thesis using m by blast
  next
    case 2
    then have "\<exists>u. m \<le> u \<and> u \<le> h \<and> too_dear a (Fin u) = Inl e" using Suc.IH [of m h] m Suc.prems by auto
    then show ?thesis using m(3) by (blast intro: order_trans)
  next
    case 3
    then have "\<exists>u. l \<le> u \<and> u \<le> m \<and> too_dear a (Fin u) = Inl e" using Suc.IH [of l m] m Suc.prems by auto
    then show ?thesis using m(4) by (blast intro: order_trans)
  qed
qed simp

lemma lowest: obtains l where "LOWEST = Fin l" "dbl_rat l" "0 < l" "l \<le> 1"
proof -
  have "grid (1 / 2 ^ 20) = 1 / 2 ^ 20"
    using grid_exact [of "1 / 2 ^ 20" 1 "- 20"] by (simp add: power_int_def power_divide)
  then have d: "dbl_rat (1 / 2 ^ 20)" by (simp add: dbl_rat_def)
  have "(1::rat) / 2 ^ 20 \<le> 1 / 1000000" by simp
  note b = rnd_between [OF d dbl_rat_1 this]
  show ?thesis
  proof (rule that)
    show "LOWEST = Fin (grid (1 / 1000000))" unfolding LOWEST_def by (rule b(1)) simp
    show "dbl_rat (grid (1 / 1000000))" by (rule b(2)) simp
    have "(0::rat) < 1 / 2 ^ 20" by simp
    also have "1 / 2 ^ 20 \<le> grid (1 / 1000000)" by (rule b(3)) simp
    finally show "0 < grid (1 / 1000000)" .
    show "grid (1 / 1000000) \<le> 1" by (rule b(4)) simp
  qed
qed

section \<open>Properties\<close>

text \<open>
  C26. The break-even utilisation is certified by the cost function it was searched with. Whatever the
  assumptions, \<^verbatim>\<open>breakeven_utilisation\<close> either raises what the cost function raises at some utilisation up
  to 1; or answers \<^verbatim>\<open>None\<close>, and then a node that is always busy still costs more than the price; or answers a
  utilisation at which the cost is not above the price, while at some utilisation less than
  \<open>2 ^ - 50\<close> below it the cost is above (or that one is the lowest the search tries).
\<close>

theorem breakeven_certified:
  "case breakeven_utilisation a of
     Inl e \<Rightarrow> \<exists>u. 0 < u \<and> u \<le> 1 \<and> fully_loaded_cost (a\<lparr>utilisation := Fin u\<rparr>) = Inl e
   | Inr None \<Rightarrow> \<exists>c. fully_loaded_cost (a\<lparr>utilisation := Fin 1\<rparr>) = Inr c \<and> flt (commodity_usd_per_1m a) c
   | Inr (Some hi) \<Rightarrow>
       (\<exists>l h. hi = Fin h \<and> 0 < l \<and> l \<le> h \<and> h \<le> 1 \<and> h - l < 1 / 2 ^ 50
          \<and> (\<exists>c. fully_loaded_cost (a\<lparr>utilisation := Fin h\<rparr>) = Inr c \<and> \<not> flt (commodity_usd_per_1m a) c)
          \<and> (Fin l = LOWEST \<or> (\<exists>c. fully_loaded_cost (a\<lparr>utilisation := Fin l\<rparr>) = Inr c \<and> flt (commodity_usd_per_1m a) c)))"
proof -
  obtain l where l: "LOWEST = Fin l" "dbl_rat l" "0 < l" "l \<le> 1" by (rule lowest)
  have dear: "too_dear a u = Inr d \<longleftrightarrow> (\<exists>c. fully_loaded_cost (a\<lparr>utilisation := u\<rparr>) = Inr c \<and> d = flt (commodity_usd_per_1m a) c)"
    "too_dear a u = Inl e \<longleftrightarrow> fully_loaded_cost (a\<lparr>utilisation := u\<rparr>) = Inl e" for u d e
    by (auto simp: too_dear_def rbind_eq_Inr rbind_eq_Inl)
  consider (first) e where "too_dear a (Fin 1) = Inl e" "breakeven_utilisation a = Inl e"
    | (never) "too_dear a (Fin 1) = Inr True" "breakeven_utilisation a = Inr None"
    | (raises) e where "too_dear a (Fin 1) = Inr False" "bisect_rounds 200 a LOWEST (Fin 1) = Inl e" "breakeven_utilisation a = Inl e"
    | (found) lo hi where "too_dear a (Fin 1) = Inr False" "bisect_rounds 200 a LOWEST (Fin 1) = Inr (lo, hi)"
        "breakeven_utilisation a = Inr (Some hi)"
    by (cases "too_dear a (Fin 1)"; cases "bisect_rounds 200 a LOWEST (Fin 1)")
      (auto simp: breakeven_utilisation_def split: if_splits)
  then show ?thesis
  proof cases
    case first
    then show ?thesis using dear(2) by (auto intro!: exI [of _ 1])
  next
    case never
    then show ?thesis using dear(1) by auto
  next
    case raises
    then obtain u where "l \<le> u" "u \<le> 1" "too_dear a (Fin u) = Inl e"
      using bisect_raises [of l 1 200 a e] l by auto
    then show ?thesis using raises(3) dear(2) l(3) by (auto intro!: exI [of _ u])
  next
    case found
    then obtain l' h' where b: "hi = Fin h'" "l \<le> l'" "l' \<le> h'" "h' \<le> 1" "too_dear a (Fin h') = Inr False"
      "l' = l \<or> too_dear a (Fin l') = Inr True" "h' - l' \<le> (1 - l) / 2 ^ 200 + (1 - 1 / 2 ^ 200) * 2 powi - 51"
      using bisect_bracket [of l 1 a 200 lo hi] l by auto
    have "(1 - l) / 2 ^ 200 + (1 - 1 / 2 ^ 200) * 2 powi - 51 < 1 / 2 ^ 200 + 2 powi - 51"
      using l(3) by (simp add: power_int_def field_simps)
    also have "1 / 2 ^ 200 + 2 powi - 51 \<le> (1 :: rat) / 2 ^ 50" by (simp add: power_int_def power_divide)
    finally have "h' - l' < 1 / 2 ^ 50" using b(7) by linarith
    moreover have "0 < l'" using l(3) b(2) by (rule less_le_trans)
    moreover have "Fin l' = LOWEST \<or> (\<exists>c. fully_loaded_cost (a\<lparr>utilisation := Fin l'\<rparr>) = Inr c \<and> flt (commodity_usd_per_1m a) c)"
      using b(6) l(1) dear(1) [of "Fin l'" True] by auto
    moreover have "\<exists>c. fully_loaded_cost (a\<lparr>utilisation := Fin h'\<rparr>) = Inr c \<and> \<not> flt (commodity_usd_per_1m a) c"
      using b(5) dear(1) [of "Fin h'" False] by auto
    ultimately show ?thesis using found(3) b(1,3,4) by auto
  qed
qed

lemma dbl_rat_scaled: "\<bar>m\<bar> \<le> 2 ^ 53 \<Longrightarrow> dbl_rat (of_int m / 2 ^ k)" if "k \<le> 1000"
proof -
  assume m: "\<bar>m\<bar> \<le> 2 ^ 53"
  have "(of_int m / 2 ^ k :: rat) = of_int m * 2 powi - int k" by (simp add: power_int_def field_simps)
  then have "grid (of_int m / 2 ^ k) = of_int m / 2 ^ k" using m that by (intro grid_exact) auto
  moreover have "\<bar>of_int m / 2 ^ k :: rat\<bar> \<le> \<bar>of_int m\<bar>" by (simp add: abs_divide divide_le_eq mult_le_cancel_left1)
  moreover have "\<bar>of_int m :: rat\<bar> < 2 ^ 1024" using dbl_rat_int [OF m] by (simp only: dbl_rat_def)
  ultimately show ?thesis by (simp add: dbl_rat_def)
qed

text \<open>
  The conclusion \<^verbatim>\<open>docs/decisions/D2-economics.md\<close> states: under the default assumptions a node that is always
  busy costs more than the price, so no utilisation breaks even.
\<close>

theorem default_breakeven: "breakeven_utilisation default_assumptions = Inr None"
proof -
  have "dbl_rat (5 / 32)" "dbl_rat (39 / 256)"
    using dbl_rat_scaled [of 5 5] dbl_rat_scaled [of 8 39] by simp_all
  have unit: "\<exists>g. rnd x = Fin g \<and> 0 \<le> g \<and> g \<le> 1" if "0 \<le> x" "x \<le> 1" for x
    using rnd_between [of 0 1 x] that by auto
  obtain kw1 where kw1: "rnd (3 / 40) = Fin kw1" using unit [of "3 / 40"] by auto
  obtain kw2 where kw2: "rnd (11 / 20) = Fin kw2" "0 \<le> kw2" "kw2 \<le> 1" using unit [of "11 / 20"] by auto
  obtain el where el: "rnd (17 / 100) = Fin el" "0 \<le> el" "el \<le> 1" using unit [of "17 / 100"] by auto
  obtain pr where pr: "rnd (15 / 100) = Fin pr" "pr \<le> 39 / 256"
    using rnd_between [of 0 "39 / 256" "15 / 100"] \<open>dbl_rat (39 / 256)\<close> by auto
  obtain mil where mil: "rnd (86724 / 25) = Fin mil" "3468 \<le> mil" "mil \<le> 3469"
    using rnd_between [of 3468 3469 "86724 / 25"] by (auto simp: dbl_rat_numeral)
  obtain lc where lc: "rnd (kw2 * 8760) = Fin lc" "0 \<le> lc" "lc \<le> 8760"
    using rnd_between [of 0 8760 "kw2 * 8760"] kw2 by (auto simp: dbl_rat_numeral)
  have "lc * el \<le> 8760 * 1" using lc el by (intro mult_mono) auto
  then obtain ld where ld: "rnd (lc * el) = Fin ld" "0 \<le> ld" "ld \<le> 8760"
    using rnd_between [of 0 8760 "lc * el"] lc el by (auto simp: dbl_rat_numeral)
  obtain s where s: "rnd (600 + ld) = Fin s" "600 \<le> s" "s \<le> 9360"
    using rnd_between [of 600 9360 "600 + ld"] ld by (auto simp: dbl_rat_numeral)
  have "5 / 32 \<le> s / mil" "s / mil \<le> 9360" using s mil by (auto simp: field_simps)
  then obtain c where c: "rnd (s / mil) = Fin c" "5 / 32 \<le> c"
    using rnd_between [of "5 / 32" 9360 "s / mil"] \<open>dbl_rat (5 / 32)\<close> by (auto simp: dbl_rat_numeral)
  have "fully_loaded_cost (default_assumptions\<lparr>utilisation := Fin 1\<rparr>) = Inr (Fin c)"
    using mil(2)
    by (simp add: fully_loaded_cost_def tokens_per_year_def default_assumptions_def SECONDS_PER_HOUR_def TOKENS_PER_MILLION_def
        lit_numeral kw1 kw2(1) el(1) mil(1) lc(1) ld(1) s(1) c(1) fsub_def Let_def)
  then show ?thesis using pr c(2)
    by (simp add: breakeven_utilisation_def too_dear_def default_assumptions_def)
qed

end
