(* ===== verification/Store_Crash.thy ===== *)
theory Store_Crash
  imports Persistence
begin

text \<open>
  The SQLite store statement by statement (\<^verbatim>\<open>scheduler/persistence/sqlite_store.py\<close>): the connection that is
  opened on first use, the statements each write executes in a transaction and the \<^verbatim>\<open>commit\<close> that ends it,
  \<^verbatim>\<open>close\<close>, and a crash of the process between any two of these. The operations of \<open>Persistence\<close>
  are what a write does when it is left alone; here they are the specification. Of SQLite the model uses what its
  documentation states: what is executed after the last commit is not in the file after a crash, and what
  was committed is. Loss of power, after which \<^verbatim>\<open>synchronous=NORMAL\<close> may also lose recent commits, is not modelled.
\<close>

section \<open>Statements and transactions\<close>

datatype statement =
    UpsertNode string string
  | DeleteNodeRow string
  | DeleteNodeRows
  | UpsertToken string string
  | DeleteTokenRow string
  | DeleteTokenRows
  | UpsertAccount string account_row
  | UpsertInvite string invite_row
  | InsertUsage usage_row
  | InsertVersion string

fun execute :: "statement \<Rightarrow> sqlite_store \<Rightarrow> sqlite_store" where
  "execute (UpsertNode k p) s = s\<lparr>tbl_nodes := dset k p (tbl_nodes s)\<rparr>"
| "execute (DeleteNodeRow k) s = s\<lparr>tbl_nodes := ddel k (tbl_nodes s)\<rparr>"
| "execute DeleteNodeRows s = s\<lparr>tbl_nodes := []\<rparr>"
| "execute (UpsertToken k t) s = s\<lparr>tbl_node_tokens := dset k t (tbl_node_tokens s)\<rparr>"
| "execute (DeleteTokenRow k) s = s\<lparr>tbl_node_tokens := ddel k (tbl_node_tokens s)\<rparr>"
| "execute DeleteTokenRows s = s\<lparr>tbl_node_tokens := []\<rparr>"
| "execute (UpsertAccount k r) s = s\<lparr>tbl_credit_accounts := dset k r (tbl_credit_accounts s)\<rparr>"
| "execute (UpsertInvite h r) s =
     s\<lparr>tbl_invites := dset h (case dget (tbl_invites s) h of
         None \<Rightarrow> r | Some old \<Rightarrow> r\<lparr>row_created_at := row_created_at old\<rparr>) (tbl_invites s)\<rparr>"
| "execute (InsertUsage r) s = s\<lparr>tbl_usage_records := tbl_usage_records s @ [r]\<rparr>"
| "execute (InsertVersion v) s = s\<lparr>schema_version := Some v\<rparr>"

text \<open>
  The file (\<open>None\<close>: there is none) holds what was committed; a connection sees the file with the statements of
  its open transaction. \<^verbatim>\<open>executescript\<close> commits the tables it creates.
\<close>

record database =
  db_file :: "sqlite_store option"
  db_conn :: "sqlite_store option"

datatype action =
    CreateTables
  | Execute statement
  | Commit

fun act :: "action \<Rightarrow> database \<Rightarrow> database" where
  "act CreateTables d =
     (let s = (case db_file d of None \<Rightarrow> empty_store | Some s \<Rightarrow> s) in \<lparr>db_file = Some s, db_conn = Some s\<rparr>)"
| "act (Execute q) d = d\<lparr>db_conn := map_option (execute q) (db_conn d)\<rparr>"
| "act Commit d = (case db_conn d of None \<Rightarrow> d | Some s \<Rightarrow> d\<lparr>db_file := Some s\<rparr>)"

text \<open>\<^verbatim>\<open>close\<close>, and what a crash leaves: the transaction that was open is gone.\<close>

definition close_store :: "database \<Rightarrow> database" where
  "close_store d = d\<lparr>db_conn := None\<rparr>"

text \<open>The first use of \<^verbatim>\<open>_conn\<close>, with \<^verbatim>\<open>_check_schema_version\<close>; later uses do nothing.\<close>

definition connect_actions :: "database \<Rightarrow> action list" where
  "connect_actions d =
     (if db_conn d \<noteq> None then []
      else CreateTables #
        (case db_file d of
           Some s \<Rightarrow> if schema_version s = None then [Execute (InsertVersion (str_of_int SCHEMA_VERSION))] else []
         | None \<Rightarrow> [Execute (InsertVersion (str_of_int SCHEMA_VERSION))]) @ [Commit])"

section \<open>Writes\<close>

datatype store_op =
    SaveNode node
  | DeleteNode string
  | ClearNodes
  | SaveNodeToken string "string option"
  | SaveAccount credit_account
  | SaveInvite invite_code
  | SaveUsage usage_record

text \<open>
  What each write executes. An account with a NaN is refused by the first statement: the exception leaves
  \<^verbatim>\<open>save_account\<close> before the commit, and nothing was changed.
\<close>

fun op_actions :: "(node \<Rightarrow> string) \<Rightarrow> store_op \<Rightarrow> action list" where
  "op_actions dump (SaveNode n) = [Execute (UpsertNode (node_id n) (dump n)), Commit]"
| "op_actions dump (DeleteNode k) = [Execute (DeleteNodeRow k), Execute (DeleteTokenRow k), Commit]"
| "op_actions dump ClearNodes = [Execute DeleteNodeRows, Execute DeleteTokenRows, Commit]"
| "op_actions dump (SaveNodeToken k t) =
     [Execute (case t of None \<Rightarrow> DeleteTokenRow k | Some v \<Rightarrow> if v = [] then DeleteTokenRow k else UpsertToken k v), Commit]"
| "op_actions dump (SaveAccount a) =
     (if earned_credits a = NaN \<or> consumed_credits a = NaN \<or> updated_at a = NaN then []
      else [Execute (UpsertAccount (account_id a) \<lparr>row_earned_credits = earned_credits a,
          row_consumed_credits = consumed_credits a, row_updated_at = updated_at a\<rparr>), Commit])"
| "op_actions dump (SaveInvite i) =
     [Execute (UpsertInvite (code_hash i) \<lparr>row_label = label i, row_max_uses = max_uses i, row_uses = uses i,
          row_revoked = (if revoked i then 1 else 0), row_created_at = created_at i\<rparr>), Commit]"
| "op_actions dump (SaveUsage u) = [Execute (InsertUsage (row_of_usage u)), Commit]"

text \<open>The specification: the whole write, as \<open>Persistence\<close> has it.\<close>

fun apply_op :: "(node \<Rightarrow> string) \<Rightarrow> store_op \<Rightarrow> sqlite_store \<Rightarrow> sqlite_store" where
  "apply_op dump (SaveNode n) s = save_node dump n s"
| "apply_op dump (DeleteNode k) s = delete_node k s"
| "apply_op dump ClearNodes s = clear_nodes s"
| "apply_op dump (SaveNodeToken k t) s = save_node_token k t s"
| "apply_op dump (SaveAccount a) s = snd (save_account a s)"
| "apply_op dump (SaveInvite i) s = save_invite i s"
| "apply_op dump (SaveUsage u) s = save_usage u s"

definition clean :: "sqlite_store \<Rightarrow> database" where
  "clean s = \<lparr>db_file = Some s, db_conn = Some s\<rparr>"

definition run_actions :: "action list \<Rightarrow> database \<Rightarrow> database" where
  "run_actions acts d = fold act acts d"

lemma run_actions_simps [simp]:
  "run_actions [] d = d" "run_actions (a # acts) d = run_actions acts (act a d)"
  "run_actions (acts @ acts') d = run_actions acts' (run_actions acts d)"
  by (simp_all add: run_actions_def)

lemma op_refines: "run_actions (op_actions dump op) (clean s) = clean (apply_op dump op s)"
  by (cases op)
    (auto simp: clean_def save_node_def delete_node_def clear_nodes_def save_node_token_def save_account_def
      save_invite_def save_usage_def Let_def split: option.splits)

text \<open>Until its last action a write has not touched the file.\<close>

lemma op_unfinished:
  "n < length (op_actions dump op) \<Longrightarrow> db_file (run_actions (take n (op_actions dump op)) (clean s)) = Some s"
  by (cases op) (auto simp: clean_def less_Suc_eq numeral_eq_Suc split: if_splits)

text \<open>How many writes of a sequence have executed all their actions after \<open>n\<close> actions.\<close>

fun returned :: "(node \<Rightarrow> string) \<Rightarrow> nat \<Rightarrow> store_op list \<Rightarrow> nat" where
  "returned dump n [] = 0"
| "returned dump n (op # ops) =
     (let m = length (op_actions dump op) in if m \<le> n then Suc (returned dump (n - m) ops) else 0)"

lemma returned_length: "returned dump n ops \<le> length ops"
  by (induction ops arbitrary: n) (auto simp: Let_def)

lemma returned_all: "length (concat (map (op_actions dump) ops)) \<le> n \<Longrightarrow> returned dump n ops = length ops"
  by (induction ops arbitrary: n) (auto simp: Let_def)

lemma crash_after:
  "db_file (run_actions (take n (concat (map (op_actions dump) ops))) (clean s))
     = Some (fold (apply_op dump) (take (returned dump n ops) ops) s)"
proof (induction ops arbitrary: n s)
  case (Cons op ops)
  show ?case
  proof (cases "length (op_actions dump op) \<le> n")
    case True
    then show ?thesis using Cons.IH [of "n - length (op_actions dump op)" "apply_op dump op s"]
      by (simp add: op_refines Let_def)
  next
    case False
    then show ?thesis by (simp add: op_unfinished)
  qed
qed (simp add: clean_def)

lemma connect_clean:
  "db_conn d = None \<Longrightarrow> run_actions (connect_actions d) d = clean (open_conn (db_file d))"
  by (cases d) (auto simp: connect_actions_def clean_def open_conn_def check_schema_version_def empty_store_def Let_def
      split: option.splits)

text \<open>A crash while the store is being opened leaves a file that opens to the same contents, or none.\<close>

lemma connect_crash:
  assumes "db_conn d = None"
  shows "open_conn (db_file (run_actions (take n (connect_actions d)) d)) = open_conn (db_file d)"
proof (cases "db_file d")
  case None
  then show ?thesis using assms
    by (cases n; cases "n - 1"; cases "n - 2") (auto simp: connect_actions_def open_conn_def check_schema_version_def empty_store_def take_Cons' Let_def split: if_splits nat.splits)
next
  case (Some s)
  then show ?thesis using assms
    by (cases n; cases "n - 1"; cases "n - 2") (auto simp: connect_actions_def open_conn_def check_schema_version_def take_Cons' Let_def split: if_splits option.splits nat.splits)
qed

lemma apply_version: "schema_version (apply_op dump op s) = schema_version s"
  by (cases op)
    (auto simp: save_node_def delete_node_def clear_nodes_def save_node_token_def save_account_def
      save_invite_def save_usage_def Let_def split: option.splits)

lemma fold_version: "schema_version (fold (apply_op dump) ops s) = schema_version s"
  by (induction ops arbitrary: s) (simp_all add: apply_version)

lemma open_conn_again: "schema_version s \<noteq> None \<Longrightarrow> open_conn (Some s) = s"
  by (auto simp: open_conn_def check_schema_version_def)

lemma open_conn_version: "schema_version (open_conn f) \<noteq> None"
  by (auto simp: open_conn_def check_schema_version_def split: option.splits)

text \<open>\<open>returned\<close> counts exactly the writes whose actions all ran.\<close>

lemma returned_iff:
  "i \<le> length ops \<Longrightarrow> i \<le> returned dump n ops \<longleftrightarrow> length (concat (map (op_actions dump) (take i ops))) \<le> n"
proof (induction ops arbitrary: i n)
  case (Cons op ops)
  then show ?case using Cons.IH [of "i - 1" "n - length (op_actions dump op)"]
    by (cases i) (auto simp: Let_def)
qed simp

section \<open>Property\<close>

text \<open>
  C23. A write that returned survives a crash of the process, and one that did not leaves nothing behind. A store is opened,
  on a file that may be missing, and a sequence of writes is executed on it; the process dies after any
  number of statements and commits, also while the store is being opened. Opening the file again
  gives exactly what \<open>Persistence\<close> says the writes that had returned make of the contents there were before: in
  particular a node is never deleted without its credential.
\<close>

theorem crash_atomic:
  assumes "db_conn d = None"
    "d' = close_store (run_actions (take n (connect_actions d @ concat (map (op_actions dump) ops))) d)"
  shows "\<exists>j \<le> length ops. run_actions (connect_actions d') d' = clean (fold (apply_op dump) (take j ops) (open_conn (db_file d)))
    \<and> (\<forall>i \<le> length ops. i \<le> j \<longleftrightarrow> i = 0 \<or> length (connect_actions d @ concat (map (op_actions dump) (take i ops))) \<le> n)"
proof -
  let ?m = "length (connect_actions d)"
  have reopen: "run_actions (connect_actions d') d' = clean (open_conn (db_file d'))"
    using assms(2) by (intro connect_clean) (simp add: close_store_def)
  show ?thesis
  proof (cases "?m \<le> n")
    case True
    let ?j = "returned dump (n - ?m) ops"
    have "db_file d' = Some (fold (apply_op dump) (take ?j ops) (open_conn (db_file d)))"
      using True assms by (simp add: close_store_def connect_clean crash_after)
    then have "open_conn (db_file d') = fold (apply_op dump) (take ?j ops) (open_conn (db_file d))"
      using open_conn_version [of "db_file d"] by (simp add: open_conn_again fold_version)
    moreover have "i \<le> ?j \<longleftrightarrow> i = 0 \<or> length (connect_actions d @ concat (map (op_actions dump) (take i ops))) \<le> n"
      if "i \<le> length ops" for i
      using returned_iff [OF that, of dump "n - ?m"] True by (cases i) auto
    ultimately show ?thesis using reopen returned_length by (intro exI [of _ ?j]) auto
  next
    case False
    then have "open_conn (db_file d') = open_conn (db_file d)"
      using assms connect_crash [OF assms(1), of n] by (simp add: close_store_def)
    then show ?thesis using reopen False by (intro exI [of _ 0]) auto
  qed
qed

text \<open>A deletion interrupted between its two statements, after a write that returned.\<close>

theorem crash_atomic_witness:
  "let d = \<lparr>db_file = None, db_conn = None\<rparr>; ops = [SaveNodeToken ''a'' (Some ''t''), DeleteNode ''a''];
       d' = close_store (run_actions (take 6 (connect_actions d @ concat (map (op_actions (\<lambda>_. [])) ops))) d)
   in run_actions (connect_actions d') d' = clean ((open_conn None)\<lparr>tbl_node_tokens := [(''a'', ''t'')]\<rparr>)"
proof -
  let ?d = "\<lparr>db_file = None, db_conn = None\<rparr> :: database" and ?ops = "[SaveNodeToken ''a'' (Some ''t''), DeleteNode ''a'']"
  let ?d' = "close_store (run_actions (take 6 (connect_actions ?d @ concat (map (op_actions (\<lambda>_. [])) ?ops))) ?d)"
  have "db_conn ?d = None" by simp
  from crash_atomic [OF this refl, where n = 6 and dump = "\<lambda>_. []" and ops = ?ops] obtain j where j: "j \<le> length ?ops"
    "run_actions (connect_actions ?d') ?d' = clean (fold (apply_op (\<lambda>_. [])) (take j ?ops) (open_conn (db_file ?d)))"
    "\<forall>i \<le> length ?ops. i \<le> j \<longleftrightarrow> i = 0 \<or> length (connect_actions ?d @ concat (map (op_actions (\<lambda>_. [])) (take i ?ops))) \<le> 6"
    by blast
  have "1 \<le> j" "\<not> 2 \<le> j" using j(3) by (auto simp: connect_actions_def numeral_2_eq_2)
  then have "j = 1" by simp
  then show ?thesis
    using j(2) by (simp add: Let_def save_node_token_def open_conn_def check_schema_version_def empty_store_def)
qed

text \<open>
  One settlement is two writes, the usage record and then the balance. A crash between their commits leaves a record
  of work that was never credited.
\<close>

theorem settlement_splits:
  assumes "\<not> (earned_credits a = NaN \<or> consumed_credits a = NaN \<or> updated_at a = NaN)"
  shows "\<exists>n s'. db_file (run_actions (take n (concat (map (op_actions dump) [SaveUsage u, SaveAccount a]))) (clean s)) = Some s'
    \<and> tbl_usage_records s' = tbl_usage_records s @ [row_of_usage u] \<and> tbl_credit_accounts s' = tbl_credit_accounts s
    \<and> tbl_credit_accounts (fold (apply_op dump) [SaveUsage u, SaveAccount a] s)
        = dset (account_id a) \<lparr>row_earned_credits = earned_credits a, row_consumed_credits = consumed_credits a,
            row_updated_at = updated_at a\<rparr> (tbl_credit_accounts s)"
  using assms by (intro exI [of _ 2] exI [of _ "save_usage u s"]) (simp add: clean_def save_usage_def save_account_def)

end
