(* ===== verification/KV_Cache.thy ===== *)
theory KV_Cache
  imports Pipeline
begin

text \<open>
  \<^verbatim>\<open>KVCacheManager\<close> (\<^verbatim>\<open>experimental/node/kv_cache.py\<close>, repeated in \<^verbatim>\<open>experimental/scheduler/kv_cache.py\<close>):
  the snapshots of the caches of running tasks, own and received ones, by task and sequence number. SHA-256 is
  the argument \<open>sha256\<close>, the clock an argument too.
\<close>

section \<open>State and operations\<close>

record kv_manager =
  km_node_id :: string
  km_snapshots :: "(string \<times> int, kv_snapshot) dict"

definition init_kv_manager :: "string \<Rightarrow> kv_manager" where
  "init_kv_manager k = \<lparr>km_node_id = k, km_snapshots = []\<rparr>"

text \<open>What the fields of a \<^verbatim>\<open>KVCacheSnapshot\<close> promise; its constructor raises otherwise.\<close>

definition snapshot_valid :: "kv_snapshot \<Rightarrow> bool" where
  "snapshot_valid s \<longleftrightarrow> 0 \<le> kv_sequence_id s \<and> 0 \<le> kv_start_layer s \<and> 0 \<le> kv_end_layer s"

definition put_snapshot :: "kv_snapshot \<Rightarrow> kv_manager \<Rightarrow> kv_manager" where
  "put_snapshot s m = m\<lparr>km_snapshots := dset (kv_task_id s, kv_sequence_id s) s (km_snapshots m)\<rparr>"

definition create_snapshot :: "(string \<Rightarrow> string) \<Rightarrow> string \<Rightarrow> int \<Rightarrow> int \<Rightarrow> int \<Rightarrow> string \<Rightarrow> pyfloat \<Rightarrow> kv_manager
    \<Rightarrow> kv_snapshot res \<times> kv_manager" where
  "create_snapshot sha256 task sq a b data now m =
     (let s = \<lparr>kv_task_id = task, kv_sequence_id = sq, kv_node_id = km_node_id m, kv_start_layer = a,
               kv_end_layer = b, cache_bytes = data, checksum = sha256 data, kv_timestamp = now\<rparr>
      in if snapshot_valid s then (Inr s, put_snapshot s m)
         else (Inl (ValueError ''validation error for KVCacheSnapshot''), m))"

definition store_remote_snapshot :: "(string \<Rightarrow> string) \<Rightarrow> kv_snapshot \<Rightarrow> kv_manager \<Rightarrow> bool \<times> kv_manager" where
  "store_remote_snapshot sha256 s m =
     (case verify_checksum sha256 s of
        Inl e \<Rightarrow> (False, m)
      | Inr _ \<Rightarrow> (True, put_snapshot s m))"

text \<open>\<^verbatim>\<open>max(xs, key=...)\<close> keeps the first of the largest.\<close>

fun latest_of :: "kv_snapshot \<Rightarrow> kv_snapshot list \<Rightarrow> kv_snapshot" where
  "latest_of s [] = s"
| "latest_of s (x # xs) = latest_of (if kv_sequence_id s < kv_sequence_id x then x else s) xs"

definition get_latest_snapshot :: "string \<Rightarrow> kv_manager \<Rightarrow> kv_snapshot option" where
  "get_latest_snapshot task m =
     (case map snd (filter (\<lambda>((t, q), s). t = task) (km_snapshots m)) of
        [] \<Rightarrow> None
      | s # ss \<Rightarrow> Some (latest_of s ss))"

definition clear_task_snapshots :: "string \<Rightarrow> kv_manager \<Rightarrow> kv_manager" where
  "clear_task_snapshots task m =
     m\<lparr>km_snapshots := fold ddel (filter (\<lambda>k. fst k = task) (dkeys (km_snapshots m))) (km_snapshots m)\<rparr>"

section \<open>Runs\<close>

datatype kv_op =
    CreateSnapshot string int int int string pyfloat
  | StoreRemote kv_snapshot
  | ClearTask string

fun kv_step :: "(string \<Rightarrow> string) \<Rightarrow> kv_op \<Rightarrow> kv_manager \<Rightarrow> kv_manager" where
  "kv_step sha256 (CreateSnapshot t q a b d now) m = snd (create_snapshot sha256 t q a b d now m)"
| "kv_step sha256 (StoreRemote s) m = snd (store_remote_snapshot sha256 s m)"
| "kv_step sha256 (ClearTask t) m = clear_task_snapshots t m"

text \<open>
  The specification: a map from task and sequence number to the bytes that were last accepted under them. A
  snapshot is accepted if it is valid and its checksum is that of its bytes.
\<close>

fun spec_step :: "(string \<Rightarrow> string) \<Rightarrow> kv_op \<Rightarrow> (string \<times> int \<rightharpoonup> string) \<Rightarrow> (string \<times> int \<rightharpoonup> string)" where
  "spec_step sha256 (CreateSnapshot t q a b d now) f = (if 0 \<le> q \<and> 0 \<le> a \<and> 0 \<le> b then f((t, q) \<mapsto> d) else f)"
| "spec_step sha256 (StoreRemote s) f =
     (if sha256 (cache_bytes s) = checksum s then f((kv_task_id s, kv_sequence_id s) \<mapsto> cache_bytes s) else f)"
| "spec_step sha256 (ClearTask t) f = (\<lambda>k. if fst k = t then None else f k)"

definition kv_abs :: "kv_manager \<Rightarrow> (string \<times> int \<rightharpoonup> string)" where
  "kv_abs m k = map_option cache_bytes (dget (km_snapshots m) k)"

definition kv_inv :: "(string \<Rightarrow> string) \<Rightarrow> kv_manager \<Rightarrow> bool" where
  "kv_inv sha256 m \<longleftrightarrow> dict_ok (km_snapshots m)
     \<and> (\<forall>k s. dget (km_snapshots m) k = Some s \<longrightarrow> k = (kv_task_id s, kv_sequence_id s) \<and> checksum s = sha256 (cache_bytes s))"

lemma kv_inv_put: "kv_inv sha256 m \<Longrightarrow> checksum s = sha256 (cache_bytes s) \<Longrightarrow> kv_inv sha256 (put_snapshot s m)"
  by (auto simp: kv_inv_def put_snapshot_def dict_simps split: if_splits)

lemma kv_abs_put: "kv_abs (put_snapshot s m) = (kv_abs m)((kv_task_id s, kv_sequence_id s) \<mapsto> cache_bytes s)"
  by (auto simp: kv_abs_def put_snapshot_def dict_simps fun_eq_iff)

lemma dget_ddel_keys: "dget (fold ddel ks d) k = (if k \<in> set ks then None else dget d k)"
  by (induction ks arbitrary: d) (auto simp: dict_simps)

lemma dict_ok_ddel_keys: "dict_ok d \<Longrightarrow> dict_ok (fold ddel ks d)"
  by (induction ks arbitrary: d) (auto simp: dict_simps)

lemma dget_clear:
  "dget (km_snapshots (clear_task_snapshots t m)) k = (if fst k = t then None else dget (km_snapshots m) k)"
proof -
  have "dget (km_snapshots m) k = None" if "k \<notin> set (dkeys (km_snapshots m))"
    using that by (metis dmem_def dmem_iff)
  then show ?thesis by (auto simp: clear_task_snapshots_def dget_ddel_keys)
qed

lemma kv_step_refines:
  assumes "kv_inv sha256 m"
  shows "kv_inv sha256 (kv_step sha256 op m)" "kv_abs (kv_step sha256 op m) = spec_step sha256 op (kv_abs m)"
proof -
  have "kv_inv sha256 (kv_step sha256 op m) \<and> kv_abs (kv_step sha256 op m) = spec_step sha256 op (kv_abs m)"
  proof (cases op)
    case (CreateSnapshot t q a b d now)
    then show ?thesis using assms
      by (auto simp: create_snapshot_def Let_def snapshot_valid_def kv_inv_put kv_abs_put)
  next
    case (StoreRemote s)
    then show ?thesis using assms
      by (auto simp: store_remote_snapshot_def verify_checksum_def Let_def kv_inv_put kv_abs_put)
  next
    case (ClearTask t)
    have "dict_ok (km_snapshots (clear_task_snapshots t m))"
      using assms by (simp add: kv_inv_def clear_task_snapshots_def dict_ok_ddel_keys)
    then show ?thesis using assms ClearTask
      by (auto simp: kv_inv_def dget_clear kv_abs_def fun_eq_iff split: if_splits)
  qed
  then show "kv_inv sha256 (kv_step sha256 op m)" "kv_abs (kv_step sha256 op m) = spec_step sha256 op (kv_abs m)" by auto
qed

lemma kv_run_refines:
  "kv_inv sha256 m \<Longrightarrow> kv_inv sha256 (fold (kv_step sha256) ops m)
     \<and> kv_abs (fold (kv_step sha256) ops m) = fold (spec_step sha256) ops (kv_abs m)"
  by (induction ops arbitrary: m) (simp_all add: kv_step_refines)

lemma latest_of_max: "latest_of s ss \<in> set (s # ss) \<and> (\<forall>x \<in> set (s # ss). kv_sequence_id x \<le> kv_sequence_id (latest_of s ss))"
proof (induction ss arbitrary: s)
  case (Cons x ss)
  show ?case using Cons.IH [of s] Cons.IH [of x] by (cases "kv_sequence_id s < kv_sequence_id x") auto
qed simp

text \<open>The latest snapshot, from the dictionary alone.\<close>

lemma get_latest:
  assumes "kv_inv sha256 m"
  shows "case get_latest_snapshot t m of
      None \<Rightarrow> \<forall>q. dget (km_snapshots m) (t, q) = None
    | Some s \<Rightarrow> dget (km_snapshots m) (t, kv_sequence_id s) = Some s
        \<and> (\<forall>q. dget (km_snapshots m) (t, q) \<noteq> None \<longrightarrow> q \<le> kv_sequence_id s)"
proof -
  let ?ss = "map snd (filter (\<lambda>((t', q), s). t' = t) (km_snapshots m))"
  have key: "dget (km_snapshots m) (t, q) = Some s \<longleftrightarrow> s \<in> set ?ss \<and> kv_sequence_id s = q" for q s
  proof -
    have ok: "dict_ok (km_snapshots m)" using assms by (simp add: kv_inv_def)
    have mem: "((t', q'), s) \<in> set (km_snapshots m) \<longleftrightarrow> dget (km_snapshots m) (t', q') = Some s" for t' q'
      using ok by (simp add: map_of_eq_Some_iff)
    have "s \<in> set ?ss \<longleftrightarrow> (\<exists>q'. dget (km_snapshots m) (t, q') = Some s)"
      by (force simp: mem [symmetric] image_iff)
    moreover have "dget (km_snapshots m) (t, q') = Some s \<Longrightarrow> kv_sequence_id s = q'" for q'
      using assms by (auto simp: kv_inv_def)
    ultimately show ?thesis by blast
  qed
  show ?thesis
  proof (cases ?ss)
    case Nil
    then have "dget (km_snapshots m) (t, q) = None" for q using key by (cases "dget (km_snapshots m) (t, q)") auto
    then show ?thesis using Nil by (simp add: get_latest_snapshot_def)
  next
    case (Cons s ss)
    have g: "get_latest_snapshot t m = Some (latest_of s ss)" using Cons by (simp add: get_latest_snapshot_def)
    have "latest_of s ss \<in> set ?ss" "\<forall>x \<in> set ?ss. kv_sequence_id x \<le> kv_sequence_id (latest_of s ss)"
      using latest_of_max [of s ss] unfolding Cons by auto
    then show ?thesis unfolding g using key by auto
  qed
qed

section \<open>Property\<close>

text \<open>
  Recovery reads what was checkpointed last. After any run of checkpoints, received snapshots (some of them
  corrupt) and clearings, \<^verbatim>\<open>get_latest_snapshot\<close> is \<^verbatim>\<open>None\<close> exactly if no snapshot of the task is held by the specification;
  otherwise it is one of this task, its bytes are those last accepted under its sequence
  number, its checksum is theirs, and no later sequence number is held. The specification keeps no snapshots at all, only
  the accepted bytes.
\<close>

theorem latest_snapshot_refines:
  "let m = fold (kv_step sha256) ops (init_kv_manager k); f = fold (spec_step sha256) ops (\<lambda>_. None)
   in case get_latest_snapshot t m of
        None \<Rightarrow> \<forall>q. f (t, q) = None
      | Some s \<Rightarrow> kv_task_id s = t \<and> f (t, kv_sequence_id s) = Some (cache_bytes s) \<and> checksum s = sha256 (cache_bytes s)
          \<and> (\<forall>q. q \<le> kv_sequence_id s \<or> f (t, q) = None)"
proof -
  let ?m = "fold (kv_step sha256) ops (init_kv_manager k)"
  have "kv_inv sha256 (init_kv_manager k)" "kv_abs (init_kv_manager k) = (\<lambda>_. None)"
    by (simp_all add: kv_inv_def init_kv_manager_def kv_abs_def fun_eq_iff)
  then have inv: "kv_inv sha256 ?m" and abs: "fold (spec_step sha256) ops (\<lambda>_. None) = kv_abs ?m"
    using kv_run_refines [of sha256 "init_kv_manager k" ops] by simp_all
  show ?thesis
  proof (cases "get_latest_snapshot t ?m")
    case None
    then show ?thesis using get_latest [OF inv, of t] by (simp add: abs kv_abs_def)
  next
    case (Some s)
    have s: "dget (km_snapshots ?m) (t, kv_sequence_id s) = Some s"
      "\<And>q. dget (km_snapshots ?m) (t, q) \<noteq> None \<Longrightarrow> q \<le> kv_sequence_id s"
      using get_latest [OF inv, of t] Some by auto
    have "kv_task_id s = t" "checksum s = sha256 (cache_bytes s)" using inv s(1) by (auto simp: kv_inv_def)
    moreover have "q \<le> kv_sequence_id s \<or> dget (km_snapshots ?m) (t, q) = None" for q
      using s(2) [of q] by (cases "dget (km_snapshots ?m) (t, q)") auto
    ultimately show ?thesis using Some s(1) by (simp add: abs kv_abs_def)
  qed
qed

end
