(* ===== verification/Fingerprint.thy ===== *)
theory Fingerprint
  imports Py_Json "HOL-Library.List_Lexorder" "HOL-Library.Char_ord"
begin

text \<open>
  The evidence fingerprint (\<^verbatim>\<open>scripts/state_fingerprint.py\<close>): a hash over the tracked diff and the untracked files, by which
  a bundle of evidence is recognised as being about another working tree. git's output, the file system and SHA-256 are
  arguments; a file that cannot be read under the name git lists is \<open>None\<close>.
\<close>

section \<open>The fingerprint\<close>

type_synonym git = "string list \<Rightarrow> string res"

definition newline_char :: char where
  "newline_char = CHR 0x0A"

definition not_a_repository :: "string \<Rightarrow> exc" where
  "not_a_repository m = RuntimeError (''NotAGitRepositoryError: '' @ m)"

text \<open>\<^verbatim>\<open>_git\<close>: the output of a run that exits with 0, the stripped error output otherwise.\<close>

definition run_git :: "(string list \<Rightarrow> int \<times> string \<times> string) \<Rightarrow> git" where
  "run_git proc args = (case proc args of (code, out, err) \<Rightarrow> if code \<noteq> 0 then Inl (not_a_repository (py_strip err)) else Inr out)"

definition repo_root :: "git \<Rightarrow> string res" where
  "repo_root git = rbind (git [''rev-parse'', ''--show-toplevel'']) (\<lambda>out. Inr (py_strip out))"

definition file_part :: "(string \<Rightarrow> string option) \<Rightarrow> string \<Rightarrow> string" where
  "file_part read name = name @ (case read name of None \<Rightarrow> ''<unreadable>'' | Some c \<Rightarrow> c)"

definition untracked :: "string \<Rightarrow> string list" where
  "untracked listing = sort (filter (\<lambda>n. n \<noteq> []) (py_split newline_char listing))"

definition compute :: "(string \<Rightarrow> string) \<Rightarrow> git \<Rightarrow> (string \<Rightarrow> string option) \<Rightarrow> string res" where
  "compute sha256 git read =
     rbind (git [''diff'', ''HEAD'']) (\<lambda>diff.
     rbind (git [''ls-files'', ''--others'', ''--exclude-standard'']) (\<lambda>listing.
       Inr (sha256 (diff @ concat (map (file_part read) (untracked listing))))))"

section \<open>What it detects\<close>

definition tree_git :: "string \<Rightarrow> string \<Rightarrow> git" where
  "tree_git diff listing args =
     (if args = [''diff'', ''HEAD''] then Inr diff
      else if args = [''ls-files'', ''--others'', ''--exclude-standard''] then Inr listing
      else Inl (not_a_repository []))"

lemma compute_tree:
  "compute sha256 (tree_git diff listing) read = Inr (sha256 (diff @ concat (map (file_part read) (untracked listing))))"
  by (simp add: compute_def tree_git_def)

lemma untracked_single: "n \<noteq> [] \<Longrightarrow> newline_char \<notin> set n \<Longrightarrow> untracked (n @ [newline_char]) = [n]"
  using py_split_append [of newline_char n "[]"] by (simp add: untracked_def)

text \<open>Changing one listed file changes what is hashed.\<close>

lemma concat_change:
  assumes "n \<in> set names" "distinct names" "\<And>k. k \<noteq> n \<Longrightarrow> f k = g k"
  shows "concat (map f names) = concat (map g names) \<longleftrightarrow> f n = g n"
proof -
  obtain xs ys where n: "names = xs @ n # ys" using assms(1) by (meson split_list)
  then have "n \<notin> set xs" "n \<notin> set ys" using assms(2) by auto
  then have "map f xs = map g xs" "map f ys = map g ys" by (auto intro!: assms(3))
  then show ?thesis unfolding n by (simp del: map_eq_conv)
qed

lemma file_part_eq:
  "file_part read n = file_part read' n \<longleftrightarrow>
     (case read n of None \<Rightarrow> ''<unreadable>'' | Some c \<Rightarrow> c) = (case read' n of None \<Rightarrow> ''<unreadable>'' | Some c \<Rightarrow> c)"
  by (simp add: file_part_def)

text \<open>
  What the fingerprint tells apart, and what it does not. With a hash without collisions: an edit of one untracked file, nothing else
  changing, is always seen; and so is any change of the diff. But names and contents are hashed without anything
  between them, so with any hash a new file has the fingerprint of another one whose name took over the
  beginning of its content; and the content of a file that cannot be read under its listed name is not seen at all.
\<close>

theorem fingerprint_scope:
  assumes "inj sha256" "n \<in> set (untracked listing)" "distinct (untracked listing)"
    "\<And>k. k \<noteq> n \<Longrightarrow> read k = read' k"
    "(case read n of None \<Rightarrow> ''<unreadable>'' | Some c \<Rightarrow> c) \<noteq> (case read' n of None \<Rightarrow> ''<unreadable>'' | Some c \<Rightarrow> c)"
    "diff \<noteq> diff'"
    "f \<noteq> []" "newline_char \<notin> set f" "newline_char \<notin> set p"
  shows "compute sha256 (tree_git diff listing) read \<noteq> compute sha256 (tree_git diff listing) read'
    \<and> compute sha256 (tree_git diff listing) read \<noteq> compute sha256 (tree_git diff' listing) read
    \<and> compute h (tree_git diff (f @ [newline_char])) (\<lambda>_. Some (p @ c))
        = compute h (tree_git diff ((f @ p) @ [newline_char])) (\<lambda>_. Some c)"
proof -
  have "file_part read k = file_part read' k" if "k \<noteq> n" for k using assms(4) [OF that] by (simp add: file_part_def)
  then have "concat (map (file_part read) (untracked listing)) \<noteq> concat (map (file_part read') (untracked listing))"
    using concat_change [OF assms(2,3), of "file_part read" "file_part read'"] assms(5) by (simp add: file_part_eq)
  then show ?thesis using assms(1,6-9)
    by (auto simp: compute_tree inj_eq untracked_single file_part_def simp flip: append_assoc)
qed

theorem fingerprint_scope_witness:
  "compute id (tree_git ''d'' (''ab'' @ [newline_char])) (\<lambda>_. Some ''x'') \<noteq> compute id (tree_git ''d'' (''ab'' @ [newline_char])) (\<lambda>_. Some ''y'')
   \<and> compute (\<lambda>s. s) (tree_git ''d'' (''a'' @ [newline_char])) (\<lambda>_. Some ''bc'')
      = compute (\<lambda>s. s) (tree_git ''d'' (''ab'' @ [newline_char])) (\<lambda>_. Some ''c'')"
  using fingerprint_scope [of id "''ab''" "''ab'' @ [newline_char]" "\<lambda>_. Some ''x''" "(\<lambda>_. Some ''x'')(''ab'' := Some ''y'')" "''d''" "''e''"
      "''a''" "''b''" "\<lambda>s. s" "''c''"] untracked_single [of "''ab''"]
  by (simp add: compute_tree file_part_def newline_char_def)

end
