(* ===== verification/Node_App.thy ===== *)
theory Node_App
  imports Scheduler_App Node_Runtime
begin

text \<open>
  The Node as one application (\<^verbatim>\<open>node/main.py\<close>): its routes with the credential check each carries, the middleware
  both services install for browsers, and the lifespan around the runtime. What FastAPI does with routes is an
  argument as in \<open>Scheduler_App\<close>; what Starlette does with the middleware is not modelled, only what it is
  given.
\<close>

section \<open>Cross-origin access\<close>

record cors =
  co_allow_origins :: "string list"
  co_allow_credentials :: bool
  co_allow_methods :: "string list"
  co_allow_headers :: "string list"

text \<open>The same lines in both \<^verbatim>\<open>create_app\<close>; \<open>None\<close> when no middleware is installed.\<close>

definition cors_middleware :: "string list option \<Rightarrow> cors option" where
  "cors_middleware origins =
     (if origins \<in> {None, Some []} then None
      else Some \<lparr>co_allow_origins = the origins, co_allow_credentials = True,
        co_allow_methods = [''GET'', ''POST'', ''PUT'', ''DELETE'', ''OPTIONS''],
        co_allow_headers = [''Authorization'', ''Content-Type'', ''X-Network-Auth-Token'']\<rparr>)"

text \<open>
  Whatever the environment holds, neither service is started with a wildcard origin beside credentials: the settings are
  refused first.
\<close>

lemma wildcard_refused: "reject_wildcard_origin v = Inr w \<Longrightarrow> ''*'' \<notin> set w"
  using trimmed_strip [of "''*''"] by (auto simp: reject_wildcard_Inr list_all_iff trimmed_def is_space_def)

theorem no_wildcard_with_credentials:
  "load_node_settings loads rep scalars texts = Inr c \<Longrightarrow> cors_middleware (Some (nc_cors_allow_origins c)) = Some m
     \<Longrightarrow> co_allow_credentials m \<and> ''*'' \<notin> set (co_allow_origins m)"
  "load_scheduler_settings loads rep st texts = Inr d \<Longrightarrow> cors_middleware (Some (ss_cors_allow_origins d)) = Some m
     \<Longrightarrow> co_allow_credentials m \<and> ''*'' \<notin> set (co_allow_origins m)"
  by (auto simp: cors_middleware_def load_node_settings_def load_scheduler_settings_def Let_def rbind_eq_Inr
      dest: wildcard_refused split: if_splits)

section \<open>Routes\<close>

datatype node_endpoint =
    Infer | NodeModels | NodeHealth | NodeReadiness
  | NodeTelemetry | NodeControl | SandboxLogs | SandboxLogStream

text \<open>A route with its endpoint and whether \<^verbatim>\<open>verify_node_auth\<close> runs before it.\<close>

type_synonym node_route = "http_method \<times> segment list \<times> node_endpoint \<times> bool"

definition inference_routes :: "node_route list" where
  "inference_routes =
     [(POST, [Lit ''infer''], Infer, True), (GET, [Lit ''models''], NodeModels, True),
      (GET, [Lit ''health''], NodeHealth, False), (GET, [Lit ''health'', Lit ''ready''], NodeReadiness, False)]"

text \<open>The check is on the whole control router.\<close>

definition control_routes :: "node_route list" where
  "control_routes = map (\<lambda>(m, p, e). (m, p, e, True))
     [(GET, [Lit ''api'', Lit ''v1'', Lit ''node'', Lit ''telemetry''], NodeTelemetry),
      (POST, [Lit ''api'', Lit ''v1'', Lit ''node'', Lit ''control''], NodeControl),
      (GET, [Lit ''api'', Lit ''v1'', Lit ''sandbox'', Lit ''logs''], SandboxLogs),
      (GET, [Lit ''api'', Lit ''v1'', Lit ''sandbox'', Lit ''logs'', Lit ''stream''], SandboxLogStream)]"

record node_application =
  na_cors :: "cors option"
  na_routes :: "node_route list"

definition create_node_app :: "string list option \<Rightarrow> node_application" where
  "create_node_app origins = \<lparr>na_cors = cors_middleware origins, na_routes = inference_routes @ control_routes\<rparr>"

definition node_route_matches :: "http_method \<Rightarrow> string list \<Rightarrow> node_route \<Rightarrow> bool" where
  "node_route_matches m parts r = (case r of (m', segs, _) \<Rightarrow> m' = m \<and> list_all2 segment_matches segs parts)"

definition find_node_route :: "node_application \<Rightarrow> http_method \<Rightarrow> string list \<Rightarrow> (node_endpoint \<times> bool) option" where
  "find_node_route app m parts = map_option (snd \<circ> snd) (List.find (node_route_matches m parts) (na_routes app))"

lemmas node_route_defs = find_node_route_def create_node_app_def inference_routes_def control_routes_def node_route_matches_def

text \<open>The documented request of an endpoint.\<close>

fun documented :: "node_endpoint \<Rightarrow> http_method \<times> string list" where
  "documented Infer = (POST, [''infer''])"
| "documented NodeModels = (GET, [''models''])"
| "documented NodeHealth = (GET, [''health''])"
| "documented NodeReadiness = (GET, [''health'', ''ready''])"
| "documented NodeTelemetry = (GET, [''api'', ''v1'', ''node'', ''telemetry''])"
| "documented NodeControl = (POST, [''api'', ''v1'', ''node'', ''control''])"
| "documented SandboxLogs = (GET, [''api'', ''v1'', ''sandbox'', ''logs''])"
| "documented SandboxLogStream = (GET, [''api'', ''v1'', ''sandbox'', ''logs'', ''stream''])"

text \<open>
  No route shadows another: every endpoint answers its documented request, and whatever the request, only the two health
  probes answer without a credential.
\<close>

theorem node_routes_guarded:
  "find_node_route (create_node_app origins) m parts = Some (e, g) \<Longrightarrow> g \<longleftrightarrow> e \<notin> {NodeHealth, NodeReadiness}"
  "find_node_route (create_node_app origins) (fst (documented e)) (snd (documented e)) = Some (e, e \<notin> {NodeHealth, NodeReadiness})"
proof -
  show "g \<longleftrightarrow> e \<notin> {NodeHealth, NodeReadiness}" if "find_node_route (create_node_app origins) m parts = Some (e, g)"
  proof -
    have every: "\<forall>r \<in> set (na_routes (create_node_app origins)). snd (snd (snd r)) \<longleftrightarrow> fst (snd (snd r)) \<notin> {NodeHealth, NodeReadiness}"
      by (simp add: node_route_defs)
    have "map_option (snd \<circ> snd) (List.find (node_route_matches m parts) (na_routes (create_node_app origins))) = Some (e, g)"
      using that by (simp only: find_node_route_def)
    then obtain r where r: "List.find (node_route_matches m parts) (na_routes (create_node_app origins)) = Some r" "(snd \<circ> snd) r = (e, g)"
      by (simp only: map_option_eq_Some) blast
    from r(1) have "r \<in> set (na_routes (create_node_app origins))" by (auto simp: find_Some_iff)
    then have "snd (snd (snd r)) \<longleftrightarrow> fst (snd (snd r)) \<notin> {NodeHealth, NodeReadiness}" using every by blast
    then show ?thesis using r(2) by (simp only: comp_apply) simp
  qed
  show "find_node_route (create_node_app origins) (fst (documented e)) (snd (documented e)) = Some (e, e \<notin> {NodeHealth, NodeReadiness})"
    by (cases e) (simp_all add: node_route_defs)
qed

section \<open>Lifespan\<close>

text \<open>
  Start the runtime, serve, stop it. An exception of \<^verbatim>\<open>start\<close> ends the process before anything is served, and \<^verbatim>\<open>stop\<close> does
  not run.
\<close>

definition node_lifespan :: "'w send \<Rightarrow> node_settings \<Rightarrow> (model_info list \<Rightarrow> gpu_info \<Rightarrow> node_info res) \<Rightarrow> model_info list res
    \<Rightarrow> gpu_info res \<Rightarrow> bool \<Rightarrow> (node_runtime \<times> 'w \<Rightarrow> node_runtime \<times> 'w) \<Rightarrow> 'w \<Rightarrow> unit res \<times> node_runtime \<times> 'w" where
  "node_lifespan send st build listing gpu_probe session serving w =
     (case start_runtime send st build listing gpu_probe session (init_runtime, w) of
        (Inl e, s) \<Rightarrow> (Inl e, s)
      | (Inr _, s) \<Rightarrow> (Inr (), stop_runtime send st (serving s)))"

end
