(* ===== verification/Registration_Crash.thy ===== *)
theory Registration_Crash
  imports Store_Crash Nodes_Api
begin

text \<open>
  A registration by invite (\<^verbatim>\<open>api/nodes.py\<close>) on the statements of the store: what the handler writes, in which order, and what
  a crash between two of the commits leaves to the Scheduler that is started next.
\<close>

section \<open>What a registration writes\<close>

definition registration_writes :: "string option \<Rightarrow> string option \<Rightarrow> node \<Rightarrow> invite_code \<Rightarrow> store_op list" where
  "registration_writes header cred n i =
     [SaveNodeToken (node_id n) (credential_of cred header), SaveNode n, SaveInvite (i\<lparr>uses := uses i + 1\<rparr>)]"

text \<open>The application a restart brings up on a file.\<close>

definition reopened_app :: "(string \<Rightarrow> node option) \<Rightarrow> string option \<Rightarrow> sqlite_store \<Rightarrow> node_app" where
  "reopened_app validate auth_token s =
     \<lparr>na_registry = load_registry validate (init_registry (Some s)),
      na_invites = Some (load_invite_registry (init_invites (Some s))), na_auth_token = auth_token\<rparr>"

lemma reg_store_token: "reg_store (set_node_token k t r) = map_option (save_node_token k t) (reg_store r)"
  by (simp add: set_node_token_def write_store_def split: option.splits)

lemma reg_store_register: "register dump n r = (Inr (), r') \<Longrightarrow> reg_store r' = map_option (save_node dump n) (reg_store r)"
  by (auto simp: register_def local_register_def write_store_def split: if_splits)

lemma registration_stores:
  assumes "register_node dump sha256 header cred (Some c) n app = (Inr m, app')" "na_invites app = Some v" "enforcing v"
    "reg_store (na_registry app) = Some s" "inv_store v = Some s" "verify sha256 (Some c) v = Some i"
  shows "reg_store (na_registry app') = Some (fold (apply_op dump) (take 2 (registration_writes header cred n i)) s)"
    "map_option inv_store (na_invites app') = Some (Some (apply_op dump (registration_writes header cred n i ! 2) s))"
proof -
  have c: "c \<noteq> []" using assms(6) by (simp add: verify_Some)
  obtain r where r: "register dump n (set_node_token (node_id n) (credential_of cred header) (na_registry app)) = (Inr (), r)"
    "app' = redeem_invite sha256 (Some c) (node_id n) (app\<lparr>na_registry := r\<rparr>)"
    using assms(1)
    by (auto simp: register_node_def guarded_def register_handler_def Let_def split: sum.splits if_splits prod.splits)
  then show "reg_store (na_registry app') = Some (fold (apply_op dump) (take 2 (registration_writes header cred n i)) s)"
    using reg_store_register [OF r(1)] assms(2-4) c
    by (simp add: reg_store_token redeem_invite_def registration_writes_def)
  show "map_option inv_store (na_invites app') = Some (Some (apply_op dump (registration_writes header cred n i ! 2) s))"
    using r(2) assms(2,3,5,6) c by (simp add: redeem_invite_def redeem_def put_invite_def registration_writes_def Let_def)
qed

section \<open>A crash before the use is recorded\<close>

text \<open>After the first four actions the credential and the node are in the file, and the invites are as they were.\<close>

lemma crash_before_redemption:
  "db_file (run_actions (take 4 (concat (map (op_actions dump) (registration_writes header cred n i)))) (clean s))
     = Some (save_node dump n (save_node_token (node_id n) (credential_of cred header) s))"
  unfolding crash_after by (simp add: registration_writes_def Let_def)

lemma save_node_rows:
  "validate (dump n) = Some n \<Longrightarrow> n \<in> set (load_nodes validate (save_node dump n s))
     \<and> set (load_nodes validate (save_node dump n s)) \<subseteq> insert n (set (load_nodes validate s))"
proof -
  assume v: "validate (dump n) = Some n"
  have "n \<in> set (List.map_filter (\<lambda>(k, p). validate p) (dset (node_id n) (dump n) t))
     \<and> set (List.map_filter (\<lambda>(k, p). validate p) (dset (node_id n) (dump n) t))
         \<subseteq> insert n (set (List.map_filter (\<lambda>(k, p). validate p) t))" for t
    using v by (induction t) (auto simp: List.map_filter_simps split: option.splits)
  then show ?thesis by (simp add: load_nodes_def save_node_def)
qed

lemma token_rows: "tbl_nodes (save_node_token k t s) = tbl_nodes s" "tbl_invites (save_node_token k t s) = tbl_invites s"
  by (simp_all add: save_node_token_def split: option.splits)

lemma registry_keys:
  "registry_exists k (load_registry validate (init_registry (Some s))) \<longleftrightarrow> k \<in> node_id ` set (load_nodes validate s)"
proof -
  have "dmem k (fold (\<lambda>n. dset (node_id n) n) ns d) \<longleftrightarrow> k \<in> node_id ` set ns \<or> dmem k d" for ns d
    by (induction ns arbitrary: d) (auto simp: dict_simps)
  from this [of "load_nodes validate s" "[]"] show ?thesis
    by (simp add: load_registry_def init_registry_def registry_exists_def)
qed

text \<open>Another host is admitted whenever the restarted registry still takes the code.\<close>

lemma second_admission:
  assumes "verify sha256 (Some c) (load_invite_registry (init_invites (Some s))) = Some i"
    "node_id n2 \<notin> node_id ` set (load_nodes validate s)" "auth_token = None \<or> header2 = auth_token"
  shows "fst (register_node dump sha256 header2 cred2 (Some c) n2 (reopened_app validate auth_token s)) = Inr n2"
proof -
  let ?app = "reopened_app validate auth_token s"
  have "\<not> invite_refuses sha256 (Some c) ?app" using assms(1) by (simp add: invite_refuses_def reopened_app_def)
  moreover have "\<not> registry_exists (node_id n2) (na_registry ?app)" using assms(2) by (simp add: reopened_app_def registry_keys)
  moreover have "verify_auth_token (na_auth_token ?app) header2 = Inr ()"
    using assms(3) by (auto simp: verify_auth_token_def reopened_app_def)
  ultimately show ?thesis
    by (simp add: register_node_def guarded_def register_handler_def Let_def register_def local_register_def reg_nodes_token
        registry_exists_def)
qed

section \<open>Property\<close>

text \<open>
  C18. A crash inside a registration lets a single-use code admit two hosts. The registration of a new node with a valid code
  writes its credential, its record and the use of the code, in this order and in three transactions. If the
  process dies between the second commit and the third, the node is in the file that the next Scheduler loads and the
  code is there as if it had not been used: whatever it had left, one use included, it admits another host.
\<close>

theorem registration_crash:
  assumes "register_node dump sha256 header cred (Some c) n app = (Inr m, app')" "na_invites app = Some v" "invites_durable v"
    "reg_store (na_registry app) = Some s" "inv_store v = Some s" "verify sha256 (Some c) v = Some i"
    "validate (dump n) = Some n" "node_id n2 \<notin> insert (node_id n) (node_id ` set (load_nodes validate s))"
    "auth_token = None \<or> header2 = auth_token"
  shows "reg_store (na_registry app') = Some (fold (apply_op dump) (take 2 (registration_writes header cred n i)) s)
    \<and> map_option inv_store (na_invites app') = Some (Some (apply_op dump (registration_writes header cred n i ! 2) s))
    \<and> (\<exists>k s'. db_file (run_actions (take k (concat (map (op_actions dump) (registration_writes header cred n i)))) (clean s)) = Some s'
        \<and> n \<in> set (load_nodes validate s')
        \<and> fst (register_node dump sha256 header2 cred2 (Some c) n2 (reopened_app validate auth_token s')) = Inr n2)"
proof -
  have "enforcing v" using assms(6) by (auto simp: verify_Some enforcing_def)
  note stores = registration_stores [OF assms(1,2) this assms(4-6)]
  let ?s' = "save_node dump n (save_node_token (node_id n) (credential_of cred header) s)"
  have rows: "n \<in> set (load_nodes validate ?s')" "set (load_nodes validate ?s') \<subseteq> insert n (set (load_nodes validate s))"
    using save_node_rows [of validate dump n "save_node_token (node_id n) (credential_of cred header) s", OF assms(7)]
    by (simp_all add: load_nodes_def token_rows)
  have "load_invites ?s' = load_invites s" by (simp add: load_invites_def save_node_def token_rows)
  then have "load_invite_registry (init_invites (Some ?s')) = (load_invite_registry (init_invites (Some s)))\<lparr>inv_store := Some ?s'\<rparr>"
    by (simp add: load_invite_registry_def init_invites_def)
  moreover have "load_invite_registry (init_invites (Some s)) = v" using restart_invites [OF assms(3)] assms(5) by simp
  ultimately have "verify sha256 (Some c) (load_invite_registry (init_invites (Some ?s'))) = Some i"
    using assms(6) by (simp add: verify_Some)
  moreover have "node_id n2 \<notin> node_id ` set (load_nodes validate ?s')" using rows(2) assms(8) by auto
  ultimately have "fst (register_node dump sha256 header2 cred2 (Some c) n2 (reopened_app validate auth_token ?s')) = Inr n2"
    using assms(9) by (rule second_admission)
  then show ?thesis
    using stores rows(1) crash_before_redemption [of dump header cred n i s]
    by (intro conjI exI [of _ 4] exI [of _ ?s']) simp_all
qed

definition single_use :: invite_code where
  "single_use = \<lparr>code_hash = ''k'', label = ''l'', max_uses = 1, uses = 0, revoked = False, created_at = Fin 0\<rparr>"

definition single_use_store :: sqlite_store where
  "single_use_store = save_invite single_use empty_store"

definition single_use_invites :: invites where
  "single_use_invites = \<lparr>inv_invites = [(''k'', single_use)], inv_store = Some single_use_store\<rparr>"

lemma single_use_durable: "invites_durable single_use_invites"
proof -
  have "invites_durable (put_invite single_use (init_invites (Some empty_store)))"
    by (rule put_invite_durable [OF invites_durable_init]) (simp_all add: single_use_def invite_valid_def init_invites_def)
  moreover have "put_invite single_use (init_invites (Some empty_store)) = single_use_invites"
    by (simp add: put_invite_def init_invites_def single_use_invites_def single_use_store_def single_use_def)
  ultimately show ?thesis by simp
qed

theorem registration_crash_witness:
  "\<exists>app' k s'. register_node unary_dump id None None (Some ''k'') (sample_node ''a'')
        \<lparr>na_registry = init_registry (Some single_use_store), na_invites = Some single_use_invites, na_auth_token = None\<rparr>
       = (Inr (sample_node ''a''), app')
     \<and> db_file (run_actions (take k (concat (map (op_actions unary_dump) (registration_writes None None (sample_node ''a'') single_use))))
         (clean single_use_store)) = Some s'
     \<and> fst (register_node unary_dump id None None (Some ''k'') (sample_node ''b'') (reopened_app unary_validate None s'))
         = Inr (sample_node ''b'')"
proof -
  let ?app = "\<lparr>na_registry = init_registry (Some single_use_store), na_invites = Some single_use_invites, na_auth_token = None\<rparr>"
  have v: "verify id (Some ''k'') single_use_invites = Some single_use"
    by (simp add: verify_Some single_use_invites_def single_use_def hash_code_def usable_def spent_def)
  obtain app' where a: "register_node unary_dump id None None (Some ''k'') (sample_node ''a'') ?app = (Inr (sample_node ''a''), app')"
    by (simp add: register_node_def guarded_def verify_auth_token_def register_handler_def Let_def invite_refuses_def v
        register_def local_register_def init_registry_def)
  have "load_nodes unary_validate single_use_store = []"
    by (simp add: load_nodes_def single_use_store_def save_invite_def empty_store_def List.map_filter_simps Let_def)
  then show ?thesis
    using registration_crash [OF a, of single_use_invites single_use_store single_use unary_validate "sample_node ''b''" None None None]
      single_use_durable v unary_codec a
    by (auto simp: single_use_invites_def init_registry_def sample_node_def codec_ok_def)
qed

end
