(* ===== verification/Spec2Isabelle.thy ===== *)
theory Spec2Isabelle
  imports Scheduler_App Mesh_Server Node_Runtime Mesh_Publishing Sandbox Node_Worker Local_Boundary Raft Tensor_Transport
    Operator_Tools Metrics_Watch Economics Store_Crash KV_Cache
    Fingerprint Node_App Registration_Crash
begin

text \<open>
  \<^bold>\<open>A verification library for Public Intelligence.\<close>

  The repository is an OpenAI-compatible control plane: hosts register compute nodes with a Scheduler,
  nodes send heartbeats and telemetry over an encrypted mesh (zenoh), requesters send chat completions
  with a signed token, and the Scheduler picks a node, forwards the prompt over the mesh or HTTP, meters
  the work and credits the host. The implementation is Python under \<^verbatim>\<open>src/packages\<close>; the development
  models the Scheduler (\<^verbatim>\<open>scheduler/src/scheduler\<close>), the Node (\<^verbatim>\<open>node/src/node\<close>), the protocol package both
  sides share (\<^verbatim>\<open>shared/src/pi_shared\<close>), and the consensus engine kept under \<^verbatim>\<open>src/experimental\<close>.

  \<^bold>\<open>Conventions.\<close> A class with state is a \<^theory_text>\<open>record\<close>, a method a function from its arguments and the
  state to its result and the new state. A method that can raise returns \<^typ>\<open>'a res\<close>, with the exception
  as a value, beside the state at that moment: what was changed before the exception stays changed.
  Dictionaries are association lists in insertion order (\<open>dset\<close>, \<open>ddel\<close>). Floating-point numbers are
  \<open>pyfloat\<close>, exact rationals rounded to the nearest double after every operation, with infinities and
  NaN, since quotas, credits and scores depend on rounding and NaN comparisons. JSON values are the
  datatype \<open>json\<close>. What is not in the repository is an argument: hash functions, AES-GCM, JSON codec,
  PyJWT, pydantic's parsers, random draws, clock readings and the network.

  \<^bold>\<open>Concurrency.\<close> The Scheduler is one asyncio event loop. Its store is synchronous and its registry lock
  is therefore never contended, so a handler runs to its end without interleaving unless it waits for
  the network or a node; handlers are single steps, and the two that do wait (the mesh router's callbacks
  and a completion) are split into the steps around the wait. Properties quantify over all sequences of
  such steps.

  \<^bold>\<open>The shared store.\<close> Registry, ledger, meter and invites write to one store. Their theories give each its
  own copy of it, which is what they see of it; \<open>Scheduler_App\<close> puts them back on one store (locale
  \<open>store_tenant\<close>, a rely/guarantee contract on the tables each owns, interpreted for all four) and shows
  that a restart reads back what each of them held.

  \<^bold>\<open>Theories, in dependency order.\<close>
  \<^item> \<open>Prelude\<close>: results, dictionaries, slices, selection by key (locale \<open>key_order\<close>).
  \<^item> \<open>Py_Float\<close>, \<open>Py_Json\<close>: doubles with their rounding lemmas; JSON values, Python's truth value,
    \<^verbatim>\<open>float\<close>, \<^verbatim>\<open>int\<close>, \<^verbatim>\<open>str\<close> and string operations.
  \<^item> \<open>Models\<close>: the pydantic data models (\<^verbatim>\<open>models/node.py\<close>, \<^verbatim>\<open>models/heartbeat.py\<close> and the record types of
    the ledger, the meter and the invites).
  \<^item> \<open>Persistence\<close>: the store protocol as a locale with laws on what a restart reads, and SQLiteStore
    as its interpretation (\<^verbatim>\<open>persistence/store.py\<close>, \<^verbatim>\<open>persistence/sqlite_store.py\<close>).
  \<^item> \<open>Registry\<close> (\<^verbatim>\<open>registry/node_registry.py\<close>), \<open>Credit_Ledger\<close>, \<open>Metering\<close>, \<open>Invites\<close> (\<^verbatim>\<open>core/\<close> modules of
    the same names): the write-through state. Shown: invariants over all runs, restart brings back what was
    in memory, totals never decrease, a code admits no more nodes than it was issued for, removal leaves
    no trace.
  \<^item> \<open>Rate_Limiter\<close> (\<^verbatim>\<open>core/rate_limiter.py\<close>): the idle sweep cannot be observed; bound on bursts.
  \<^item> \<open>Canary\<close> (\<^verbatim>\<open>core/canary.py\<close>): quarantine refines a function of the check results.
  \<^item> \<open>Matchmaking\<close> (\<^verbatim>\<open>core/strategy.py\<close>, \<^verbatim>\<open>core/matchmaker.py\<close>, \<^verbatim>\<open>scheduler/algorithm.py\<close>): the strategy
    interface as a locale, the capability matchmaker as its interpretation, and least-loaded selection.
  \<^item> \<open>Pipeline\<close> (\<^verbatim>\<open>models/pipeline.py\<close>) and \<open>Engine\<close> (\<^verbatim>\<open>core/engine.py\<close>): stage and activation validators; best
    node for a task, pipelines that cover the model exactly within the nodes' memory, split inference with
    the client at both ends, replacement of a failed node.
  \<^item> \<open>Tensor_Frames\<close>: the binary frames of tensors in the Scheduler's \<^verbatim>\<open>models/pipeline.py\<close> and the Node's
    \<^verbatim>\<open>models/sharding.py\<close>; round trip, and what the Scheduler's copy loses.
  \<^item> \<open>Mesh_Protocol\<close> (\<^verbatim>\<open>pi_shared/mesh_protocol.py\<close>): signed requests; soundness and completeness of
    verification, replay protection, what the digest binds and where it is ambiguous.
  \<^item> \<open>Mesh_Auth\<close> (\<^verbatim>\<open>pi_shared/mesh_auth.py\<close>): sealed envelopes; round trip, authenticity, separation of keys.
  \<^item> \<open>Zenoh_Router\<close> (\<^verbatim>\<open>core/zenoh_router.py\<close>): mesh ingress and ageing of nodes as an inductive step relation;
    authenticity of everything accepted, exactness of eviction, the invariant of all reachable states.
  \<^item> \<open>Dispatch\<close> (\<^verbatim>\<open>core/mesh_inference_client.py\<close>, \<^verbatim>\<open>core/node_dispatch.py\<close>): transports, streams; no truncated
    stream is passed off as complete, no answered request is retried.
  \<^item> \<open>Nodes_Api\<close> (\<^verbatim>\<open>api/auth.py\<close>, \<^verbatim>\<open>api/nodes.py\<close>, \<^verbatim>\<open>api/heartbeat.py\<close>, \<^verbatim>\<open>api/schedule.py\<close>) and \<open>Gateway\<close>
    (\<^verbatim>\<open>api/ingress.py\<close>, \<^verbatim>\<open>api/openai.py\<close>): the HTTP handlers; effect of a registration, admission by
    invite, the JWT gate, admission of completions, exact accounting of every settlement.
  \<^item> \<open>Configuration\<close> (\<^verbatim>\<open>core/config.py\<close> of the Scheduler, \<^verbatim>\<open>core/configuration.py\<close> of the Node): settings,
    their decoding and validators.
  \<^item> \<open>Scheduler_App\<close> (\<^verbatim>\<open>main.py\<close>, \<^verbatim>\<open>api/credentials.py\<close>, \<^verbatim>\<open>api/usage.py\<close>, \<^verbatim>\<open>api/batch.py\<close>, \<^verbatim>\<open>api/telemetry.py\<close>, \<^verbatim>\<open>api/health.py\<close>):
    what \<^verbatim>\<open>create_app\<close> builds, startup and shutdown, the order of the routes, and the remaining handlers.
    Shown: restart of the whole application, an issued credential passes the JWT gate, batches are
    private to their tenant, a route that can never be reached.
  \<^item> \<open>Radix_Cache\<close> (Node \<^verbatim>\<open>core/radix_cache.py\<close>): the prompt cache refines a set of prompts with times; what a
    lookup finds, what an eviction removes.
  \<^item> \<open>Node_Inference\<close> (Node \<^verbatim>\<open>api/inference.py\<close>, \<^verbatim>\<open>api/auth.py\<close>, \<^verbatim>\<open>clients/ollama.py\<close>, \<^verbatim>\<open>models/\<close>): request models,
    the Ollama client, the credential check and the inference route over the cache.
  \<^item> \<open>Mesh_Server\<close> (Node \<^verbatim>\<open>clients/mesh_inference_server.py\<close>): the answering side of the mesh protocol, composed
    with \<open>Mesh_Protocol\<close> and \<open>Dispatch\<close> into end-to-end theorems from prompt to answer.
  \<^item> \<open>Scheduler_Client\<close> (Node \<^verbatim>\<open>clients/scheduler.py\<close> and the models it sends): payloads that the Scheduler's own
    validators accept, and the client's errors over a lossy network.
  \<^item> \<open>Node_Runtime\<close> (Node \<^verbatim>\<open>runtime.py\<close>): registration with retries, heartbeats, catalogue pushes and shutdown
    against the modelled Scheduler API.
  \<^item> \<open>Raft\<close> (\<^verbatim>\<open>experimental/scheduler/consensus.py\<close>): elections, replication and proposals, single engines and
    a cluster on a shared bus. Shown: replicas that applied the same log agree; two leaders in one term.
  \<^item> \<open>Host_Probes\<close> (Node \<^verbatim>\<open>core/hardware.py\<close>, \<^verbatim>\<open>core/apple_silicon.py\<close>, \<^verbatim>\<open>telemetry/collector.py\<close>, the readings of
    \<^verbatim>\<open>core/telemetry.py\<close>): parsing of what the system's commands print, with every fallback; what is measured
    passes the data models of both services.
  \<^item> \<open>Mesh_Publishing\<close> (Node \<^verbatim>\<open>clients/zenoh_heartbeat.py\<close>, \<^verbatim>\<open>core/telemetry.py\<close>, \<^verbatim>\<open>telemetry/heartbeat.py\<close>): the sending
    side of the mesh, composed with \<open>Zenoh_Router\<close>; which publications the router records and which it never hears.
  \<^item> \<open>Sandbox\<close> (Node \<^verbatim>\<open>core/runtime.py\<close>, \<^verbatim>\<open>api/control.py\<close>): the log buffer and its live streams, worktrees, commands in a
    container, and the control routes over \<open>Node_Runtime\<close>. Shown: streams lose and repeat nothing, a command is confined
    to the directory of its branch, what a control request leaves behind.
  \<^item> \<open>Node_Worker\<close> (Node \<^verbatim>\<open>backends/mock.py\<close>, \<^verbatim>\<open>backends/ollama.py\<close>, \<^verbatim>\<open>storage/\<close>, the worker loop of \<^verbatim>\<open>runtime.py\<close>, readiness):
    backends, artifacts and the loop that joins them; the store and the backend are the locales \<open>artifact_store\<close> and
    \<open>working_node\<close>, interpreted for the local disk with each backend. Shown: every task is answered and its artifact
    read back; split stages compose for floating-point tensors only.
  \<^item> \<open>Tensor_Transport\<close> (\<^verbatim>\<open>experimental/node/transport.py\<close>, repeated in \<^verbatim>\<open>experimental/scheduler\<close>): shared memory and
    streams with a window, as a step relation over a network that loses and reorders; what a sender relies on
    is the locale \<open>acknowledging\<close>, interpreted for both kinds of receiver. Flow control, and a deadlock.
  \<^item> \<open>Local_Boundary\<close> (\<^verbatim>\<open>experimental/node/local_boundary.py\<close>, repeated in \<^verbatim>\<open>experimental/scheduler\<close>): tokenisation, embedding,
    speculative candidates and decoding of split inference. Shown: tokens stay in the vocabulary, greedy decoding
    takes a largest logit, and the activations sent reveal the tokens of the prompt.
  \<^item> \<open>Store_Crash\<close> (\<^verbatim>\<open>persistence/sqlite_store.py\<close> statement by statement): connection, transactions and \<^verbatim>\<open>close\<close>. Shown:
    the writes refine the one-step operations of \<open>Persistence\<close>, and a crash of the process leaves exactly the writes that had
    returned; one settlement is two of them.
  \<^item> \<open>Registration_Crash\<close>: \<open>Store_Crash\<close> composed with \<open>Nodes_Api\<close> and \<open>Invites\<close>; what a crash inside a registration leaves.
  \<^item> \<open>Operator_Tools\<close> (\<^verbatim>\<open>scripts/mint_invite.py\<close>, \<^verbatim>\<open>scripts/mint_token.py\<close>): the tools beside a running Scheduler on the same
    file. Shown: what a revocation binds and what it does not, and that minted tokens pass the gateway.
  \<^item> \<open>Metrics_Watch\<close> (\<^verbatim>\<open>scripts/watch_scheduler.py\<close>): the alerter, composed with the metrics of \<open>Scheduler_App\<close>. Shown: its
    counters implement "the last answered polls all breached".
  \<^item> \<open>Economics\<close> (\<^verbatim>\<open>scripts/economics.py\<close>): costs in doubles and the bisection for break-even, certified by its bracket;
    under the default assumptions there is none.
  \<^item> \<open>Fingerprint\<close> (\<^verbatim>\<open>scripts/state_fingerprint.py\<close>): which changes of a working tree the evidence hash sees.
  \<^item> \<open>KV_Cache\<close> (\<^verbatim>\<open>experimental/node/kv_cache.py\<close>): snapshots refine a map of accepted bytes.
  \<^item> \<open>Node_App\<close> (Node \<^verbatim>\<open>main.py\<close>): routes and their credential checks, CORS of both services, the lifespan.
  \<^item> This theory: properties that span components.

  \<^bold>\<open>Bounds.\<close> The worker of \<open>Node_Worker\<close> is given as many turns as its queue is long; no other function of the services uses fuel: loops over lists are structural, iteration over a stream
  ends because its queue shrinks, a registration loop because its list of delays does, the bisection runs its
  200 rounds, and an endless watch is followed through any finite list of polls. Waiting on a queue
  nobody fills is the explicit outcome \<open>Hanging\<close>, which the stream theorem rules out.

  \<^bold>\<open>Not modelled.\<close> Logging, the website, installers, demonstration programs and tests; the report generators
  \<^verbatim>\<open>scripts/generate_status.py\<close> and \<^verbatim>\<open>scripts/audit_system.py\<close>, which print what git, pytest and the file tree say; the
  quantiser under \<^verbatim>\<open>experimental\<close>, which nothing calls; the health routes that answer constants; SQLite's journal and the loss
  of power. \<^verbatim>\<open>experimental/scheduler\<close> repeats \<^verbatim>\<open>experimental/node\<close> but for imports and comments, so one model serves both. Of
  the text of exception messages, values interpolated at their end are left out.

  \<^bold>\<open>What is left.\<close> Every component of the running system is modelled. What could still be added is the interleaving of
  worktree operations, a fair scheduler for liveness of the mesh, and recovery after a loss of power.
\<close>

section \<open>Credentials on the mesh\<close>

text \<open>
  C1. In every state the router reaches, a node that is dispatched to over the mesh is registered and the
  request is signed with that node's own stored credential, never with an empty string and never with the
  fleet-wide token.
\<close>

theorem mesh_dispatch_uses_own_credential:
  assumes "router_reach lib dump rt0 evs rt" "router_inv rt0" "use_mesh (rt_registry rt) k st cl"
  shows "registry_exists k (rt_registry rt)
    \<and> (\<exists>token. token \<noteq> [] \<and> get_node_token k (rt_registry rt) = Some token \<and> resolve_token (rt_registry rt) k st = Some token)"
proof -
  have inv: "router_inv rt" using assms(1,2) by (rule router_inv_reach)
  have "k \<in> reg_mesh_nodes (rt_registry rt)"
    using assms(3) by (auto simp: use_mesh_def is_mesh_reachable_def split: option.splits)
  then have "dmem k (reg_node_tokens (rt_registry rt))" "registry_exists k (rt_registry rt)"
    using inv by (auto simp: router_inv_def reg_inv_def registry_exists_def)
  moreover from this obtain token where "dget (reg_node_tokens (rt_registry rt)) k = Some token" by (auto simp: dmem_def)
  moreover from this have "token \<noteq> []" using inv by (auto simp: router_inv_def reg_inv_def)
  ultimately show ?thesis by (auto simp: get_node_token_def resolve_token_def or_string_def)
qed

definition meshed_router :: router where
  "meshed_router = sample_router\<lparr>rt_registry := (rt_registry sample_router)\<lparr>reg_mesh_nodes := {''n''}\<rparr>\<rparr>"

theorem mesh_dispatch_uses_own_credential_witness:
  "resolve_token (rt_registry meshed_router) ''n''
     \<lparr>ds_network_auth_token = Some ''fleet'', ds_node_api_port = 8000, ds_mesh_enabled = True\<rparr> = Some ''t''"
proof -
  let ?st = "\<lparr>ds_network_auth_token = Some ''fleet'', ds_node_api_port = 8000, ds_mesh_enabled = True\<rparr>"
  have "router_inv meshed_router"
    by (simp add: router_inv_def reg_inv_def meshed_router_def sample_router_def init_registry_def sample_node_def dmem_def)
  moreover have "use_mesh (rt_registry meshed_router) ''n'' ?st (Some cut_off)"
    by (simp add: use_mesh_def is_mesh_reachable_def meshed_router_def)
  ultimately show ?thesis
    using mesh_dispatch_uses_own_credential [OF router_reach.here, of meshed_router "''n''" ?st "Some cut_off"]
    by (auto simp: meshed_router_def sample_router_def get_node_token_def)
qed

section \<open>Quarantine and dispatch\<close>

text \<open>
  C12. A node that failed its last checks gets no work: if the run of failed canary checks at the end of
  a node's results has reached the threshold, no completion admitted through the scheduling engine is
  bound to that node, whatever the telemetry it reports.
\<close>

theorem failing_node_gets_no_completion:
  assumes "gw_engine gw" "gw_canary gw = Some (check_run checks (init_verifier n))"
    "quarantine_spec (failures_before_quarantine (init_verifier n)) (results_for k checks)" "reg_inv (gw_registry gw)"
    "begin_completion lib claims req split_header task_id now started gw = (Inr tk, gw')"
  shows "node_id (tk_node tk) \<noteq> k"
proof
  assume k: "node_id (tk_node tk) = k"
  have "node_state k (init_verifier n) = new_canary_state" by (simp add: node_state_def init_verifier_def)
  then have "state_matches (failures_before_quarantine (init_verifier n)) (results_for k checks)
      (node_state k (check_run checks (init_verifier n)))"
    using check_run_matches [of "init_verifier n" "[]" k checks] by (simp add: new_state_matches)
  then have "is_quarantined k (check_run checks (init_verifier n))"
    using assms(3) by (simp add: is_quarantined_state state_matches_def)
  then show False using begin_completion_ticket [OF assms(5,4)] assms(1,2) k by (simp add: skip_quarantined_def)
qed

definition vetted_gateway :: gateway where
  "vetted_gateway = sample_gateway\<lparr>gw_engine := True,
     gw_canary := Some (check_run [(''n'', CANARIES ! 0, [], Fin 1)] (init_verifier (Some 1)))\<rparr>"

lemma vetted_engine:
  "\<exists>tx r'. run_engine sample_gw_lib [] (completion_task ''chatcmpl-1'' ''m'') vetted_gateway
     = (Inr (tx, ''a''), vetted_gateway\<lparr>gw_registry := r'\<rparr>) \<and> reg_nodes r' = reg_nodes sample_registry"
proof -
  let ?v = "check_run [(''n'', CANARIES ! 0, [], Fin 1)] (init_verifier (Some 1))"
  let ?reqs = "[(''model_name'', JStr ''m'')]" and ?rep = "py_repr (gl_mesh sample_gw_lib)"
  have "\<not> is_quarantined ''a'' ?v"
    by (simp add: is_quarantined_def record_check_def state_for_def init_verifier_def Let_def dict_simps)
  then have f: "filter_nodes ?rep (Some ?v) sample_registry ?reqs [sample_node ''a''] = Inr [sample_node ''a'']"
    by (simp add: filter_nodes_def node_eligible_def skip_quarantined_def model_requirement_def vram_requirement_def
        vram_fits_def backend_fits_def py_or_def jget_def dget_or_def in_strs_def sample_node_def Let_def)
  obtain x where "score_nodes sample_registry sample_task [sample_node ''a''] = Inr [(sample_node ''a'', x)]"
    using sample_score by blast
  then have sc: "score_nodes sample_registry t [sample_node ''a''] = Inr [(sample_node ''a'', x)]" for t
    by (simp add: score_nodes_def)
  obtain r' where b: "bump_queue ''a'' sample_registry = (Inr (), r')" using bump_queue_total [OF sample_numeric] by metis
  have "reg_nodes r' = reg_nodes sample_registry" using bump_queue_nodes [of "''a''" sample_registry] b by simp
  moreover have "requirements_of (completion_task ''chatcmpl-1'' ''m'') = Inr ?reqs" "registry_list sample_registry = [sample_node ''a'']"
    by (simp_all add: requirements_of_def completion_task_def dget_or_def registry_list_def sample_registry_def)
  ultimately show ?thesis using f sc b
    by (simp add: run_engine_def vetted_gateway_def sample_gateway_def schedule_task_def, simp add: sample_node_def)
qed

theorem failing_node_gets_no_completion_witness:
  "\<exists>tk gw'. begin_completion sample_gw_lib [(''tenant_id'', JStr ''acme'')] sample_chat [] ''chatcmpl-1'' (Fin 0) (Fin 0)
       vetted_gateway = (Inr tk, gw') \<and> node_id (tk_node tk) \<noteq> ''n''"
proof -
  obtain tx r' where e: "run_engine sample_gw_lib [] (completion_task ''chatcmpl-1'' ''m'') vetted_gateway
      = (Inr (tx, ''a''), vetted_gateway\<lparr>gw_registry := r'\<rparr>)" "reg_nodes r' = reg_nodes sample_registry"
    using vetted_engine by blast
  have "choose_node sample_gw_lib ''chatcmpl-1'' ''m'' vetted_gateway = (Inr ''a'', vetted_gateway\<lparr>gw_registry := r'\<rparr>)"
    using e(1) by (simp add: choose_node_def) (simp add: vetted_gateway_def)
  moreover have "registry_get ''a'' r' = Some (sample_node ''a'')"
    using e(2) by (simp add: registry_get_def sample_registry_def)
  moreover have "rate_guard ''acme'' (Fin 0) vetted_gateway = (Inr (), vetted_gateway)"
    by (simp add: rate_guard_def vetted_gateway_def sample_gateway_def)
  moreover have "\<not> split_requested sample_chat [] vetted_gateway"
    by (simp add: split_requested_def sample_chat_def py_lower_def vetted_gateway_def sample_gateway_def)
  ultimately obtain tk gw' where b: "begin_completion sample_gw_lib [(''tenant_id'', JStr ''acme'')] sample_chat [] ''chatcmpl-1''
      (Fin 0) (Fin 0) vetted_gateway = (Inr tk, gw')"
    by (simp add: begin_completion_def tenant_of_def jget_def dget_or_def sample_chat_def)
  have "quarantine_spec (failures_before_quarantine (init_verifier (Some 1))) (results_for ''n'' [(''n'', CANARIES ! 0, [], Fin 1)])"
    by (simp add: results_for_def check_passed_def score_def quarantine_spec_def trailing_failures_def init_verifier_def)
  moreover have "reg_inv (gw_registry vetted_gateway)"
    using sample_registry_inv by (simp add: vetted_gateway_def sample_gateway_def)
  ultimately have "node_id (tk_node tk) \<noteq> ''n''"
    by (intro failing_node_gets_no_completion [OF _ _ _ _ b]) (simp_all add: vetted_gateway_def)
  with b show ?thesis by blast
qed

end
